(* ===== verification/Prelude.thy ===== *)
theory Prelude
  imports Main "HOL-Library.List_Lexorder" "HOL-Library.Char_ord" "HOL-Library.Sublist"
begin

text \<open>
  Shared vocabulary of the development: the collections of facts the component proofs
  draw on, Go's string-keyed maps, and the functions of Go's packages \<open>strings\<close>,
  \<open>strconv\<close> and \<open>fmt\<close> that the operator uses.

  A Go \<open>string\<close> is a byte sequence, so it is a \<^typ>\<open>string\<close> here (one \<^typ>\<open>char\<close>
  per byte), and \<open><\<close> on strings is the bytewise lexicographic order of Go.
  Case mapping, white space and quoting follow Go on ASCII bytes and leave the bytes of
  multi-byte UTF-8 sequences alone.

  A Go \<open>map[string]T\<close> is a list of key/value pairs with strictly increasing keys
  (\<open>gomap\<close>): two Go maps are equal exactly when their lists are, and the
  sorted-key iteration the code performs before every observable effect is the order of
  the list.
\<close>

named_theorems gomap_simps \<open>laws of string-keyed maps\<close>
named_theorems gostr_simps \<open>laws of the string functions\<close>
named_theorems wf_intros \<open>well-formedness is preserved\<close>

section \<open>String-keyed maps\<close>

type_synonym 'v gomap = "(string \<times> 'v) list"

definition gomap_ok :: "'v gomap \<Rightarrow> bool" where
  "gomap_ok m = sorted_wrt (<) (map fst m)"

abbreviation gomap_get :: "'v gomap \<Rightarrow> string \<Rightarrow> 'v option" where
  "gomap_get \<equiv> map_of"

fun gomap_put :: "string \<Rightarrow> 'v \<Rightarrow> 'v gomap \<Rightarrow> 'v gomap" where
  "gomap_put k v [] = [(k, v)]"
| "gomap_put k v ((k', v') # m) =
     (if k = k' then (k, v) # m
      else if k < k' then (k, v) # (k', v') # m
      else (k', v') # gomap_put k v m)"

definition gomap_delete :: "string \<Rightarrow> 'v gomap \<Rightarrow> 'v gomap" where
  "gomap_delete k m = filter (\<lambda>(k', _). k' \<noteq> k) m"

definition gomap_keys :: "'v gomap \<Rightarrow> string list" where
  "gomap_keys m = map fst m"

lemma gomap_ok_Nil [simp]: "gomap_ok []"
  by (simp add: gomap_ok_def)

lemma gomap_ok_Cons: "gomap_ok ((k, v) # m) \<longleftrightarrow> (\<forall>k' \<in> fst ` set m. k < k') \<and> gomap_ok m"
  by (auto simp: gomap_ok_def)

lemma gomap_get_put [gomap_simps]:
  "gomap_get (gomap_put k v m) x = (if x = k then Some v else gomap_get m x)"
  by (induction m) auto

lemma fst_set_gomap_put: "fst ` set (gomap_put k v m) = insert k (fst ` set m)"
  by (induction k v m rule: gomap_put.induct) (simp_all add: insert_commute)

lemma gomap_ok_put [wf_intros]: "gomap_ok m \<Longrightarrow> gomap_ok (gomap_put k v m)"
proof (induction m)
  case (Cons p m)
  obtain k' v' where p: "p = (k', v')" by (cases p)
  with Cons have "gomap_ok (gomap_put k v m)" by (simp add: gomap_ok_Cons)
  with Cons.prems p show ?case
    by (auto simp: gomap_ok_Cons fst_set_gomap_put)
qed (simp add: gomap_ok_Cons)

lemma gomap_get_delete [gomap_simps]:
  "gomap_get (gomap_delete k m) x = (if x = k then None else gomap_get m x)"
  by (induction m) (auto simp: gomap_delete_def)

lemma gomap_ok_delete [wf_intros]: "gomap_ok m \<Longrightarrow> gomap_ok (gomap_delete k m)"
  by (induction m) (auto simp: gomap_delete_def gomap_ok_Cons)

lemma gomap_values_put: "snd ` set (gomap_put k v m) \<subseteq> insert v (snd ` set m)"
  by (induction k v m rule: gomap_put.induct) (simp_all, blast+)

lemma gomap_values_delete: "snd ` set (gomap_delete k m) \<subseteq> snd ` set m"
  by (auto simp: gomap_delete_def)

lemma gomap_get_values: "gomap_get m k = Some v \<Longrightarrow> v \<in> snd ` set m"
  by (auto dest!: map_of_SomeD intro: rev_image_eqI)

lemma gomap_get_None_iff: "gomap_get m k = None \<longleftrightarrow> k \<notin> set (gomap_keys m)"
  by (simp add: gomap_keys_def map_of_eq_None_iff)

lemma map_of_eqD_set:
  assumes "distinct (map fst m)" "distinct (map fst n)" "map_of m = map_of n"
  shows "set m = set n"
  using assms by (metis map_of_inject_set)

text \<open>Extensionality: a canonical map is determined by its lookups.\<close>

lemma gomap_ok_distinct: "gomap_ok m \<Longrightarrow> distinct (map fst m)"
  by (simp add: gomap_ok_def strict_sorted_iff)

lemma gomap_eqI:
  assumes "gomap_ok m" "gomap_ok n" "\<And>k. gomap_get m k = gomap_get n k"
  shows "m = n"
proof -
  note dist = gomap_ok_distinct [OF assms(1)] gomap_ok_distinct [OF assms(2)]
  have "set m = set n"
    by (rule map_of_eqD_set) (use dist assms(3) in \<open>auto intro: ext\<close>)
  moreover have "sorted (map fst m)" "sorted (map fst n)"
    using assms(1,2) by (simp_all add: gomap_ok_def strict_sorted_iff)
  moreover have "inj_on fst (set m \<union> set n)"
    using \<open>set m = set n\<close> dist by (simp add: distinct_map)
  ultimately show ?thesis
    using dist by (intro map_sorted_distinct_set_unique [of fst])
qed

subsection \<open>The contract of a keyed store\<close>

text \<open>
  What the components rely on when they keep named objects in a map: a lookup sees the
  last write to its key and nothing else, and every operation keeps the store
  well formed.
\<close>

locale keyed_store =
  fixes get :: "'m \<Rightarrow> 'k \<Rightarrow> 'v option"
    and put :: "'k \<Rightarrow> 'v \<Rightarrow> 'm \<Rightarrow> 'm"
    and del :: "'k \<Rightarrow> 'm \<Rightarrow> 'm"
    and ok :: "'m \<Rightarrow> bool"
  assumes get_put: "ok m \<Longrightarrow> get (put k v m) x = (if x = k then Some v else get m x)"
    and get_del: "ok m \<Longrightarrow> get (del k m) x = (if x = k then None else get m x)"
    and ok_put: "ok m \<Longrightarrow> ok (put k v m)"
    and ok_del: "ok m \<Longrightarrow> ok (del k m)"
    and ext: "ok m \<Longrightarrow> ok n \<Longrightarrow> (\<And>k. get m k = get n k) \<Longrightarrow> m = n"
begin

lemma put_overwrites: "ok m \<Longrightarrow> put k v (put k w m) = put k v m"
  by (rule ext) (auto simp: get_put ok_put)

lemma put_commutes: "ok m \<Longrightarrow> k \<noteq> k' \<Longrightarrow> put k v (put k' v' m) = put k' v' (put k v m)"
  by (rule ext) (auto simp: get_put ok_put)

lemma put_same: "ok m \<Longrightarrow> get m k = Some v \<Longrightarrow> put k v m = m"
  by (rule ext) (auto simp: get_put ok_put)

lemma del_put: "ok m \<Longrightarrow> del k (put k v m) = del k m"
  by (rule ext) (auto simp: get_put get_del ok_put ok_del)

lemma put_del: "ok m \<Longrightarrow> put k v (del k m) = put k v m"
  by (rule ext) (auto simp: get_put get_del ok_put ok_del)

lemma del_absent: "ok m \<Longrightarrow> get m k = None \<Longrightarrow> del k m = m"
  by (rule ext) (auto simp: get_del ok_del)

lemma del_put_absent: "ok m \<Longrightarrow> get m k = None \<Longrightarrow> del k (put k v m) = m"
  by (simp add: del_put del_absent)

end

interpretation gomap: keyed_store gomap_get gomap_put gomap_delete gomap_ok
proof (unfold_locales, goal_cases)
  case (5 m n)
  then show ?case by (rule gomap_eqI)
qed (simp_all add: gomap_simps wf_intros)

end
