(* ===== verification/Go_Errors.thy ===== *)
theory Go_Errors
  imports Go_Strings
begin

text \<open>
  Go's error values, as far as the operator inspects them: the text, the sentinels
  \<open>errors.Is\<close> finds in the chain, the \<open>CodedError\<close> that \<open>errors.As\<close> finds, and the
  reason of a Kubernetes API status error.
\<close>

datatype sentinel =
    ErrReadNotSupported | ErrNotFound | ErrOutputUnavailable
  | errApplyChild | errRevisionMismatch | errCRDConflict | errStoredVersionInUse

text \<open>The predicates of \<open>k8s.io/apimachinery/pkg/api/errors\<close> the code tests.\<close>

datatype api_reason =
    ApiNotFound | ApiConflict | ApiAlreadyExists | ApiInvalid | ApiNamespaceTerminating | ApiOther

record CodedError =
  Code :: string
  Message :: string

record error =
  e_msg :: string
  e_chain :: "sentinel list"
  e_coded :: "CodedError option"
  e_api :: "api_reason option"

type_synonym 'a result = "error + 'a"

definition Errorf :: "string \<Rightarrow> error" where
  "Errorf msg = \<lparr>e_msg = msg, e_chain = [], e_coded = None, e_api = None\<rparr>"

text \<open>\<open>fmt.Errorf("prefix%w", err)\<close>: a new text, the chain kept.\<close>

definition wrap_error :: "string \<Rightarrow> error \<Rightarrow> error" where
  "wrap_error pre err = err\<lparr>e_msg := pre @ e_msg err\<rparr>"

definition coded_error :: "CodedError \<Rightarrow> error" where
  "coded_error c = (Errorf (Code c @ '': '' @ Message c))\<lparr>e_coded := Some c\<rparr>"

definition sentinel_text :: "sentinel \<Rightarrow> string" where
  "sentinel_text s = (case s of
       ErrReadNotSupported \<Rightarrow> ''provider does not support read for this resource''
     | ErrNotFound \<Rightarrow> ''external resource not found''
     | ErrOutputUnavailable \<Rightarrow> ''operation completed but its output is unavailable''
     | errApplyChild \<Rightarrow> ''applying child DoResource''
     | errRevisionMismatch \<Rightarrow> ''revisionRef snapshots a different definition''
     | errCRDConflict \<Rightarrow> ''typed API conflict''
     | errStoredVersionInUse \<Rightarrow> ''stored version still in use'')"

text \<open>\<open>fmt.Errorf("%w: %w", sentinel, err)\<close>.\<close>

definition sentinel_wrap :: "sentinel \<Rightarrow> string \<Rightarrow> error \<Rightarrow> error" where
  "sentinel_wrap s sep err =
     err\<lparr>e_msg := sentinel_text s @ sep @ e_msg err, e_chain := s # e_chain err\<rparr>"

definition errors_Is :: "error option \<Rightarrow> sentinel \<Rightarrow> bool" where
  "errors_Is err s = (case err of None \<Rightarrow> False | Some e \<Rightarrow> s \<in> set (e_chain e))"

definition errors_As_Coded :: "error option \<Rightarrow> CodedError option" where
  "errors_As_Coded err = (case err of None \<Rightarrow> None | Some e \<Rightarrow> e_coded e)"

definition api_error :: "api_reason \<Rightarrow> string \<Rightarrow> error" where
  "api_error r msg = (Errorf msg)\<lparr>e_api := Some r\<rparr>"

definition IsNotFound :: "error \<Rightarrow> bool" where
  "IsNotFound e = (e_api e = Some ApiNotFound)"

definition IsConflict :: "error \<Rightarrow> bool" where
  "IsConflict e = (e_api e = Some ApiConflict)"

definition IsAlreadyExistsApi :: "error \<Rightarrow> bool" where
  "IsAlreadyExistsApi e = (e_api e = Some ApiAlreadyExists)"

definition IgnoreNotFound :: "error option \<Rightarrow> error option" where
  "IgnoreNotFound err = (case err of None \<Rightarrow> None | Some e \<Rightarrow> if IsNotFound e then None else Some e)"

lemma errors_Is_simps [simp]:
  "errors_Is None s = False"
  "errors_Is (Some (Errorf m)) s = False"
  "errors_Is (Some (wrap_error p e)) s = errors_Is (Some e) s"
  "errors_Is (Some (coded_error c)) s = False"
  "errors_Is (Some (sentinel_wrap s' sep e)) s = (s = s' \<or> errors_Is (Some e) s)"
  by (auto simp: errors_Is_def Errorf_def wrap_error_def coded_error_def sentinel_wrap_def)

lemma errors_As_simps [simp]:
  "errors_As_Coded None = None"
  "errors_As_Coded (Some (Errorf m)) = None"
  "errors_As_Coded (Some (wrap_error p e)) = errors_As_Coded (Some e)"
  "errors_As_Coded (Some (coded_error c)) = Some c"
  "errors_As_Coded (Some (sentinel_wrap s' sep e)) = errors_As_Coded (Some e)"
  by (auto simp: errors_As_Coded_def Errorf_def wrap_error_def coded_error_def sentinel_wrap_def)

end
