(* ===== verification/Json.thy ===== *)
theory Json
  imports Go_Errors
begin

text \<open>
  Decoded JSON documents: the \<open>map[string]any\<close>, \<open>[]any\<close> and scalar values of
  \<open>encoding/json\<close>. A number is its literal text (\<open>json.Number\<close>, which every decoder
  of the operator asks for); an object is a canonical string-keyed map.
\<close>

datatype json =
    JNull
  | JBool bool
  | JNum string
  | JStr string
  | JArr "json list"
  | JObj "json gomap"

type_synonym jobj = "json gomap"

lemma json_size_obj [termination_simp]: "(k, v) \<in> set m \<Longrightarrow> size v < Suc (size_list (size_prod (\<lambda>_. 0) size) m)"
  by (induction m) auto

fun wf_json :: "json \<Rightarrow> bool" where
  "wf_json (JArr xs) = (\<forall>x \<in> set xs. wf_json x)"
| "wf_json (JObj m) = (gomap_ok m \<and> (\<forall>(k, v) \<in> set m. wf_json v))"
| "wf_json _ = True"

definition wf_obj :: "jobj \<Rightarrow> bool" where
  "wf_obj m = wf_json (JObj m)"

lemma wf_obj_iff: "wf_obj m \<longleftrightarrow> gomap_ok m \<and> (\<forall>v \<in> snd ` set m. wf_json v)"
  by (auto simp: wf_obj_def)

lemma wf_json_obj: "wf_json (JObj m) \<longleftrightarrow> gomap_ok m \<and> (\<forall>v \<in> snd ` set m. wf_json v)"
  by auto

declare wf_json.simps(2) [simp del]
declare wf_json_obj [simp]

lemma wf_json_put [wf_intros]: "wf_json (JObj m) \<Longrightarrow> wf_json v \<Longrightarrow> wf_json (JObj (gomap_put k v m))"
  unfolding wf_json_obj using subsetD [OF gomap_values_put [of k v m]] gomap_ok_put by (metis insertE)

lemma wf_json_delete [wf_intros]: "wf_json (JObj m) \<Longrightarrow> wf_json (JObj (gomap_delete k m))"
  unfolding wf_json_obj using subsetD [OF gomap_values_delete [of k m]] gomap_ok_delete by metis

lemma wf_json_get: "wf_json (JObj m) \<Longrightarrow> gomap_get m k = Some v \<Longrightarrow> wf_json v"
  by (auto dest: gomap_get_values)

section \<open>json.Marshal\<close>

definition json_escape_char :: "char \<Rightarrow> string" where
  "json_escape_char c =
     (if c = CHR 0x22 then [CHR 0x5C, CHR 0x22]
      else if c = CHR 0x5C then [CHR 0x5C, CHR 0x5C]
      else if c = CHR 0x08 then [CHR 0x5C, CHR ''b'']
      else if c = CHR 0x0C then [CHR 0x5C, CHR ''f'']
      else if c = CHR 0x0A then [CHR 0x5C, CHR ''n'']
      else if c = CHR 0x0D then [CHR 0x5C, CHR ''r'']
      else if c = CHR 0x09 then [CHR 0x5C, CHR ''t'']
      else if (of_char c :: nat) < 32 \<or> c = CHR ''<'' \<or> c = CHR ''>'' \<or> c = CHR ''&''
        then [CHR 0x5C, CHR ''u'', CHR ''0'', CHR ''0''] @ hex_byte c
      else [c])"

text \<open>U+2028 and U+2029 are escaped as well; they are three bytes each.\<close>

fun json_escape :: "string \<Rightarrow> string" where
  "json_escape (a # b # c # s) =
     (if a = CHR 0xE2 \<and> b = CHR 0x80 \<and> c = CHR 0xA8
        then [CHR 0x5C, CHR ''u'', CHR ''2'', CHR ''0'', CHR ''2'', CHR ''8''] @ json_escape s
      else if a = CHR 0xE2 \<and> b = CHR 0x80 \<and> c = CHR 0xA9
        then [CHR 0x5C, CHR ''u'', CHR ''2'', CHR ''0'', CHR ''2'', CHR ''9''] @ json_escape s
      else json_escape_char a @ json_escape (b # c # s))"
| "json_escape [a, b] = json_escape_char a @ json_escape_char b"
| "json_escape [a] = json_escape_char a"
| "json_escape [] = []"

definition marshal_string :: "string \<Rightarrow> string" where
  "marshal_string s = [CHR 0x22] @ json_escape s @ [CHR 0x22]"

definition FormatBool :: "bool \<Rightarrow> string" where
  "FormatBool b = (if b then ''true'' else ''false'')"

fun marshal :: "json \<Rightarrow> string" where
  "marshal JNull = ''null''"
| "marshal (JBool b) = FormatBool b"
| "marshal (JNum n) = n"
| "marshal (JStr s) = marshal_string s"
| "marshal (JArr xs) = ''['' @ Join (map marshal xs) '','' @ '']''"
| "marshal (JObj m) =
     ''{'' @ Join (map (\<lambda>(k, v). marshal_string k @ '':'' @ marshal v) m) '','' @ ''}''"

end
