(* ===== verification/Paths.thy ===== *)
theory Paths
  imports Json
begin

text \<open>
  Property paths (\<open>internal/runnerops/path.go\<close>): the syntax \<open>a.b[2].c["dotted.key"]\<close>,
  and reading, setting and deleting the value at a path of a JSON object. Go mutates the
  object in place; here the operations return the new object, also when they fail after
  having created intermediate maps.
\<close>

section \<open>Syntax\<close>

datatype pathSegment = KeySeg string | IdxSeg nat

fun isIdx :: "pathSegment \<Rightarrow> bool" where
  "isIdx (IdxSeg _) = True"
| "isIdx (KeySeg _) = False"

text \<open>The body of a quoted segment, after the opening quote: the key and what follows
  the closing quote, or \<^const>\<open>None\<close> when the path ends first.\<close>

fun quoted_body :: "string \<Rightarrow> string \<Rightarrow> (string \<times> string) option" where
  "quoted_body [] acc = None"
| "quoted_body (c # cs) acc =
     (if c = CHR 0x22 then Some (acc, cs)
      else if c = CHR 0x5C then
        (case cs of
           [] \<Rightarrow> quoted_body [] (acc @ [c])
         | d # ds \<Rightarrow> quoted_body ds (acc @ [d]))
      else quoted_body cs (acc @ [c]))"

definition path_msg :: "string \<Rightarrow> string \<Rightarrow> error" where
  "path_msg path msg = Errorf (''path '' @ Quote path @ msg)"

text \<open>\<open>s\<close> is what follows the opening bracket.\<close>

definition parseBracket :: "string \<Rightarrow> string \<Rightarrow> (pathSegment \<times> string) result" where
  "parseBracket path s =
     (if s \<noteq> [] \<and> hd s = CHR 0x22 then
        (case quoted_body (tl s) [] of
           None \<Rightarrow> Inl (path_msg path '': unterminated quoted segment'')
         | Some (key, rest) \<Rightarrow>
             (case rest of
                c # rest' \<Rightarrow>
                  if c = CHR '']'' then Inr (KeySeg key, rest')
                  else Inl (path_msg path '': missing ] after quoted segment'')
              | [] \<Rightarrow> Inl (path_msg path '': missing ] after quoted segment'')))
      else
        (case Cut s (CHR '']'') of (digits, rest, found) \<Rightarrow>
           if \<not> found then Inl (path_msg path '' has unbalanced brackets'')
           else case Atoi digits of
               None \<Rightarrow> Inl (path_msg path ('' has an invalid index '' @ Quote digits))
             | Some idx \<Rightarrow>
                 if idx < 0 then Inl (path_msg path ('' has an invalid index '' @ Quote digits))
                 else Inr (IdxSeg (nat idx), rest)))"

lemma quoted_body_shorter: "quoted_body s acc = Some (key, rest) \<Longrightarrow> length rest < length s"
  by (induction s acc arbitrary: key rest rule: quoted_body.induct)
     (auto split: if_splits list.splits, (fastforce dest: less_SucI)+)

lemma parseBracket_shorter: "parseBracket path s = Inr (seg, rest) \<Longrightarrow> length rest < length s"
proof -
  assume a: "parseBracket path s = Inr (seg, rest)"
  show ?thesis
  proof (cases "s \<noteq> [] \<and> hd s = CHR 0x22")
    case True
    with a obtain key r where "quoted_body (tl s) [] = Some (key, r)" "length rest < length r"
      by (auto simp: parseBracket_def split: option.splits list.splits if_splits)
    with True show ?thesis
      using quoted_body_shorter [of "tl s" "[]" key r] by (cases s) auto
  next
    case False
    then obtain digits where "Cut s (CHR '']'') = (digits, rest, True)"
      using a by (auto simp: parseBracket_def split: option.splits if_splits prod.splits)
    then show ?thesis using Cut_found by fastforce
  qed
qed

definition key_stop :: "char \<Rightarrow> bool" where
  "key_stop c = (c = CHR ''.'' \<or> c = CHR ''['')"

text \<open>The separator before a segment: nothing before the first one.\<close>

definition skip_separator :: "string \<Rightarrow> pathSegment list \<Rightarrow> string \<Rightarrow> string result" where
  "skip_separator path segs s =
     (if segs = [] then Inr s
      else if hd s = CHR ''.'' then Inr (tl s)
      else if hd s = CHR ''['' then Inr s
      else Inl (path_msg path ('': unexpected character '' @ QuoteRune (hd s) @ '' at '' @
                                show_nat (length path - length s))))"

lemma skip_separator_length: "skip_separator path segs s = Inr r \<Longrightarrow> length r \<le> length s"
  by (auto simp: skip_separator_def split: if_splits)

function parse_loop :: "string \<Rightarrow> string \<Rightarrow> pathSegment list \<Rightarrow> pathSegment list result" where
  "parse_loop path s segs =
     (if s = [] then Inr segs
      else case skip_separator path segs s of
          Inl e \<Rightarrow> Inl e
        | Inr r \<Rightarrow>
            if r = [] then Inl (path_msg path '' ends with a separator'')
            else if hd r = CHR ''['' then
              (case parseBracket path (tl r) of
                 Inl e \<Rightarrow> Inl e
               | Inr (seg, rest) \<Rightarrow> parse_loop path rest (segs @ [seg]))
            else
              (let key = takeWhile (\<lambda>c. \<not> key_stop c) r in
               if key = [] then
                 Inl (path_msg path ('' contains an empty segment at '' @ show_nat (length path - length r)))
               else parse_loop path (drop (length key) r) (segs @ [KeySeg key])))"
  by pat_completeness auto

termination
proof (relation "measure (\<lambda>(path, s, segs). length s)", goal_cases)
  case (2 path s segs r p seg rest)
  then have "length rest < length (tl r)" using parseBracket_shorter by metis
  with 2 show ?case using skip_separator_length [of path segs s r] by simp
next
  case (3 path s segs r key)
  then have "length r \<le> length s" "key \<noteq> []" "r \<noteq> []" using skip_separator_length by auto
  then show ?case by (cases key; cases r) auto
qed simp

declare parse_loop.simps [simp del]

definition parsePath :: "string \<Rightarrow> pathSegment list result" where
  "parsePath path =
     (case parse_loop path path [] of
        Inl e \<Rightarrow> Inl e
      | Inr segs \<Rightarrow> if segs = [] then Inl (path_msg path '' is empty'') else Inr segs)"

definition AppendKeySegment :: "string \<Rightarrow> string \<Rightarrow> string" where
  "AppendKeySegment path key =
     (if key \<noteq> [] \<and> \<not> ContainsAny key [CHR ''.'', CHR ''['', CHR '']'', CHR 0x22, CHR 0x5C]
      then (if path = [] then key else path @ ''.'' @ key)
      else
        let escaped = ReplaceAll key [CHR 0x5C] [CHR 0x5C, CHR 0x5C];
            escaped = ReplaceAll escaped [CHR 0x22] [CHR 0x5C, CHR 0x22]
        in path @ ''['' @ [CHR 0x22] @ escaped @ [CHR 0x22] @ '']'')"

text \<open>The index suffix \<open>fmt.Sprintf("%s[%d]", path, i)\<close> of the composite renderer.\<close>

definition AppendIndexSegment :: "string \<Rightarrow> nat \<Rightarrow> string" where
  "AppendIndexSegment path i = path @ ''['' @ show_nat i @ '']''"

section \<open>Reading, setting and deleting\<close>

fun JSONKind :: "json \<Rightarrow> string" where
  "JSONKind (JStr _) = ''string''"
| "JSONKind (JBool _) = ''boolean''"
| "JSONKind (JNum _) = ''number''"
| "JSONKind (JArr _) = ''array''"
| "JSONKind (JObj _) = ''object''"
| "JSONKind JNull = ''null''"

text \<open>What the decoder reports for a document that is not an object.\<close>

fun go_kind :: "json \<Rightarrow> string" where
  "go_kind (JBool _) = ''bool''"
| "go_kind j = JSONKind j"

fun RenderScalar :: "json \<Rightarrow> string" where
  "RenderScalar JNull = []"
| "RenderScalar (JStr s) = s"
| "RenderScalar (JNum n) = n"
| "RenderScalar (JBool b) = FormatBool b"
| "RenderScalar (JArr xs) = marshal (JArr xs)"
| "RenderScalar (JObj m) = marshal (JObj m)"

fun get_segs :: "json \<Rightarrow> pathSegment list \<Rightarrow> json option" where
  "get_segs cur [] = Some cur"
| "get_segs (JObj m) (KeySeg k # segs) =
     (case gomap_get m k of None \<Rightarrow> None | Some v \<Rightarrow> get_segs v segs)"
| "get_segs (JArr xs) (IdxSeg i # segs) =
     (if length xs \<le> i then None else get_segs (xs ! i) segs)"
| "get_segs _ (_ # _) = None"

definition GetPath :: "json \<Rightarrow> string \<Rightarrow> json option" where
  "GetPath v path = (case parsePath path of Inl _ \<Rightarrow> None | Inr segs \<Rightarrow> get_segs v segs)"

fun set_segs :: "string \<Rightarrow> pathSegment list \<Rightarrow> json \<Rightarrow> json \<Rightarrow> json \<times> error option" where
  "set_segs path [] v cur = (cur, None)"
| "set_segs path (KeySeg k # segs) v (JObj m) =
     (if segs = [] then (JObj (gomap_put k v m), None)
      else case gomap_get m k of
          Some nxt \<Rightarrow>
            if nxt \<noteq> JNull then
              (case set_segs path segs v nxt of (nxt', err) \<Rightarrow> (JObj (gomap_put k nxt' m), err))
            else if isIdx (hd segs) then
              (JObj m, Some (path_msg path ('': cannot create array element '' @ Quote k)))
            else (case set_segs path segs v (JObj []) of (nxt', err) \<Rightarrow>
                    (JObj (gomap_put k nxt' m), err))
        | None \<Rightarrow>
            if isIdx (hd segs) then
              (JObj m, Some (path_msg path ('': cannot create array element '' @ Quote k)))
            else (case set_segs path segs v (JObj []) of (nxt', err) \<Rightarrow>
                    (JObj (gomap_put k nxt' m), err)))"
| "set_segs path (IdxSeg i # segs) v (JObj m) =
     (JObj m, Some (path_msg path '': index applied to object''))"
| "set_segs path (KeySeg k # segs) v (JArr xs) =
     (JArr xs, Some (path_msg path ('': key '' @ Quote k @ '' applied to array'')))"
| "set_segs path (IdxSeg i # segs) v (JArr xs) =
     (if length xs \<le> i then
        (JArr xs, Some (path_msg path ('': index '' @ show_nat i @ '' out of range (len '' @
                                       show_nat (length xs) @ '')'')))
      else if segs = [] then (JArr (xs[i := v]), None)
      else case set_segs path segs v (xs ! i) of (nxt', err) \<Rightarrow> (JArr (xs[i := nxt']), err))"
| "set_segs path (_ # _) v cur =
     (cur, Some (path_msg path ('': cannot descend into '' @ JSONKind cur)))"

text \<open>The object held by a value the code knows to be one.\<close>

fun obj_of :: "json \<Rightarrow> jobj" where
  "obj_of (JObj m) = m"
| "obj_of _ = []"

definition SetPath :: "jobj \<Rightarrow> string \<Rightarrow> json \<Rightarrow> jobj \<times> error option" where
  "SetPath props path value =
     (case parsePath path of
        Inl e \<Rightarrow> (props, Some e)
      | Inr segs \<Rightarrow>
          if isIdx (hd segs) then (props, Some (path_msg path '' must start with a key''))
          else case set_segs path segs value (JObj props) of (j, err) \<Rightarrow> (obj_of j, err))"

fun delete_segs :: "pathSegment list \<Rightarrow> json \<Rightarrow> json \<times> bool" where
  "delete_segs [] cur = (cur, False)"
| "delete_segs (KeySeg k # segs) (JObj m) =
     (case gomap_get m k of
        None \<Rightarrow> (JObj m, False)
      | Some nxt \<Rightarrow>
          if segs = [] then (JObj (gomap_delete k m), True)
          else case delete_segs segs nxt of (nxt', existed) \<Rightarrow> (JObj (gomap_put k nxt' m), existed))"
| "delete_segs (IdxSeg i # segs) (JArr xs) =
     (if length xs \<le> i then (JArr xs, False)
      else if segs = [] then (JArr (xs[i := JNull]), True)
      else case delete_segs segs (xs ! i) of (nxt', existed) \<Rightarrow> (JArr (xs[i := nxt']), existed))"
| "delete_segs (_ # _) cur = (cur, False)"

definition DeletePath :: "jobj \<Rightarrow> string \<Rightarrow> jobj \<times> bool result" where
  "DeletePath props path =
     (case parsePath path of
        Inl e \<Rightarrow> (props, Inl e)
      | Inr segs \<Rightarrow>
          if isIdx (hd segs) then (props, Inl (path_msg path '' must start with a key''))
          else case delete_segs segs (JObj props) of (j, existed) \<Rightarrow> (obj_of j, Inr existed))"

section \<open>The parser inverts the printer\<close>

text \<open>
  The text of a path does not influence how it parses, and a path followed by a separator
  parses segment by segment.
\<close>

lemma quoted_body_append:
  "quoted_body s acc = Some (key, rest) \<Longrightarrow> quoted_body (s @ t) acc = Some (key, rest @ t)"
  by (induction s acc arbitrary: key rest rule: quoted_body.induct)
     (auto split: if_splits list.splits)

lemma Cut_append: "Cut s sep = (a, b, True) \<Longrightarrow> Cut (s @ t) sep = (a, b @ t, True)"
  using Cut_found [of s sep a b] Cut_sep [of sep a "b @ t"] by auto

lemma parseBracket_append:
  assumes "parseBracket path s = Inr (seg, rest)"
  shows "parseBracket path' (s @ t) = Inr (seg, rest @ t)"
proof -
  have "s \<noteq> []"
    using assms by (auto simp: parseBracket_def Cut_def split: option.splits)
  then have hd: "hd (s @ t) = hd s" "tl (s @ t) = tl s @ t" by auto
  show ?thesis
  proof (cases "hd s = CHR 0x22")
    case True
    then obtain key c where "quoted_body (tl s) [] = Some (key, c # rest)"
        "c = CHR '']''" "seg = KeySeg key"
      using assms \<open>s \<noteq> []\<close>
      by (auto simp: parseBracket_def split: option.splits list.splits if_splits)
    with True \<open>s \<noteq> []\<close> show ?thesis
      by (simp add: parseBracket_def hd quoted_body_append)
  next
    case False
    then obtain digits where "Cut s (CHR '']'') = (digits, rest, True)"
      using assms by (auto simp: parseBracket_def split: option.splits if_splits prod.splits)
    with False assms show ?thesis
      by (auto simp: parseBracket_def hd Cut_append split: option.splits if_splits)
  qed
qed

lemma takeWhile_key_append:
  "t = [] \<or> key_stop (hd t) \<Longrightarrow>
   takeWhile (\<lambda>c. \<not> key_stop c) (r @ t) = takeWhile (\<lambda>c. \<not> key_stop c) r"
  by (induction r) (auto simp: takeWhile_eq_Nil_iff)

lemma skip_separator_append:
  "s \<noteq> [] \<Longrightarrow> skip_separator path segs s = Inr r \<Longrightarrow> skip_separator path' segs (s @ t) = Inr (r @ t)"
  by (auto simp: skip_separator_def split: if_splits)

lemma parse_loop_append:
  assumes "t = [] \<or> key_stop (hd t)" "parse_loop path s segs = Inr segs'"
  shows "parse_loop path' (s @ t) segs = parse_loop path' t segs'"
  using assms(2)
proof (induction path s segs rule: parse_loop.induct)
  case (1 path s segs)
  show ?case
  proof (cases "s = []")
    case True
    with 1 show ?thesis by (simp add: parse_loop.simps [of path "[]"])
  next
    case False
    with 1(3) obtain r where r: "skip_separator path segs s = Inr r" "r \<noteq> []"
      by (auto simp: parse_loop.simps [of path s] split: sum.splits if_splits)
    note sep = skip_separator_append [OF False r(1), of path' t]
    show ?thesis
    proof (cases "hd r = CHR ''[''")
      case True
      with 1(3) False r obtain seg rest where
          b: "parseBracket path (tl r) = Inr (seg, rest)"
        and p: "parse_loop path rest (segs @ [seg]) = Inr segs'"
        by (auto simp: parse_loop.simps [of path s] split: sum.splits)
      have "parse_loop path' (rest @ t) (segs @ [seg]) = parse_loop path' t segs'"
        using 1(1) [OF False r True b _ p] by simp
      with False True r sep parseBracket_append [OF b, of path' t] show ?thesis
        by (simp add: parse_loop.simps [of path' "s @ t"])
    next
      case no: False
      let ?key = "takeWhile (\<lambda>c. \<not> key_stop c) r"
      have k: "?key \<noteq> []" "parse_loop path (drop (length ?key) r) (segs @ [KeySeg ?key]) = Inr segs'"
        using 1(3) False r no
        by (auto simp: parse_loop.simps [of path s] Let_def split: if_splits)
      have "parse_loop path' (drop (length ?key) r @ t) (segs @ [KeySeg ?key]) = parse_loop path' t segs'"
        using 1(2) [OF False r no _ k(1) k(2)] by simp
      moreover have "drop (length ?key) (r @ t) = drop (length ?key) r @ t"
        by (simp add: length_takeWhile_le)
      ultimately show ?thesis
        using False r sep no k(1)
        by (simp add: parse_loop.simps [of path' "s @ t"] takeWhile_key_append [OF assms(1)] Let_def)
    qed
  qed
qed

lemma replace_loop_char: "replace_loop s [c] new = concat (map (\<lambda>x. if x = c then new else [x]) s)"
  by (induction s) auto

lemma ReplaceAll_char: "ReplaceAll s [c] new = concat (map (\<lambda>x. if x = c then new else [x]) s)"
  by (simp add: ReplaceAll_def replace_loop_char)

definition esc_char :: "char \<Rightarrow> string" where
  "esc_char x = (if x = CHR 0x5C \<or> x = CHR 0x22 then [CHR 0x5C, x] else [x])"

lemma escape_key:
  "ReplaceAll (ReplaceAll key [CHR 0x5C] [CHR 0x5C, CHR 0x5C]) [CHR 0x22] [CHR 0x5C, CHR 0x22]
   = concat (map esc_char key)"
  by (induction key) (auto simp: ReplaceAll_char esc_char_def)

lemma quoted_body_escaped:
  "quoted_body (concat (map esc_char key) @ CHR 0x22 # rest) acc = Some (acc @ key, rest)"
  by (induction key arbitrary: acc) (auto simp: esc_char_def)

lemma parseBracket_quoted:
  "parseBracket path (CHR 0x22 # concat (map esc_char key) @ CHR 0x22 # CHR '']'' # rest) = Inr (KeySeg key, rest)"
  by (simp add: parseBracket_def quoted_body_escaped)

lemma is_digit_not_special: "is_digit c \<Longrightarrow> c \<noteq> CHR 0x22 \<and> c \<noteq> CHR '']''"
  by (auto simp: is_digit_def)

lemma parseBracket_index:
  assumes "i < 2 ^ 63"
  shows "parseBracket path (show_nat i @ CHR '']'' # rest) = Inr (IdxSeg i, rest)"
proof -
  have digits: "\<forall>c \<in> set (show_nat i). is_digit c"
    using show_nat_digits [of i] by (simp add: list_all_iff)
  then have "CHR '']'' \<notin> set (show_nat i)" using is_digit_not_special by blast
  moreover have "hd (show_nat i @ CHR '']'' # rest) \<noteq> CHR 0x22"
    using digits is_digit_not_special by (simp add: hd_append)
  ultimately show ?thesis
    using assms by (simp add: parseBracket_def Cut_sep Atoi_show_nat)
qed

lemma parse_bracket_last:
  assumes "parseBracket path s = Inr (seg, [])"
  shows "parse_loop path (CHR ''['' # s) segs = Inr (segs @ [seg])"
  using assms
  by (simp add: parse_loop.simps [of path "CHR ''['' # s"] skip_separator_def
      parse_loop.simps [of path "[]"])

definition plain_key :: "string \<Rightarrow> bool" where
  "plain_key key = (key \<noteq> [] \<and> \<not> ContainsAny key [CHR ''.'', CHR ''['', CHR '']'', CHR 0x22, CHR 0x5C])"

lemma plain_key_stop: "plain_key key \<Longrightarrow> takeWhile (\<lambda>c. \<not> key_stop c) key = key"
  by (auto simp: plain_key_def ContainsAny_def key_stop_def takeWhile_eq_all_conv)

lemma plain_key_hd: "plain_key key \<Longrightarrow> hd key \<noteq> CHR ''['' \<and> hd key \<noteq> CHR ''.''"
  by (cases key) (auto simp: plain_key_def ContainsAny_def)

lemma parse_plain_key:
  assumes "plain_key key"
  shows "parse_loop path key [] = Inr [KeySeg key]"
    and "segs \<noteq> [] \<Longrightarrow> parse_loop path (CHR ''.'' # key) segs = Inr (segs @ [KeySeg key])"
proof -
  have key: "key \<noteq> []" using assms by (simp add: plain_key_def)
  note facts = key plain_key_hd [OF assms]
  show "parse_loop path key [] = Inr [KeySeg key]"
    by (subst parse_loop.simps)
       (use facts in \<open>simp add: skip_separator_def parse_loop.simps [of path "[]"] Let_def
           plain_key_stop [OF assms]\<close>)
  show "parse_loop path (CHR ''.'' # key) segs = Inr (segs @ [KeySeg key])" if "segs \<noteq> []"
    by (subst parse_loop.simps)
       (use facts that in \<open>simp add: skip_separator_def parse_loop.simps [of path "[]"] Let_def
           plain_key_stop [OF assms]\<close>)
qed

text \<open>What a path prints to is what it parses to.\<close>

lemma parse_loop_AppendKeySegment:
  assumes "parse_loop path path [] = Inr segs" "path = [] \<longleftrightarrow> segs = []"
  shows "parse_loop q (AppendKeySegment path key) [] = Inr (segs @ [KeySeg key])"
proof (cases "plain_key key")
  case True
  show ?thesis
  proof (cases "path = []")
    case True
    with \<open>plain_key key\<close> assms show ?thesis
      by (simp add: AppendKeySegment_def plain_key_def parse_plain_key)
  next
    case False
    have "parse_loop q (path @ CHR ''.'' # key) [] = parse_loop q (CHR ''.'' # key) segs"
      by (rule parse_loop_append [OF _ assms(1)]) (simp add: key_stop_def)
    with False True assms(2) show ?thesis
      by (simp add: AppendKeySegment_def plain_key_def parse_plain_key)
  qed
next
  case False
  let ?b = "CHR 0x22 # concat (map esc_char key) @ [CHR 0x22, CHR '']'']"
  have "AppendKeySegment path key = path @ CHR ''['' # ?b"
    using False by (auto simp: AppendKeySegment_def plain_key_def escape_key Let_def)
  moreover have "parse_loop q (path @ CHR ''['' # ?b) [] = parse_loop q (CHR ''['' # ?b) segs"
    by (rule parse_loop_append [OF _ assms(1)]) (simp add: key_stop_def)
  moreover have "parseBracket q ?b = Inr (KeySeg key, [])"
    using parseBracket_quoted [of q key "[]"] by simp
  ultimately show ?thesis by (simp add: parse_bracket_last)
qed

lemma parse_loop_AppendIndexSegment:
  assumes "parse_loop path path [] = Inr segs" "i < 2 ^ 63"
  shows "parse_loop q (AppendIndexSegment path i) [] = Inr (segs @ [IdxSeg i])"
proof -
  have "parse_loop q (path @ CHR ''['' # show_nat i @ [CHR '']'']) [] =
        parse_loop q (CHR ''['' # show_nat i @ [CHR '']'']) segs"
    by (rule parse_loop_append [OF _ assms(1)]) (simp add: key_stop_def)
  moreover have "parseBracket q (show_nat i @ [CHR '']'']) = Inr (IdxSeg i, [])"
    using parseBracket_index [OF assms(2), of q "[]"] by simp
  ultimately show ?thesis
    by (simp add: AppendIndexSegment_def parse_bracket_last)
qed

definition print_seg :: "string \<Rightarrow> pathSegment \<Rightarrow> string" where
  "print_seg path seg = (case seg of KeySeg k \<Rightarrow> AppendKeySegment path k | IdxSeg i \<Rightarrow> AppendIndexSegment path i)"

definition print_path :: "pathSegment list \<Rightarrow> string" where
  "print_path segs = foldl print_seg [] segs"

definition seg_in_range :: "pathSegment \<Rightarrow> bool" where
  "seg_in_range seg = (case seg of KeySeg _ \<Rightarrow> True | IdxSeg i \<Rightarrow> i < 2 ^ 63)"

lemma print_seg_nonempty: "print_seg path seg \<noteq> []"
  by (auto simp: print_seg_def AppendKeySegment_def AppendIndexSegment_def Let_def split: pathSegment.splits)

lemma parse_loop_print_path:
  "list_all seg_in_range segs \<Longrightarrow>
   parse_loop (print_path segs) (print_path segs) [] = Inr segs \<and> (print_path segs = [] \<longleftrightarrow> segs = [])"
proof (induction segs rule: rev_induct)
  case Nil
  then show ?case by (simp add: print_path_def parse_loop.simps)
next
  case (snoc seg segs)
  then have IH: "parse_loop (print_path segs) (print_path segs) [] = Inr segs"
    "print_path segs = [] \<longleftrightarrow> segs = []" by auto
  have eq: "print_path (segs @ [seg]) = print_seg (print_path segs) seg"
    by (simp add: print_path_def)
  show ?case
  proof (cases seg)
    case (KeySeg k)
    then show ?thesis
      using parse_loop_AppendKeySegment [OF IH] print_seg_nonempty [of "print_path segs" seg]
      unfolding eq by (simp add: print_seg_def)
  next
    case (IdxSeg i)
    with snoc.prems have "i < 2 ^ 63" by (simp add: seg_in_range_def)
    with IdxSeg show ?thesis
      using parse_loop_AppendIndexSegment [OF IH(1)] print_seg_nonempty [of "print_path segs" seg]
      unfolding eq by (simp add: print_seg_def)
  qed
qed

section \<open>What the operations do to the object\<close>

lemma set_segs_obj: "\<exists>m'. fst (set_segs path segs v (JObj m)) = JObj m'"
  by (cases "(path, segs, v, JObj m)" rule: set_segs.cases)
     (auto split: option.splits prod.splits)

lemma delete_segs_obj: "\<exists>m'. fst (delete_segs segs (JObj m)) = JObj m'"
  by (cases "(segs, JObj m)" rule: delete_segs.cases) (auto split: option.splits prod.splits)

lemma get_set_segs:
  "segs \<noteq> [] \<Longrightarrow> set_segs path segs v cur = (cur', None) \<Longrightarrow> get_segs cur' segs = Some v"
  by (induction path segs v cur arbitrary: cur' rule: set_segs.induct)
     (auto simp: gomap_simps split: if_splits option.splits prod.splits)

lemma parallel_Cons: "parallel (x # xs) (y # ys) \<longleftrightarrow> x \<noteq> y \<or> parallel xs ys"
  by (auto simp: parallel_def)

lemma get_segs_empty_obj: "q \<noteq> [] \<Longrightarrow> get_segs (JObj []) q = None"
  by (cases "(JObj [], q)" rule: get_segs.cases) auto

lemma get_segs_scalar: "q \<noteq> [] \<Longrightarrow> get_segs JNull q = None"
  by (cases q) auto

lemma set_segs_frame:
  "parallel segs q \<Longrightarrow> get_segs (fst (set_segs path segs v cur)) q = get_segs cur q"
proof (induction segs arbitrary: cur q)
  case (Cons s segs)
  obtain x q' where q: "q = x # q'" using Cons.prems by (cases q) auto
  show ?case
  proof (cases "x = s")
    case False
    then show ?thesis
      by (cases s; cases cur; cases x)
         (auto simp: q gomap_simps split: option.splits prod.splits)
  next
    case True
    with Cons.prems q have par: "parallel segs q'" by (simp add: parallel_Cons)
    then have ne: "segs \<noteq> []" "q' \<noteq> []" by auto
    note IH = Cons.IH [OF par]
    show ?thesis
      using True ne IH [of "JObj []"]
      by (cases s; cases cur)
         (auto simp: q IH gomap_simps get_segs_empty_obj get_segs_scalar case_prod_beta split: option.splits)
  qed
qed simp

lemma set_segs_wf: "wf_json cur \<Longrightarrow> wf_json v \<Longrightarrow> wf_json (fst (set_segs path segs v cur))"
proof (induction path segs v cur rule: set_segs.induct)
  case (2 path k segs v m)
  then show ?case
    using wf_json_get [OF 2(4)]
    by (auto split: option.splits prod.splits intro!: wf_json_put simp del: wf_json_obj)
       (auto intro: wf_json_put)
next
  case (5 path i segs v xs)
  then show ?case
    by (auto split: prod.splits dest!: set_update_subset_insert [THEN subsetD] simp: nth_mem)
qed auto

text \<open>Deleting never makes a value appear, and leaves null or nothing at the path.\<close>

definition blank :: "json option \<Rightarrow> bool" where
  "blank x = (x = None \<or> x = Some JNull)"

lemma blank_simps [simp]: "blank None" "blank (Some v) \<longleftrightarrow> v = JNull"
  by (simp_all add: blank_def)

lemma delete_segs_blank: "delete_segs segs cur = (cur', True) \<Longrightarrow> blank (get_segs cur' segs)"
  by (induction segs cur arbitrary: cur' rule: delete_segs.induct)
     (auto simp: gomap_simps split: if_splits option.splits prod.splits)

lemma delete_segs_null: "delete_segs segs JNull = (JNull, False)"
  by (cases segs) auto

lemma delete_segs_keeps_blank:
  "q \<noteq> [] \<Longrightarrow> blank (get_segs cur q) \<Longrightarrow> blank (get_segs (fst (delete_segs segs cur)) q)"
proof (induction segs arbitrary: cur q)
  case (Cons s segs)
  obtain x q' where q: "q = x # q'" using Cons.prems by (cases q) auto
  show ?case
  proof (cases "x = s")
    case False
    then show ?thesis
      using Cons.prems
      by (cases s; cases cur; cases x)
         (auto simp: q gomap_simps case_prod_beta split: option.splits)
  next
    case True
    show ?thesis
      using True Cons.prems
      by (cases s; cases cur; cases "q' = []")
         (auto simp: q gomap_simps case_prod_beta delete_segs_null get_segs_scalar
            split: option.splits intro: Cons.IH)
  qed
qed simp

lemma delete_segs_absent:
  "wf_json cur \<Longrightarrow> delete_segs segs cur = (cur', False) \<Longrightarrow> cur' = cur"
proof (induction segs arbitrary: cur cur')
  case (Cons s segs)
  show ?case
  proof (cases cur)
    case (JObj m)
    show ?thesis
    proof (cases s)
      case (KeySeg k)
      with JObj Cons.prems consider "gomap_get m k = None" "cur' = cur"
        | nxt nxt' where "gomap_get m k = Some nxt" "delete_segs segs nxt = (nxt', False)"
            "cur' = JObj (gomap_put k nxt' m)"
        by (auto split: option.splits prod.splits if_splits)
      then show ?thesis
      proof cases
        case 2
        then have "nxt' = nxt"
          using Cons.IH Cons.prems(1) JObj wf_json_get by blast
        with 2 show ?thesis using Cons.prems(1) by (simp add: JObj gomap.put_same)
      qed
    qed (use JObj Cons.prems in auto)
  next
    case (JArr xs)
    with Cons show ?thesis
      by (cases s) (auto split: prod.splits if_splits, metis list_update_id not_le_imp_less nth_mem)
  qed (use Cons.prems in \<open>cases s; auto\<close>)+
qed simp

lemma delete_segs_absent_get:
  "segs \<noteq> [] \<Longrightarrow> delete_segs segs cur = (cur', False) \<Longrightarrow> get_segs cur segs = None"
  by (induction segs cur arbitrary: cur' rule: delete_segs.induct)
     (auto split: if_splits option.splits prod.splits)

lemma delete_segs_wf: "wf_json cur \<Longrightarrow> wf_json (fst (delete_segs segs cur))"
proof (induction segs cur rule: delete_segs.induct)
  case (2 k segs m)
  then show ?case
    using wf_json_get [OF 2(2)]
    by (auto split: option.splits prod.splits intro!: wf_json_put wf_json_delete simp del: wf_json_obj)
next
  case (3 i segs xs)
  then show ?case
    by (auto split: prod.splits dest!: set_update_subset_insert [THEN subsetD] simp: nth_mem)
qed auto

subsection \<open>The contract of a path-addressed document\<close>

text \<open>
  What the callers of the path functions rely on: a successful write is read back, writes
  to independent paths do not interfere, and an erased path stays blank. Lists of writes
  and erasures, as the secret-input and delete-state code performs them, inherit it.
\<close>

locale path_document =
  fixes fetch :: "'d \<Rightarrow> 'p \<Rightarrow> json option"
    and assign :: "'d \<Rightarrow> 'p \<Rightarrow> json \<Rightarrow> 'd \<times> error option"
    and erase :: "'d \<Rightarrow> 'p \<Rightarrow> 'd"
    and indep :: "'p \<Rightarrow> 'p \<Rightarrow> bool"
  assumes fetch_assign: "assign d p v = (d', None) \<Longrightarrow> fetch d' p = Some v"
    and fetch_assign_indep: "indep p q \<Longrightarrow> fetch (fst (assign d p v)) q = fetch d q"
    and erase_blank: "blank (fetch (erase d p) p)"
    and erase_mono: "blank (fetch d q) \<Longrightarrow> blank (fetch (erase d p) q)"
begin

fun assign_all :: "'d \<Rightarrow> ('p \<times> json) list \<Rightarrow> 'd \<times> error option" where
  "assign_all d [] = (d, None)"
| "assign_all d ((p, v) # pvs) =
     (case assign d p v of
        (d', Some e) \<Rightarrow> (d', Some e)
      | (d', None) \<Rightarrow> assign_all d' pvs)"

lemma assign_all_frame:
  "\<forall>(p, v) \<in> set pvs. indep p q \<Longrightarrow> fetch (fst (assign_all d pvs)) q = fetch d q"
proof (induction d pvs rule: assign_all.induct)
  case (2 d p v pvs)
  then show ?case
    using fetch_assign_indep [of p q d v] by (auto split: prod.splits option.splits)
qed simp

lemma assign_all_read:
  "assign_all d pvs = (d', None) \<Longrightarrow> sorted_wrt (\<lambda>(p, _) (q, _). indep q p) pvs \<Longrightarrow>
   (p, v) \<in> set pvs \<Longrightarrow> fetch d' p = Some v"
proof (induction d pvs rule: assign_all.induct)
  case (2 d p' v' pvs)
  obtain d1 where d1: "assign d p' v' = (d1, None)" "assign_all d1 pvs = (d', None)"
    using 2(2) by (auto split: prod.splits option.splits)
  show ?case
  proof (cases "(p, v) \<in> set pvs")
    case True
    with 2(1) [OF d1(1) [symmetric] refl] d1 2(3) show ?thesis by simp
  next
    case False
    with 2(4) have "p = p'" "v = v'" by auto
    moreover have "fetch (fst (assign_all d1 pvs)) p' = fetch d1 p'"
      by (rule assign_all_frame) (use 2(3) in auto)
    ultimately show ?thesis using d1 fetch_assign [OF d1(1)] by simp
  qed
qed simp

lemma erase_all_mono: "blank (fetch d q) \<Longrightarrow> blank (fetch (foldl erase d ps) q)"
  by (induction ps arbitrary: d) (auto intro: erase_mono)

lemma erase_all_blank: "p \<in> set ps \<Longrightarrow> blank (fetch (foldl erase d ps) p)"
  by (induction ps arbitrary: d) (auto intro: erase_all_mono erase_blank)

end

definition independent_paths :: "string \<Rightarrow> string \<Rightarrow> bool" where
  "independent_paths p q =
     (case (parsePath p, parsePath q) of
        (Inr a, Inr b) \<Rightarrow> parallel a b
      | _ \<Rightarrow> True)"

abbreviation GetPathObj :: "jobj \<Rightarrow> string \<Rightarrow> json option" where
  "GetPathObj m p \<equiv> GetPath (JObj m) p"

definition ErasePath :: "jobj \<Rightarrow> string \<Rightarrow> jobj" where
  "ErasePath m p = fst (DeletePath m p)"

lemma parsePath_nonempty: "parsePath p = Inr segs \<Longrightarrow> segs \<noteq> []"
  by (auto simp: parsePath_def split: sum.splits if_splits)

lemma obj_of_set_segs: "JObj (obj_of (fst (set_segs path segs v (JObj m)))) = fst (set_segs path segs v (JObj m))"
  using set_segs_obj [of path segs v m] by force

lemma obj_of_delete_segs: "JObj (obj_of (fst (delete_segs segs (JObj m)))) = fst (delete_segs segs (JObj m))"
  using delete_segs_obj [of segs m] by force

lemma get_segs_idx_obj: "segs \<noteq> [] \<Longrightarrow> isIdx (hd segs) \<Longrightarrow> get_segs (JObj m) segs = None"
  by (cases segs; cases "hd segs") auto

lemma SetPath_read:
  assumes "SetPath m p v = (m', None)"
  shows "GetPathObj m' p = Some v"
proof -
  obtain segs j where segs: "parsePath p = Inr segs" "set_segs p segs v (JObj m) = (j, None)" "m' = obj_of j"
    using assms by (auto simp: SetPath_def split: sum.splits if_splits prod.splits)
  then have "JObj m' = j" using obj_of_set_segs [of p segs v m] by simp
  with segs show ?thesis
    by (simp add: GetPath_def get_set_segs [OF parsePath_nonempty])
qed

lemma SetPath_frame: "independent_paths p q \<Longrightarrow> GetPathObj (fst (SetPath m p v)) q = GetPathObj m q"
proof (cases "parsePath p")
  case (Inr a)
  assume ind: "independent_paths p q"
  show ?thesis
  proof (cases "parsePath q")
    case (Inr b)
    with ind \<open>parsePath p = Inr a\<close> have "parallel a b" by (simp add: independent_paths_def)
    then show ?thesis
      using \<open>parsePath p = Inr a\<close> Inr set_segs_frame [of a b p v "JObj m"]
      by (simp add: SetPath_def GetPath_def case_prod_beta obj_of_set_segs)
  qed (simp add: GetPath_def)
qed (simp add: SetPath_def)

lemma ErasePath_blank: "blank (GetPathObj (ErasePath m p) p)"
proof (cases "parsePath p")
  case (Inr segs)
  note ne = parsePath_nonempty [OF Inr]
  obtain j b where d: "delete_segs segs (JObj m) = (j, b)" by fastforce
  then have j: "JObj (obj_of j) = j" using obj_of_delete_segs [of segs m] by simp
  show ?thesis
  proof (cases "isIdx (hd segs)")
    case True
    with Inr ne show ?thesis
      by (simp add: ErasePath_def DeletePath_def GetPath_def get_segs_idx_obj)
  next
    case False
    have "blank (get_segs j segs)"
    proof (cases b)
      case True
      with d show ?thesis by (simp add: delete_segs_blank)
    next
      case b: False
      have "blank (get_segs (JObj m) segs)"
        using delete_segs_absent_get [OF ne] d b by auto
      then show ?thesis using delete_segs_keeps_blank [OF ne, of "JObj m" segs] d by simp
    qed
    with False Inr d j show ?thesis
      by (simp add: ErasePath_def DeletePath_def GetPath_def)
  qed
qed (simp add: ErasePath_def DeletePath_def GetPath_def)

lemma ErasePath_mono: "blank (GetPathObj m q) \<Longrightarrow> blank (GetPathObj (ErasePath m p) q)"
proof (cases "parsePath p"; cases "parsePath q")
  fix a b
  assume *: "blank (GetPathObj m q)" "parsePath p = Inr a" "parsePath q = Inr b"
  then show ?thesis
    using delete_segs_keeps_blank [OF parsePath_nonempty [OF *(3)], of "JObj m" a]
    by (simp add: ErasePath_def DeletePath_def GetPath_def case_prod_beta obj_of_delete_segs)
qed (auto simp: ErasePath_def DeletePath_def GetPath_def)

interpretation jdoc: path_document GetPathObj SetPath ErasePath independent_paths
  by unfold_locales (auto intro: SetPath_read SetPath_frame ErasePath_blank ErasePath_mono)

lemma SetPath_wf [wf_intros]:
  "wf_obj m \<Longrightarrow> wf_json v \<Longrightarrow> wf_obj (fst (SetPath m p v))"
  using set_segs_wf [of "JObj m" v p] obj_of_set_segs [of p _ v m]
  by (auto simp: wf_obj_def SetPath_def case_prod_beta simp del: wf_json_obj split: sum.splits)

lemma ErasePath_wf [wf_intros]: "wf_obj m \<Longrightarrow> wf_obj (ErasePath m p)"
  using delete_segs_wf [of "JObj m"] obj_of_delete_segs [of _ m]
  by (auto simp: wf_obj_def ErasePath_def DeletePath_def case_prod_beta simp del: wf_json_obj
      split: sum.splits)

section \<open>Properties\<close>

text \<open>
  The path parser inverts the path printer: a path assembled from any non-empty list of
  segments with \<open>AppendKeySegment\<close> (which quotes keys holding metacharacters) and the
  renderer's index suffix parses back to exactly those segments.
\<close>

theorem parsePath_print_path:
  assumes "segs \<noteq> []" "list_all seg_in_range segs"
  shows "parsePath (print_path segs) = Inr segs"
  using parse_loop_print_path [OF assms(2)] assms(1) by (simp add: parsePath_def)

theorem parsePath_print_path_witness:
  "parsePath (print_path [KeySeg ''a.b'', IdxSeg 2, KeySeg ''c'']) = Inr [KeySeg ''a.b'', IdxSeg 2, KeySeg ''c'']"
  by (rule parsePath_print_path) (simp_all add: seg_in_range_def)

text \<open>
  A successful \<open>SetPath\<close> is read back by \<open>GetPath\<close> at the same path, and leaves
  unchanged what every independent path reads.
\<close>

theorem SetPath_GetPath:
  assumes "SetPath m p v = (m', None)"
  shows "GetPath (JObj m') p = Some v \<and>
         (\<forall>q. independent_paths p q \<longrightarrow> GetPath (JObj m') q = GetPath (JObj m) q)"
  using jdoc.fetch_assign [OF assms] jdoc.fetch_assign_indep [of p _ m v] assms by auto

theorem SetPath_GetPath_witness:
  "SetPath [(''b'', JNull)] ''a.c'' (JStr ''x'') = ([(''a'', JObj [(''c'', JStr ''x'')]), (''b'', JNull)], None) \<and>
   GetPath (JObj [(''a'', JObj [(''c'', JStr ''x'')]), (''b'', JNull)]) ''a.c'' = Some (JStr ''x'')"
proof -
  have h: "SetPath [(''b'', JNull)] ''a.c'' (JStr ''x'') =
           ([(''a'', JObj [(''c'', JStr ''x'')]), (''b'', JNull)], None)"
    by code_simp
  show ?thesis using h SetPath_GetPath [OF h] by simp
qed

end
