(* ===== verification/Package_Refs.thy ===== *)
theory Package_Refs
  imports Go_Errors
begin

text \<open>
  Package references and type tokens: the classification of a \<open>spec.package\<close> value
  (\<open>internal/runnerops/registry.go\<close>), the plugin coordinates of a pinned reference
  (\<open>plugincache.go\<close>), the pinning test of the admission gate
  (\<open>internal/pulumido/runner.go\<close>) and the allow-list of a provider profile
  (\<open>internal/controller/provider_resolution.go\<close>).
\<close>

section \<open>Classification\<close>

definition looksLikeGitSource :: "string \<Rightarrow> bool" where
  "looksLikeGitSource pkg =
     (HasPrefix pkg ''github.com/'' \<or> HasPrefix pkg ''gitlab.com/'' \<or>
      HasPrefix pkg ''bitbucket.org/'' \<or> HasPrefix pkg ''git://'' \<or>
      HasPrefix pkg ''https://'' \<or> HasPrefix pkg ''./'' \<or> HasPrefix pkg ''/'')"

datatype PkgKind = PkgKindPlain | PkgKindGit | PkgKindRegistry

text \<open>The character class \<open>[A-Za-z0-9-]\<close> of the reference expression.\<close>

definition ident_char :: "char \<Rightarrow> bool" where
  "ident_char c = (let n = (of_char c :: nat) in
     (65 \<le> n \<and> n \<le> 90) \<or> (97 \<le> n \<and> n \<le> 122) \<or> (48 \<le> n \<and> n \<le> 57) \<or> n = 45)"

definition ident :: "string \<Rightarrow> bool" where
  "ident s = (s \<noteq> [] \<and> list_all ident_char s)"

definition registry_sources :: "string list" where
  "registry_sources = [''private'', ''pulumi'', ''opentofu'']"

text \<open>
  \<open>registryRefRe.FindStringSubmatch\<close>: the submatches source, organisation, name and
  version (empty where the optional group did not take part). No group but the last can
  hold a \<open>/\<close> or an \<open>@\<close>, so the expression has at most one match and it is found by
  cutting at the first \<open>@\<close> and splitting at the slashes; \<open>.\<close> does not match a newline.
\<close>

definition registryRefRe :: "string \<Rightarrow> (string \<times> string \<times> string \<times> string) option" where
  "registryRefRe pkg =
     (case Cut pkg (CHR ''@'') of (base, version, found) \<Rightarrow>
        if found \<and> (version = [] \<or> CHR 0x0A \<in> set version) then None
        else case Split base (CHR ''/'') of
            [org, name] \<Rightarrow>
              if ident org \<and> ident name then Some ([], org, name, version) else None
          | [source, org, name] \<Rightarrow>
              if source \<in> set registry_sources \<and> ident org \<and> ident name
              then Some (source, org, name, version) else None
          | _ \<Rightarrow> None)"

definition ClassifyPackageRef :: "string \<Rightarrow> PkgKind \<times> string" where
  "ClassifyPackageRef pkg =
     (if pkg = [] then (PkgKindPlain, [])
      else if looksLikeGitSource pkg then (PkgKindGit, [])
      else case registryRefRe pkg of
          None \<Rightarrow> (PkgKindPlain, [])
        | Some (m1, m2, m3, m4) \<Rightarrow>
            let source = (if m1 = [] then ''private'' else m1);
                version = (if m4 = [] then ''latest'' else m4)
            in (PkgKindRegistry,
                source @ ''/'' @ m2 @ ''/'' @ m3 @ ''/versions/'' @ version))"

record registryPackage =
  rp_Name :: string
  rp_Version :: string
  rp_SchemaURL :: string
  rp_PluginDownloadURL :: string

definition gitSource :: "registryPackage \<Rightarrow> string result" where
  "gitSource p =
     (if rp_PluginDownloadURL p = []
      then Inl (Errorf (''registry package '' @ rp_Name p @ ''@'' @ rp_Version p @
                        '' has no resolvable source''))
      else Inr (TrimPrefix (rp_PluginDownloadURL p) ''git://''))"

section \<open>Plugin coordinates and pinning\<close>

definition ParsePluginRef :: "string \<Rightarrow> (string \<times> string) option" where
  "ParsePluginRef pkg =
     (if fst (ClassifyPackageRef pkg) \<noteq> PkgKindPlain then None
      else case Cut pkg (CHR ''@'') of (name, version, found) \<Rightarrow>
        if \<not> found \<or> name = [] \<or> version = [] then None else Some (name, version))"

definition PackagePinned :: "string \<Rightarrow> bool" where
  "PackagePinned pkg =
     (if fst (ClassifyPackageRef pkg) = PkgKindGit then True else Contains pkg ''@'')"

text \<open>\<open>strings.Index(token, ":") > 0\<close>: a leading colon leaves the token as it is.\<close>

definition PackageForToken :: "string \<Rightarrow> string" where
  "PackageForToken token =
     (case IndexOf token '':'' of
        None \<Rightarrow> token
      | Some i \<Rightarrow> if 0 < i then take i token else token)"

section \<open>The allow-list of a provider profile\<close>

definition token_module :: "string \<Rightarrow> string" where
  "token_module token =
     (case SplitN 3 token (CHR '':'') of [_, m, _] \<Rightarrow> m | _ \<Rightarrow> token)"

definition pattern_matches :: "string \<Rightarrow> string \<Rightarrow> string \<Rightarrow> bool" where
  "pattern_matches token modul pattern =
     (pattern = ''*'' \<or> pattern = token \<or> EqualFold pattern modul \<or>
      (case CutSuffix pattern ''/*'' of (pre, ok) \<Rightarrow>
         ok \<and> (EqualFold pre modul \<or> HasPrefix (ToLower modul) (ToLower pre @ ''/''))))"

definition tokenAllowed :: "string list \<Rightarrow> string \<Rightarrow> bool" where
  "tokenAllowed allowed token =
     (if allowed = [] then True
      else list_ex (pattern_matches token (token_module token)) allowed)"

section \<open>Lemmas\<close>

lemma ident_no_slash: "ident s \<Longrightarrow> CHR ''/'' \<notin> set s \<and> CHR ''@'' \<notin> set s \<and> CHR '':'' \<notin> set s \<and> CHR ''.'' \<notin> set s"
  by (auto simp: ident_def list_all_iff ident_char_def Let_def)

lemma ident_registry_sources: "s \<in> set registry_sources \<Longrightarrow> ident s"
  by (auto simp: registry_sources_def ident_def ident_char_def Let_def)

lemma Split_head: "sep \<notin> set a \<Longrightarrow> Split (a @ sep # b) sep = a # Split b sep"
  by (induction a) auto

lemma Split_single: "sep \<notin> set a \<Longrightarrow> Split a sep = [a]"
  by (induction a) auto

lemma Split_two: "Split s sep = [a, b] \<longleftrightarrow> s = a @ sep # b \<and> sep \<notin> set a \<and> sep \<notin> set b"
proof
  assume s: "Split s sep = [a, b]"
  have "sep \<in> set s" using s Split_single [of sep s] by auto
  then obtain x y where xy: "s = x @ sep # y" "sep \<notin> set x" by (meson split_list_first)
  have nb: "sep \<notin> set b" using s Split_no_sep [of b s sep] by simp
  from s xy have "x = a" "Split y sep = [b]" by (simp_all add: Split_head)
  then have "sep \<notin> set y"
    using Split_head Split_nonempty by (metis list.inject split_list_first)
  with \<open>Split y sep = [b]\<close> have "y = b" by (simp add: Split_single)
  with xy \<open>x = a\<close> nb show "s = a @ sep # b \<and> sep \<notin> set a \<and> sep \<notin> set b" by simp
next
  assume "s = a @ sep # b \<and> sep \<notin> set a \<and> sep \<notin> set b"
  then show "Split s sep = [a, b]" by (simp add: Split_head Split_single)
qed

lemma Split_three:
  "Split s sep = [a, b, c] \<longleftrightarrow>
   s = a @ sep # b @ sep # c \<and> sep \<notin> set a \<and> sep \<notin> set b \<and> sep \<notin> set c"
proof
  assume s: "Split s sep = [a, b, c]"
  have "sep \<in> set s" using s Split_single [of sep s] by auto
  then obtain x y where xy: "s = x @ sep # y" "sep \<notin> set x" by (meson split_list_first)
  from s xy have "x = a" "Split y sep = [b, c]" by (simp_all add: Split_head)
  then show "s = a @ sep # b @ sep # c \<and> sep \<notin> set a \<and> sep \<notin> set b \<and> sep \<notin> set c"
    using xy by (simp add: Split_two)
next
  assume "s = a @ sep # b @ sep # c \<and> sep \<notin> set a \<and> sep \<notin> set b \<and> sep \<notin> set c"
  then show "Split s sep = [a, b, c]" by (simp add: Split_head Split_single)
qed

text \<open>
  The language of the reference expression, written as its concatenation: an optional
  source, two identifiers, an optional version.
\<close>

definition registry_text :: "string \<Rightarrow> string \<Rightarrow> string \<Rightarrow> string \<Rightarrow> string" where
  "registry_text source org name version =
     (if source = [] then [] else source @ ''/'') @ org @ ''/'' @ name @
     (if version = [] then [] else ''@'' @ version)"

definition registry_parts :: "string \<Rightarrow> string \<Rightarrow> string \<Rightarrow> string \<Rightarrow> bool" where
  "registry_parts source org name version =
     ((source = [] \<or> source \<in> set registry_sources) \<and> ident org \<and> ident name \<and>
      CHR 0x0A \<notin> set version)"

lemma registry_base_no_at:
  "registry_parts source org name version \<Longrightarrow> CHR ''@'' \<notin> set (registry_text source org name [])"
  using ident_registry_sources [of source] ident_no_slash
  by (auto simp: registry_parts_def registry_text_def)

lemma Split_registry_base:
  "registry_parts source org name version \<Longrightarrow>
   Split (registry_text source org name []) (CHR ''/'') =
     (if source = [] then [org, name] else [source, org, name])"
  using ident_registry_sources [of source] ident_no_slash
  by (auto simp: registry_parts_def registry_text_def Split_head Split_single)

lemma registryRefRe_complete:
  assumes "registry_parts source org name version"
  shows "registryRefRe (registry_text source org name version) = Some (source, org, name, version)"
proof (cases "version = []")
  case True
  with assms registry_base_no_at [OF assms] Split_registry_base [OF assms] show ?thesis
    by (auto simp: registryRefRe_def Cut_absent registry_parts_def)
next
  case False
  then have "registry_text source org name version =
             registry_text source org name [] @ CHR ''@'' # version"
    by (simp add: registry_text_def)
  with assms False registry_base_no_at [OF assms] Split_registry_base [OF assms] show ?thesis
    by (auto simp: registryRefRe_def Cut_sep registry_parts_def)
qed

lemma registryRefRe_sound:
  assumes "registryRefRe pkg = Some (source, org, name, version)"
  shows "registry_parts source org name version \<and> pkg = registry_text source org name version"
proof -
  obtain base ver found where cut: "Cut pkg (CHR ''@'') = (base, ver, found)"
    by (cases "Cut pkg (CHR ''@'')") auto
  have ver: "ver = version" and nl: "found \<longrightarrow> version \<noteq> [] \<and> CHR 0x0A \<notin> set version"
    and base: "base = registry_text source org name []"
    and parts: "registry_parts source org name []"
    using assms cut
    by (auto simp: registryRefRe_def Split_two Split_three registry_text_def registry_parts_def
             registry_sources_def split: if_splits list.splits)
  show ?thesis
  proof (cases found)
    case True
    with cut have "pkg = base @ CHR ''@'' # ver" using Cut_found by simp
    with True ver nl base parts show ?thesis
      by (auto simp: registry_text_def registry_parts_def)
  next
    case False
    with cut have "pkg = base" "ver = []"
      by (auto simp: Cut_def Let_def split: if_splits)
    with ver base parts show ?thesis by simp
  qed
qed

lemma HasPrefix_same_sep:
  "HasPrefix (a @ sep # b) (c @ sep # d) \<Longrightarrow> sep \<notin> set a \<Longrightarrow> sep \<notin> set c \<Longrightarrow> a = c"
proof (induction a c rule: HasPrefix.induct)
  case (1 s)
  then show ?case by (cases s) auto
qed auto

lemma registry_text_first:
  assumes "registry_parts source org name version"
  obtains a b where "registry_text source org name version = a @ CHR ''/'' # b" "ident a"
  using assms ident_registry_sources [of source]
  by (cases "source = []") (auto simp: registry_parts_def registry_text_def)

lemma registry_not_git:
  assumes "registry_parts source org name version"
  shows "\<not> looksLikeGitSource (registry_text source org name version)"
proof -
  obtain a b where ab: "registry_text source org name version = a @ CHR ''/'' # b" and a: "ident a"
    using assms by (rule registry_text_first)
  have nf: "\<not> HasPrefix (a @ CHR ''/'' # b) (c @ CHR ''/'' # d)"
    if "CHR ''/'' \<notin> set c" "\<not> ident c" for c d
    using HasPrefix_same_sep [of a "CHR ''/''" b c d] that a ident_no_slash [OF a] by blast
  show ?thesis
    using nf [of "''github.com''" "[]"] nf [of "''gitlab.com''" "[]"]
      nf [of "''bitbucket.org''" "[]"] nf [of "''git:''" "''/''"] nf [of "''https:''" "''/''"]
      nf [of "''.''" "[]"] nf [of "[]" "[]"]
    by (simp add: looksLikeGitSource_def ab ident_def ident_char_def)
qed

text \<open>
  Exactly the references \<open>[source/]org/name[@version]\<close> with a known source are
  registry references, whatever the order of the tests (no such reference looks like a
  git source), and their API path spells out the defaults: the internal registry when no
  source is given, \<open>latest\<close> when no version is.
\<close>

theorem ClassifyPackageRef_registry:
  "(ClassifyPackageRef pkg = (PkgKindRegistry, path)) \<longleftrightarrow>
   (\<exists>source org name version.
      registry_parts source org name version \<and>
      pkg = registry_text source org name version \<and>
      path = (if source = [] then ''private'' else source) @ ''/'' @ org @ ''/'' @ name @
             ''/versions/'' @ (if version = [] then ''latest'' else version))"
proof
  assume "ClassifyPackageRef pkg = (PkgKindRegistry, path)"
  then obtain s o' n v where m: "registryRefRe pkg = Some (s, o', n, v)"
    and p: "path = (if s = [] then ''private'' else s) @ ''/'' @ o' @ ''/'' @ n @
                   ''/versions/'' @ (if v = [] then ''latest'' else v)"
    by (auto simp: ClassifyPackageRef_def Let_def split: if_splits option.splits prod.splits)
  with registryRefRe_sound [OF m] show "\<exists>source org name version.
      registry_parts source org name version \<and>
      pkg = registry_text source org name version \<and>
      path = (if source = [] then ''private'' else source) @ ''/'' @ org @ ''/'' @ name @
             ''/versions/'' @ (if version = [] then ''latest'' else version)"
    by blast
next
  assume "\<exists>source org name version.
      registry_parts source org name version \<and>
      pkg = registry_text source org name version \<and>
      path = (if source = [] then ''private'' else source) @ ''/'' @ org @ ''/'' @ name @
             ''/versions/'' @ (if version = [] then ''latest'' else version)"
  then obtain s o' n v where parts: "registry_parts s o' n v" and pkg: "pkg = registry_text s o' n v"
    and path: "path = (if s = [] then ''private'' else s) @ ''/'' @ o' @ ''/'' @ n @
                   ''/versions/'' @ (if v = [] then ''latest'' else v)"
    by blast
  have "pkg \<noteq> []" using pkg by (simp add: registry_text_def)
  with registry_not_git [OF parts] registryRefRe_complete [OF parts] pkg path
  show "ClassifyPackageRef pkg = (PkgKindRegistry, path)"
    by (simp add: ClassifyPackageRef_def Let_def)
qed

lemma ParsePluginRef_iff:
  "ParsePluginRef pkg = Some (name, version) \<longleftrightarrow>
   fst (ClassifyPackageRef pkg) = PkgKindPlain \<and> pkg = name @ ''@'' @ version \<and>
   name \<noteq> [] \<and> version \<noteq> [] \<and> CHR ''@'' \<notin> set name"
  by (auto simp: ParsePluginRef_def Cut_sep split: prod.splits if_splits dest: Cut_found)

lemma ParsePluginRef_pinned: "ParsePluginRef pkg = Some nv \<Longrightarrow> PackagePinned pkg"
  by (cases nv) (auto simp: ParsePluginRef_iff PackagePinned_def Contains_iff)

text \<open>A pattern ending in \<open>/*\<close> covers its module and everything below it, and no sibling.\<close>

lemma HasPrefix_ToLower: "HasPrefix (ToLower s) (ToLower p) \<longleftrightarrow> EqualFold (take (length p) s) p \<and> length p \<le> length s"
  unfolding HasPrefix_iff EqualFold_def ToLower_def
  by (metis append_eq_conv_conj length_append length_map le_add1 map_append take_map append_take_drop_id
      length_take min.absorb2)

lemma pattern_glob:
  "pattern_matches token modul (pre @ ''/*'') \<longleftrightarrow>
   (pre @ ''/*'' = token \<or> EqualFold (pre @ ''/*'') modul \<or> EqualFold pre modul \<or>
    HasPrefix (ToLower modul) (ToLower pre @ ''/''))"
proof -
  have "pre @ ''/*'' \<noteq> ''*''" by (cases pre) auto
  moreover have "CutSuffix (pre @ ''/*'') ''/*'' = (pre, True)"
    by (auto simp: CutSuffix_def HasSuffix_iff)
  ultimately show ?thesis by (simp add: pattern_matches_def)
qed

end
