(* ===== verification/Provider_Schema.thy ===== *)
theory Provider_Schema
  imports Paths Package_Refs
begin

text \<open>
  Provider schemas (\<open>internal/pulumido/schema.go\<close>): validation of input properties
  against a resource schema, and the cache that shares one in-flight fetch between
  concurrent callers.
\<close>

section \<open>Schemas and validation\<close>

datatype PropertySchema = PropertySchema
  (ps_Type: string) (ps_Ref: string) (ps_Items: "PropertySchema option")
  (ps_AdditionalProperties: "PropertySchema option") (ps_OneOf: "PropertySchema list")

record ResourceSchema =
  InputProperties :: "PropertySchema gomap"
  RequiredInputs :: "string list"
  rs_Outputs :: "PropertySchema gomap"
  IsComponent :: bool

record PackageSchema =
  ps_Name :: string
  ps_Version :: string
  Resources :: "ResourceSchema gomap"

definition type_violation :: "string \<Rightarrow> string \<Rightarrow> json \<Rightarrow> string list" where
  "type_violation path what v =
     [''property '' @ Quote path @ '' must be '' @ what @ '', got '' @ JSONKind v]"

function checkType :: "string \<Rightarrow> json \<Rightarrow> PropertySchema \<Rightarrow> nat \<Rightarrow> string list" where
  "checkType path v ps depth =
     (if v = JNull \<or> 16 < depth then []
      else if ps_Ref ps \<noteq> [] \<or> ps_OneOf ps \<noteq> [] then []
      else if ps_Type ps = ''string'' then
        (case v of JStr _ \<Rightarrow> [] | _ \<Rightarrow> type_violation path ''a string'' v)
      else if ps_Type ps = ''boolean'' then
        (case v of JBool _ \<Rightarrow> [] | _ \<Rightarrow> type_violation path ''a boolean'' v)
      else if ps_Type ps = ''integer'' \<or> ps_Type ps = ''number'' then
        (case v of JNum _ \<Rightarrow> [] | _ \<Rightarrow> type_violation path (''a '' @ ps_Type ps) v)
      else if ps_Type ps = ''array'' then
        (case v of
           JArr arr \<Rightarrow>
             (case ps_Items ps of
                None \<Rightarrow> []
              | Some items \<Rightarrow>
                  concat (map (\<lambda>(i, e). checkType (path @ ''['' @ show_nat i @ '']'') e items (depth + 1))
                            (enumerate 0 arr)))
         | _ \<Rightarrow> type_violation path ''an array'' v)
      else if ps_Type ps = ''object'' then
        (case v of
           JObj obj \<Rightarrow>
             (case ps_AdditionalProperties ps of
                None \<Rightarrow> []
              | Some aps \<Rightarrow>
                  concat (map (\<lambda>(k, e). checkType (path @ ''.'' @ k) e aps (depth + 1)) obj))
         | _ \<Rightarrow> type_violation path ''an object'' v)
      else [])"
  by pat_completeness auto
termination
  by (relation "measure (\<lambda>(path, v, ps, depth). 17 - depth)") auto

declare checkType.simps [simp del]

fun input_violations :: "string \<Rightarrow> ResourceSchema \<Rightarrow> (string \<times> json) list \<Rightarrow> string list" where
  "input_violations token res [] = []"
| "input_violations token res ((k, v) # props) =
     (case gomap_get (InputProperties res) k of
        None \<Rightarrow> [''unknown property '' @ Quote k @ '' (not an input of '' @ token @ '')'']
      | Some ps \<Rightarrow> checkType k v ps 0) @ input_violations token res props"

definition Validate :: "PackageSchema \<Rightarrow> string \<Rightarrow> jobj \<Rightarrow> string list result" where
  "Validate s token props =
     (case gomap_get (Resources s) token of
        None \<Rightarrow> Inl (Errorf (''resource type '' @ Quote token @ '' not found in schema of package '' @
                             ps_Name s @ ''@'' @ ps_Version s))
      | Some res \<Rightarrow>
          Inr (map (\<lambda>req. ''required property '' @ Quote req @ '' is missing'')
                   (filter (\<lambda>req. gomap_get props req = None) (RequiredInputs res)) @
               input_violations token res props))"

subsection \<open>What is accepted\<close>

text \<open>
  The declarative reading: which values a property schema admits, looking \<open>n\<close> levels deep
  (everything below is left to the provider).
\<close>

fun admits :: "nat \<Rightarrow> PropertySchema \<Rightarrow> json \<Rightarrow> bool" where
  "admits 0 ps v = True"
| "admits (Suc n) ps v =
     (v = JNull \<or> ps_Ref ps \<noteq> [] \<or> ps_OneOf ps \<noteq> [] \<or>
      ((ps_Type ps = ''string'' \<longrightarrow> JSONKind v = ''string'') \<and>
       (ps_Type ps = ''boolean'' \<longrightarrow> JSONKind v = ''boolean'') \<and>
       (ps_Type ps \<in> {''integer'', ''number''} \<longrightarrow> JSONKind v = ''number'') \<and>
       (ps_Type ps = ''array'' \<longrightarrow>
          (case v of JArr xs \<Rightarrow> (case ps_Items ps of None \<Rightarrow> True | Some it \<Rightarrow> list_all (admits n it) xs)
                   | _ \<Rightarrow> False)) \<and>
       (ps_Type ps = ''object'' \<longrightarrow>
          (case v of JObj m \<Rightarrow> (case ps_AdditionalProperties ps of
                                 None \<Rightarrow> True | Some it \<Rightarrow> list_all (\<lambda>(k, e). admits n it e) m)
                   | _ \<Rightarrow> False))))"

lemma type_violation_nonempty [simp]: "type_violation p w v \<noteq> []"
  by (simp add: type_violation_def)

lemma JSONKind_inject:
  "JSONKind v = ''string'' \<longleftrightarrow> (\<exists>s. v = JStr s)" "JSONKind v = ''boolean'' \<longleftrightarrow> (\<exists>b. v = JBool b)"
  "JSONKind v = ''number'' \<longleftrightarrow> (\<exists>n. v = JNum n)"
  by (cases v; simp)+

lemma list_all_enumerate: "(\<forall>p \<in> set (enumerate n xs). Q (snd p)) \<longleftrightarrow> list_all Q xs"
  by (induction xs arbitrary: n) (auto simp: list_all_iff)

lemma checkType_admits: "(checkType path v ps depth = []) = admits (17 - depth) ps v"
proof (induction "17 - depth" arbitrary: path v ps depth)
  case 0
  then show ?case by (subst checkType.simps) auto
next
  case (Suc n)
  then have d: "depth \<le> 16" "17 - Suc depth = n" by auto
  have IH: "(checkType p e it (Suc depth) = []) = admits n it e" for p e it
    using Suc.hyps(1) [of "Suc depth" p e it] d by simp
  have elem_a: "((case p of (i, e) \<Rightarrow> checkType (q i e) e it (Suc depth)) = []) = admits n it (snd p)"
    for p :: "nat \<times> json" and q it by (cases p) (simp add: IH)
  have elem_o: "((case p of (i, e) \<Rightarrow> checkType (q i e) e it (Suc depth)) = []) = admits n it (snd p)"
    for p :: "string \<times> json" and q it by (cases p) (simp add: IH)
  show ?case
    unfolding Suc.hyps(2) [symmetric]
    by (subst checkType.simps, cases v)
       (use d in \<open>simp_all add: elem_a elem_o list_all_enumerate split: option.splits\<close>,
        (auto simp: list_all_iff)?)
qed

lemma input_violations_empty:
  "(input_violations token res props = []) =
   list_all (\<lambda>(k, v). \<exists>ps. gomap_get (InputProperties res) k = Some ps \<and> admits 17 ps v) props"
  by (induction token res props rule: input_violations.induct)
     (auto simp: checkType_admits split: option.splits)

text \<open>
  Validation reports no violation exactly when the resource type is in the schema, every
  required input is given, and every given property is a known input whose value the
  property's schema admits down to the seventeenth level.
\<close>

theorem Validate_valid_iff:
  "(Validate s token props = Inr []) =
   (\<exists>res. gomap_get (Resources s) token = Some res \<and>
      (\<forall>req \<in> set (RequiredInputs res). gomap_get props req \<noteq> None) \<and>
      (\<forall>(k, v) \<in> set props. \<exists>ps. gomap_get (InputProperties res) k = Some ps \<and> admits 17 ps v))"
  by (auto simp: Validate_def input_violations_empty list_all_iff filter_empty_conv split: option.splits)

theorem Validate_valid_iff_witness:
  "Validate \<lparr>ps_Name = ''p'', ps_Version = ''1'',
             Resources = [(''p:m:T'', \<lparr>InputProperties = [(''a'', PropertySchema ''string'' [] None None [])],
                                       RequiredInputs = [''a''], rs_Outputs = [], IsComponent = False\<rparr>)]\<rparr>
     ''p:m:T'' [(''a'', JStr ''x'')] = Inr []"
  by (subst Validate_valid_iff) (simp add: eval_nat_numeral)

end
