(* ===== verification/Schema_Cache.thy ===== *)
theory Schema_Cache
  imports Provider_Schema
begin

text \<open>
  The schema cache of \<open>internal/pulumido/schema.go\<close> under concurrent callers.
  \<open>SchemaCache.Get\<close> is cut at its lock boundaries and its blocking points into atomic
  steps; each caller has a program counter, and a step relation interleaves them in every
  order. What the runner replied is recorded as a history that the properties speak about.
\<close>

section \<open>State\<close>

record schemaFetch =
  fl_done :: bool
  fl_s :: "PackageSchema option"
  fl_err :: "error option"

record SchemaCache =
  cache :: "string \<Rightarrow> PackageSchema option"
  pending :: "string \<Rightarrow> nat option"
  fetches :: "nat \<Rightarrow> schemaFetch"
  next_fetch :: nat

text \<open>
  Where a caller of \<open>Get\<close> stands: before the first critical section, waiting on the channel
  of a shared fetch, inside \<open>FetchSchema\<close>, after it (the deferred function), after the
  second critical section with the channel still open, returned.
\<close>

datatype get_pc =
    Calling string
  | Waiting string nat
  | Fetching string nat
  | Deferred string nat
  | Closing string nat
  | Returned string "PackageSchema option" "error option"

text \<open>What \<open>runner.FetchSchema\<close> can do: reply, or panic with a message.\<close>

datatype fetch_outcome = Replied "PackageSchema result" | Panicked string

definition NewSchemaCache :: SchemaCache where
  "NewSchemaCache =
     \<lparr>cache = (\<lambda>_. None), pending = (\<lambda>_. None),
      fetches = (\<lambda>_. \<lparr>fl_done = False, fl_s = None, fl_err = None\<rparr>), next_fetch = 0\<rparr>"

definition cache_key :: "string \<Rightarrow> string \<Rightarrow> string" where
  "cache_key pkg token = pkg @ ''|'' @ token"

section \<open>The steps of Get\<close>

text \<open>The first critical section: a hit, a pending fetch to share, or a fetch of its own.\<close>

definition get_enter :: "SchemaCache \<Rightarrow> string \<Rightarrow> SchemaCache \<times> get_pc" where
  "get_enter c key =
     (case cache c key of
        Some s \<Rightarrow> (c, Returned key (Some s) None)
      | None \<Rightarrow>
          (case pending c key of
             Some f \<Rightarrow> (c, Waiting key f)
           | None \<Rightarrow>
               (let f = next_fetch c in
                (c\<lparr>pending := (pending c)(key := Some f),
                   fetches := (fetches c)(f := \<lparr>fl_done = False, fl_s = None, fl_err = None\<rparr>),
                   next_fetch := Suc f\<rparr>, Fetching key f))))"

text \<open>
  The reply lands in the fetch; a recovered panic becomes its error and leaves the schema
  nil.
\<close>

definition get_fetched :: "SchemaCache \<Rightarrow> string \<Rightarrow> nat \<Rightarrow> fetch_outcome \<Rightarrow> SchemaCache" where
  "get_fetched c key f out =
     (let fl = fetches c f;
          fl' = (case out of
                   Replied (Inr s) \<Rightarrow> fl\<lparr>fl_s := Some s, fl_err := None\<rparr>
                 | Replied (Inl e) \<Rightarrow> fl\<lparr>fl_s := None, fl_err := Some e\<rparr>
                 | Panicked m \<Rightarrow>
                     fl\<lparr>fl_err := Some (Errorf (''schema fetch for '' @ key @ '' panicked: '' @ m))\<rparr>)
      in c\<lparr>fetches := (fetches c)(f := fl')\<rparr>)"

text \<open>The second critical section, in the deferred function.\<close>

definition get_cleanup :: "SchemaCache \<Rightarrow> string \<Rightarrow> nat \<Rightarrow> SchemaCache" where
  "get_cleanup c key f =
     (let c' = (if fl_err (fetches c f) = None then c\<lparr>cache := (cache c)(key := fl_s (fetches c f))\<rparr> else c)
      in c'\<lparr>pending := (pending c')(key := None)\<rparr>)"

definition get_close :: "SchemaCache \<Rightarrow> nat \<Rightarrow> SchemaCache" where
  "get_close c f = c\<lparr>fetches := (fetches c)(f := (fetches c f)\<lparr>fl_done := True\<rparr>)\<rparr>"

record system =
  sc :: SchemaCache
  threads :: "nat \<Rightarrow> get_pc"
  replies :: "(string \<times> fetch_outcome) list"
  fetch_key :: "nat \<Rightarrow> string"

text \<open>The history also notes for which key a fetch was started.\<close>

fun note_key :: "get_pc \<Rightarrow> (nat \<Rightarrow> string) \<Rightarrow> nat \<Rightarrow> string" where
  "note_key (Fetching key f) h = h(f := key)"
| "note_key _ h = h"

inductive get_step :: "system \<Rightarrow> system \<Rightarrow> bool" where
  enter: "threads \<sigma> t = Calling key \<Longrightarrow> get_enter (sc \<sigma>) key = (c', pc) \<Longrightarrow>
    get_step \<sigma> (\<sigma>\<lparr>sc := c', threads := (threads \<sigma>)(t := pc), fetch_key := note_key pc (fetch_key \<sigma>)\<rparr>)"
| fetched: "threads \<sigma> t = Fetching key f \<Longrightarrow>
    get_step \<sigma> (\<sigma>\<lparr>sc := get_fetched (sc \<sigma>) key f out, threads := (threads \<sigma>)(t := Deferred key f),
                 replies := replies \<sigma> @ [(key, out)]\<rparr>)"
| cleanup: "threads \<sigma> t = Deferred key f \<Longrightarrow>
    get_step \<sigma> (\<sigma>\<lparr>sc := get_cleanup (sc \<sigma>) key f, threads := (threads \<sigma>)(t := Closing key f)\<rparr>)"
| closing: "threads \<sigma> t = Closing key f \<Longrightarrow>
    get_step \<sigma> (\<sigma>\<lparr>sc := get_close (sc \<sigma>) f,
                 threads := (threads \<sigma>)(t := Returned key (fl_s (fetches (sc \<sigma>) f)) (fl_err (fetches (sc \<sigma>) f)))\<rparr>)"
| woken: "threads \<sigma> t = Waiting key f \<Longrightarrow> fl_done (fetches (sc \<sigma>) f) \<Longrightarrow>
    get_step \<sigma> (\<sigma>\<lparr>threads := (threads \<sigma>)(t := Returned key (fl_s (fetches (sc \<sigma>) f)) (fl_err (fetches (sc \<sigma>) f)))\<rparr>)"
| cancelled: "threads \<sigma> t = Waiting key f \<Longrightarrow>
    get_step \<sigma> (\<sigma>\<lparr>threads := (threads \<sigma>)(t := Returned key None (Some ctx_err))\<rparr>)"
| again: "threads \<sigma> t = Returned key s e \<Longrightarrow>
    get_step \<sigma> (\<sigma>\<lparr>threads := (threads \<sigma>)(t := Calling key')\<rparr>)"

inductive_cases get_stepE: "get_step \<sigma> \<sigma>'"

text \<open>Any number of callers, each about to ask for some key.\<close>

definition initial :: "system \<Rightarrow> bool" where
  "initial \<sigma> = (sc \<sigma> = NewSchemaCache \<and> replies \<sigma> = [] \<and> (\<forall>t. \<exists>key. threads \<sigma> t = Calling key))"

inductive reachable :: "system \<Rightarrow> bool" where
  init: "initial \<sigma> \<Longrightarrow> reachable \<sigma>"
| step: "reachable \<sigma> \<Longrightarrow> get_step \<sigma> \<sigma>' \<Longrightarrow> reachable \<sigma>'"

section \<open>The invariant\<close>

text \<open>A caller owns a fetch from creating it until it has closed its channel.\<close>

fun owns :: "get_pc \<Rightarrow> string \<Rightarrow> nat \<Rightarrow> bool" where
  "owns (Fetching k f) key g = (k = key \<and> f = g)"
| "owns (Deferred k f) key g = (k = key \<and> f = g)"
| "owns (Closing k f) key g = (k = key \<and> f = g)"
| "owns _ key g = False"

text \<open>Before the second critical section the owned fetch is the pending one of its key.\<close>

fun in_flight :: "get_pc \<Rightarrow> string \<Rightarrow> nat \<Rightarrow> bool" where
  "in_flight (Fetching k f) key g = (k = key \<and> f = g)"
| "in_flight (Deferred k f) key g = (k = key \<and> f = g)"
| "in_flight _ key g = False"

definition replied :: "(string \<times> fetch_outcome) list \<Rightarrow> string \<Rightarrow> PackageSchema \<Rightarrow> bool" where
  "replied rs key s = ((key, Replied (Inr s)) \<in> set rs)"

definition inv_pending :: "system \<Rightarrow> bool" where
  "inv_pending \<sigma> =
     ((\<forall>key f. pending (sc \<sigma>) key = Some f \<longleftrightarrow> (\<exists>t. in_flight (threads \<sigma> t) key f)) \<and>
      (\<forall>key. pending (sc \<sigma>) key \<noteq> None \<longrightarrow> cache (sc \<sigma>) key = None))"

definition inv_owner :: "system \<Rightarrow> bool" where
  "inv_owner \<sigma> =
     ((\<forall>t key f. owns (threads \<sigma> t) key f \<longrightarrow> f < next_fetch (sc \<sigma>)) \<and>
      (\<forall>t t' key key' f. owns (threads \<sigma> t) key f \<longrightarrow> owns (threads \<sigma> t') key' f \<longrightarrow> t = t'))"

definition inv_waiting :: "system \<Rightarrow> bool" where
  "inv_waiting \<sigma> =
     (\<forall>t key f. threads \<sigma> t = Waiting key f \<longrightarrow>
        f < next_fetch (sc \<sigma>) \<and>
        (fl_done (fetches (sc \<sigma>) f) \<or> (\<exists>t'. owns (threads \<sigma> t') key f)))"

text \<open>A fetch is owned and awaited under the key it was started for.\<close>

definition inv_keys :: "system \<Rightarrow> bool" where
  "inv_keys \<sigma> =
     ((\<forall>t key f. owns (threads \<sigma> t) key f \<longrightarrow> fetch_key \<sigma> f = key) \<and>
      (\<forall>t key f. threads \<sigma> t = Waiting key f \<longrightarrow> fetch_key \<sigma> f = key))"

text \<open>Every schema in sight was replied by the runner for the key it is returned under.\<close>

definition inv_results :: "system \<Rightarrow> bool" where
  "inv_results \<sigma> =
     ((\<forall>key s. cache (sc \<sigma>) key = Some s \<longrightarrow> replied (replies \<sigma>) key s) \<and>
      (\<forall>f s. f < next_fetch (sc \<sigma>) \<longrightarrow> fl_s (fetches (sc \<sigma>) f) = Some s \<longrightarrow> replied (replies \<sigma>) (fetch_key \<sigma> f) s) \<and>
      (\<forall>t key s e. threads \<sigma> t = Returned key (Some s) e \<longrightarrow> replied (replies \<sigma>) key s))"

lemmas inv_defs = inv_pending_def inv_owner_def inv_waiting_def

lemma in_flight_owns: "in_flight pc key f \<Longrightarrow> owns pc key f"
  by (cases pc) auto

lemma owns_pc:
  "pc = Fetching key f \<Longrightarrow> owns pc key f" "pc = Deferred key f \<Longrightarrow> owns pc key f"
  "pc = Closing key f \<Longrightarrow> owns pc key f"
  by simp_all

lemma inv_ownerD: "inv_owner \<sigma> \<Longrightarrow> owns (threads \<sigma> t) key f \<Longrightarrow> f < next_fetch (sc \<sigma>)"
  by (auto simp: inv_owner_def)

lemma inv_keysD: "inv_keys \<sigma> \<Longrightarrow> owns (threads \<sigma> t) key f \<Longrightarrow> fetch_key \<sigma> f = key"
  by (auto simp: inv_keys_def)

lemma owns_Closing: "owns pc key f \<Longrightarrow> \<not> in_flight pc key f \<Longrightarrow> pc = Closing key f"
  by (cases pc) auto

lemma initial_inv:
  "initial \<sigma> \<Longrightarrow> inv_pending \<sigma> \<and> inv_owner \<sigma> \<and> inv_waiting \<sigma> \<and> inv_keys \<sigma> \<and> inv_results \<sigma>"
  by (auto simp: initial_def NewSchemaCache_def inv_defs inv_keys_def inv_results_def)
     (metis in_flight.simps owns.simps get_pc.distinct)+

lemma get_enter_cases:
  assumes "get_enter c key = (c', pc)"
  obtains (hit) s where "cache c key = Some s" "c' = c" "pc = Returned key (Some s) None"
  | (share) f where "cache c key = None" "pending c key = Some f" "c' = c" "pc = Waiting key f"
  | (own) "cache c key = None" "pending c key = None"
      "c' = c\<lparr>pending := (pending c)(key := Some (next_fetch c)),
              fetches := (fetches c)(next_fetch c := \<lparr>fl_done = False, fl_s = None, fl_err = None\<rparr>),
              next_fetch := Suc (next_fetch c)\<rparr>"
      "pc = Fetching key (next_fetch c)"
  using assms by (auto simp: get_enter_def Let_def split: option.splits)

lemma get_fetched_simps [simp]:
  "cache (get_fetched c key f out) = cache c" "pending (get_fetched c key f out) = pending c"
  "next_fetch (get_fetched c key f out) = next_fetch c"
  "g \<noteq> f \<Longrightarrow> fetches (get_fetched c key f out) g = fetches c g"
  "fl_done (fetches (get_fetched c key f out) g) = fl_done (fetches c g)"
  by (auto simp: get_fetched_def Let_def split: fetch_outcome.splits sum.splits)

lemma get_cleanup_simps [simp]:
  "fetches (get_cleanup c key f) = fetches c" "next_fetch (get_cleanup c key f) = next_fetch c"
  "pending (get_cleanup c key f) = (pending c)(key := None)"
  "cache (get_cleanup c key f) =
     (if fl_err (fetches c f) = None then (cache c)(key := fl_s (fetches c f)) else cache c)"
  by (auto simp: get_cleanup_def Let_def)

lemma get_close_simps [simp]:
  "cache (get_close c f) = cache c" "pending (get_close c f) = pending c"
  "next_fetch (get_close c f) = next_fetch c"
  "fl_s (fetches (get_close c f) g) = fl_s (fetches c g)"
  "fl_err (fetches (get_close c f) g) = fl_err (fetches c g)"
  "fl_done (fetches (get_close c f) g) = (g = f \<or> fl_done (fetches c g))"
  by (auto simp: get_close_def)

lemma step_owner: "get_step \<sigma> \<sigma>' \<Longrightarrow> inv_owner \<sigma> \<Longrightarrow> inv_owner \<sigma>'"
proof (induction rule: get_step.induct)
  case (enter \<sigma> t key c' pc)
  from enter(2) show ?case
    by (cases rule: get_enter_cases)
       (use enter in \<open>auto simp: inv_owner_def less_Suc_eq split: if_splits\<close>)
qed (auto simp: inv_owner_def split: if_splits, (metis owns.simps)+)

lemma step_pending: "get_step \<sigma> \<sigma>' \<Longrightarrow> inv_owner \<sigma> \<Longrightarrow> inv_pending \<sigma> \<Longrightarrow> inv_pending \<sigma>'"
proof (induction rule: get_step.induct)
  case (enter \<sigma> t key c' pc)
  then have nf: "\<And>g k. \<not> in_flight (threads \<sigma> t) k g" by simp
  from enter(2) show ?case
  proof (cases rule: get_enter_cases)
    case own
    then have "\<And>t' f. \<not> in_flight (threads \<sigma> t') key f" using enter(4)
      unfolding inv_pending_def by (metis option.distinct(1))
    with own enter(4) show ?thesis by (auto simp: inv_pending_def) (metis nf)
  next
    case (hit s)
    with enter(4) show ?thesis by (auto simp: inv_pending_def) (metis nf)
  next
    case (share f)
    with enter(4) show ?thesis by (auto simp: inv_pending_def) (metis nf)
  qed
next
  case (cleanup \<sigma> t key f)
  have only: "\<not> in_flight (threads \<sigma> t') key g" if "t' \<noteq> t" for t' g
  proof
    assume g: "in_flight (threads \<sigma> t') key g"
    have "in_flight (threads \<sigma> t) key f" using cleanup(1) by simp
    with g cleanup(3) have "g = f" unfolding inv_pending_def by (metis option.inject)
    with g cleanup(1,2) that show False
      using in_flight_owns [OF g] unfolding inv_owner_def by (metis owns.simps(2))
  qed
  moreover have "\<And>k g. in_flight (threads \<sigma> t) k g \<Longrightarrow> k = key" using cleanup(1) by simp
  ultimately show ?case using cleanup(3) by (auto simp: inv_pending_def) metis+
next
  case (fetched \<sigma> t key f out)
  have "in_flight ((\<lambda>x. if x = t then Deferred key f else threads \<sigma> x) t') k g = in_flight (threads \<sigma> t') k g"
    for t' k g using fetched(1) by simp
  with fetched show ?case by (simp add: inv_pending_def fun_upd_def)
next
  case (closing \<sigma> t key f)
  then have "\<And>g k. \<not> in_flight (threads \<sigma> t) k g" by simp
  with closing(3) show ?case by (auto simp: inv_pending_def) metis
next
  case (woken \<sigma> t key f)
  then have "\<And>g k. \<not> in_flight (threads \<sigma> t) k g" by simp
  with woken(4) show ?case by (auto simp: inv_pending_def) metis
next
  case (cancelled \<sigma> t key f ctx_err)
  then have "\<And>g k. \<not> in_flight (threads \<sigma> t) k g" by simp
  with cancelled(3) show ?case by (auto simp: inv_pending_def) metis
next
  case (again \<sigma> t key s e key')
  then have "\<And>g k. \<not> in_flight (threads \<sigma> t) k g" by simp
  with again(3) show ?case by (auto simp: inv_pending_def) metis
qed

lemma step_waiting:
  "get_step \<sigma> \<sigma>' \<Longrightarrow> inv_owner \<sigma> \<Longrightarrow> inv_pending \<sigma> \<Longrightarrow> inv_waiting \<sigma> \<Longrightarrow> inv_waiting \<sigma>'"
proof (induction rule: get_step.induct)
  case (enter \<sigma> t key c' pc)
  from enter(2) show ?case
  proof (cases rule: get_enter_cases)
    case (share f)
    then obtain t' where "in_flight (threads \<sigma> t') key f" using enter(4) by (auto simp: inv_pending_def)
    then have "owns (threads \<sigma> t') key f" "t' \<noteq> t" using enter(1) by (auto dest: in_flight_owns)
    moreover from this have "f < next_fetch (sc \<sigma>)" using enter(3) by (auto simp: inv_owner_def)
    ultimately show ?thesis using share enter(1,5) by (auto simp: inv_waiting_def) (metis owns.simps(4))+
  next
    case (hit s)
    with enter(1,5) show ?thesis by (auto simp: inv_waiting_def) (metis owns.simps(4))+
  next
    case own
    with enter(1,5) show ?thesis by (auto simp: inv_waiting_def less_Suc_eq) (metis owns.simps(4))+
  qed
next
  case (fetched \<sigma> t key f out)
  then show ?case by (auto simp: inv_waiting_def) (metis owns.simps(1))+
next
  case (cleanup \<sigma> t key f)
  then show ?case by (auto simp: inv_waiting_def) (metis owns.simps(2))+
next
  case (closing \<sigma> t key f)
  then show ?case by (auto simp: inv_waiting_def) (metis owns.simps(3))+
next
  case (woken \<sigma> t key f)
  then show ?case by (auto simp: inv_waiting_def) (metis owns.simps(5))+
next
  case (cancelled \<sigma> t key f ctx_err)
  then show ?case by (auto simp: inv_waiting_def) (metis owns.simps(5))+
next
  case (again \<sigma> t key s e key')
  then show ?case by (auto simp: inv_waiting_def) (metis owns.simps(6))+
qed

lemma get_fetched_own:
  "fl_s (fetches (get_fetched c key f out) f) =
     (case out of Replied (Inr s) \<Rightarrow> Some s | Replied (Inl e) \<Rightarrow> None | Panicked m \<Rightarrow> fl_s (fetches c f))"
  "(fl_err (fetches (get_fetched c key f out) f) = None) = (\<exists>s. out = Replied (Inr s))"
  by (auto simp: get_fetched_def Let_def split: fetch_outcome.splits sum.splits)

lemma replied_snoc [simp]:
  "replied (rs @ [(key', out)]) key s = (replied rs key s \<or> (key = key' \<and> out = Replied (Inr s)))"
  by (auto simp: replied_def)

lemma step_keys:
  "get_step \<sigma> \<sigma>' \<Longrightarrow> inv_owner \<sigma> \<Longrightarrow> inv_pending \<sigma> \<Longrightarrow> inv_waiting \<sigma> \<Longrightarrow> inv_keys \<sigma> \<Longrightarrow> inv_keys \<sigma>'"
proof (induction rule: get_step.induct)
  case (enter \<sigma> t key c' pc)
  from enter(2) show ?case
  proof (cases rule: get_enter_cases)
    case (share f)
    then obtain t' where "in_flight (threads \<sigma> t') key f" using enter(4) by (auto simp: inv_pending_def)
    then have "owns (threads \<sigma> t') key f" by (rule in_flight_owns)
    with share enter(6) show ?thesis by (auto simp: inv_keys_def)
  next
    case own
    moreover have "\<not> owns (threads \<sigma> t') k (next_fetch (sc \<sigma>))" for t' k
      using inv_ownerD [OF enter(3)] by blast
    moreover have "threads \<sigma> t' \<noteq> Waiting k (next_fetch (sc \<sigma>))" for t' k
      using enter(5) unfolding inv_waiting_def by blast
    ultimately show ?thesis
      using enter(6) by (auto simp: inv_keys_def)
  qed (use enter in \<open>auto simp: inv_keys_def\<close>)
qed (auto simp: inv_keys_def, (metis owns_pc)+)

lemma step_results:
  "get_step \<sigma> \<sigma>' \<Longrightarrow> inv_owner \<sigma> \<Longrightarrow> inv_waiting \<sigma> \<Longrightarrow> inv_keys \<sigma> \<Longrightarrow> inv_results \<sigma> \<Longrightarrow> inv_results \<sigma>'"
proof (induction rule: get_step.induct)
  case (enter \<sigma> t key c' pc)
  from enter(2) show ?case
    by (cases rule: get_enter_cases) (use enter in \<open>auto simp: inv_results_def less_Suc_eq\<close>)
next
  case (fetched \<sigma> t key f out)
  have k: "fetch_key \<sigma> f = key" using inv_keysD [OF fetched(4) owns_pc(1) [OF fetched(1)]] .
  have "replied (replies \<sigma>) (fetch_key \<sigma> g) s \<or> (fetch_key \<sigma> g = key \<and> out = Replied (Inr s))"
    if "g < next_fetch (sc \<sigma>)" "fl_s (fetches (get_fetched (sc \<sigma>) key f out) g) = Some s" for g s
    using that fetched(5) k
    by (cases "g = f") (auto simp: get_fetched_own inv_results_def split: fetch_outcome.splits sum.splits)
  with fetched(5) show ?case by (auto simp: inv_results_def)
next
  case (cleanup \<sigma> t key f)
  then have "f < next_fetch (sc \<sigma>)" "fetch_key \<sigma> f = key"
    by (blast intro: inv_ownerD inv_keysD owns_pc)+
  with cleanup(5) show ?case by (auto simp: inv_results_def)
next
  case (closing \<sigma> t key f)
  then have "f < next_fetch (sc \<sigma>)" "fetch_key \<sigma> f = key"
    by (blast intro: inv_ownerD inv_keysD owns_pc)+
  with closing(5) show ?case by (auto simp: inv_results_def)
next
  case (woken \<sigma> t key f)
  then have "f < next_fetch (sc \<sigma>)" "fetch_key \<sigma> f = key"
    by (auto simp: inv_waiting_def inv_keys_def)
  with woken(6) show ?case by (auto simp: inv_results_def)
qed (auto simp: inv_results_def)

lemma reachable_inv:
  "reachable \<sigma> \<Longrightarrow> inv_pending \<sigma> \<and> inv_owner \<sigma> \<and> inv_waiting \<sigma> \<and> inv_keys \<sigma> \<and> inv_results \<sigma>"
  by (induction rule: reachable.induct)
     (blast intro: step_pending step_owner step_waiting step_keys step_results dest: initial_inv)+

section \<open>At most one successful fetch per key\<close>

definition successes :: "string \<Rightarrow> (string \<times> fetch_outcome) list \<Rightarrow> nat" where
  "successes key rs = length (filter (\<lambda>(k, out). k = key \<and> (\<exists>s. out = Replied (Inr s))) rs)"

text \<open>A successful reply is held by its owner until the second critical section caches it.\<close>

definition once_ok :: "system \<Rightarrow> string \<Rightarrow> bool" where
  "once_ok \<sigma> key =
     (successes key (replies \<sigma>) =
        (if cache (sc \<sigma>) key \<noteq> None then 1
         else case pending (sc \<sigma>) key of
             None \<Rightarrow> 0
           | Some f \<Rightarrow> if fl_s (fetches (sc \<sigma>) f) = None then 0 else 1))"

text \<open>Before its reply a fetch is empty; after it, it has a schema or an error.\<close>

definition inv_empty :: "system \<Rightarrow> bool" where
  "inv_empty \<sigma> =
     ((\<forall>t key f. threads \<sigma> t = Fetching key f \<longrightarrow> fl_s (fetches (sc \<sigma>) f) = None) \<and>
      (\<forall>t key f. threads \<sigma> t = Deferred key f \<longrightarrow>
         (fl_err (fetches (sc \<sigma>) f) = None) = (fl_s (fetches (sc \<sigma>) f) \<noteq> None)))"

lemma successes_snoc [simp]:
  "successes key (rs @ [(k, out)]) = successes key rs + (if k = key \<and> (\<exists>s. out = Replied (Inr s)) then 1 else 0)"
  by (simp add: successes_def)

lemma step_empty: "get_step \<sigma> \<sigma>' \<Longrightarrow> inv_owner \<sigma> \<Longrightarrow> inv_empty \<sigma> \<Longrightarrow> inv_empty \<sigma>'"
proof (induction rule: get_step.induct)
  case (enter \<sigma> t key c' pc)
  have fresh: "\<not> owns (threads \<sigma> t') k (next_fetch (sc \<sigma>))" for t' k
    using inv_ownerD [OF enter(3)] by blast
  then have "threads \<sigma> t' \<noteq> Fetching k (next_fetch (sc \<sigma>))" "threads \<sigma> t' \<noteq> Deferred k (next_fetch (sc \<sigma>))" for t' k
    using owns_pc by blast+
  with enter(2,4) show ?case
    by (cases rule: get_enter_cases) (auto simp: inv_empty_def)
next
  case (fetched \<sigma> t key f out)
  have other: "threads \<sigma> t' \<noteq> Fetching k f" "threads \<sigma> t' \<noteq> Deferred k f" if "t' \<noteq> t" for t' k
    using fetched(1,2) that owns_pc unfolding inv_owner_def by metis+
  have f: "fl_s (fetches (sc \<sigma>) f) = None" using fetched(1,3) by (simp add: inv_empty_def)
  have "(\<exists>s. out = Replied (Inr s)) = (fl_s (fetches (get_fetched (sc \<sigma>) key f out) f) \<noteq> None)"
    using f by (auto simp: get_fetched_own split: fetch_outcome.splits sum.splits)
  moreover have same: "fetches (get_fetched (sc \<sigma>) key f out) g = fetches (sc \<sigma>) g"
    if "threads \<sigma> t' = Fetching k g \<or> threads \<sigma> t' = Deferred k g" "t' \<noteq> t" for t' k g
    using other [OF that(2)] that(1) by (cases "g = f") auto
  moreover have "fl_s (fetches (get_fetched (sc \<sigma>) key f out) g) = None"
    if "threads \<sigma> t' = Fetching k g" "t' \<noteq> t" for t' k g
    using same [of t' k g] that fetched(3) by (simp add: inv_empty_def)
  moreover have "(fl_err (fetches (get_fetched (sc \<sigma>) key f out) g) = None) =
                 (fl_s (fetches (get_fetched (sc \<sigma>) key f out) g) \<noteq> None)"
    if "threads \<sigma> t' = Deferred k g" "t' \<noteq> t" for t' k g
    using same [of t' k g] that fetched(3) by (simp add: inv_empty_def)
  ultimately show ?case
    unfolding inv_empty_def by (simp add: get_fetched_own(2))
qed (auto simp: inv_empty_def)

lemma pending_owner:
  assumes "inv_pending \<sigma>" "inv_owner \<sigma>" "pending (sc \<sigma>) k = Some f" "owns (threads \<sigma> t) key f"
  shows "k = key"
proof -
  obtain t' where "in_flight (threads \<sigma> t') k f" using assms(1,3) by (auto simp: inv_pending_def)
  then have "owns (threads \<sigma> t') k f" by (rule in_flight_owns)
  then have "t' = t" using assms(2,4) unfolding inv_owner_def by blast
  with \<open>owns (threads \<sigma> t') k f\<close> assms(4) show ?thesis by (cases "threads \<sigma> t") auto
qed

lemma in_flight_pending:
  "inv_pending \<sigma> \<Longrightarrow> in_flight (threads \<sigma> t) key f \<Longrightarrow>
   pending (sc \<sigma>) key = Some f \<and> cache (sc \<sigma>) key = None"
  unfolding inv_pending_def by (metis option.distinct(1))

lemma pending_bound:
  assumes "inv_pending \<sigma>" "inv_owner \<sigma>" "pending (sc \<sigma>) k = Some f"
  shows "f < next_fetch (sc \<sigma>)"
  using assms inv_ownerD [OF assms(2)] in_flight_owns unfolding inv_pending_def by metis

lemma step_once:
  "get_step \<sigma> \<sigma>' \<Longrightarrow> inv_owner \<sigma> \<Longrightarrow> inv_pending \<sigma> \<Longrightarrow> inv_empty \<sigma> \<Longrightarrow> \<forall>k. once_ok \<sigma> k \<Longrightarrow> once_ok \<sigma>' k"
proof (induction rule: get_step.induct)
  case (enter \<sigma> t key c' pc)
  from enter(2) show ?case
  proof (cases rule: get_enter_cases)
    case own
    have "f \<noteq> next_fetch (sc \<sigma>)" if "pending (sc \<sigma>) k = Some f" for k f
      using pending_bound [OF enter(4,3) that] by simp
    with own enter(6) show ?thesis by (auto simp: once_ok_def split: option.splits)
  qed (use enter spec [OF enter(6), of k] in \<open>auto simp: once_ok_def split: option.splits\<close>)
next
  case (fetched \<sigma> t key f out)
  have "in_flight (threads \<sigma> t) key f" using fetched(1) by simp
  then have p: "pending (sc \<sigma>) key = Some f" "cache (sc \<sigma>) key = None"
    using in_flight_pending [OF fetched(3)] by blast+
  have f: "fl_s (fetches (sc \<sigma>) f) = None" using fetched(1,4) by (simp add: inv_empty_def)
  have ok: "once_ok \<sigma> k" "once_ok \<sigma> key" using fetched(5) by blast+
  show ?case
  proof (cases "k = key")
    case True
    with p f ok(2) show ?thesis
      by (auto simp: once_ok_def get_fetched_own split: fetch_outcome.splits sum.splits)
  next
    case False
    have "g \<noteq> f" if "pending (sc \<sigma>) k = Some g" for g
      using pending_owner [OF fetched(3,2) that owns_pc(1)] fetched(1) False by blast
    with ok(1) False show ?thesis by (auto simp: once_ok_def split: option.splits)
  qed
next
  case (cleanup \<sigma> t key f)
  have "in_flight (threads \<sigma> t) key f" using cleanup(1) by simp
  then have p: "pending (sc \<sigma>) key = Some f" "cache (sc \<sigma>) key = None"
    using in_flight_pending [OF cleanup(3)] by blast+
  have "(fl_err (fetches (sc \<sigma>) f) = None) = (fl_s (fetches (sc \<sigma>) f) \<noteq> None)"
    using cleanup(1,4) by (simp add: inv_empty_def)
  moreover have "once_ok \<sigma> k" "once_ok \<sigma> key" using cleanup(5) by blast+
  ultimately show ?case using p by (auto simp: once_ok_def split: option.splits)
qed (drule spec [of _ k], force simp: once_ok_def split: option.splits)+

lemma reachable_once: "reachable \<sigma> \<Longrightarrow> inv_empty \<sigma> \<and> (\<forall>k. once_ok \<sigma> k)"
proof (induction rule: reachable.induct)
  case (init \<sigma>)
  then show ?case
    by (auto simp: initial_def NewSchemaCache_def inv_empty_def once_ok_def successes_def)
       (metis get_pc.distinct)+
next
  case (step \<sigma> \<sigma>')
  with reachable_inv [of \<sigma>] show ?case by (blast intro: step_empty step_once)
qed

section \<open>Properties\<close>

text \<open>
  C36: In every interleaving of any number of callers, at most one caller is fetching the
  schema of a key at any time, and the runner is asked successfully at most once per key:
  concurrent misses share one fetch and a cached schema is never fetched again.
\<close>

theorem SchemaCache_single_flight:
  assumes "reachable \<sigma>"
  shows "(\<forall>t t' key f f'. threads \<sigma> t = Fetching key f \<longrightarrow> threads \<sigma> t' = Fetching key f' \<longrightarrow> t = t') \<and>
         (\<forall>key. successes key (replies \<sigma>) \<le> 1)"
proof (intro conjI allI impI)
  fix t t' key f f'
  assume t: "threads \<sigma> t = Fetching key f" "threads \<sigma> t' = Fetching key f'"
  note inv = reachable_inv [OF assms]
  have "pending (sc \<sigma>) key = Some f" "pending (sc \<sigma>) key = Some f'"
    using in_flight_pending [of \<sigma>] inv t by (metis in_flight.simps(1))+
  with t inv show "t = t'" unfolding inv_owner_def by (metis option.inject owns.simps(1))
next
  fix key
  show "successes key (replies \<sigma>) \<le> 1"
    using reachable_once [OF assms] by (auto simp: once_ok_def split: if_splits option.splits)
qed

text \<open>
  C37: No caller is left waiting on a fetch nobody will complete: the channel of an awaited
  fetch is closed or its owner is still on its way to closing it, even after a panic; and
  whatever schema a caller gets was replied by the runner for the caller's own key.
\<close>

theorem SchemaCache_no_lost_waiter:
  assumes "reachable \<sigma>"
  shows "(\<forall>t key f. threads \<sigma> t = Waiting key f \<longrightarrow>
            fl_done (fetches (sc \<sigma>) f) \<or> (\<exists>t'. owns (threads \<sigma> t') key f)) \<and>
         (\<forall>t key s e. threads \<sigma> t = Returned key (Some s) e \<longrightarrow> replied (replies \<sigma>) key s)"
  using reachable_inv [OF assms] by (auto simp: inv_waiting_def inv_results_def)

definition two_callers :: system where
  "two_callers = \<lparr>sc = NewSchemaCache, threads = (\<lambda>_. Calling ''aws|t''), replies = [], fetch_key = (\<lambda>_. [])\<rparr>"

lemma two_callers_reachable: "reachable two_callers"
  by (rule reachable.init) (simp add: initial_def two_callers_def)

text \<open>The first caller starts a fetch, the second shares it.\<close>

definition second_waits :: system where
  "second_waits =
     \<lparr>sc = NewSchemaCache\<lparr>pending := (\<lambda>_. None)(''aws|t'' := Some 0),
                          fetches := (\<lambda>_. \<lparr>fl_done = False, fl_s = None, fl_err = None\<rparr>)
                            (0 := \<lparr>fl_done = False, fl_s = None, fl_err = None\<rparr>), next_fetch := Suc 0\<rparr>,
      threads = (\<lambda>_. Calling ''aws|t'')(0 := Fetching ''aws|t'' 0, 1 := Waiting ''aws|t'' 0), replies = [],
      fetch_key = (\<lambda>_. [])(0 := ''aws|t'')\<rparr>"

lemma second_waits_reachable: "reachable second_waits"
proof -
  let ?c = "get_enter NewSchemaCache ''aws|t''"
  have c: "?c = (sc second_waits, Fetching ''aws|t'' 0)"
    by (simp add: get_enter_def NewSchemaCache_def second_waits_def Let_def)
  let ?s1 = "two_callers\<lparr>sc := sc second_waits, threads := (threads two_callers)(0 := Fetching ''aws|t'' 0),
               fetch_key := note_key (Fetching ''aws|t'' 0) (fetch_key two_callers)\<rparr>"
  have "get_step two_callers ?s1"
    by (rule get_step.enter [of two_callers 0 "''aws|t''"]) (simp_all add: two_callers_def c)
  then have r: "reachable ?s1" using two_callers_reachable by (rule reachable.step [rotated])
  have "get_enter (sc ?s1) ''aws|t'' = (sc second_waits, Waiting ''aws|t'' 0)"
    by (simp add: get_enter_def second_waits_def NewSchemaCache_def)
  then have "get_step ?s1 (?s1\<lparr>sc := sc second_waits, threads := (threads ?s1)(1 := Waiting ''aws|t'' 0),
                fetch_key := note_key (Waiting ''aws|t'' 0) (fetch_key ?s1)\<rparr>)"
    by (intro get_step.enter [of ?s1 1 "''aws|t''"]) (simp_all add: two_callers_def)
  moreover have "?s1\<lparr>sc := sc second_waits, threads := (threads ?s1)(1 := Waiting ''aws|t'' 0),
                fetch_key := note_key (Waiting ''aws|t'' 0) (fetch_key ?s1)\<rparr> = second_waits"
    by (simp add: two_callers_def second_waits_def)
  ultimately show ?thesis using reachable.step [OF r] by simp
qed

theorem SchemaCache_single_flight_witness: "successes ''aws|t'' (replies second_waits) \<le> 1"
  using SchemaCache_single_flight [OF second_waits_reachable] by blast

theorem SchemaCache_no_lost_waiter_witness:
  "threads second_waits 1 = Waiting ''aws|t'' 0 \<and>
   (fl_done (fetches (sc second_waits) 0) \<or> (\<exists>t'. owns (threads second_waits t') ''aws|t'' 0))"
proof -
  have "threads second_waits 1 = Waiting ''aws|t'' 0" by (simp add: second_waits_def)
  with SchemaCache_no_lost_waiter [OF second_waits_reachable] show ?thesis by blast
qed

end
