(* ===== verification/Json_Decode.thy ===== *)
theory Json_Decode
  imports Json
begin

text \<open>
  The decoder of \<open>encoding/json\<close> as the operator uses it: one value from the front of a
  byte sequence (\<open>json.Decoder.Decode\<close>), a whole document (\<open>json.Unmarshal\<close>), strings
  unescaped to UTF-8, duplicate keys overwritten, numbers kept as literals. The recursion is
  bounded by the length of the input, which every value consumes; Go's limit of 10000
  nesting levels is not modelled, and neither is the replacement of invalid UTF-8.
\<close>

section \<open>Scanning\<close>

definition json_space :: "char \<Rightarrow> bool" where
  "json_space c = (c = CHR '' '' \<or> c = CHR 0x09 \<or> c = CHR 0x0A \<or> c = CHR 0x0D)"

definition skip_ws :: "string \<Rightarrow> string" where
  "skip_ws s = dropWhile json_space s"

definition hex_val :: "char \<Rightarrow> nat option" where
  "hex_val c =
     (let n = (of_char c :: nat) in
      if 48 \<le> n \<and> n \<le> 57 then Some (n - 48)
      else if 97 \<le> n \<and> n \<le> 102 then Some (n - 87)
      else if 65 \<le> n \<and> n \<le> 70 then Some (n - 55)
      else None)"

text \<open>The four hexadecimal digits of an escape, and the rest.\<close>

fun hex4 :: "string \<Rightarrow> (nat \<times> string) option" where
  "hex4 (a # b # c # d # s) =
     (case (hex_val a, hex_val b, hex_val c, hex_val d) of
        (Some w, Some x, Some y, Some z) \<Rightarrow> Some (4096 * w + 256 * x + 16 * y + z, s)
      | _ \<Rightarrow> None)"
| "hex4 _ = None"

definition utf8 :: "nat \<Rightarrow> string" where
  "utf8 r =
     (if r < 128 then [char_of r]
      else if r < 2048 then [char_of (192 + r div 64), char_of (128 + r mod 64)]
      else if r < 65536 then
        [char_of (224 + r div 4096), char_of (128 + r div 64 mod 64), char_of (128 + r mod 64)]
      else
        [char_of (240 + r div 262144), char_of (128 + r div 4096 mod 64),
         char_of (128 + r div 64 mod 64), char_of (128 + r mod 64)])"

definition rune_error :: string where
  "rune_error = utf8 0xFFFD"

text \<open>
  A \<open>\u\<close> escape: a surrogate pair is one code point, a lone surrogate the replacement
  character.
\<close>

definition decode_rune :: "nat \<Rightarrow> string \<Rightarrow> string \<times> string" where
  "decode_rune r s =
     (if 0xD800 \<le> r \<and> r < 0xE000 then
        (case s of
           a # b # s' \<Rightarrow>
             (if a = CHR 0x5C \<and> b = CHR ''u'' then
                (case hex4 s' of
                   Some (r2, s'') \<Rightarrow>
                     if r < 0xDC00 \<and> 0xDC00 \<le> r2 \<and> r2 < 0xE000
                     then (utf8 ((r - 0xD800) * 1024 + (r2 - 0xDC00) + 0x10000), s'')
                     else (rune_error, s)
                 | None \<Rightarrow> (rune_error, s))
              else (rune_error, s))
         | _ \<Rightarrow> (rune_error, s))
      else (utf8 r, s))"

definition escape_char :: "char \<Rightarrow> char option" where
  "escape_char c =
     (if c = CHR 0x22 \<or> c = CHR 0x5C \<or> c = CHR ''/'' then Some c
      else if c = CHR ''b'' then Some (CHR 0x08)
      else if c = CHR ''f'' then Some (CHR 0x0C)
      else if c = CHR ''n'' then Some (CHR 0x0A)
      else if c = CHR ''r'' then Some (CHR 0x0D)
      else if c = CHR ''t'' then Some (CHR 0x09)
      else None)"

lemma hex4_length: "hex4 s = Some (r, s') \<Longrightarrow> length s = length s' + 4"
  by (cases s rule: hex4.cases) (auto split: option.splits)

lemma decode_rune_length: "decode_rune r s = (bytes, rest) \<Longrightarrow> length rest \<le> length s"
  by (auto simp: decode_rune_def split: list.splits option.splits if_splits dest!: hex4_length)

text \<open>A string literal after its opening quote.\<close>

function parse_string :: "string \<Rightarrow> (string \<times> string) option" where
  "parse_string [] = None"
| "parse_string (c # s) =
     (if c = CHR 0x22 then Some ([], s)
      else if c = CHR 0x5C then
        (case s of
           [] \<Rightarrow> None
         | e # s' \<Rightarrow>
             if e = CHR ''u'' then
               (case hex4 s' of
                  None \<Rightarrow> None
                | Some (r, s'') \<Rightarrow>
                    (case decode_rune r s'' of (bytes, rest) \<Rightarrow>
                       map_option (\<lambda>(t, q). (bytes @ t, q)) (parse_string rest)))
             else
               (case escape_char e of
                  None \<Rightarrow> None
                | Some b \<Rightarrow> map_option (\<lambda>(t, q). (b # t, q)) (parse_string s')))
      else if (of_char c :: nat) < 32 then None
      else map_option (\<lambda>(t, q). (c # t, q)) (parse_string s))"
  by pat_completeness auto
termination
  by (relation "measure length") (auto dest!: hex4_length decode_rune_length [OF sym])

text \<open>A number literal: sign, integer part, fraction, exponent.\<close>

definition scan_int :: "string \<Rightarrow> (string \<times> string) option" where
  "scan_int s =
     (case s of
        [] \<Rightarrow> None
      | c # cs \<Rightarrow>
          if c = CHR ''0'' then Some ([c], cs)
          else if is_digit c then Some (takeWhile is_digit s, dropWhile is_digit s)
          else None)"

definition scan_digits :: "string \<Rightarrow> (string \<times> string) option" where
  "scan_digits s =
     (if takeWhile is_digit s = [] then None else Some (takeWhile is_digit s, dropWhile is_digit s))"

definition scan_frac :: "string \<Rightarrow> (string \<times> string) option" where
  "scan_frac s =
     (case s of
        c # cs \<Rightarrow> if c = CHR ''.'' then map_option (\<lambda>(d, r). (c # d, r)) (scan_digits cs) else Some ([], s)
      | [] \<Rightarrow> Some ([], s))"

definition scan_exp :: "string \<Rightarrow> (string \<times> string) option" where
  "scan_exp s =
     (case s of
        c # cs \<Rightarrow>
          if c = CHR ''e'' \<or> c = CHR ''E'' then
            (case cs of
               d # ds \<Rightarrow>
                 if d = CHR ''+'' \<or> d = CHR ''-'' then map_option (\<lambda>(x, r). (c # d # x, r)) (scan_digits ds)
                 else map_option (\<lambda>(x, r). (c # x, r)) (scan_digits cs)
             | [] \<Rightarrow> None)
          else Some ([], s)
      | [] \<Rightarrow> Some ([], s))"

definition parse_unsigned :: "string \<Rightarrow> (string \<times> string) option" where
  "parse_unsigned s =
     (case scan_int s of
        None \<Rightarrow> None
      | Some (i, s1) \<Rightarrow>
          (case scan_frac s1 of
             None \<Rightarrow> None
           | Some (f, s2) \<Rightarrow> map_option (\<lambda>(e, r). (i @ f @ e, r)) (scan_exp s2)))"

definition parse_number :: "string \<Rightarrow> (string \<times> string) option" where
  "parse_number s =
     (case s of
        [] \<Rightarrow> None
      | c # cs \<Rightarrow>
          if c = CHR ''-'' then map_option (\<lambda>(d, r). (c # d, r)) (parse_unsigned cs)
          else parse_unsigned s)"

definition expect :: "string \<Rightarrow> json \<Rightarrow> string \<Rightarrow> (json \<times> string) option" where
  "expect lit j s = (if HasPrefix s lit then Some (j, drop (length lit) s) else None)"

section \<open>Values\<close>

fun parse_value :: "nat \<Rightarrow> string \<Rightarrow> (json \<times> string) option"
and parse_items :: "nat \<Rightarrow> string \<Rightarrow> (json list \<times> string) option"
and parse_members :: "nat \<Rightarrow> string \<Rightarrow> jobj \<Rightarrow> (jobj \<times> string) option" where
  "parse_value 0 s = None"
| "parse_value (Suc n) s =
     (case skip_ws s of
        [] \<Rightarrow> None
      | c # cs \<Rightarrow>
          if c = CHR 0x22 then map_option (\<lambda>(t, r). (JStr t, r)) (parse_string cs)
          else if c = CHR ''{'' then
            (case skip_ws cs of
               [] \<Rightarrow> None
             | d # ds \<Rightarrow>
                 if d = CHR ''}'' then Some (JObj [], ds)
                 else map_option (\<lambda>(m, r). (JObj m, r)) (parse_members n (d # ds) []))
          else if c = CHR ''['' then
            (case skip_ws cs of
               [] \<Rightarrow> None
             | d # ds \<Rightarrow>
                 if d = CHR '']'' then Some (JArr [], ds)
                 else map_option (\<lambda>(xs, r). (JArr xs, r)) (parse_items n (d # ds)))
          else if c = CHR ''n'' then expect ''null'' JNull (c # cs)
          else if c = CHR ''t'' then expect ''true'' (JBool True) (c # cs)
          else if c = CHR ''f'' then expect ''false'' (JBool False) (c # cs)
          else map_option (\<lambda>(d, r). (JNum d, r)) (parse_number (c # cs)))"
| "parse_items 0 s = None"
| "parse_items (Suc n) s =
     (case parse_value n s of
        None \<Rightarrow> None
      | Some (v, r) \<Rightarrow>
          (case skip_ws r of
             [] \<Rightarrow> None
           | c # cs \<Rightarrow>
               if c = CHR '']'' then Some ([v], cs)
               else if c = CHR '','' then map_option (\<lambda>(vs, q). (v # vs, q)) (parse_items n cs)
               else None))"
| "parse_members 0 s m = None"
| "parse_members (Suc n) s m =
     (case skip_ws s of
        [] \<Rightarrow> None
      | c # cs \<Rightarrow>
          if c \<noteq> CHR 0x22 then None
          else
            (case parse_string cs of
               None \<Rightarrow> None
             | Some (k, r) \<Rightarrow>
                 (case skip_ws r of
                    [] \<Rightarrow> None
                  | d # ds \<Rightarrow>
                      if d \<noteq> CHR '':'' then None
                      else
                        (case parse_value n ds of
                           None \<Rightarrow> None
                         | Some (v, q) \<Rightarrow>
                             (case skip_ws q of
                                [] \<Rightarrow> None
                              | e # es \<Rightarrow>
                                  if e = CHR ''}'' then Some (gomap_put k v m, es)
                                  else if e = CHR '','' then parse_members n es (gomap_put k v m)
                                  else None)))))"

text \<open>
  One value from the front of \<open>s\<close> with the offset behind it, and a document that is one value
  and white space. Every nested call consumes a character, so twice the length is enough
  fuel. The error of an ill-formed document is a fixed text, not Go's.
\<close>

definition decode :: "string \<Rightarrow> (json \<times> nat) option" where
  "decode s = map_option (\<lambda>(j, r). (j, length s - length r)) (parse_value (2 * length s + 2) s)"

definition unmarshal :: "string \<Rightarrow> json result" where
  "unmarshal s =
     (case parse_value (2 * length s + 2) s of
        Some (j, r) \<Rightarrow>
          if skip_ws r = [] then Inr j
          else Inl (Errorf (''invalid character '' @ QuoteRune (hd (skip_ws r)) @ '' after top-level value''))
      | None \<Rightarrow> Inl (Errorf ''invalid or truncated JSON input''))"

section \<open>Decoding inverts marshalling\<close>

lemma hex_val_digit: "d < 16 \<Longrightarrow> hex_val (hex_digit d) = Some d"
proof -
  assume d: "d < 16"
  have "of_char (hex_digit d) = (if d < 10 then 48 + d else 87 + d)"
    using d by (simp add: hex_digit_def)
  then show ?thesis using d by (simp add: hex_val_def Let_def)
qed

lemma hex4_byte: "hex4 (CHR ''0'' # CHR ''0'' # hex_byte c @ s) = Some (of_char c, s)"
proof -
  have "of_char c div 16 < (16 :: nat)" "of_char c mod 16 < (16 :: nat)"
    using nat_of_char_less_256 [of c] by (auto simp: less_mult_imp_div_less)
  then show ?thesis
    by (simp add: hex_byte_def hex_val_digit) (simp add: hex_val_def)
qed

lemma utf8_ascii: "(of_char c :: nat) < 128 \<Longrightarrow> utf8 (of_char c) = [c]"
  by (simp add: utf8_def)

lemma parse_string_plain:
  "c \<noteq> CHR 0x22 \<Longrightarrow> c \<noteq> CHR 0x5C \<Longrightarrow> 32 \<le> (of_char c :: nat) \<Longrightarrow>
   parse_string (c # t) = map_option (\<lambda>(x, q). (c # x, q)) (parse_string t)"
  by simp

lemma parse_string_u00:
  assumes "(of_char c :: nat) < 128"
  shows "parse_string ([CHR 0x5C, CHR ''u'', CHR ''0'', CHR ''0''] @ hex_byte c @ t) =
         map_option (\<lambda>(x, q). (c # x, q)) (parse_string t)"
  using assms hex4_byte [of c t] by (simp add: decode_rune_def utf8_ascii)

lemma parse_string_escape_char:
  "parse_string (json_escape_char c @ t) = map_option (\<lambda>(x, q). (c # x, q)) (parse_string t)"
proof -
  note [simp del] = parse_string.simps
  consider (short) "c \<in> {CHR 0x22, CHR 0x5C, CHR 0x08, CHR 0x0C, CHR 0x0A, CHR 0x0D, CHR 0x09}"
    | (u) "c \<notin> {CHR 0x22, CHR 0x5C, CHR 0x08, CHR 0x0C, CHR 0x0A, CHR 0x0D, CHR 0x09}"
          "(of_char c :: nat) < 32 \<or> c = CHR ''<'' \<or> c = CHR ''>'' \<or> c = CHR ''&''"
    | (plain) "c \<noteq> CHR 0x22" "c \<noteq> CHR 0x5C" "\<not> (of_char c :: nat) < 32"
          "c \<noteq> CHR ''<''" "c \<noteq> CHR ''>''" "c \<noteq> CHR ''&''"
    unfolding insert_iff empty_iff by argo
  then show ?thesis
  proof cases
    case short
    then show ?thesis
      by (elim insertE emptyE) (simp_all add: json_escape_char_def escape_char_def parse_string.simps(2))
  next
    case u
    have "(of_char c :: nat) < 128" using u(2) by (elim disjE) simp_all
    with u parse_string_u00 [of c t] show ?thesis by (simp add: json_escape_char_def)
  next
    case plain
    have "c \<noteq> CHR 0x08" "c \<noteq> CHR 0x0C" "c \<noteq> CHR 0x0A" "c \<noteq> CHR 0x0D" "c \<noteq> CHR 0x09"
      using plain(3) by (intro notI, simp)+
    with plain have "json_escape_char c = [c]" by (simp add: json_escape_char_def)
    with plain parse_string_plain [of c t] show ?thesis by simp
  qed
qed

lemma separator_bytes:
  "char_of (226 :: nat) = CHR 0xE2" "char_of (128 :: nat) = CHR 0x80"
  "char_of (168 :: nat) = CHR 0xA8" "char_of (169 :: nat) = CHR 0xA9"
  by (subst of_char_eq_iff [where ?'a = nat, symmetric], simp)+

lemma parse_string_separator:
  "parse_string ([CHR 0x5C, CHR ''u'', CHR ''2'', CHR ''0'', CHR ''2'', CHR ''8''] @ t) =
     map_option (\<lambda>(x, q). (CHR 0xE2 # CHR 0x80 # CHR 0xA8 # x, q)) (parse_string t)"
  "parse_string ([CHR 0x5C, CHR ''u'', CHR ''2'', CHR ''0'', CHR ''2'', CHR ''9''] @ t) =
     map_option (\<lambda>(x, q). (CHR 0xE2 # CHR 0x80 # CHR 0xA9 # x, q)) (parse_string t)"
  by (simp_all add: hex_val_def decode_rune_def utf8_def separator_bytes)

lemma parse_string_escape: "parse_string (json_escape s @ CHR 0x22 # rest) = Some (s, rest)"
proof (induction s rule: json_escape.induct)
  case (1 a b c s)
  note [simp del] = parse_string.simps json_escape.simps(1)
  show ?case
  proof (cases "a = CHR 0xE2 \<and> b = CHR 0x80 \<and> (c = CHR 0xA8 \<or> c = CHR 0xA9)")
    case True
    then show ?thesis using 1 parse_string_separator
      by (auto simp: json_escape.simps(1))
  next
    case False
    then show ?thesis using 1 by (auto simp: json_escape.simps(1) parse_string_escape_char)
  qed
qed (simp_all add: parse_string_escape_char del: parse_string.simps(2), simp_all)

text \<open>
  A document whose numbers are literals of the grammar and whose objects are canonical, in
  front of a byte that does not continue a number, is read back with the rest of the input.
\<close>

declare parse_value.simps [simp del] parse_items.simps [simp del] parse_members.simps [simp del]

definition num_stop :: "string \<Rightarrow> bool" where
  "num_stop r = (case r of [] \<Rightarrow> True | c # _ \<Rightarrow> \<not> is_digit c \<and> c \<noteq> CHR ''.'' \<and> c \<noteq> CHR ''e'' \<and> c \<noteq> CHR ''E'')"

lemma num_stop_simps [simp]:
  "num_stop []" "num_stop (CHR '','' # r)" "num_stop (CHR '']'' # r)" "num_stop (CHR ''}'' # r)"
  by (simp_all add: num_stop_def is_digit_def)

lemma digits_stop:
  assumes "num_stop r"
  shows "takeWhile is_digit (s @ r) = takeWhile is_digit s" "dropWhile is_digit (s @ r) = dropWhile is_digit s @ r"
  using assms by (induction s) (auto simp: num_stop_def split: list.splits)

lemma scan_stop:
  assumes "num_stop r"
  shows "scan_digits s = Some (a, q) \<Longrightarrow> scan_digits (s @ r) = Some (a, q @ r)"
    "scan_int s = Some (a, q) \<Longrightarrow> scan_int (s @ r) = Some (a, q @ r)"
    "scan_frac s = Some (a, q) \<Longrightarrow> scan_frac (s @ r) = Some (a, q @ r)"
    "scan_exp s = Some (a, q) \<Longrightarrow> scan_exp (s @ r) = Some (a, q @ r)"
proof -
  show d: "scan_digits s = Some (a, q) \<Longrightarrow> scan_digits (s @ r) = Some (a, q @ r)" for s a q
    using digits_stop [OF assms] by (auto simp: scan_digits_def split: if_splits)
  have dc: "scan_digits (x # xs) = Some (a, q) \<Longrightarrow> scan_digits (x # xs @ r) = Some (a, q @ r)" for x xs a q
    using d [of "x # xs"] by simp
  show "scan_int s = Some (a, q) \<Longrightarrow> scan_int (s @ r) = Some (a, q @ r)"
    using digits_stop [OF assms, of s]
    by (auto simp: scan_int_def split: list.splits if_splits)
  show "scan_frac s = Some (a, q) \<Longrightarrow> scan_frac (s @ r) = Some (a, q @ r)"
    using assms d by (auto simp: scan_frac_def num_stop_def split: list.splits if_splits)
  show "scan_exp s = Some (a, q) \<Longrightarrow> scan_exp (s @ r) = Some (a, q @ r)"
    using assms d dc by (auto simp: scan_exp_def num_stop_def split: list.splits if_splits)
qed

lemma parse_unsigned_stop:
  "parse_unsigned s = Some (a, q) \<Longrightarrow> num_stop r \<Longrightarrow> parse_unsigned (s @ r) = Some (a, q @ r)"
  using scan_stop [of r] by (fastforce simp: parse_unsigned_def split: option.splits)

lemma parse_number_stop:
  "parse_number s = Some (a, q) \<Longrightarrow> num_stop r \<Longrightarrow> parse_number (s @ r) = Some (a, q @ r)"
  using parse_unsigned_stop [of s _ q r] parse_unsigned_stop [of "tl s" _ q r]
  by (cases s) (auto simp: parse_number_def split: if_splits)

definition json_number :: "string \<Rightarrow> bool" where
  "json_number s = (parse_number s = Some (s, []))"

lemma parse_json_number: "json_number s \<Longrightarrow> num_stop r \<Longrightarrow> parse_number (s @ r) = Some (s, r)"
  using parse_number_stop [of s s "[]" r] by (simp add: json_number_def)

lemma json_number_head: "json_number s \<Longrightarrow> \<exists>c cs. s = c # cs \<and> (c = CHR ''-'' \<or> is_digit c)"
  by (cases s) (auto simp: json_number_def parse_number_def parse_unsigned_def scan_int_def is_digit_def
      split: if_splits option.splits)

fun doc_ok :: "json \<Rightarrow> bool" where
  "doc_ok (JNum s) = json_number s"
| "doc_ok (JArr xs) = (\<forall>x \<in> set xs. doc_ok x)"
| "doc_ok (JObj m) = (gomap_ok m \<and> (\<forall>(k, v) \<in> set m. doc_ok v))"
| "doc_ok _ = True"

text \<open>The first byte of a value is no white space and no closing bracket.\<close>

definition value_head :: "char \<Rightarrow> bool" where
  "value_head c = (c = CHR 0x22 \<or> c = CHR ''{'' \<or> c = CHR ''['' \<or> c = CHR ''n'' \<or> c = CHR ''t'' \<or> c = CHR ''f'' \<or>
     c = CHR ''-'' \<or> is_digit c)"

lemma marshal_head: "doc_ok j \<Longrightarrow> \<exists>c cs. marshal j = c # cs \<and> value_head c"
  by (cases j) (auto simp: value_head_def FormatBool_def marshal_string_def dest: json_number_head)

lemma value_head_no_space: "value_head c \<Longrightarrow> \<not> json_space c \<and> c \<noteq> CHR '']'' \<and> c \<noteq> CHR ''}''"
  by (auto simp: value_head_def json_space_def is_digit_def)

lemma skip_ws_marshal: "doc_ok j \<Longrightarrow> skip_ws (marshal j @ r) = marshal j @ r"
  using marshal_head [of j] value_head_no_space by (auto simp: skip_ws_def)

lemma gomap_put_last: "\<forall>k' \<in> fst ` set m. k' < k \<Longrightarrow> gomap_put k v m = m @ [(k, v)]"
  by (induction m) (auto dest: less_not_sym)

lemma Join_Cons: "Join (x # xs) sep = (if xs = [] then x else x @ sep @ Join xs sep)"
  by (cases xs) auto

lemma marshal_nonempty: "doc_ok j \<Longrightarrow> 0 < length (marshal j)"
  using marshal_head by fastforce

definition parses :: "json \<Rightarrow> bool" where
  "parses j = (\<forall>n r. 2 * length (marshal j) \<le> n \<longrightarrow> num_stop r \<longrightarrow> parse_value n (marshal j @ r) = Some (j, r))"

lemma parse_items_marshal:
  "xs \<noteq> [] \<Longrightarrow> \<forall>x \<in> set xs. doc_ok x \<and> parses x \<Longrightarrow> 2 * length (Join (map marshal xs) '','') + 1 \<le> n \<Longrightarrow>
   parse_items n (Join (map marshal xs) '','' @ CHR '']'' # r) = Some (xs, r)"
proof (induction xs arbitrary: n)
  case (Cons x xs)
  obtain n' where n: "n = Suc n'" using Cons.prems(3) by (cases n) auto
  have x: "parses x" "0 < length (marshal x)" using Cons.prems(2) marshal_nonempty by auto
  show ?case
  proof (cases "xs = []")
    case True
    then show ?thesis using x Cons.prems(3) by (simp add: parse_items.simps n parses_def skip_ws_def json_space_def)
  next
    case False
    let ?t = "Join (map marshal xs) '','' @ CHR '']'' # r"
    have "parse_items n' ?t = Some (xs, r)"
      using Cons.IH [OF False, of n'] Cons.prems False x(2) by (simp add: n Join_Cons)
    moreover have "parse_value n' (marshal x @ CHR '','' # ?t) = Some (x, CHR '','' # ?t)"
      using x(1) Cons.prems(3) False by (simp add: n parses_def Join_Cons)
    ultimately show ?thesis using False
      by (simp add: parse_items.simps n Join_Cons skip_ws_def json_space_def)
  qed
qed simp

abbreviation member_text :: "string \<times> json \<Rightarrow> string" where
  "member_text kv \<equiv> (case kv of (k, v) \<Rightarrow> marshal_string k @ '':'' @ marshal v)"

lemma parse_member:
  assumes "doc_ok v" "parses v" "2 * length (marshal v) \<le> n" "num_stop r"
  shows "parse_members (Suc n) (member_text (k, v) @ r) m =
     (case skip_ws r of
        [] \<Rightarrow> None
      | e # es \<Rightarrow>
          if e = CHR ''}'' then Some (gomap_put k v m, es)
          else if e = CHR '','' then parse_members n es (gomap_put k v m)
          else None)"
proof -
  have "parse_value n (marshal v @ r) = Some (v, r)" using assms by (simp add: parses_def)
  then show ?thesis
    using parse_string_escape [of k "CHR '':'' # marshal v @ r"]
    by (simp add: parse_members.simps marshal_string_def skip_ws_def json_space_def)
qed

definition put_all :: "(string \<times> json) list \<Rightarrow> jobj \<Rightarrow> jobj" where
  "put_all ms m = foldl (\<lambda>m (k, v). gomap_put k v m) m ms"

lemma put_all_simps [simp]: "put_all [] m = m" "put_all ((k, v) # ms) m = put_all ms (gomap_put k v m)"
  by (simp_all add: put_all_def)

lemma put_all_sorted: "gomap_ok (m @ ms) \<Longrightarrow> put_all ms m = m @ ms"
proof (induction ms arbitrary: m)
  case (Cons kv ms)
  obtain k v where kv: "kv = (k, v)" by (cases kv)
  have "gomap_put k v m = m @ [(k, v)]"
    using Cons.prems kv by (intro gomap_put_last) (auto simp: gomap_ok_def sorted_wrt_append)
  then show ?case using Cons by (simp add: kv)
qed simp

lemma parse_members_text:
  "ms \<noteq> [] \<Longrightarrow> \<forall>(k, v) \<in> set ms. doc_ok v \<and> parses v \<Longrightarrow>
   2 * length (Join (map member_text ms) '','') + 1 \<le> n \<Longrightarrow>
   parse_members n (Join (map member_text ms) '','' @ CHR ''}'' # r) m = Some (put_all ms m, r)"
proof (induction ms arbitrary: n m)
  case (Cons kv ms)
  obtain k v where kv: "kv = (k, v)" by (cases kv)
  obtain n' where n: "n = Suc n'" using Cons.prems(3) by (cases n) auto
  have v: "doc_ok v" "parses v" using Cons.prems(2) kv by auto
  have len: "2 * length (marshal v) \<le> n'"
    using Cons.prems(3) by (simp add: n kv Join_Cons split: if_splits)
  show ?case
  proof (cases "ms = []")
    case True
    then show ?thesis
      using parse_member [OF v len, of "CHR ''}'' # r" k m]
      by (simp add: n kv skip_ws_def json_space_def)
  next
    case False
    let ?t = "Join (map member_text ms) '','' @ CHR ''}'' # r"
    have "parse_members n' ?t (gomap_put k v m) = Some (put_all ms (gomap_put k v m), r)"
      by (rule Cons.IH) (use False Cons.prems in \<open>auto simp: kv n Join_Cons marshal_string_def\<close>)
    then show ?thesis
      using parse_member [OF v len, of "CHR '','' # ?t" k m] False
      by (simp add: n kv Join_Cons skip_ws_def json_space_def)
  qed
qed simp

lemma items_head:
  assumes "xs \<noteq> []" "\<forall>x \<in> set xs. doc_ok x"
  shows "\<exists>c t. Join (map marshal xs) sep @ r = c # t \<and> value_head c"
proof -
  obtain x xs' where xs: "xs = x # xs'" using assms(1) by (cases xs) auto
  then obtain c cs where "marshal x = c # cs" "value_head c" using marshal_head [of x] assms(2) by auto
  then show ?thesis by (simp add: xs Join_Cons)
qed

lemma members_head: "m \<noteq> [] \<Longrightarrow> \<exists>t. Join (map member_text m) sep @ r = CHR 0x22 # t"
  by (cases m) (auto simp: Join_Cons marshal_string_def)

lemma parsesI:
  assumes "doc_ok j"
    "\<And>n r. 2 * length (marshal j) \<le> Suc n \<Longrightarrow> num_stop r \<Longrightarrow> parse_value (Suc n) (marshal j @ r) = Some (j, r)"
  shows "parses j"
  unfolding parses_def
proof (intro allI impI)
  fix n r
  assume "2 * length (marshal j) \<le> n" "num_stop r"
  then show "parse_value n (marshal j @ r) = Some (j, r)"
    using assms(2) marshal_nonempty [OF assms(1)] by (cases n) auto
qed

lemma number_head:
  "c = CHR ''-'' \<or> is_digit c \<Longrightarrow>
   \<not> json_space c \<and> c \<noteq> CHR 0x22 \<and> c \<noteq> CHR ''{'' \<and> c \<noteq> CHR ''['' \<and> c \<noteq> CHR ''n'' \<and> c \<noteq> CHR ''t'' \<and> c \<noteq> CHR ''f''"
  by (auto simp: json_space_def is_digit_def)

lemma parses_number: "json_number d \<Longrightarrow> parses (JNum d)"
proof (rule parsesI)
  fix n r
  assume d: "json_number d" and r: "num_stop r"
  obtain c cs where c: "d = c # cs" "c = CHR ''-'' \<or> is_digit c" using json_number_head [OF d] by blast
  show "parse_value (Suc n) (marshal (JNum d) @ r) = Some (JNum d, r)"
    using parse_json_number [OF d r] number_head [OF c(2)] c(1) by (simp add: parse_value.simps skip_ws_def)
qed simp

lemma parses_array:
  assumes "\<forall>x \<in> set xs. doc_ok x \<and> parses x"
  shows "parses (JArr xs)"
proof (rule parsesI)
  fix n r
  let ?t = "Join (map marshal xs) '','' @ CHR '']'' # r"
  assume n: "2 * length (marshal (JArr xs)) \<le> Suc n"
  show "parse_value (Suc n) (marshal (JArr xs) @ r) = Some (JArr xs, r)"
  proof (cases "xs = []")
    case False
    then obtain c t where c: "?t = c # t" "value_head c"
      using items_head [OF False] assms by blast
    have "parse_items n ?t = Some (xs, r)"
      by (rule parse_items_marshal) (use False assms n in auto)
    then show ?thesis using c value_head_no_space [OF c(2)]
      by (simp add: parse_value.simps skip_ws_def json_space_def)
  qed (simp add: parse_value.simps skip_ws_def json_space_def)
qed (use assms in simp)

text \<open>Members in any order, as a struct is printed.\<close>

definition object_text :: "(string \<times> json) list \<Rightarrow> string" where
  "object_text ms = ''{'' @ Join (map member_text ms) '','' @ ''}''"

lemma parse_object_text:
  assumes "\<forall>(k, v) \<in> set ms. doc_ok v \<and> parses v" "2 * length (object_text ms) \<le> Suc n"
  shows "parse_value (Suc n) (object_text ms @ r) = Some (JObj (put_all ms []), r)"
proof (cases "ms = []")
  case False
  let ?t = "Join (map member_text ms) '','' @ CHR ''}'' # r"
  obtain t where c: "?t = CHR 0x22 # t" using members_head [OF False] by blast
  have "parse_members n ?t [] = Some (put_all ms [], r)"
    by (rule parse_members_text) (use False assms in \<open>auto simp: object_text_def\<close>)
  then show ?thesis using c by (simp add: object_text_def parse_value.simps skip_ws_def json_space_def)
qed (simp add: object_text_def parse_value.simps skip_ws_def json_space_def)

lemma parses_object:
  assumes "gomap_ok m" "\<forall>(k, v) \<in> set m. doc_ok v \<and> parses v"
  shows "parses (JObj m)"
  by (rule parsesI) (use assms parse_object_text [OF assms(2)] put_all_sorted [of "[]" m] in \<open>auto simp: object_text_def\<close>)

lemma parses_scalar: "parses JNull" "parses (JBool b)" "parses (JStr t)"
proof -
  show "parses JNull" "parses (JBool b)"
    by (rule parsesI; simp add: parse_value.simps FormatBool_def skip_ws_def json_space_def expect_def)+
  show "parses (JStr t)"
    by (rule parsesI)
       (use parse_string_escape in \<open>simp_all add: parse_value.simps marshal_string_def skip_ws_def json_space_def\<close>)
qed

lemma parse_value_marshal: "doc_ok j \<Longrightarrow> parses j"
proof (induction j rule: marshal.induct)
  case (5 xs)
  then show ?case by (intro parses_array) auto
next
  case (6 m)
  then show ?case by (intro parses_object) auto
qed (simp_all add: parses_scalar parses_number)

lemma decode_marshal:
  assumes "doc_ok j" "num_stop r"
  shows "decode (marshal j @ r) = Some (j, length (marshal j))"
proof -
  have "parse_value (2 * length (marshal j @ r) + 2) (marshal j @ r) = Some (j, r)"
    using parse_value_marshal [OF assms(1)] assms(2) by (simp add: parses_def)
  then show ?thesis unfolding decode_def by simp
qed

lemma unmarshal_marshal:
  assumes "doc_ok j"
  shows "unmarshal (marshal j) = Inr j"
proof -
  have "parse_value (2 * length (marshal j) + 2) (marshal j @ []) = Some (j, [])"
    using parse_value_marshal [OF assms] by (simp add: parses_def del: append_Nil2)
  then show ?thesis unfolding unmarshal_def by (simp add: skip_ws_def)
qed

lemma decode_object_text:
  assumes "\<forall>(k, v) \<in> set ms. doc_ok v"
  shows "decode (object_text ms @ r) = Some (JObj (put_all ms []), length (object_text ms))"
proof -
  have "\<forall>(k, v) \<in> set ms. doc_ok v \<and> parses v" using assms parse_value_marshal by auto
  from parse_object_text [OF this, of "Suc (2 * length (object_text ms @ r))" r]
  show ?thesis by (simp add: decode_def)
qed

lemma unmarshal_object_text:
  assumes "\<forall>(k, v) \<in> set ms. doc_ok v" "\<forall>c \<in> set r. json_space c"
  shows "unmarshal (object_text ms @ r) = Inr (JObj (put_all ms []))"
proof -
  have "\<forall>(k, v) \<in> set ms. doc_ok v \<and> parses v" using assms(1) parse_value_marshal by auto
  from parse_object_text [OF this, of "Suc (2 * length (object_text ms @ r))" r]
  show ?thesis using assms(2) by (simp add: unmarshal_def skip_ws_def dropWhile_eq_Nil_conv)
qed

end
