(* ===== verification/Runner_Spec.thy ===== *)
theory Runner_Spec
  imports Json
begin

text \<open>
  The operation document and the result envelope of a runner
  (\<open>internal/runnerops/spec.go\<close>). Verbs and failure codes are the strings of the
  source, because they travel in JSON and become condition reasons. A nil map and an empty
  one are both \<open>[]\<close> (every reader tests \<open>len(m) == 0\<close> or ranges over it), and an absent
  raw message is the empty string.
\<close>

definition VerbCreate :: string where "VerbCreate = ''create''"
definition VerbPatch :: string where "VerbPatch = ''patch''"
definition VerbRead :: string where "VerbRead = ''read''"
definition VerbDelete :: string where "VerbDelete = ''delete''"
definition VerbSchema :: string where "VerbSchema = ''schema''"
definition VerbEngineUp :: string where "VerbEngineUp = ''engine-up''"
definition VerbEngineDestroy :: string where "VerbEngineDestroy = ''engine-destroy''"

lemmas verb_defs = VerbCreate_def VerbPatch_def VerbRead_def VerbDelete_def VerbSchema_def
  VerbEngineUp_def VerbEngineDestroy_def

definition VerbTakesSecretInputs :: "string \<Rightarrow> bool" where
  "VerbTakesSecretInputs verb =
     (verb = VerbCreate \<or> verb = VerbPatch \<or> verb = VerbEngineUp \<or> verb = VerbEngineDestroy)"

definition CodeInvalidSpec :: string where "CodeInvalidSpec = ''InvalidSpec''"
definition CodeNotFound :: string where "CodeNotFound = ''NotFound''"
definition CodeReadNotSupported :: string where "CodeReadNotSupported = ''ReadNotSupported''"
definition CodeRegistryAuthMissing :: string where "CodeRegistryAuthMissing = ''RegistryAuthMissing''"
definition CodeRegistryResolve :: string where "CodeRegistryResolve = ''RegistryResolveFailed''"
definition CodeSchemaFetch :: string where "CodeSchemaFetch = ''SchemaFetchFailed''"
definition CodeOperationFailed :: string where "CodeOperationFailed = ''OperationFailed''"
definition CodeEngineFailed :: string where "CodeEngineFailed = ''EngineFailed''"
definition CodeOutputParse :: string where "CodeOutputParse = ''OutputParseFailed''"
definition CodePluginInstall :: string where "CodePluginInstall = ''PluginInstallFailed''"
definition CodePluginCacheNotWritable :: string where
  "CodePluginCacheNotWritable = ''PluginCacheNotWritable''"
definition CodeSecretInputMissing :: string where "CodeSecretInputMissing = ''SecretInputMissing''"
definition CodeReplacementRequired :: string where "CodeReplacementRequired = ''ReplacementRequired''"
definition CodeAlreadyExists :: string where "CodeAlreadyExists = ''AlreadyExists''"
definition CodeSecretInputInID :: string where "CodeSecretInputInID = ''SecretInputInID''"

lemmas code_defs = CodeInvalidSpec_def CodeNotFound_def CodeReadNotSupported_def
  CodeRegistryAuthMissing_def CodeRegistryResolve_def CodeSchemaFetch_def CodeOperationFailed_def
  CodeEngineFailed_def CodeOutputParse_def CodePluginInstall_def CodePluginCacheNotWritable_def
  CodeSecretInputMissing_def CodeReplacementRequired_def CodeAlreadyExists_def
  CodeSecretInputInID_def

record Op =
  Verb :: string
  Token :: string
  Package :: string
  op_ID :: string
  Properties :: jobj
  op_EngineState :: string
  op_State :: jobj
  SecretInputs :: "string gomap"

record Result =
  OK :: bool
  res_Code :: string
  res_Message :: string
  res_ID :: string
  Outputs :: jobj
  res_State :: jobj
  res_EngineState :: string
  res_Schema :: string

definition failure :: "string \<Rightarrow> string \<Rightarrow> Result" where
  "failure code msg =
     \<lparr>OK = False, res_Code = code, res_Message = msg, res_ID = [], Outputs = [], res_State = [],
      res_EngineState = [], res_Schema = []\<rparr>"

definition success :: Result where
  "success =
     \<lparr>OK = True, res_Code = [], res_Message = [], res_ID = [], Outputs = [], res_State = [],
      res_EngineState = [], res_Schema = []\<rparr>"

lemma failure_simps [simp]:
  "OK (failure c m) = False" "res_Code (failure c m) = c" "res_Message (failure c m) = m"
  "res_ID (failure c m) = []" "Outputs (failure c m) = []" "res_State (failure c m) = []"
  "res_EngineState (failure c m) = []" "res_Schema (failure c m) = []"
  by (simp_all add: failure_def)

lemma success_simps [simp]:
  "OK success = True" "res_Code success = []" "res_Message success = []" "res_ID success = []"
  "Outputs success = []" "res_State success = []" "res_EngineState success = []"
  "res_Schema success = []"
  by (simp_all add: success_def)

end
