(* ===== verification/Runner_Text.thy ===== *)
theory Runner_Text
  imports Json_Decode Runner_Spec Package_Refs
begin

text \<open>
  The pure text functions of the runner (\<open>internal/runnerops/shared.go\<close>,
  \<open>deletefallback.go\<close>, \<open>execute.go\<close>): what is read out of CLI output, how failures are
  classified, and the documents handed to the CLI.
\<close>

definition MaxEngineStateBytes :: nat where "MaxEngineStateBytes = 900 * 1024"
definition MaxDeleteStateBytes :: nat where "MaxDeleteStateBytes = 64 * 1024"

definition newline :: string where "newline = [CHR 0x0A]"

section \<open>Reading CLI output\<close>

text \<open>
  The scan of \<open>LastJSONObject\<close>: \<open>ls\<close> tells that the position is the start of a line. A
  decoded object is skipped as a whole; anything else advances by one byte.
\<close>

function last_object :: "bool \<Rightarrow> string \<Rightarrow> jobj option \<Rightarrow> jobj option" where
  "last_object ls [] found = found"
| "last_object ls (c # cs) found =
     (if c \<noteq> CHR ''{'' \<or> \<not> ls then last_object (c = CHR 0x0A) cs found
      else case decode (c # cs) of
          Some (JObj m, off) \<Rightarrow> last_object ((c # cs) ! (off - 1) = CHR 0x0A) (drop (off - 1) cs) (Some m)
        | _ \<Rightarrow> last_object False cs found)"
  by pat_completeness auto
termination by (relation "measure (\<lambda>(_, s, _). length s)") auto

definition LastJSONObject :: "string \<Rightarrow> jobj result" where
  "LastJSONObject out =
     (case last_object True out None of
        None \<Rightarrow> Inl (Errorf ''no JSON object found in output'')
      | Some m \<Rightarrow> Inr m)"

definition Truncate :: "string \<Rightarrow> nat \<Rightarrow> string" where
  "Truncate s n = (if length s \<le> n then s else take n s @ ellipsis @ ''(truncated)'')"

definition error_line :: "string \<Rightarrow> bool" where
  "error_line t = (HasPrefix t ''error:'' \<or> HasPrefix t ''error '' \<or> HasPrefix t ''[error]'')"

definition ProviderErrorText :: "string \<Rightarrow> string \<Rightarrow> string" where
  "ProviderErrorText out extra =
     (let lines = filter error_line (map (\<lambda>l. TrimSpace (ToLower l)) (Split out (CHR 0x0A)))
      in Join (lines @ (if extra \<noteq> [] then [ToLower extra] else [])) newline)"

definition text_read_unsupported :: "string \<Rightarrow> bool" where
  "text_read_unsupported t = (Contains t ''not support import'' \<or> Contains t ''import not implemented'')"

definition text_not_found :: "string \<Rightarrow> bool" where
  "text_not_found t =
     list_ex (Contains t) [''not found'', ''notfound'', ''nosuchbucket'', ''does not exist'',
       ''status code: 404'', ''statuscode: 404'']"

definition text_replacement :: "string \<Rightarrow> bool" where
  "text_replacement t =
     list_ex (Contains t) [''immutable'', ''force new'', ''forcenew'', ''cannot be updated'',
       ''cannot update'', ''requires replacement'', ''must be replaced'', ''cannot be changed'']"

definition text_already_exists :: "string \<Rightarrow> bool" where
  "text_already_exists t =
     list_ex (Contains t) [''already exists'', ''alreadyexists'', ''status code: 409'',
       ''statuscode: 409'', ''entity already exists'', ''duplicate'']"

definition classifyDoFailure :: "error \<Rightarrow> string \<Rightarrow> Result" where
  "classifyDoFailure runErr stdout =
     (let t = ProviderErrorText (e_msg runErr @ newline @ stdout) [] in
      if text_read_unsupported t then failure CodeReadNotSupported (e_msg runErr)
      else if text_not_found t then failure CodeNotFound (e_msg runErr)
      else if text_replacement t then failure CodeReplacementRequired (e_msg runErr)
      else if text_already_exists t then failure CodeAlreadyExists (e_msg runErr)
      else failure CodeOperationFailed (e_msg runErr))"

section \<open>Documents for the CLI\<close>

definition engineProgram :: "string \<Rightarrow> jobj \<Rightarrow> string" where
  "engineProgram token props =
     marshal (JObj [(''name'', JStr ''doplane''),
                    (''resources'', JObj [(''res'', JObj [(''properties'', JObj props), (''type'', JStr token)])]),
                    (''runtime'', JStr ''yaml'')])"

definition identRe :: "string \<Rightarrow> bool" where
  "identRe s =
     (case s of
        [] \<Rightarrow> False
      | c # cs \<Rightarrow>
          let letter = (\<lambda>c. let n = (of_char c :: nat) in 65 \<le> n \<and> n \<le> 90 \<or> 97 \<le> n \<and> n \<le> 122 \<or> n = 95)
          in letter c \<and> list_all (\<lambda>c. letter c \<or> is_digit c) cs)"

definition pclString :: "string \<Rightarrow> string" where
  "pclString s = ReplaceAll (ReplaceAll (marshal_string s) ''${'' ''$${'') ''%{'' ''%%{''"

definition indent :: "nat \<Rightarrow> string" where
  "indent n = concat (replicate n ''  '')"

text \<open>The first failing element stops the rendering; the others are joined.\<close>

fun first_error :: "('a result) list \<Rightarrow> 'a list result" where
  "first_error [] = Inr []"
| "first_error (Inl e # rs) = Inl e"
| "first_error (Inr x # rs) = (case first_error rs of Inl e \<Rightarrow> Inl e | Inr xs \<Rightarrow> Inr (x # xs))"

lemma enumerate_size [termination_simp]: "(i, x) \<in> set (enumerate n xs) \<Longrightarrow> size x < Suc (size_list size xs)"
proof -
  assume "(i, x) \<in> set (enumerate n xs)"
  then have "x \<in> set xs" by (simp add: in_set_enumerate_eq) (metis fst_conv le_add_diff_inverse2 nth_mem snd_conv less_diff_conv2)
  then show ?thesis using size_list_estimation' [of x xs "size x" size] by simp
qed

fun pclValue :: "nat \<Rightarrow> json \<Rightarrow> string result" where
  "pclValue depth j =
     (if 32 < depth then Inl (Errorf ''value nesting too deep'')
      else case j of
          JNull \<Rightarrow> Inr ''null''
        | JBool b \<Rightarrow> Inr (FormatBool b)
        | JNum n \<Rightarrow> Inr n
        | JStr s \<Rightarrow> Inr (pclString s)
        | JArr xs \<Rightarrow>
            (case first_error (map (\<lambda>(i, x). case pclValue (Suc depth) x of
                                               Inl e \<Rightarrow> Inl (wrap_error (''index '' @ show_nat i @ '': '') e)
                                             | Inr s \<Rightarrow> Inr s) (enumerate 0 xs)) of
               Inl e \<Rightarrow> Inl e
             | Inr items \<Rightarrow> Inr (''['' @ Join items '', '' @ '']''))
        | JObj m \<Rightarrow>
            (case first_error (map (\<lambda>(k, v). case pclValue (Suc depth) v of
                                               Inl e \<Rightarrow> Inl (wrap_error (''key '' @ Quote k @ '': '') e)
                                             | Inr s \<Rightarrow> Inr (indent (Suc depth) @ pclString k @ '' = '' @ s @ newline)) m) of
               Inl e \<Rightarrow> Inl e
             | Inr rows \<Rightarrow> Inr (''{'' @ newline @ concat rows @ indent depth @ ''}'')))"

definition MarshalPCL :: "jobj \<Rightarrow> string result" where
  "MarshalPCL props =
     (case first_error (map (\<lambda>(k, v).
          if \<not> identRe k then Inl (Errorf (''property name '' @ Quote k @ '' is not a valid PCL identifier''))
          else case pclValue 0 v of
              Inl e \<Rightarrow> Inl (wrap_error (''property '' @ Quote k @ '': '') e)
            | Inr s \<Rightarrow> Inr (k @ '' = '' @ s @ newline)) props) of
        Inl e \<Rightarrow> Inl e
      | Inr rows \<Rightarrow> Inr (concat rows))"

end
