(* ===== verification/Secret_Inputs.thy ===== *)
theory Secret_Inputs
  imports Paths Runner_Spec
begin

text \<open>
  Secret inputs: the plan the operator ships with an operation
  (\<open>internal/pulumido/secretinput.go\<close>), its substitution in the runner and the
  redaction of every output channel (\<open>internal/runnerops/secretinput.go\<close>).
\<close>

section \<open>The plan\<close>

record SecretInput =
  ToPath :: string
  SecretName :: string
  SecretKey :: string

definition secretEnvName :: "nat \<Rightarrow> string" where
  "secretEnvName i = ''DOPLANE_SECRET_'' @ show_nat i"

text \<open>
  The inputs sorted by path, equal paths in their original order (\<open>sort.Slice\<close> on the
  short lists at hand), and the map assignments in that order.
\<close>

fun plan_mapping :: "nat \<Rightarrow> SecretInput list \<Rightarrow> string gomap \<Rightarrow> string gomap" where
  "plan_mapping i [] m = m"
| "plan_mapping i (s # ss) m = plan_mapping (Suc i) ss (gomap_put (ToPath s) (secretEnvName i) m)"

definition secretInputsPlan :: "SecretInput list \<Rightarrow> string gomap \<times> SecretInput list" where
  "secretInputsPlan inputs =
     (let ordered = sort_key ToPath inputs in (plan_mapping 0 ordered [], ordered))"

section \<open>Substitution\<close>

definition missing_env_error :: "string \<Rightarrow> string \<Rightarrow> error" where
  "missing_env_error path envName =
     Errorf (''secret input for property '' @ Quote path @ '': environment variable '' @ envName @
             '' is not set (Secret missing in the runner Job's namespace?)'')"

fun secret_loop ::
  "(string \<Rightarrow> string option) \<Rightarrow> (string \<times> string) list \<Rightarrow> jobj \<Rightarrow> string list \<Rightarrow> jobj \<times> string list result"
where
  "secret_loop lookup [] props values = (props, Inr values)"
| "secret_loop lookup ((path, envName) # rest) props values =
     (case lookup envName of
        None \<Rightarrow> (props, Inl (missing_env_error path envName))
      | Some value \<Rightarrow>
          (case SetPath props path (JStr value) of
             (props', Some e) \<Rightarrow>
               (props', Inl (wrap_error (''secret input for property '' @ Quote path @ '': '') e))
           | (props', None) \<Rightarrow>
               secret_loop lookup rest props' (if value \<noteq> [] then values @ [value] else values)))"

text \<open>The mapping is iterated in the sorted order of its paths, which is its list order.\<close>

definition applySecretInputs :: "Op \<Rightarrow> (string \<Rightarrow> string option) \<Rightarrow> Op \<times> string list result" where
  "applySecretInputs op lookup =
     (if SecretInputs op = [] then (op, Inr [])
      else case secret_loop lookup (SecretInputs op) (Properties op) [] of
        (props, r) \<Rightarrow> (op\<lparr>Properties := props\<rparr>, r))"

section \<open>Redaction\<close>

definition redactedMark :: string where
  "redactedMark = ''(redacted)''"

definition redactString :: "string \<Rightarrow> string list \<Rightarrow> string" where
  "redactString s values = foldl (\<lambda>s v. ReplaceAll s v redactedMark) s values"

definition redactResult :: "Result \<Rightarrow> string list \<Rightarrow> Result" where
  "redactResult res values =
     (if values = [] then res else res\<lparr>res_Message := redactString (res_Message res) values\<rparr>)"

definition minGuardedSecretLen :: nat where
  "minGuardedSecretLen = 6"

definition secret_id_failure :: Result where
  "secret_id_failure = failure CodeSecretInputInID
     (''the provider-assigned id embeds a secret input value and cannot be recorded; '' @
      ''identity-forming properties (names, prefixes) must not come from valuesFrom. '' @
      ''The external resource may have been created and can need manual cleanup'')"

definition guardSecretID :: "Result \<Rightarrow> string list \<Rightarrow> Result" where
  "guardSecretID res values =
     (if res_ID res = [] then res
      else
        let guarded = filter (\<lambda>v. minGuardedSecretLen \<le> length v) values in
        if guarded = [] \<or> redactString (res_ID res) guarded = res_ID res then res
        else secret_id_failure)"

section \<open>The redacting writer\<close>

text \<open>
  \<open>dst\<close> is the text that has reached the destination and \<open>werr\<close> tells which writes fail;
  a failed write leaves nothing behind.
\<close>

record redactingWriter =
  dst :: string
  rw_values :: "string list"
  buf :: string

definition newRedactingWriter :: "string \<Rightarrow> string list \<Rightarrow> redactingWriter" where
  "newRedactingWriter d values = \<lparr>dst = d, rw_values = values, buf = []\<rparr>"

definition WriteString ::
  "(string \<Rightarrow> string \<Rightarrow> error option) \<Rightarrow> redactingWriter \<Rightarrow> string \<Rightarrow> redactingWriter \<times> error option" where
  "WriteString werr w s =
     (case werr (dst w) s of
        Some e \<Rightarrow> (w, Some e)
      | None \<Rightarrow> (w\<lparr>dst := dst w @ s\<rparr>, None))"

definition rw_Flush ::
  "(string \<Rightarrow> string \<Rightarrow> error option) \<Rightarrow> redactingWriter \<Rightarrow> redactingWriter \<times> error option" where
  "rw_Flush werr w =
     (if buf w = [] then (w, None)
      else WriteString werr (w\<lparr>buf := []\<rparr>) (redactString (buf w) (rw_values w)))"

lemma WriteString_buf [simp]: "buf (fst (WriteString werr w s)) = buf w"
  by (simp add: WriteString_def split: option.split)

lemma WriteString_keeps_buf: "WriteString werr w s = (w', e) \<Longrightarrow> buf w' = buf w"
  by (metis WriteString_buf fst_conv)

function rw_loop ::
  "(string \<Rightarrow> string \<Rightarrow> error option) \<Rightarrow> redactingWriter \<Rightarrow> redactingWriter \<times> error option" where
  "rw_loop werr w =
     (case Cut (buf w) (CHR 0x0A) of (line, rest, found) \<Rightarrow>
        if \<not> found then
          (if 2 ^ 20 < length (buf w) then rw_Flush werr w else (w, None))
        else
          (case WriteString werr (w\<lparr>buf := rest\<rparr>) (redactString (line @ [CHR 0x0A]) (rw_values w)) of
             (w', Some e) \<Rightarrow> (w', Some e)
           | (w', None) \<Rightarrow> rw_loop werr w'))"
  by pat_completeness auto
termination
  by (relation "measure (\<lambda>(werr, w). length (buf w))")
     (auto dest!: Cut_found [OF sym] WriteString_keeps_buf [OF sym])

declare rw_loop.simps [simp del]

definition rw_Write ::
  "(string \<Rightarrow> string \<Rightarrow> error option) \<Rightarrow> redactingWriter \<Rightarrow> string \<Rightarrow> redactingWriter \<times> nat \<times> error option" where
  "rw_Write werr w p =
     (case rw_loop werr (w\<lparr>buf := buf w @ p\<rparr>) of (w', err) \<Rightarrow> (w', length p, err))"

section \<open>The plan is deterministic\<close>

lemma plan_mapping_other:
  "p \<notin> ToPath ` set ss \<Longrightarrow> gomap_get (plan_mapping i ss m) p = gomap_get m p"
  by (induction i ss m rule: plan_mapping.induct) (auto simp: gomap_simps)

lemma plan_mapping_nth:
  "distinct (map ToPath ss) \<Longrightarrow> j < length ss \<Longrightarrow>
   gomap_get (plan_mapping i ss m) (ToPath (ss ! j)) = Some (secretEnvName (i + j))"
proof (induction i ss m arbitrary: j rule: plan_mapping.induct)
  case (2 i s ss m)
  show ?case
  proof (cases j)
    case 0
    with 2 show ?thesis by (simp add: plan_mapping_other gomap_simps)
  next
    case (Suc k)
    with 2 show ?thesis by simp
  qed
qed simp

lemma plan_mapping_ok [wf_intros]: "gomap_ok m \<Longrightarrow> gomap_ok (plan_mapping i ss m)"
  by (induction i ss m rule: plan_mapping.induct) (auto intro: wf_intros)

lemma sort_key_unique:
  assumes "distinct (map f xs)" "distinct (map f ys)" "set xs = set ys"
  shows "sort_key f xs = sort_key f ys"
  by (rule map_sorted_distinct_set_unique [of f])
     (use assms in \<open>auto simp: distinct_map\<close>)

text \<open>
  The plan of a set of secret inputs with distinct paths does not depend on the order
  they are listed in (operation documents, and so Job names, are stable), and the i-th
  ordered input is the one its path maps to the i-th variable for.
\<close>

theorem secretInputsPlan_stable:
  assumes "distinct (map ToPath inputs)" "distinct (map ToPath inputs')" "set inputs = set inputs'"
  shows "secretInputsPlan inputs = secretInputsPlan inputs' \<and>
         (\<forall>i < length inputs.
            gomap_get (fst (secretInputsPlan inputs)) (ToPath (snd (secretInputsPlan inputs) ! i)) =
            Some (secretEnvName i))"
proof -
  have "distinct (map ToPath (sort_key ToPath inputs))"
    using assms(1) by (simp add: distinct_map)
  then have "gomap_get (plan_mapping 0 (sort_key ToPath inputs) []) (ToPath (sort_key ToPath inputs ! i)) =
             Some (secretEnvName i)" if "i < length inputs" for i
    using plan_mapping_nth [of "sort_key ToPath inputs" i 0 "[]"] that by simp
  then show ?thesis
    using sort_key_unique [OF assms] by (simp add: secretInputsPlan_def Let_def)
qed

theorem secretInputsPlan_stable_witness:
  "secretInputsPlan [\<lparr>ToPath = ''b'', SecretName = ''s'', SecretKey = ''k''\<rparr>,
                     \<lparr>ToPath = ''a'', SecretName = ''t'', SecretKey = ''k''\<rparr>] =
   secretInputsPlan [\<lparr>ToPath = ''a'', SecretName = ''t'', SecretKey = ''k''\<rparr>,
                     \<lparr>ToPath = ''b'', SecretName = ''s'', SecretKey = ''k''\<rparr>]"
  by (rule secretInputsPlan_stable [THEN conjunct1]) auto

section \<open>Substitution sets the values and hides them in errors\<close>

text \<open>Substitution is the assignment sequence of the document interface.\<close>

definition secret_pairs :: "(string \<Rightarrow> string option) \<Rightarrow> (string \<times> string) list \<Rightarrow> (string \<times> json) list" where
  "secret_pairs lookup plan = map (\<lambda>(p, e). (p, JStr (the (lookup e)))) plan"

lemma secret_loop_assign_all:
  "secret_loop lookup plan props values = (props', Inr vs) \<Longrightarrow>
   jdoc.assign_all props (secret_pairs lookup plan) = (props', None) \<and>
   vs = values @ filter (\<lambda>v. v \<noteq> []) (map (\<lambda>(p, e). the (lookup e)) plan)"
proof (induction plan arbitrary: props "values")
  case (Cons pe plan)
  obtain p e where pe: "pe = (p, e)" by (cases pe)
  with Cons.prems obtain v props1 where step: "lookup e = Some v" "SetPath props p (JStr v) = (props1, None)"
    "secret_loop lookup plan props1 (if v \<noteq> [] then values @ [v] else values) = (props', Inr vs)"
    by (auto split: option.splits prod.splits)
  with Cons.IH [OF step(3)] pe show ?case by (simp add: secret_pairs_def)
qed (simp add: secret_pairs_def)

lemma secret_loop_defined:
  "secret_loop lookup plan props values = (props', Inr vs) \<Longrightarrow> (p, e) \<in> set plan \<Longrightarrow> lookup e \<noteq> None"
  by (induction lookup plan props "values" rule: secret_loop.induct)
     (auto split: option.splits prod.splits)

text \<open>
  After a successful substitution every planned path holds the value of its variable
  (when no planned path addresses a part of another), and the values handed to the
  redactors are exactly the non-empty ones.
\<close>

theorem applySecretInputs_sets:
  assumes "applySecretInputs op lookup = (op', Inr values)"
    and "sorted_wrt (\<lambda>(p, _) (q, _). independent_paths q p) (SecretInputs op)"
  shows "(\<forall>(p, e) \<in> set (SecretInputs op).
            \<exists>v. lookup e = Some v \<and> GetPath (JObj (Properties op')) p = Some (JStr v)) \<and>
         values = filter (\<lambda>v. v \<noteq> []) (map (\<lambda>(p, e). the (lookup e)) (SecretInputs op))"
proof (cases "SecretInputs op = []")
  case True
  with assms show ?thesis by (simp add: applySecretInputs_def)
next
  case False
  then have run: "secret_loop lookup (SecretInputs op) (Properties op) [] = (Properties op', Inr values)"
    using assms(1) by (auto simp: applySecretInputs_def split: prod.splits)
  note asg = secret_loop_assign_all [OF run]
  have "sorted_wrt (\<lambda>(p, _) (q, _). independent_paths q p) (secret_pairs lookup (SecretInputs op))"
    using assms(2) by (simp add: secret_pairs_def sorted_wrt_map case_prod_unfold)
  then have "GetPath (JObj (Properties op')) p = Some (JStr (the (lookup e)))"
    if "(p, e) \<in> set (SecretInputs op)" for p e
    using jdoc.assign_all_read [of "Properties op" _ "Properties op'" p] asg that
    by (force simp: secret_pairs_def)
  with secret_loop_defined [OF run] asg show ?thesis by fastforce
qed

theorem applySecretInputs_sets_witness:
  "GetPath (JObj (Properties (fst (applySecretInputs
     \<lparr>Verb = VerbCreate, Token = ''t'', Package = [], op_ID = [], Properties = [], op_EngineState = [],
      op_State = [], SecretInputs = [(''a.b'', ''E0''), (''c'', ''E1'')]\<rparr> (\<lambda>e. Some (''v'' @ e)))))) ''a.b'' =
   Some (JStr ''vE0'')"
proof -
  let ?op = "\<lparr>Verb = VerbCreate, Token = ''t'', Package = [], op_ID = [], Properties = [], op_EngineState = [],
      op_State = [], SecretInputs = [(''a.b'', ''E0''), (''c'', ''E1'')]\<rparr>"
  obtain op' vs where r: "applySecretInputs ?op (\<lambda>e. Some (''v'' @ e)) = (op', Inr vs)"
  proof -
    have "isl (snd (applySecretInputs ?op (\<lambda>e. Some (''v'' @ e)))) = False" by code_simp
    then show ?thesis using that by (metis isl_def surj_pair sum.exhaust_sel snd_conv)
  qed
  have "independent_paths ''c'' ''a.b''" by code_simp
  then show ?thesis using applySecretInputs_sets [OF r] r by auto
qed

text \<open>The shape of a document: every string blanked.\<close>

fun shape :: "json \<Rightarrow> json" where
  "shape (JStr s) = JStr []"
| "shape (JArr xs) = JArr (map shape xs)"
| "shape (JObj m) = JObj (map (\<lambda>(k, v). (k, shape v)) m)"
| "shape j = j"

lemma gomap_put_map: "map (\<lambda>(k, v). (k, f v)) (gomap_put k v m) = gomap_put k (f v) (map (\<lambda>(k, v). (k, f v)) m)"
  by (induction k v m rule: gomap_put.induct) auto

lemma gomap_get_map: "gomap_get (map (\<lambda>(k, v). (k, f v)) m) k = map_option f (gomap_get m k)"
  by (induction m) auto

lemma shape_eq_JNull [simp]: "shape j = JNull \<longleftrightarrow> j = JNull"
  by (cases j) auto

lemma JSONKind_shape [simp]: "JSONKind (shape j) = JSONKind j"
  by (cases j) auto

lemma set_segs_shape:
  "set_segs path segs (shape v) (shape j) = apfst shape (set_segs path segs v j)"
  by (induction path segs v j rule: set_segs.induct)
     (auto simp: gomap_put_map gomap_get_map map_update split: option.splits prod.splits)

abbreviation shape_obj :: "jobj \<Rightarrow> jobj" where
  "shape_obj m \<equiv> map (\<lambda>(k, v). (k, shape v)) m"

lemma SetPath_shape: "SetPath (shape_obj m) p (JStr []) = apfst shape_obj (SetPath m p (JStr v))"
proof (cases "parsePath p")
  case (Inr segs)
  have "set_segs p segs (JStr []) (JObj (shape_obj m)) = apfst shape (set_segs p segs (JStr v) (JObj m))"
    using set_segs_shape [of p segs "JStr v" "JObj m"] by simp
  moreover obtain m' where "fst (set_segs p segs (JStr v) (JObj m)) = JObj m'"
    using obj_of_set_segs by metis
  ultimately show ?thesis
    using Inr by (cases "set_segs p segs (JStr v) (JObj m)") (simp add: SetPath_def)
qed (simp add: SetPath_def)

lemma SetPath_same_error:
  "shape_obj m = shape_obj n \<Longrightarrow>
   snd (SetPath m p (JStr v)) = snd (SetPath n p (JStr w)) \<and>
   shape_obj (fst (SetPath m p (JStr v))) = shape_obj (fst (SetPath n p (JStr w)))"
proof -
  assume "shape_obj m = shape_obj n"
  then have "apfst shape_obj (SetPath m p (JStr v)) = apfst shape_obj (SetPath n p (JStr w))"
    using SetPath_shape [of m p v] SetPath_shape [of n p w] by simp
  then show ?thesis
    by (cases "SetPath m p (JStr v)"; cases "SetPath n p (JStr w)") simp
qed

lemma secret_loop_same_error:
  "\<forall>e. (lookup e = None) = (lookup' e = None) \<Longrightarrow> shape_obj m = shape_obj n \<Longrightarrow>
   (snd (secret_loop lookup plan m vs) = Inl err) = (snd (secret_loop lookup' plan n ws) = Inl err)"
proof (induction plan arbitrary: m n vs ws)
  case (Cons pe plan)
  obtain p e where pe: "pe = (p, e)" by (cases pe)
  show ?case
  proof (cases "lookup e")
    case None
    with Cons.prems(1) have "lookup' e = None" by blast
    with None pe show ?thesis by simp
  next
    case (Some v)
    with Cons.prems(1) obtain w where w: "lookup' e = Some w" by (metis option.exhaust)
    note same = SetPath_same_error [OF Cons.prems(2), of p v w]
    obtain m' n' r where r: "SetPath m p (JStr v) = (m', r)" "SetPath n p (JStr w) = (n', r)"
      using same by (metis prod.collapse)
    have "shape_obj m' = shape_obj n'" using same by (simp only: r fst_conv)
    from Cons.IH [OF Cons.prems(1) this] show ?thesis
      by (cases r) (simp_all add: Some w pe r)
  qed
qed simp

text \<open>
  The error of a failed substitution tells nothing about a secret value: two lookups
  that define the same variables, with whatever values, fail with the same error or not at
  all.
\<close>

theorem applySecretInputs_error_hides_values:
  assumes "\<forall>e. (lookup e = None) = (lookup' e = None)"
  shows "(snd (applySecretInputs op lookup) = Inl err) = (snd (applySecretInputs op lookup') = Inl err)"
  using secret_loop_same_error [OF assms refl]
  by (auto simp: applySecretInputs_def split: prod.splits) (metis snd_conv)+

theorem applySecretInputs_error_hides_values_witness:
  "(snd (applySecretInputs
      \<lparr>Verb = VerbCreate, Token = ''t'', Package = [], op_ID = [], Properties = [(''c'', JBool True)],
       op_EngineState = [], op_State = [], SecretInputs = [(''a'', ''E0''), (''c.d'', ''E1'')]\<rparr>
      (\<lambda>e. Some ''hunter2'')) = Inl (Errorf ''x'')) =
   (snd (applySecretInputs
      \<lparr>Verb = VerbCreate, Token = ''t'', Package = [], op_ID = [], Properties = [(''c'', JBool True)],
       op_EngineState = [], op_State = [], SecretInputs = [(''a'', ''E0''), (''c.d'', ''E1'')]\<rparr>
      (\<lambda>e. Some ''other'')) = Inl (Errorf ''x''))"
  by (rule applySecretInputs_error_hides_values) simp

section \<open>Redaction leaves no value behind\<close>

text \<open>
  A value the mark cannot re-create: not empty, no parenthesis, not a part of the word
  between the parentheses of the mark.
\<close>

definition redactable :: "string \<Rightarrow> bool" where
  "redactable v = (v \<noteq> [] \<and> CHR ''('' \<notin> set v \<and> CHR '')'' \<notin> set v \<and> \<not> Contains ''redacted'' v)"

lemma Contains_append_sep:
  assumes "sep \<notin> set w" "Contains (a @ sep # b) w"
  shows "Contains a w \<or> Contains b w"
  using assms(2)
proof (induction a)
  case Nil
  then show ?case using assms(1) by (cases w) auto
next
  case (Cons x a)
  from Cons.prems consider "HasPrefix (x # a @ sep # b) w" | "Contains (a @ sep # b) w" by auto
  then show ?case
  proof cases
    case 1
    then obtain r where r: "x # a @ sep # b = w @ r" by (auto simp: HasPrefix_iff)
    then obtain us where "x # a = w @ us \<or> ((x # a) @ us = w \<and> sep # b = us @ r)"
      using append_eq_append_conv2 [of "x # a" "sep # b" w r] by auto
    then have "\<exists>t. x # a = w @ t"
      using assms(1) by (cases us) auto
    then have "HasPrefix (x # a) w" by (auto simp: HasPrefix_iff)
    then show ?thesis by simp
  next
    case 2
    with Cons.IH show ?thesis by auto
  qed
qed

lemma redactedMark_split: "redactedMark @ t = CHR ''('' # ''redacted'' @ CHR '')'' # t"
  by (simp add: redactedMark_def)

lemma Contains_after_mark:
  assumes "redactable w" "Contains (redactedMark @ t) w"
  shows "Contains t w"
proof -
  have "Contains ([] @ CHR ''('' # ''redacted'' @ CHR '')'' # t) w"
    using assms(2) by (simp only: redactedMark_split append_Nil)
  moreover have w: "CHR ''('' \<notin> set w" "CHR '')'' \<notin> set w" "\<not> Contains ''redacted'' w" "\<not> Contains [] w"
    using assms(1) unfolding redactable_def by auto
  ultimately have "Contains (''redacted'' @ CHR '')'' # t) w"
    using Contains_append_sep [OF w(1)] by blast
  with w show ?thesis using Contains_append_sep [OF w(2)] by blast
qed

lemma HasPrefix_after_replace:
  "CHR ''('' \<notin> set w \<Longrightarrow> HasPrefix (replace_loop s v redactedMark) w \<Longrightarrow> HasPrefix s w"
proof (induction s v redactedMark arbitrary: w rule: replace_loop.induct)
  case (2 c cs v)
  show ?case
  proof (cases w)
    case (Cons x w')
    with 2 show ?thesis by (auto simp: redactedMark_def split: if_splits)
  qed simp
qed (simp add: redactedMark_def)

lemma Contains_drop: "Contains (drop n s) w \<Longrightarrow> Contains s w"
  by (metis Contains_iff append.assoc append_take_drop_id)

lemma Contains_after_replace:
  "redactable w \<Longrightarrow> Contains (replace_loop s v redactedMark) w \<Longrightarrow> Contains s w"
proof (induction s v redactedMark rule: replace_loop.induct)
  case (2 c cs v)
  show ?case
  proof (cases "v \<noteq> [] \<and> HasPrefix (c # cs) v")
    case True
    with 2 have "Contains (redactedMark @ replace_loop (drop (length v) (c # cs)) v redactedMark) w"
      by simp
    then have "Contains (replace_loop (drop (length v) (c # cs)) v redactedMark) w"
      by (rule Contains_after_mark [OF 2(3)])
    with 2(1) [OF True 2(3)] show ?thesis by (blast intro: Contains_drop)
  next
    case False
    then have "replace_loop (c # cs) v redactedMark = c # replace_loop cs v redactedMark" by auto
    with 2(4) consider "HasPrefix (c # replace_loop cs v redactedMark) w"
      | "Contains (replace_loop cs v redactedMark) w" by auto
    then show ?thesis
    proof cases
      case 1
      have "CHR ''('' \<notin> set w" using 2(3) by (simp add: redactable_def)
      with 1 have "HasPrefix (c # cs) w"
        using HasPrefix_after_replace [of "tl w" cs v]
        by (cases w) auto
      then show ?thesis by simp
    next
      case 2
      with "2.hyps"(2) False \<open>redactable w\<close> show ?thesis by auto
    qed
  qed
qed simp

lemma replaced_absent: "redactable v \<Longrightarrow> \<not> Contains (replace_loop s v redactedMark) v"
proof (induction s v redactedMark rule: replace_loop.induct)
  case (1 v)
  then show ?case by (simp add: redactable_def)
next
  case (2 c cs v)
  show ?case
  proof (cases "HasPrefix (c # cs) v")
    case True
    moreover have "v \<noteq> []" using 2(3) by (simp add: redactable_def)
    ultimately show ?thesis
      using 2(1) 2(3) Contains_after_mark [OF 2(3)] by auto
  next
    case False
    have np: "CHR ''('' \<notin> set v" "v \<noteq> []" using 2(3) by (simp_all add: redactable_def)
    have "\<not> HasPrefix (c # replace_loop cs v redactedMark) v"
      using HasPrefix_after_replace [of "tl v" cs v] np False by (cases v) auto
    with False 2(2) 2(3) show ?thesis by auto
  qed
qed

lemma redactString_Cons: "redactString s (v # vs) = redactString (ReplaceAll s v redactedMark) vs"
  by (simp add: redactString_def)

lemma redactString_Nil [simp]: "redactString s [] = s"
  by (simp add: redactString_def)

lemma Contains_redactString:
  "redactable w \<Longrightarrow> [] \<notin> set vs \<Longrightarrow> Contains (redactString s vs) w \<Longrightarrow> Contains s w"
proof (induction vs arbitrary: s)
  case (Cons v vs)
  then have "Contains (redactString (replace_loop s v redactedMark) vs) w"
    by (auto simp: redactString_Cons ReplaceAll_def)
  with Cons.IH [OF Cons.prems(1)] Cons.prems(2) have "Contains (replace_loop s v redactedMark) w" by simp
  then show ?case by (rule Contains_after_replace [OF Cons.prems(1)])
qed simp

lemma redactString_no_value:
  "list_all redactable vs \<Longrightarrow> v \<in> set vs \<Longrightarrow> \<not> Contains (redactString s vs) v"
proof (induction vs arbitrary: s)
  case (Cons x xs)
  have ne: "[] \<notin> set xs" "x \<noteq> []" "redactable x"
    using Cons.prems(1) by (auto simp: list_all_iff redactable_def)
  show ?case
  proof (cases "v \<in> set xs")
    case True
    with Cons show ?thesis by (simp add: redactString_Cons)
  next
    case False
    with Cons.prems(2) have "v = x" by simp
    moreover have "redactString s (x # xs) = redactString (replace_loop s x redactedMark) xs"
      using ne by (simp add: redactString_Cons ReplaceAll_def)
    ultimately show ?thesis
      using replaced_absent [OF ne(3)] Contains_redactString [OF ne(3) ne(1)] by metis
  qed
qed simp

text \<open>
  The message of a redacted result holds no secret value, whatever the values and the
  order they are removed in, for values the redaction mark cannot re-create.
\<close>

theorem redactResult_no_leak:
  assumes "list_all redactable values" "v \<in> set values"
  shows "\<not> Contains (res_Message (redactResult res values)) v"
  using redactString_no_value [OF assms] assms(2) by (auto simp: redactResult_def)

theorem redactResult_no_leak_witness:
  "\<not> Contains (res_Message (redactResult (failure CodeOperationFailed ''login hunter2x failed for bob99'')
                              [''bob99'', ''hunter2x''])) ''hunter2x''"
  by (rule redactResult_no_leak) (simp_all add: redactable_def)

section \<open>No emitted id embeds a guarded value\<close>

lemma count_replace_mono:
  "c \<notin> set v \<Longrightarrow> count_list s c \<le> count_list (replace_loop s v new) c"
proof (induction s v new rule: replace_loop.induct)
  case (2 x xs v new)
  show ?case
  proof (cases "v \<noteq> [] \<and> HasPrefix (x # xs) v")
    case True
    then have s: "x # xs = v @ drop (length v) (x # xs)" by (simp add: HasPrefix_drop)
    have "count_list (x # xs) c = count_list (drop (length v) (x # xs)) c"
      using 2(3) by (subst s) (simp add: count_notin)
    also have "\<dots> \<le> count_list (replace_loop (drop (length v) (x # xs)) v new) c"
      using 2(1) [OF True 2(3)] .
    finally show ?thesis using True by simp
  next
    case False
    with 2 show ?thesis by auto
  qed
qed simp

lemma count_replace_strict:
  "c \<notin> set v \<Longrightarrow> c \<in> set new \<Longrightarrow> v \<noteq> [] \<Longrightarrow> Contains s v \<Longrightarrow>
   count_list s c < count_list (replace_loop s v new) c"
proof (induction s v new rule: replace_loop.induct)
  case (2 x xs v new)
  show ?case
  proof (cases "HasPrefix (x # xs) v")
    case True
    then have s: "x # xs = v @ drop (length v) (x # xs)" by (simp add: HasPrefix_drop)
    have "count_list (x # xs) c = count_list (drop (length v) (x # xs)) c"
      using 2(3) by (subst s) (simp add: count_notin)
    also have "\<dots> \<le> count_list (replace_loop (drop (length v) (x # xs)) v new) c"
      by (rule count_replace_mono [OF 2(3)])
    also have "\<dots> < count_list new c + count_list (replace_loop (drop (length v) (x # xs)) v new) c"
      using 2(4) by (metis add_less_cancel_right add_0 count_list_0_iff gr0I)
    finally show ?thesis using True 2(5) by simp
  next
    case False
    with 2 show ?thesis by auto
  qed
qed simp

lemma count_redactString_mono:
  "list_all (\<lambda>v. v \<noteq> [] \<and> c \<notin> set v) vs \<Longrightarrow> count_list s c \<le> count_list (redactString s vs) c"
proof (induction vs arbitrary: s)
  case (Cons v vs)
  then have "count_list s c \<le> count_list (replace_loop s v redactedMark) c"
    by (simp add: count_replace_mono)
  also have "\<dots> \<le> count_list (redactString (replace_loop s v redactedMark) vs) c"
    using Cons by simp
  finally show ?case using Cons.prems by (simp add: redactString_Cons ReplaceAll_def)
qed simp

lemma redactString_id_iff:
  "list_all (\<lambda>v. v \<noteq> [] \<and> CHR ''('' \<notin> set v) vs \<Longrightarrow>
   redactString s vs = s \<longleftrightarrow> (\<forall>v \<in> set vs. \<not> Contains s v)"
proof (induction vs)
  case (Cons v vs)
  show ?case
  proof (cases "Contains s v")
    case True
    have "count_list s (CHR ''('') < count_list (ReplaceAll s v redactedMark) (CHR ''('')"
      using Cons.prems True count_replace_strict [of "CHR ''(''" v redactedMark s]
      by (auto simp: ReplaceAll_def redactedMark_def)
    also have "\<dots> \<le> count_list (redactString s (v # vs)) (CHR ''('')"
      using Cons.prems by (simp add: redactString_Cons count_redactString_mono)
    finally have "redactString s (v # vs) \<noteq> s" by auto
    with True show ?thesis by auto
  next
    case False
    with Cons show ?thesis by (simp add: redactString_Cons ReplaceAll_absent)
  qed
qed simp

lemma guardSecretID_eq:
  assumes "list_all (\<lambda>v. CHR ''('' \<notin> set v) values"
  shows "guardSecretID res values =
         (if \<exists>v \<in> set values. 6 \<le> length v \<and> Contains (res_ID res) v then secret_id_failure else res)"
proof -
  let ?g = "filter (\<lambda>v. minGuardedSecretLen \<le> length v) values"
  have "list_all (\<lambda>v. v \<noteq> [] \<and> CHR ''('' \<notin> set v) ?g"
    using assms by (auto simp: list_all_iff minGuardedSecretLen_def)
  note eq = redactString_id_iff [OF this, of "res_ID res"]
  have empty: "\<not> Contains (res_ID res) v" if "res_ID res = []" "6 \<le> length v" for v
    using that by (cases v) auto
  show ?thesis
    using eq empty
    by (auto simp: guardSecretID_def Let_def minGuardedSecretLen_def filter_empty_conv)
qed

text \<open>
  A result is replaced by the id failure exactly when its id embeds a secret value of at
  least six bytes (values without an opening parenthesis); otherwise it passes unchanged. So
  no id that reaches the status embeds such a value.
\<close>

theorem guardSecretID_iff:
  assumes "list_all (\<lambda>v. CHR ''('' \<notin> set v) values"
  shows "guardSecretID res values =
         (if \<exists>v \<in> set values. 6 \<le> length v \<and> Contains (res_ID res) v then secret_id_failure else res)"
  by (rule guardSecretID_eq [OF assms])

theorem guardSecretID_iff_witness:
  "guardSecretID (success\<lparr>res_ID := ''db-hunter2x''\<rparr>) [''hunter2x'', ''db''] = secret_id_failure"
  using guardSecretID_iff [of "[''hunter2x'', ''db'']" "success\<lparr>res_ID := ''db-hunter2x''\<rparr>"] by simp

section \<open>The writer's output does not depend on chunking\<close>

text \<open>The lines of a text, each with its newline; an unterminated rest is the last one.\<close>

fun lines_of :: "string \<Rightarrow> string list" where
  "lines_of [] = []"
| "lines_of (c # cs) =
     (if c = CHR 0x0A then [c] # lines_of cs
      else case lines_of cs of [] \<Rightarrow> [[c]] | l # ls \<Rightarrow> (c # l) # ls)"

definition redact_lines :: "string list \<Rightarrow> string \<Rightarrow> string" where
  "redact_lines values s = concat (map (\<lambda>l. redactString l values) (lines_of s))"

text \<open>The bound under which the newline-free backstop stays idle.\<close>

definition short_lines :: "string \<Rightarrow> bool" where
  "short_lines s = list_all (\<lambda>l. length l \<le> 2 ^ 20) (lines_of s)"

definition write_all :: "redactingWriter \<Rightarrow> string list \<Rightarrow> redactingWriter" where
  "write_all w chunks = foldl (\<lambda>w p. fst (rw_Write (\<lambda>_ _. None) w p)) w chunks"

lemma lines_of_line: "CHR 0x0A \<notin> set l \<Longrightarrow> lines_of (l @ CHR 0x0A # s) = (l @ [CHR 0x0A]) # lines_of s"
  by (induction l) auto

lemma lines_of_partial: "CHR 0x0A \<notin> set l \<Longrightarrow> lines_of l = (if l = [] then [] else [l])"
  by (induction l) auto

lemma lines_of_eq_Nil [simp]: "lines_of s = [] \<longleftrightarrow> s = []"
  by (cases s) (auto split: list.splits if_splits)

lemma hd_lines_of_mono: "a \<noteq> [] \<Longrightarrow> length (hd (lines_of a)) \<le> length (hd (lines_of (a @ b)))"
proof (induction a)
  case (Cons c a)
  show ?case
  proof (cases "a = []")
    case False
    then obtain l ls m ms where "lines_of a = l # ls" "lines_of (a @ b) = m # ms"
      by (metis append_is_Nil_conv lines_of_eq_Nil neq_Nil_conv)
    with Cons False show ?thesis by simp
  qed (auto split: list.splits)
qed simp

lemma lines_of_prefix_bound:
  "list_all (\<lambda>l. length l \<le> n) (lines_of (a @ b)) \<Longrightarrow> list_all (\<lambda>l. length l \<le> n) (lines_of a)"
proof (induction a)
  case (Cons c a)
  show ?case
  proof (cases "c = CHR 0x0A \<or> a = []")
    case True
    with Cons show ?thesis by (auto split: list.splits if_splits)
  next
    case False
    then obtain l ls m ms where c: "lines_of a = l # ls" "lines_of (a @ b) = m # ms"
      by (metis append_is_Nil_conv lines_of_eq_Nil neq_Nil_conv)
    with Cons.prems False have m: "Suc (length m) \<le> n" "list_all (\<lambda>l. length l \<le> n) (lines_of (a @ b))"
      by auto
    have "length l \<le> length m" using hd_lines_of_mono [of a b] False c by simp
    with Cons.IH [OF m(2)] m c False show ?thesis by simp
  qed
qed simp

lemma rw_loop_lines:
  assumes "short_lines (buf w)"
  shows "\<exists>pre. buf w = pre @ buf (fst (rw_loop (\<lambda>_ _. None) w)) \<and>
             dst (fst (rw_loop (\<lambda>_ _. None) w)) = dst w @ redact_lines (rw_values w) pre \<and>
             rw_values (fst (rw_loop (\<lambda>_ _. None) w)) = rw_values w \<and>
             CHR 0x0A \<notin> set (buf (fst (rw_loop (\<lambda>_ _. None) w))) \<and>
             (\<forall>s. lines_of (pre @ s) = lines_of pre @ lines_of s)"
  using assms
proof (induction "length (buf w)" arbitrary: w rule: less_induct)
  case less
  obtain line rest found where cut: "Cut (buf w) (CHR 0x0A) = (line, rest, found)"
    by (cases "Cut (buf w) (CHR 0x0A)") auto
  show ?case
  proof (cases found)
    case False
    with cut have nl: "CHR 0x0A \<notin> set (buf w)" by (auto simp: Cut_def Let_def split: if_splits)
    with less.prems have "length (buf w) \<le> 2 ^ 20"
      by (auto simp: short_lines_def lines_of_partial split: if_splits)
    with cut False have "rw_loop (\<lambda>_ _. None) w = (w, None)" by (subst rw_loop.simps) simp
    with nl show ?thesis by (intro exI [of _ "[]"]) (simp add: redact_lines_def)
  next
    case True
    with cut have b: "buf w = line @ CHR 0x0A # rest" "CHR 0x0A \<notin> set line" using Cut_found by auto
    let ?w = "w\<lparr>buf := rest, dst := dst w @ redactString (line @ [CHR 0x0A]) (rw_values w)\<rparr>"
    have step: "rw_loop (\<lambda>_ _. None) w = rw_loop (\<lambda>_ _. None) ?w"
      using cut True by (subst rw_loop.simps) (simp add: WriteString_def)
    have short: "short_lines (buf ?w)" using less.prems b by (simp add: short_lines_def lines_of_line)
    have "length (buf ?w) < length (buf w)" using b by simp
    from less.hyps [OF this short] obtain pre where
      "rest = pre @ buf (fst (rw_loop (\<lambda>_ _. None) ?w))"
      "dst (fst (rw_loop (\<lambda>_ _. None) ?w)) =
         dst w @ redactString (line @ [CHR 0x0A]) (rw_values w) @ redact_lines (rw_values w) pre"
      "rw_values (fst (rw_loop (\<lambda>_ _. None) ?w)) = rw_values w"
      "CHR 0x0A \<notin> set (buf (fst (rw_loop (\<lambda>_ _. None) ?w)))"
      "\<forall>s. lines_of (pre @ s) = lines_of pre @ lines_of s"
      by auto
    then show ?thesis
      unfolding step using b
      by (intro exI [of _ "line @ CHR 0x0A # pre"]) (simp add: redact_lines_def lines_of_line)
  qed
qed

text \<open>What holds between writes: complete lines are out, the rest is buffered.\<close>

definition rw_inv :: "string list \<Rightarrow> string \<Rightarrow> redactingWriter \<Rightarrow> bool" where
  "rw_inv values t w =
     (\<exists>pre. t = pre @ buf w \<and> CHR 0x0A \<notin> set (buf w) \<and> rw_values w = values \<and>
            dst w = redact_lines values pre \<and>
            (\<forall>s. lines_of (pre @ s) = lines_of pre @ lines_of s))"

lemma rw_inv_new: "rw_inv values [] (newRedactingWriter [] values)"
  by (simp add: rw_inv_def newRedactingWriter_def redact_lines_def)

lemma rw_inv_Write:
  assumes "rw_inv values t w" "short_lines (t @ p)"
  shows "rw_inv values (t @ p) (fst (rw_Write (\<lambda>_ _. None) w p))"
proof -
  obtain pre where pre: "t = pre @ buf w" "rw_values w = values" "dst w = redact_lines values pre"
    "\<forall>s. lines_of (pre @ s) = lines_of pre @ lines_of s"
    using assms(1) by (auto simp: rw_inv_def)
  let ?r = "fst (rw_loop (\<lambda>_ _. None) (w\<lparr>buf := buf w @ p\<rparr>))"
  have w: "fst (rw_Write (\<lambda>_ _. None) w p) = ?r" by (simp add: rw_Write_def split: prod.splits)
  have "short_lines (buf (w\<lparr>buf := buf w @ p\<rparr>))" using assms(2) pre by (simp add: short_lines_def)
  from rw_loop_lines [OF this] obtain pre' where
    "buf w @ p = pre' @ buf ?r" "dst ?r = dst w @ redact_lines values pre'" "rw_values ?r = values"
    "CHR 0x0A \<notin> set (buf ?r)" "\<forall>s. lines_of (pre' @ s) = lines_of pre' @ lines_of s"
    using pre by auto
  with pre show ?thesis
    unfolding rw_inv_def w by (intro exI [of _ "pre @ pre'"]) (simp add: redact_lines_def)
qed

lemma rw_inv_all:
  "rw_inv values t w \<Longrightarrow> short_lines (t @ concat chunks) \<Longrightarrow>
   rw_inv values (t @ concat chunks) (write_all w chunks)"
proof (induction chunks arbitrary: t w)
  case (Cons p chunks)
  have "short_lines (t @ p)"
    using Cons.prems(2) lines_of_prefix_bound [of _ "t @ p" "concat chunks"]
    by (simp add: short_lines_def)
  with Cons.IH [OF rw_inv_Write] Cons.prems show ?case by (simp add: write_all_def)
qed (simp add: write_all_def)

lemma rw_inv_Flush:
  "rw_inv values t w \<Longrightarrow> dst (fst (rw_Flush (\<lambda>_ _. None) w)) = redact_lines values t"
  by (auto simp: rw_inv_def rw_Flush_def WriteString_def redact_lines_def lines_of_partial)

lemma writer_output:
  "short_lines (concat chunks) \<Longrightarrow>
   dst (fst (rw_Flush (\<lambda>_ _. None) (write_all (newRedactingWriter [] values) chunks))) =
   redact_lines values (concat chunks)"
  using rw_inv_Flush [OF rw_inv_all [OF rw_inv_new]] by simp

lemma HasPrefix_before_sep: "sep \<notin> set v \<Longrightarrow> HasPrefix (s @ [sep]) v = HasPrefix s v"
proof (induction s v rule: HasPrefix.induct)
  case (2 p ps)
  then show ?case by auto
qed auto

lemma replace_before_sep:
  "sep \<notin> set v \<Longrightarrow> v \<noteq> [] \<Longrightarrow> replace_loop (s @ [sep]) v new = replace_loop s v new @ [sep]"
proof (induction s v new rule: replace_loop.induct)
  case (1 v new)
  then show ?case by (cases v) auto
next
  case (2 c cs v new)
  have p: "HasPrefix (c # cs @ [sep]) v = HasPrefix (c # cs) v"
    using HasPrefix_before_sep [OF 2(3), of "c # cs"] by simp
  show ?case
  proof (cases "HasPrefix (c # cs) v")
    case True
    then have "length v \<le> length (c # cs)" by (metis HasPrefix_iff le_add1 length_append)
    then have "drop (length v) (c # cs @ [sep]) = drop (length v) (c # cs) @ [sep]"
      by (metis append_Cons diff_is_0_eq drop_0 drop_append)
    with True 2 p show ?thesis by simp
  next
    case False
    with 2 p show ?thesis by simp
  qed
qed

lemma redact_before_sep:
  "list_all (\<lambda>v. v \<noteq> [] \<and> sep \<notin> set v) vs \<Longrightarrow> redactString (s @ [sep]) vs = redactString s vs @ [sep]"
  by (induction vs arbitrary: s) (auto simp: redactString_Cons ReplaceAll_def replace_before_sep)

lemma redact_lines_no_value:
  assumes "list_all redactable values" "list_all (\<lambda>v. CHR 0x0A \<notin> set v) values" "v \<in> set values"
  shows "\<not> Contains (redact_lines values s) v"
proof (induction "length s" arbitrary: s rule: less_induct)
  case less
  note nv = redactString_no_value [OF assms(1,3)]
  have v: "v \<noteq> []" "CHR 0x0A \<notin> set v" using assms by (auto simp: list_all_iff redactable_def)
  have vs: "list_all (\<lambda>v. v \<noteq> [] \<and> CHR 0x0A \<notin> set v) values"
    using assms by (auto simp: list_all_iff redactable_def)
  show ?case
  proof (cases "CHR 0x0A \<in> set s")
    case True
    then obtain l r where s: "s = l @ CHR 0x0A # r" "CHR 0x0A \<notin> set l" by (meson split_list_first)
    then have "redact_lines values s = redactString l values @ CHR 0x0A # redact_lines values r"
      by (simp add: redact_lines_def lines_of_line redact_before_sep [OF vs])
    then show ?thesis using less [of r] s nv Contains_append_sep [OF v(2)] by auto
  next
    case False
    then show ?thesis using nv v by (cases v) (auto simp: redact_lines_def lines_of_partial)
  qed
qed

text \<open>
  C38: However the producing process chunks its output, what reaches the destination after
  the final flush is every line redacted on its own, and it holds no secret value that the
  mark cannot re-create and that has no newline (lines up to the writer's 1 MiB backstop).
\<close>

theorem redactingWriter_no_leak:
  assumes "short_lines (concat chunks)" "list_all redactable values"
    and "list_all (\<lambda>v. CHR 0x0A \<notin> set v) values"
  shows "dst (fst (rw_Flush (\<lambda>_ _. None) (write_all (newRedactingWriter [] values) chunks))) =
           redact_lines values (concat chunks) \<and>
         (\<forall>v \<in> set values.
            \<not> Contains (dst (fst (rw_Flush (\<lambda>_ _. None) (write_all (newRedactingWriter [] values) chunks)))) v)"
  using writer_output [OF assms(1)] redact_lines_no_value [OF assms(2,3)] by simp

theorem redactingWriter_no_leak_witness:
  "dst (fst (rw_Flush (\<lambda>_ _. None) (write_all (newRedactingWriter [] [''s3cret''])
       [''pass: s3'', ''cret'' @ [CHR 0x0A], ''ok'']))) = ''pass: (redacted)'' @ [CHR 0x0A] @ ''ok''"
proof -
  have "dst (fst (rw_Flush (\<lambda>_ _. None) (write_all (newRedactingWriter [] [''s3cret''])
       [''pass: s3'', ''cret'' @ [CHR 0x0A], ''ok'']))) =
     redact_lines [''s3cret''] (concat [''pass: s3'', ''cret'' @ [CHR 0x0A], ''ok''])"
    by (rule redactingWriter_no_leak [THEN conjunct1])
       (simp_all add: short_lines_def redactable_def)
  also have "\<dots> = ''pass: (redacted)'' @ [CHR 0x0A] @ ''ok''" by code_simp
  finally show ?thesis .
qed

text \<open>
  A secret value with a newline inside is never matched by the line-wise writer: it
  reaches the destination verbatim, although the same value is redacted from the message.
\<close>

theorem redactingWriter_multiline_value:
  "dst (fst (rw_Flush (\<lambda>_ _. None) (write_all (newRedactingWriter [] [''BEGIN'' @ [CHR 0x0A] @ ''KEY''])
      [''x=BEGIN'' @ [CHR 0x0A] @ ''KEY'']))) = ''x=BEGIN'' @ [CHR 0x0A] @ ''KEY'' \<and>
   redactString (''x=BEGIN'' @ [CHR 0x0A] @ ''KEY'') [''BEGIN'' @ [CHR 0x0A] @ ''KEY''] = ''x=(redacted)''"
proof (rule conjI)
  show "dst (fst (rw_Flush (\<lambda>_ _. None) (write_all (newRedactingWriter [] [''BEGIN'' @ [CHR 0x0A] @ ''KEY''])
      [''x=BEGIN'' @ [CHR 0x0A] @ ''KEY'']))) = ''x=BEGIN'' @ [CHR 0x0A] @ ''KEY''"
    by (subst writer_output)
       (simp_all add: short_lines_def redact_lines_def redactString_def ReplaceAll_def)
  show "redactString (''x=BEGIN'' @ [CHR 0x0A] @ ''KEY'') [''BEGIN'' @ [CHR 0x0A] @ ''KEY''] = ''x=(redacted)''"
    by code_simp
qed

end
