(* ===== verification/Runner_Documents.thy ===== *)
theory Runner_Documents
  imports Runner_Text Secret_Inputs
begin

text \<open>
  The JSON documents that cross process boundaries: the operation document and the result
  envelope (\<open>internal/runnerops/spec.go\<close>), the envelope decoder and the error contract of
  \<open>internal/pulumido/runner.go\<close>, and the schema and checkpoint documents of
  \<open>internal/runnerops\<close>. A struct is printed in field order with its empty
  \<open>omitempty\<close> fields left out. Where Go decodes a number into a \<open>float64\<close>, the parameter
  \<open>float64\<close> gives the literal it prints back. The raw members of a decoded document are
  printed in canonical key order.
\<close>

section \<open>Printing structs\<close>

text \<open>
  \<open>json.Marshal\<close> of a \<open>json.RawMessage\<close>: white space outside strings goes, and \<open><\<close>,
  \<open>>\<close>, \<open>&\<close> are escaped inside them.
\<close>

fun compact_raw :: "bool \<Rightarrow> string \<Rightarrow> string" where
  "compact_raw in_str [] = []"
| "compact_raw False (c # s) =
     (if json_space c then compact_raw False s else c # compact_raw (c = CHR 0x22) s)"
| "compact_raw True (c # s) =
     (if c = CHR 0x5C then
        (case s of [] \<Rightarrow> [c] | d # s' \<Rightarrow> c # d # compact_raw True s')
      else if c = CHR ''<'' \<or> c = CHR ''>'' \<or> c = CHR ''&''
        then [CHR 0x5C, CHR ''u'', CHR ''0'', CHR ''0''] @ hex_byte c @ compact_raw True s
      else c # compact_raw (c \<noteq> CHR 0x22) s)"

definition raw_object :: "(string \<times> string) list \<Rightarrow> string" where
  "raw_object fs = ''{'' @ Join (map (\<lambda>(k, t). marshal_string k @ '':'' @ t) fs) '','' @ ''}''"

text \<open>An \<open>omitempty\<close> field.\<close>

definition omit_string :: "string \<Rightarrow> string \<Rightarrow> (string \<times> string) list" where
  "omit_string k v = (if v = [] then [] else [(k, marshal_string v)])"

definition omit_map :: "string \<Rightarrow> jobj \<Rightarrow> (string \<times> string) list" where
  "omit_map k m = (if m = [] then [] else [(k, marshal (JObj m))])"

definition omit_raw :: "string \<Rightarrow> string \<Rightarrow> (string \<times> string) list" where
  "omit_raw k raw = (if raw = [] then [] else [(k, compact_raw False raw)])"

definition string_map :: "string gomap \<Rightarrow> jobj" where
  "string_map m = map (\<lambda>(k, v). (k, JStr v)) m"

definition raw_error :: "string \<Rightarrow> error option" where
  "raw_error raw =
     (if raw = [] then None
      else case unmarshal raw of
          Inr _ \<Rightarrow> None
        | Inl e \<Rightarrow> Some (wrap_error ''json: error calling MarshalJSON for type json.RawMessage: '' e))"

definition encode_op :: "Op \<Rightarrow> string result" where
  "encode_op op =
     (case raw_error (op_EngineState op) of
        Some e \<Rightarrow> Inl e
      | None \<Rightarrow> Inr (raw_object (
          [(''verb'', marshal_string (Verb op))] @ omit_string ''token'' (Token op) @
          omit_string ''package'' (Package op) @ omit_string ''id'' (op_ID op) @
          omit_map ''properties'' (Properties op) @ omit_raw ''engineState'' (op_EngineState op) @
          omit_map ''state'' (op_State op) @ omit_map ''secretInputs'' (string_map (SecretInputs op)))))"

definition encode_result :: "Result \<Rightarrow> string result" where
  "encode_result res =
     (case raw_error (res_EngineState res) of
        Some e \<Rightarrow> Inl e
      | None \<Rightarrow>
          (case raw_error (res_Schema res) of
             Some e \<Rightarrow> Inl e
           | None \<Rightarrow> Inr (raw_object (
               [(''ok'', FormatBool (OK res))] @ omit_string ''code'' (res_Code res) @
               omit_string ''message'' (res_Message res) @ omit_string ''id'' (res_ID res) @
               omit_map ''outputs'' (Outputs res) @ omit_map ''state'' (res_State res) @
               omit_raw ''engineState'' (res_EngineState res) @ omit_raw ''schema'' (res_Schema res)))))"

section \<open>Reading structs\<close>

text \<open>
  A field takes the value of its key, exact or equal up to case; of several such keys the
  last one counts.
\<close>

definition json_field :: "jobj \<Rightarrow> string \<Rightarrow> json option" where
  "json_field m name = map_option snd (find (\<lambda>(k, _). EqualFold k name) (rev m))"

definition field_error :: "string \<Rightarrow> string \<Rightarrow> json \<Rightarrow> error" where
  "field_error field go_type j =
     Errorf (''json: cannot unmarshal '' @ go_kind j @ '' into Go struct field '' @ field @ '' of type '' @ go_type)"

definition string_field :: "string \<Rightarrow> jobj \<Rightarrow> string \<Rightarrow> string result" where
  "string_field struct m name =
     (case json_field m name of
        None \<Rightarrow> Inr []
      | Some JNull \<Rightarrow> Inr []
      | Some (JStr s) \<Rightarrow> Inr s
      | Some j \<Rightarrow> Inl (field_error (struct @ name) ''string'' j))"

definition bool_field :: "string \<Rightarrow> jobj \<Rightarrow> string \<Rightarrow> bool result" where
  "bool_field struct m name =
     (case json_field m name of
        None \<Rightarrow> Inr False
      | Some JNull \<Rightarrow> Inr False
      | Some (JBool b) \<Rightarrow> Inr b
      | Some j \<Rightarrow> Inl (field_error (struct @ name) ''bool'' j))"

text \<open>Numbers inside an \<open>any\<close> become \<open>float64\<close>.\<close>

fun floats :: "(string \<Rightarrow> string) \<Rightarrow> json \<Rightarrow> json" where
  "floats float64 (JNum n) = JNum (float64 n)"
| "floats float64 (JArr xs) = JArr (map (floats float64) xs)"
| "floats float64 (JObj m) = JObj (map (\<lambda>(k, v). (k, floats float64 v)) m)"
| "floats float64 j = j"

definition floats_obj :: "(string \<Rightarrow> string) \<Rightarrow> jobj \<Rightarrow> jobj" where
  "floats_obj float64 m = map (\<lambda>(k, v). (k, floats float64 v)) m"

definition map_field :: "(string \<Rightarrow> string) \<Rightarrow> string \<Rightarrow> jobj \<Rightarrow> string \<Rightarrow> jobj result" where
  "map_field float64 struct m name =
     (case json_field m name of
        None \<Rightarrow> Inr []
      | Some JNull \<Rightarrow> Inr []
      | Some (JObj o') \<Rightarrow> Inr (floats_obj float64 o')
      | Some j \<Rightarrow> Inl (field_error (struct @ name) ''map[string]interface {}'' j))"

fun strings_of :: "string \<Rightarrow> jobj \<Rightarrow> string gomap result" where
  "strings_of field [] = Inr []"
| "strings_of field ((k, v) # m) =
     (case (case v of JNull \<Rightarrow> Inr [] | JStr s \<Rightarrow> Inr s | _ \<Rightarrow> Inl (field_error field ''string'' v)) of
        Inl e \<Rightarrow> Inl e
      | Inr s \<Rightarrow> (case strings_of field m of Inl e \<Rightarrow> Inl e | Inr m' \<Rightarrow> Inr ((k, s) # m')))"

definition string_map_field :: "string \<Rightarrow> jobj \<Rightarrow> string \<Rightarrow> string gomap result" where
  "string_map_field struct m name =
     (case json_field m name of
        None \<Rightarrow> Inr []
      | Some JNull \<Rightarrow> Inr []
      | Some (JObj o') \<Rightarrow> strings_of (struct @ name) o'
      | Some j \<Rightarrow> Inl (field_error (struct @ name) ''map[string]string'' j))"

text \<open>The raw bytes of a field of a document printed by \<open>json.Marshal\<close>.\<close>

definition raw_field :: "jobj \<Rightarrow> string \<Rightarrow> string" where
  "raw_field m name = (case json_field m name of None \<Rightarrow> [] | Some j \<Rightarrow> marshal j)"

definition and_then :: "'a result \<Rightarrow> ('a \<Rightarrow> 'b result) \<Rightarrow> 'b result" where
  "and_then r f = (case r of Inl e \<Rightarrow> Inl e | Inr x \<Rightarrow> f x)"

lemma and_then_simps [simp]: "and_then (Inl e) f = Inl e" "and_then (Inr x) f = f x"
  by (simp_all add: and_then_def)

definition decode_result :: "(string \<Rightarrow> string) \<Rightarrow> jobj \<Rightarrow> Result result" where
  "decode_result float64 m =
     and_then (string_field ''Result.'' m ''code'') (\<lambda>code.
     and_then (string_field ''Result.'' m ''id'') (\<lambda>rid.
     and_then (string_field ''Result.'' m ''message'') (\<lambda>msg.
     and_then (bool_field ''Result.'' m ''ok'') (\<lambda>ok.
     and_then (map_field float64 ''Result.'' m ''outputs'') (\<lambda>outs.
     and_then (map_field float64 ''Result.'' m ''state'') (\<lambda>st.
       Inr \<lparr>OK = ok, res_Code = code, res_Message = msg, res_ID = rid, Outputs = outs, res_State = st,
            res_EngineState = raw_field m ''engineState'', res_Schema = raw_field m ''schema''\<rparr>))))))"

definition decode_op :: "(string \<Rightarrow> string) \<Rightarrow> string \<Rightarrow> Op result" where
  "decode_op float64 raw =
     and_then (unmarshal raw) (\<lambda>doc.
     and_then (case doc of JObj m \<Rightarrow> Inr m | JNull \<Rightarrow> Inr []
               | j \<Rightarrow> Inl (Errorf (''json: cannot unmarshal '' @ go_kind j @ '' into Go value of type runnerops.Op''))) (\<lambda>m.
     and_then (string_field ''Op.'' m ''verb'') (\<lambda>verb.
     and_then (string_field ''Op.'' m ''token'') (\<lambda>token.
     and_then (string_field ''Op.'' m ''package'') (\<lambda>pkg.
     and_then (string_field ''Op.'' m ''id'') (\<lambda>rid.
     and_then (map_field float64 ''Op.'' m ''properties'') (\<lambda>props.
     and_then (map_field float64 ''Op.'' m ''state'') (\<lambda>st.
     and_then (string_map_field ''Op.'' m ''secretInputs'') (\<lambda>inputs.
       Inr \<lparr>Verb = verb, Token = token, Package = pkg, op_ID = rid, Properties = props,
            op_EngineState = raw_field m ''engineState'', op_State = st, SecretInputs = inputs\<rparr>)))))))))"

section \<open>The envelope and the error contract\<close>

text \<open>\<open>fmt.Errorf("... %w (output: %s)")\<close>.\<close>

definition suffix_error :: "error \<Rightarrow> string \<Rightarrow> error" where
  "suffix_error e suf = e\<lparr>e_msg := e_msg e @ suf\<rparr>"

definition decodeEnvelope :: "(string \<Rightarrow> string) \<Rightarrow> string \<Rightarrow> Result result" where
  "decodeEnvelope float64 out =
     (case LastJSONObject out of
        Inl e \<Rightarrow> Inl (suffix_error (wrap_error ''no result envelope in runner output: '' e)
                        ('' (output: '' @ Truncate out 2000 @ '')''))
      | Inr m \<Rightarrow>
          (case decode_result float64 m of
             Inl e \<Rightarrow> Inl (wrap_error ''decoding result envelope: '' e)
           | Inr res \<Rightarrow>
               if gomap_get m ''ok'' = None then
                 Inl (Errorf (''runner output is not a result envelope (output: '' @ Truncate out 2000 @ '')''))
               else Inr res))"

definition resultErr :: "Result \<Rightarrow> error option" where
  "resultErr res =
     (if OK res then None
      else
        let coded = coded_error \<lparr>Code = res_Code res, Message = res_Message res\<rparr> in
        if res_Code res = CodeNotFound then Some (sentinel_wrap ErrNotFound '': '' coded)
        else if res_Code res = CodeReadNotSupported then Some (sentinel_wrap ErrReadNotSupported '': '' coded)
        else Some coded)"

definition bounded_state :: "jobj \<Rightarrow> jobj" where
  "bounded_state state =
     (if state = [] \<or> MaxDeleteStateBytes < length (marshal (JObj state)) then [] else state)"

definition engineStateJSON :: "string \<Rightarrow> string result" where
  "engineStateJSON state =
     (if state = [] then Inr []
      else if MaxEngineStateBytes < length state then
        Inl (Errorf (''engine state is '' @ show_nat (length state) @ '' bytes, exceeding the '' @
               show_nat MaxEngineStateBytes @ '' byte limit''))
      else Inr state)"

definition classifyInfraFailure :: "string \<Rightarrow> string \<Rightarrow> sentinel option" where
  "classifyInfraFailure logs failMsg =
     (let t = ProviderErrorText logs failMsg in
      if t = [] then None
      else if text_read_unsupported t then Some ErrReadNotSupported
      else None)"

section \<open>Delete fallback documents\<close>

definition deleteFallbackProject :: string where "deleteFallbackProject = ''doplane''"
definition deleteFallbackStack :: string where "deleteFallbackStack = ''dev''"
definition deleteFallbackResource :: string where "deleteFallbackResource = ''target''"
definition deleteFallbackProviderID :: string where
  "deleteFallbackProviderID = ''00000000-0000-4000-8000-000000000001''"

definition deleteFallbackApplies :: "Result \<Rightarrow> bool" where
  "deleteFallbackApplies res =
     (res_Code res = CodeReadNotSupported \<or>
      res_Code res = CodeOperationFailed \<and> Contains (ProviderErrorText (res_Message res) []) ''import'')"

definition deletePluginRef :: "Op \<Rightarrow> (string \<times> string) option" where
  "deletePluginRef op =
     (if Package op = [] then Some (PackageForToken (Token op), [])
      else case ParsePluginRef (Package op) of
          Some (name, version) \<Rightarrow> Some (name, version)
        | None \<Rightarrow> if fst (ClassifyPackageRef (Package op)) = PkgKindPlain then Some (Package op, []) else None)"

record checkpointResource =
  URN :: string
  Custom :: bool
  cr_Type :: string
  cr_ID :: string
  cr_Inputs :: jobj
  cr_Outputs :: jobj
  cr_Provider :: string

definition encode_checkpointResource :: "checkpointResource \<Rightarrow> string" where
  "encode_checkpointResource r =
     raw_object ([(''urn'', marshal_string (URN r)), (''custom'', FormatBool (Custom r)),
       (''type'', marshal_string (cr_Type r)), (''id'', marshal_string (cr_ID r)),
       (''inputs'', marshal (JObj (cr_Inputs r))), (''outputs'', marshal (JObj (cr_Outputs r)))] @
       omit_string ''provider'' (cr_Provider r))"

definition fallback_resources :: "string \<Rightarrow> string \<Rightarrow> string \<Rightarrow> string \<Rightarrow> jobj \<Rightarrow> checkpointResource list" where
  "fallback_resources pluginName pluginVersion token rid state =
     (let urn = (\<lambda>t name. ''urn:pulumi:'' @ deleteFallbackStack @ ''::'' @ deleteFallbackProject @ ''::'' @ t @ ''::'' @ name);
          providerURN = urn (''pulumi:providers:'' @ pluginName) ''default'';
          providerProps = (if pluginVersion \<noteq> [] then [(''version'', JStr pluginVersion)] else [])
      in [\<lparr>URN = providerURN, Custom = True, cr_Type = ''pulumi:providers:'' @ pluginName,
           cr_ID = deleteFallbackProviderID, cr_Inputs = providerProps, cr_Outputs = providerProps, cr_Provider = []\<rparr>,
          \<lparr>URN = urn token deleteFallbackResource, Custom = True, cr_Type = token, cr_ID = rid,
           cr_Inputs = gomap_delete ''id'' state, cr_Outputs = state,
           cr_Provider = providerURN @ ''::'' @ deleteFallbackProviderID\<rparr>])"

definition deleteCheckpoint :: "string \<Rightarrow> string \<Rightarrow> string \<Rightarrow> string \<Rightarrow> jobj \<Rightarrow> string" where
  "deleteCheckpoint pluginName pluginVersion token rid state =
     raw_object [
       (''deployment'', raw_object [
          (''manifest'', marshal (JObj [(''magic'', JStr []), (''time'', JStr ''0001-01-01T00:00:00Z''), (''version'', JStr [])])),
          (''resources'', ''['' @ Join (map encode_checkpointResource
              (fallback_resources pluginName pluginVersion token rid state)) '','' @ '']'')]),
       (''version'', ''3'')]"

section \<open>Schema and engine checkpoints\<close>

definition object_or :: "string \<Rightarrow> json \<Rightarrow> jobj result" where
  "object_or what doc =
     (case doc of
        JObj m \<Rightarrow> Inr m
      | JNull \<Rightarrow> Inr []
      | j \<Rightarrow> Inl (Errorf (''json: cannot unmarshal '' @ go_kind j @ '' into Go value of type '' @ what)))"

definition trimSchema :: "string \<Rightarrow> string \<Rightarrow> string result" where
  "trimSchema raw token =
     (case and_then (unmarshal raw) (\<lambda>doc.
            and_then (object_or ''struct'' doc) (\<lambda>m.
            and_then (string_field ''.'' m ''name'') (\<lambda>name.
            and_then (string_field ''.'' m ''version'') (\<lambda>version.
            and_then (case json_field m ''resources'' of
                        None \<Rightarrow> Inr []
                      | Some j \<Rightarrow> object_or ''map[string]json.RawMessage'' j) (\<lambda>rs.
              Inr (marshal (JObj [(''name'', JStr name),
                 (''resources'', JObj (case gomap_get rs token of None \<Rightarrow> [] | Some r \<Rightarrow> [(token, r)])),
                 (''version'', JStr version)]))))))) of
        Inl e \<Rightarrow> Inl (wrap_error ''parsing provider schema: '' e)
      | Inr s \<Rightarrow> Inr s)"

record checkpoint_entry =
  ce_URN :: string
  ce_Type :: string
  ce_Outputs :: jobj

fun checkpoint_entries :: "(string \<Rightarrow> string) \<Rightarrow> json list \<Rightarrow> checkpoint_entry list result" where
  "checkpoint_entries float64 [] = Inr []"
| "checkpoint_entries float64 (j # js) =
     and_then (object_or ''struct'' j) (\<lambda>m.
     and_then (string_field ''.deployment.resources.'' m ''urn'') (\<lambda>urn.
     and_then (string_field ''.deployment.resources.'' m ''type'') (\<lambda>t.
     and_then (map_field float64 ''.deployment.resources.'' m ''outputs'') (\<lambda>outs.
     and_then (checkpoint_entries float64 js) (\<lambda>rest.
       Inr (\<lparr>ce_URN = urn, ce_Type = t, ce_Outputs = outs\<rparr> # rest))))))"

definition parse_checkpoint :: "(string \<Rightarrow> string) \<Rightarrow> string \<Rightarrow> checkpoint_entry list result" where
  "parse_checkpoint float64 raw =
     and_then (unmarshal raw) (\<lambda>doc.
     and_then (object_or ''struct'' doc) (\<lambda>m.
     and_then (case json_field m ''deployment'' of None \<Rightarrow> Inr [] | Some d \<Rightarrow> object_or ''struct'' d) (\<lambda>dep.
       (case json_field dep ''resources'' of
          None \<Rightarrow> Inr []
        | Some JNull \<Rightarrow> Inr []
        | Some (JArr js) \<Rightarrow> checkpoint_entries float64 js
        | Some j \<Rightarrow> Inl (field_error ''.deployment.resources'' ''[]struct'' j)))))"

text \<open>\<open>engineResultFromCheckpoint\<close> once the file is read.\<close>

definition engine_result :: "(string \<Rightarrow> string) \<Rightarrow> string \<Rightarrow> string \<Rightarrow> Result" where
  "engine_result float64 raw token =
     (if MaxEngineStateBytes < length raw then
        failure CodeEngineFailed (''engine state is '' @ show_nat (length raw) @ '' bytes, exceeding the '' @
          show_nat MaxEngineStateBytes @ '' byte limit supported for component resources'')
      else case parse_checkpoint float64 raw of
          Inl e \<Rightarrow> failure CodeOutputParse (''parsing checkpoint: '' @ e_msg e)
        | Inr entries \<Rightarrow>
            (case find (\<lambda>r. ce_Type r = token) entries of
               None \<Rightarrow> failure CodeOutputParse (''component '' @ token @ '' not found in checkpoint'')
             | Some r \<Rightarrow> success\<lparr>res_ID := ce_URN r, Outputs := ce_Outputs r, res_EngineState := raw\<rparr>))"

end
