(* ===== verification/Op_Context.thy ===== *)
theory Op_Context
  imports Secret_Inputs
begin

text \<open>
  The values a reconcile tags onto its Go \<open>context\<close> for the runner
  (\<open>internal/pulumido/job.go\<close>, \<open>secretinput.go\<close>): the owner identity that makes Job
  names deterministic, the owner's namespace, the provider's credentials Secret, the digest
  of the secret input versions and the secret input plan. An untagged string reads as empty.
\<close>

record op_ctx =
  ctx_owner :: string
  ctx_credentials :: string
  ctx_namespace :: string
  ctx_salt :: string
  ctx_inputs :: "SecretInput list"

definition background :: op_ctx where
  "background = \<lparr>ctx_owner = [], ctx_credentials = [], ctx_namespace = [], ctx_salt = [], ctx_inputs = []\<rparr>"

definition WithOwner :: "op_ctx \<Rightarrow> string \<Rightarrow> op_ctx" where
  "WithOwner ctx owner = ctx\<lparr>ctx_owner := owner\<rparr>"

definition WithCredentialsSecret :: "op_ctx \<Rightarrow> string \<Rightarrow> op_ctx" where
  "WithCredentialsSecret ctx name = ctx\<lparr>ctx_credentials := name\<rparr>"

definition WithNamespace :: "op_ctx \<Rightarrow> string \<Rightarrow> op_ctx" where
  "WithNamespace ctx ns = ctx\<lparr>ctx_namespace := ns\<rparr>"

definition WithSecretVersionSalt :: "op_ctx \<Rightarrow> string \<Rightarrow> op_ctx" where
  "WithSecretVersionSalt ctx salt = ctx\<lparr>ctx_salt := salt\<rparr>"

definition WithSecretInputs :: "op_ctx \<Rightarrow> SecretInput list \<Rightarrow> op_ctx" where
  "WithSecretInputs ctx inputs = ctx\<lparr>ctx_inputs := inputs\<rparr>"

lemmas ctx_defs = WithOwner_def WithCredentialsSecret_def WithNamespace_def WithSecretVersionSalt_def
  WithSecretInputs_def

end
