(* ===== verification/Effects.thy ===== *)
theory Effects
  imports Go_Errors "HOL-Library.State_Monad"
begin

text \<open>
  Effects. A controller or runner operation is a state transformer over a \<open>world\<close>: the
  object it works on in memory, and the trace of its interactions with everything outside
  the program (the API server, the runner, the file system). Every interaction is recorded
  together with its reply, and the reply is given by an environment as a function of the
  trace so far, so a theorem for every environment covers every behaviour of the outside,
  concurrent writers and failures included.

  \<open>emits A m\<close> says that whatever the environment, every interaction of \<open>m\<close> is one of
  \<open>A\<close>; \<open>valid P m Q\<close> is the Hoare triple. Their rules are collected for the component
  proofs.
\<close>

named_theorems emits_intros \<open>rules for the interactions of an operation\<close>
named_theorems changes_intros \<open>rules for the object of an operation\<close>
named_theorems valid_rules \<open>Hoare rules\<close>
named_theorems yields_intros \<open>rules for the value of an operation\<close>

record ('o, 'e) world =
  obj :: 'o
  trace :: "'e list"

type_synonym ('o, 'e, 'a) action = "(('o, 'e) world, 'a) state"

definition emit :: "'e \<Rightarrow> ('o, 'e, unit) action" where
  "emit e = State (\<lambda>s. ((), s\<lparr>trace := trace s @ [e]\<rparr>))"

text \<open>One interaction: ask the environment, record question and reply.\<close>

definition ask :: "('e list \<Rightarrow> 'r) \<Rightarrow> ('r \<Rightarrow> 'e) \<Rightarrow> ('o, 'e, 'r) action" where
  "ask reply ev = State (\<lambda>s. (reply (trace s), s\<lparr>trace := trace s @ [ev (reply (trace s))]\<rparr>))"

definition get_obj :: "('o, 'e, 'o) action" where
  "get_obj = State (\<lambda>s. (obj s, s))"

definition put_obj :: "'o \<Rightarrow> ('o, 'e, unit) action" where
  "put_obj x = State (\<lambda>s. ((), s\<lparr>obj := x\<rparr>))"

definition modify_obj :: "('o \<Rightarrow> 'o) \<Rightarrow> ('o, 'e, unit) action" where
  "modify_obj f = State (\<lambda>s. ((), s\<lparr>obj := f (obj s)\<rparr>))"

lemma run_prims [simp]:
  "run_state (emit e) s = ((), s\<lparr>trace := trace s @ [e]\<rparr>)"
  "run_state (ask reply ev) s = (reply (trace s), s\<lparr>trace := trace s @ [ev (reply (trace s))]\<rparr>)"
  "run_state get_obj s = (obj s, s)"
  "run_state (put_obj x) s = ((), s\<lparr>obj := x\<rparr>)"
  "run_state (modify_obj f) s = ((), s\<lparr>obj := f (obj s)\<rparr>)"
  by (simp_all add: emit_def ask_def get_obj_def put_obj_def modify_obj_def)

abbreviation ret :: "'a \<Rightarrow> ('o, 'e, 'a) action" where
  "ret \<equiv> State_Monad.return"

section \<open>Retrying\<close>

text \<open>
  The conflict-retry helper of the client library: it calls the function, and after an
  error it may call it again (\<open>again\<close>, as the environment decides) up to \<open>n\<close> more times;
  it returns what the last call returned.
\<close>

fun retry :: "('e list \<Rightarrow> error \<Rightarrow> bool) \<Rightarrow> nat \<Rightarrow> ('o, 'e, error option) action \<Rightarrow> ('o, 'e, error option) action" where
  "retry again 0 fn = fn"
| "retry again (Suc n) fn =
     do { err \<leftarrow> fn;
          case err of
            None \<Rightarrow> State_Monad.return None
          | Some e \<Rightarrow>
              do { tr \<leftarrow> State (\<lambda>s. (trace s, s));
                   if again tr e then retry again n fn else State_Monad.return (Some e) } }"

section \<open>Which interactions an operation has\<close>

definition emits :: "('e \<Rightarrow> bool) \<Rightarrow> ('o, 'e, 'a) action \<Rightarrow> bool" where
  "emits A m = (\<forall>s. \<exists>es. trace (snd (run_state m s)) = trace s @ es \<and> list_all A es)"

lemma emitsD: "emits A m \<Longrightarrow> \<exists>es. trace (snd (run_state m s)) = trace s @ es \<and> list_all A es"
  by (simp add: emits_def)

lemma emits_return [emits_intros]: "emits A (State_Monad.return x)"
  by (simp add: emits_def)

lemma emits_emit [emits_intros]: "A e \<Longrightarrow> emits A (emit e)"
  by (simp add: emits_def)

lemma emits_ask [emits_intros]: "(\<And>r. A (ev r)) \<Longrightarrow> emits A (ask reply ev)"
  by (simp add: emits_def)

lemma emits_get_obj [emits_intros]: "emits A get_obj"
  by (simp add: emits_def)

lemma emits_put_obj [emits_intros]: "emits A (put_obj x)"
  by (simp add: emits_def)

lemma emits_modify_obj [emits_intros]: "emits A (modify_obj f)"
  by (simp add: emits_def)

lemma emits_pure: "(\<And>s. trace (snd (run_state m s)) = trace s) \<Longrightarrow> emits A m"
  by (simp add: emits_def)

lemma emits_bind [emits_intros]:
  assumes "emits A m" "\<And>x. emits A (f x)"
  shows "emits A (m \<bind> f)"
proof (unfold emits_def, intro allI)
  fix s
  obtain a s1 where r: "run_state m s = (a, s1)" by fastforce
  obtain es where es: "trace s1 = trace s @ es" "list_all A es" using emitsD [OF assms(1), of s] r by auto
  obtain fs where "trace (snd (run_state (f a) s1)) = trace s1 @ fs" "list_all A fs"
    using emitsD [OF assms(2)] by blast
  with r es show "\<exists>es. trace (snd (run_state (m \<bind> f) s)) = trace s @ es \<and> list_all A es"
    by (intro exI [of _ "es @ fs"]) (simp add: State_Monad.bind_def)
qed

lemma emits_if [emits_intros]: "(b \<Longrightarrow> emits A m) \<Longrightarrow> (\<not> b \<Longrightarrow> emits A n) \<Longrightarrow> emits A (if b then m else n)"
  by simp

lemma emits_option [emits_intros]:
  "(x = None \<Longrightarrow> emits A m) \<Longrightarrow> (\<And>a. x = Some a \<Longrightarrow> emits A (f a)) \<Longrightarrow> emits A (case x of None \<Rightarrow> m | Some a \<Rightarrow> f a)"
  by (cases x) auto

lemma emits_sum [emits_intros]:
  "(\<And>e. x = Inl e \<Longrightarrow> emits A (f e)) \<Longrightarrow> (\<And>a. x = Inr a \<Longrightarrow> emits A (g a)) \<Longrightarrow> emits A (case x of Inl e \<Rightarrow> f e | Inr a \<Rightarrow> g a)"
  by (cases x) auto

lemma emits_prod [emits_intros]:
  "(\<And>a b. x = (a, b) \<Longrightarrow> emits A (f a b)) \<Longrightarrow> emits A (case x of (a, b) \<Rightarrow> f a b)"
  by (cases x) auto

lemma emits_let [emits_intros]: "(\<And>x. x = e \<Longrightarrow> emits A (f x)) \<Longrightarrow> emits A (Let e f)"
  by simp

lemma emits_trace [emits_intros]: "emits A (State (\<lambda>s. (trace s, s)))"
  by (simp add: emits_def)

lemma emits_retry [emits_intros]: "emits A fn \<Longrightarrow> emits A (retry again n fn)"
  by (induction n) (auto intro!: emits_intros)

lemma emits_mono: "emits A m \<Longrightarrow> (\<And>e. A e \<Longrightarrow> B e) \<Longrightarrow> emits B m"
  unfolding emits_def by (metis list.pred_mono_strong)

section \<open>How an operation changes its object\<close>

text \<open>\<open>changes R m\<close>: whatever happens, the object before and after are related by \<open>R\<close>.\<close>

definition changes :: "('o \<Rightarrow> 'o \<Rightarrow> bool) \<Rightarrow> ('o, 'e, 'a) action \<Rightarrow> bool" where
  "changes R m = (\<forall>s. R (obj s) (obj (snd (run_state m s))))"

lemma changesD: "changes R m \<Longrightarrow> run_state m s = (a, s') \<Longrightarrow> R (obj s) (obj s')"
  unfolding changes_def by (metis snd_conv)

lemma changes_still [changes_intros]:
  "reflp R \<Longrightarrow> changes R (State_Monad.return x)" "reflp R \<Longrightarrow> changes R (emit e)"
  "reflp R \<Longrightarrow> changes R (ask reply ev)" "reflp R \<Longrightarrow> changes R get_obj"
  "reflp R \<Longrightarrow> changes R (State (\<lambda>s. (trace s, s)))"
  by (simp_all add: changes_def reflpD)

lemma changes_modify [changes_intros]: "(\<And>x. R x (f x)) \<Longrightarrow> changes R (modify_obj f)"
  by (simp add: changes_def)

lemma changes_bind [changes_intros]:
  assumes "transp R" "changes R m" "\<And>x. changes R (f x)"
  shows "changes R (m \<bind> f)"
  unfolding changes_def
proof
  fix s
  obtain a s1 where r: "run_state m s = (a, s1)" by fastforce
  have "R (obj s) (obj s1)" using changesD [OF assms(2) r] .
  moreover have "R (obj s1) (obj (snd (run_state (f a) s1)))" using assms(3) by (simp add: changes_def)
  ultimately show "R (obj s) (obj (snd (run_state (m \<bind> f) s)))"
    using r transpD [OF assms(1)] by simp
qed

lemma changes_cases [changes_intros]:
  "(b \<Longrightarrow> changes R m) \<Longrightarrow> (\<not> b \<Longrightarrow> changes R n) \<Longrightarrow> changes R (if b then m else n)"
  "(x = None \<Longrightarrow> changes R m) \<Longrightarrow> (\<And>a. x = Some a \<Longrightarrow> changes R (f a)) \<Longrightarrow> changes R (case x of None \<Rightarrow> m | Some a \<Rightarrow> f a)"
  "(\<And>e. y = Inl e \<Longrightarrow> changes R (g e)) \<Longrightarrow> (\<And>a. y = Inr a \<Longrightarrow> changes R (h a)) \<Longrightarrow> changes R (case y of Inl e \<Rightarrow> g e | Inr a \<Rightarrow> h a)"
  "(\<And>a b. z = (a, b) \<Longrightarrow> changes R (k a b)) \<Longrightarrow> changes R (case z of (a, b) \<Rightarrow> k a b)"
  "(\<And>x. x = e \<Longrightarrow> changes R (l x)) \<Longrightarrow> changes R (Let e l)"
  by (auto split: option.split sum.split prod.split)

lemma changes_retry [changes_intros]:
  "reflp R \<Longrightarrow> transp R \<Longrightarrow> changes R fn \<Longrightarrow> changes R (retry again n fn)"
  by (induction n) (auto intro!: changes_intros)

section \<open>Library calls\<close>

text \<open>
  A call to a library that itself talks to the outside: the environment gives its interactions
  and its result. \<open>upsert_events\<close> is the documented behaviour of controller-runtime's
  \<open>CreateOrUpdate\<close>: it fetches the object under its key, and if it writes at all, it writes what
  the caller's function makes of the object found, or of the blank one.
\<close>

definition library_call :: "('e list \<Rightarrow> 'e list \<times> 'r) \<Rightarrow> ('o, 'e, 'r) action" where
  "library_call reply = State (\<lambda>s. case reply (trace s) of (es, r) \<Rightarrow> (r, s\<lparr>trace := trace s @ es\<rparr>))"

lemma run_library_call [simp]:
  "run_state (library_call reply) s = (snd (reply (trace s)), s\<lparr>trace := trace s @ fst (reply (trace s))\<rparr>)"
  by (simp add: library_call_def split: prod.split)

lemma emits_library_call [emits_intros]: "(\<And>tr. list_all A (fst (reply tr))) \<Longrightarrow> emits A (library_call reply)"
  by (simp add: emits_def)

lemma changes_library_call [changes_intros]: "reflp R \<Longrightarrow> changes R (library_call reply)"
  by (simp add: changes_def reflpD)

definition upsert_events ::
  "('a option result \<Rightarrow> 'e) \<Rightarrow> ('a option \<Rightarrow> 'a \<Rightarrow> 'a result \<Rightarrow> 'e) \<Rightarrow> 'a \<Rightarrow> ('a \<Rightarrow> 'a result) \<Rightarrow> 'e list \<Rightarrow> bool" where
  "upsert_events fetched wrote key mutate es \<longleftrightarrow>
     (\<exists>r. es = [fetched r]) \<or>
     (\<exists>cur new q. es = [fetched (Inr cur), wrote cur new q] \<and> mutate (case cur of None \<Rightarrow> key | Some c \<Rightarrow> c) = Inr new)"

lemma upsert_events_all:
  "upsert_events fetched wrote key mutate es \<Longrightarrow> (\<And>r. A (fetched r)) \<Longrightarrow> (\<And>cur new q. A (wrote cur new q)) \<Longrightarrow> list_all A es"
  by (auto simp: upsert_events_def)

section \<open>Interactions under a condition on the object\<close>

definition emits_when :: "('o \<Rightarrow> bool) \<Rightarrow> ('e \<Rightarrow> bool) \<Rightarrow> ('o, 'e, 'a) action \<Rightarrow> bool" where
  "emits_when P A m =
     (\<forall>s. P (obj s) \<longrightarrow> (\<exists>es. trace (snd (run_state m s)) = trace s @ es \<and> list_all A es))"

lemma emits_when_emits: "emits A m \<Longrightarrow> emits_when P A m"
  by (simp add: emits_def emits_when_def)

lemma emits_when_bind:
  assumes "emits_when P A m" "changes R m" "\<And>a b. R a b \<Longrightarrow> P a \<Longrightarrow> P b" "\<And>x. emits_when P A (f x)"
  shows "emits_when P A (m \<bind> f)"
  unfolding emits_when_def
proof (intro allI impI)
  fix s :: "('a, 'b) world"
  assume P: "P (obj s)"
  obtain a s1 where r: "run_state m s = (a, s1)" by fastforce
  obtain es where es: "trace s1 = trace s @ es" "list_all A es"
    using assms(1) P r by (fastforce simp: emits_when_def)
  have "P (obj s1)" using changesD [OF assms(2) r] assms(3) P by blast
  then obtain fs where "trace (snd (run_state (f a) s1)) = trace s1 @ fs" "list_all A fs"
    using assms(4) by (fastforce simp: emits_when_def)
  with r es show "\<exists>es. trace (snd (run_state (m \<bind> f) s)) = trace s @ es \<and> list_all A es"
    by (intro exI [of _ "es @ fs"]) simp
qed

lemma emits_when_get: "(\<And>x. P x \<Longrightarrow> emits_when P A (f x)) \<Longrightarrow> emits_when P A (get_obj \<bind> f)"
  by (simp add: emits_when_def)

lemma emits_when_cases:
  "(b \<Longrightarrow> emits_when P A m) \<Longrightarrow> (\<not> b \<Longrightarrow> emits_when P A n) \<Longrightarrow> emits_when P A (if b then m else n)"
  "(x = None \<Longrightarrow> emits_when P A m) \<Longrightarrow> (\<And>a. x = Some a \<Longrightarrow> emits_when P A (f a)) \<Longrightarrow> emits_when P A (case x of None \<Rightarrow> m | Some a \<Rightarrow> f a)"
  "(\<And>e. y = Inl e \<Longrightarrow> emits_when P A (g e)) \<Longrightarrow> (\<And>a. y = Inr a \<Longrightarrow> emits_when P A (h a)) \<Longrightarrow> emits_when P A (case y of Inl e \<Rightarrow> g e | Inr a \<Rightarrow> h a)"
  "(\<And>a b. z = (a, b) \<Longrightarrow> emits_when P A (k a b)) \<Longrightarrow> emits_when P A (case z of (a, b) \<Rightarrow> k a b)"
  "(\<And>x. x = e \<Longrightarrow> emits_when P A (l x)) \<Longrightarrow> emits_when P A (Let e l)"
  by (auto split: option.split sum.split prod.split)

section \<open>Counting interactions\<close>

definition at_most :: "nat \<Rightarrow> ('e \<Rightarrow> bool) \<Rightarrow> ('o, 'e, 'a) action \<Rightarrow> bool" where
  "at_most n p m =
     (\<forall>s. \<exists>es. trace (snd (run_state m s)) = trace s @ es \<and> length (filter p es) \<le> n)"

lemma at_most_emits: "emits (\<lambda>e. \<not> p e) m \<Longrightarrow> at_most n p m"
  unfolding emits_def at_most_def by (metis filter_False le0 list.size(3) list_all_iff)

lemma at_most_bind:
  assumes "at_most k p m" "\<And>x. at_most l p (f x)" "k + l \<le> n"
  shows "at_most n p (m \<bind> f)"
  unfolding at_most_def
proof
  fix s
  obtain a s1 where r: "run_state m s = (a, s1)" by fastforce
  obtain es where es: "trace s1 = trace s @ es" "length (filter p es) \<le> k"
    using assms(1) r by (metis at_most_def snd_conv)
  obtain fs where "trace (snd (run_state (f a) s1)) = trace s1 @ fs" "length (filter p fs) \<le> l"
    using assms(2) by (metis at_most_def)
  with r es assms(3) show "\<exists>es. trace (snd (run_state (m \<bind> f) s)) = trace s @ es \<and> length (filter p es) \<le> n"
    by (intro exI [of _ "es @ fs"]) simp
qed

text \<open>After an interaction the reply is known, so the continuation may be counted by it.\<close>

lemma at_most_ask:
  assumes "\<And>r. at_most (if p (ev r) then n - 1 else n) p (f r)" "0 < n"
  shows "at_most n p (ask reply ev \<bind> f)"
  unfolding at_most_def
proof
  fix s :: "('c, 'b) world"
  let ?r = "reply (trace s)"
  obtain fs where fs: "trace (snd (run_state (f ?r) (s\<lparr>trace := trace s @ [ev ?r]\<rparr>))) = (trace s @ [ev ?r]) @ fs"
    "length (filter p fs) \<le> (if p (ev ?r) then n - 1 else n)"
    using assms(1) [of ?r] unfolding at_most_def
    by (metis (no_types, lifting) world.select_convs(2) world.surjective world.update_convs(2))
  then show "\<exists>es. trace (snd (run_state (ask reply ev \<bind> f) s)) = trace s @ es \<and> length (filter p es) \<le> n"
    using assms(2) by (intro exI [of _ "ev ?r # fs"]) (auto split: if_splits)
qed

lemma at_most_get: "(\<And>x. at_most n p (f x)) \<Longrightarrow> at_most n p (get_obj \<bind> f)"
  by (simp add: at_most_def)

lemma at_most_cases:
  "(b \<Longrightarrow> at_most n p m) \<Longrightarrow> (\<not> b \<Longrightarrow> at_most n p m') \<Longrightarrow> at_most n p (if b then m else m')"
  "(x = None \<Longrightarrow> at_most n p m) \<Longrightarrow> (\<And>a. x = Some a \<Longrightarrow> at_most n p (f a)) \<Longrightarrow> at_most n p (case x of None \<Rightarrow> m | Some a \<Rightarrow> f a)"
  "(\<And>e. y = Inl e \<Longrightarrow> at_most n p (g e)) \<Longrightarrow> (\<And>a. y = Inr a \<Longrightarrow> at_most n p (h a)) \<Longrightarrow> at_most n p (case y of Inl e \<Rightarrow> g e | Inr a \<Rightarrow> h a)"
  "(\<And>a b. z = (a, b) \<Longrightarrow> at_most n p (k a b)) \<Longrightarrow> at_most n p (case z of (a, b) \<Rightarrow> k a b)"
  by (auto split: option.split sum.split prod.split)

section \<open>Hoare triples\<close>

definition valid :: "('s \<Rightarrow> bool) \<Rightarrow> ('s, 'a) state \<Rightarrow> ('a \<Rightarrow> 's \<Rightarrow> bool) \<Rightarrow> bool" where
  "valid P m Q = (\<forall>s. P s \<longrightarrow> (case run_state m s of (a, s') \<Rightarrow> Q a s'))"

lemma validD: "valid P m Q \<Longrightarrow> P s \<Longrightarrow> run_state m s = (a, s') \<Longrightarrow> Q a s'"
  by (fastforce simp: valid_def)

lemma validI: "(\<And>s a s'. P s \<Longrightarrow> run_state m s = (a, s') \<Longrightarrow> Q a s') \<Longrightarrow> valid P m Q"
  by (auto simp: valid_def)

lemma valid_return [valid_rules]: "valid (Q x) (State_Monad.return x) Q"
  by (simp add: valid_def)

lemma valid_bind [valid_rules]:
  assumes "\<And>x. valid (R x) (f x) Q" "valid P m R"
  shows "valid P (m \<bind> f) Q"
  using assms by (fastforce simp: valid_def State_Monad.bind_def split: prod.splits)

lemma valid_weaken: "valid P' m Q \<Longrightarrow> (\<And>s. P s \<Longrightarrow> P' s) \<Longrightarrow> valid P m Q"
  by (auto simp: valid_def)

lemma valid_post: "valid P m Q \<Longrightarrow> (\<And>a s. Q a s \<Longrightarrow> R a s) \<Longrightarrow> valid P m R"
  by (fastforce simp: valid_def)

lemma valid_if [valid_rules]:
  "(b \<Longrightarrow> valid P m Q) \<Longrightarrow> (\<not> b \<Longrightarrow> valid P n Q) \<Longrightarrow> valid P (if b then m else n) Q"
  by simp

lemma valid_option [valid_rules]:
  "(x = None \<Longrightarrow> valid P m Q) \<Longrightarrow> (\<And>a. x = Some a \<Longrightarrow> valid P (f a) Q) \<Longrightarrow>
   valid P (case x of None \<Rightarrow> m | Some a \<Rightarrow> f a) Q"
  by (cases x) auto

lemma valid_sum [valid_rules]:
  "(\<And>e. x = Inl e \<Longrightarrow> valid P (f e) Q) \<Longrightarrow> (\<And>a. x = Inr a \<Longrightarrow> valid P (g a) Q) \<Longrightarrow>
   valid P (case x of Inl e \<Rightarrow> f e | Inr a \<Rightarrow> g a) Q"
  by (cases x) auto

lemma valid_prod [valid_rules]:
  "(\<And>a b. x = (a, b) \<Longrightarrow> valid P (f a b) Q) \<Longrightarrow> valid P (case x of (a, b) \<Rightarrow> f a b) Q"
  by (cases x) auto

text \<open>An operation whose interactions are all in \<open>A\<close> keeps what such interactions keep.\<close>

lemma valid_emits:
  assumes "emits A m" "\<And>tr es. I tr \<Longrightarrow> list_all A es \<Longrightarrow> I (tr @ es)"
  shows "valid (\<lambda>s. I (trace s)) m (\<lambda>a s. I (trace s))"
proof (rule validI)
  fix s a s'
  assume "I (trace s)" "run_state m s = (a, s')"
  then show "I (trace s')" using emitsD [OF assms(1), of s] assms(2) by auto
qed

section \<open>Guarded traces\<close>

text \<open>\<open>guarded G tr\<close>: every interaction of the trace was admissible after the ones before it.\<close>

definition guarded :: "('e list \<Rightarrow> 'e \<Rightarrow> bool) \<Rightarrow> 'e list \<Rightarrow> bool" where
  "guarded G tr = (\<forall>i < length tr. G (take i tr) (tr ! i))"

lemma guarded_Nil [simp]: "guarded G []"
  by (simp add: guarded_def)

lemma guarded_snoc: "guarded G (tr @ [e]) \<longleftrightarrow> guarded G tr \<and> G tr e"
  by (auto simp: guarded_def nth_append less_Suc_eq)

lemma guarded_append:
  assumes "guarded G tr" "\<And>pre e. e \<in> set es \<Longrightarrow> \<exists>mid. pre = tr @ mid \<Longrightarrow> G pre e"
  shows "guarded G (tr @ es)"
  using assms
proof (induction es rule: rev_induct)
  case (snoc e es)
  then have "guarded G (tr @ es)" "G (tr @ es) e" by auto
  then show ?case by (simp add: guarded_snoc flip: append_assoc)
qed simp

lemma guarded_split: "guarded G tr \<Longrightarrow> tr = pre @ e # post \<Longrightarrow> G pre e"
  by (auto simp: guarded_def dest: spec [of _ "length pre"])

text \<open>
  An operation keeps a trace guarded when a monotone fact about the past admits all its
  interactions.
\<close>

lemma valid_guarded:
  assumes "emits A m" "\<And>tr es. K tr \<Longrightarrow> K (tr @ es)" "\<And>tr e. K tr \<Longrightarrow> A e \<Longrightarrow> G tr e"
  shows "valid (\<lambda>s. guarded G (trace s) \<and> K (trace s)) m (\<lambda>a s. guarded G (trace s) \<and> K (trace s))"
proof (rule validI)
  fix s a s'
  assume p: "guarded G (trace s) \<and> K (trace s)" and r: "run_state m s = (a, s')"
  obtain es where es: "trace s' = trace s @ es" "list_all A es"
    using emitsD [OF assms(1), of s] r by auto
  have "guarded G (trace s @ es)"
    by (rule guarded_append) (use p es assms(2,3) in \<open>auto simp: list_all_iff\<close>)
  with p es assms(2) show "guarded G (trace s') \<and> K (trace s')" by simp
qed

section \<open>Values and interactions together\<close>

text \<open>
  \<open>does m Q\<close>: whatever the environment, the value of \<open>m\<close> and the interactions it adds to
  the trace satisfy \<open>Q\<close>.
\<close>

definition does :: "('o, 'e, 'a) action \<Rightarrow> ('a \<Rightarrow> 'e list \<Rightarrow> bool) \<Rightarrow> bool" where
  "does m Q = (\<forall>s. \<exists>es. trace (snd (run_state m s)) = trace s @ es \<and> Q (fst (run_state m s)) es)"

lemma doesD: "does m Q \<Longrightarrow> run_state m s = (a, s') \<Longrightarrow> \<exists>es. trace s' = trace s @ es \<and> Q a es"
  unfolding does_def by (metis fst_conv snd_conv)

lemma does_return: "Q x [] \<Longrightarrow> does (State_Monad.return x) Q"
  by (simp add: does_def)

lemma does_emit: "Q () [e] \<Longrightarrow> does (emit e) Q"
  by (simp add: does_def)

lemma does_ask: "(\<And>tr. Q (reply tr) [ev (reply tr)]) \<Longrightarrow> does (ask reply ev) Q"
  by (simp add: does_def)

lemma does_get: "(\<And>x. Q x []) \<Longrightarrow> does get_obj Q"
  by (simp add: does_def)

lemma does_modify: "Q () [] \<Longrightarrow> does (modify_obj f) Q"
  by (simp add: does_def)

lemma does_bind:
  assumes "does m R" "\<And>x es. R x es \<Longrightarrow> does (f x) (\<lambda>a fs. Q a (es @ fs))"
  shows "does (m \<bind> f) Q"
  unfolding does_def
proof
  fix s
  obtain a s1 where r: "run_state m s = (a, s1)" by fastforce
  then obtain es where es: "trace s1 = trace s @ es" "R a es" using doesD [OF assms(1)] by blast
  obtain b s2 where r2: "run_state (f a) s1 = (b, s2)" by fastforce
  then obtain fs where "trace s2 = trace s1 @ fs" "Q b (es @ fs)" using doesD [OF assms(2) [OF es(2)]] by blast
  then show "\<exists>es. trace (snd (run_state (m \<bind> f) s)) = trace s @ es \<and> Q (fst (run_state (m \<bind> f) s)) es"
    using r r2 es(1) by (intro exI [of _ "es @ fs"]) simp
qed

lemma does_mono: "does m Q \<Longrightarrow> (\<And>a es. Q a es \<Longrightarrow> R a es) \<Longrightarrow> does m R"
  unfolding does_def by blast

section \<open>Values\<close>

text \<open>\<open>yields Q m\<close>: whatever the environment, the value of \<open>m\<close> satisfies \<open>Q\<close>.\<close>

definition yields :: "('a \<Rightarrow> bool) \<Rightarrow> ('s, 'a) state \<Rightarrow> bool" where
  "yields Q m = (\<forall>s. Q (fst (run_state m s)))"

lemma yields_return [yields_intros]: "Q x \<Longrightarrow> yields Q (State_Monad.return x)"
  by (simp add: yields_def)

lemma yields_bind: "yields R m \<Longrightarrow> (\<And>x. R x \<Longrightarrow> yields Q (f x)) \<Longrightarrow> yields Q (m \<bind> f)"
  by (auto simp: yields_def split: prod.split) (metis fst_conv)

lemma yields_any [yields_intros]: "(\<And>x. yields Q (f x)) \<Longrightarrow> yields Q (m \<bind> f)"
  by (rule yields_bind [of "\<lambda>_. True"]) (simp_all add: yields_def)

lemma yields_cases [yields_intros]:
  "(b \<Longrightarrow> yields Q m) \<Longrightarrow> (\<not> b \<Longrightarrow> yields Q n) \<Longrightarrow> yields Q (if b then m else n)"
  "(x = None \<Longrightarrow> yields Q m) \<Longrightarrow> (\<And>a. x = Some a \<Longrightarrow> yields Q (f a)) \<Longrightarrow> yields Q (case x of None \<Rightarrow> m | Some a \<Rightarrow> f a)"
  "(\<And>e. y = Inl e \<Longrightarrow> yields Q (g e)) \<Longrightarrow> (\<And>a. y = Inr a \<Longrightarrow> yields Q (h a)) \<Longrightarrow> yields Q (case y of Inl e \<Rightarrow> g e | Inr a \<Rightarrow> h a)"
  "(\<And>a b. z = (a, b) \<Longrightarrow> yields Q (k a b)) \<Longrightarrow> yields Q (case z of (a, b) \<Rightarrow> k a b)"
  "(\<And>x. x = e \<Longrightarrow> yields Q (l x)) \<Longrightarrow> yields Q (Let e l)"
  by (auto split: option.split sum.split prod.split)

end
