(* ===== verification/Job_Types.thy ===== *)
theory Job_Types
  imports Runner_Documents Op_Context Provider_Schema Effects
begin

text \<open>
  The data of the Job runner (\<open>internal/pulumido/job.go\<close>, \<open>exec.go\<close>): the Kubernetes
  objects it builds and reads, with the fields it sets, the decoder of provider schemas, and
  the API server, clock and random source as an environment.
\<close>

section \<open>Kubernetes objects\<close>

record EnvSecretRef =
  skr_Name :: string
  skr_Key :: string
  skr_Optional :: bool

record EnvVar =
  ev_Name :: string
  ev_Value :: string
  ev_SecretKeyRef :: "EnvSecretRef option"

text \<open>A volume is an empty directory or a claim.\<close>

record Volume =
  vol_Name :: string
  vol_ClaimName :: "string option"

record VolumeMount =
  vm_Name :: string
  vm_MountPath :: string

record Container =
  ct_Name :: string
  ct_Image :: string
  ct_ImagePullPolicy :: string
  ct_Command :: "string list"
  ct_Env :: "EnvVar list"
  ct_EnvFrom :: "(string \<times> bool) list"
  AllowPrivilegeEscalation :: bool
  ReadOnlyRootFilesystem :: bool
  DropCapabilities :: "string list"
  ct_VolumeMounts :: "VolumeMount list"
  RequestCPU :: string
  RequestMemory :: string
  LimitMemory :: string

record PodSpec =
  pod_Labels :: "string gomap"
  RestartPolicy :: string
  AutomountServiceAccountToken :: bool
  RunAsNonRoot :: bool
  RunAsUser :: int
  RunAsGroup :: int
  FSGroup :: "int option"
  SeccompProfile :: string
  pod_Container :: Container
  pod_Volumes :: "Volume list"

record Job =
  job_Name :: string
  job_Namespace :: string
  job_Labels :: "string gomap"
  BackoffLimit :: int
  TTLSecondsAfterFinished :: int
  ActiveDeadlineSeconds :: int
  job_Template :: PodSpec

record JobCondition =
  jc_Type :: string
  jc_Status :: string
  jc_Message :: string

record Pod =
  p_Name :: string
  p_Created :: int

section \<open>The runner and its environment\<close>

record JobRunner =
  jr_Namespace :: string
  PerResourceNamespace :: bool
  Image :: string
  ImagePullPolicy :: string
  CredentialsSecret :: string
  PluginCachePVC :: string
  PluginCacheMountPath :: string
  jr_Timeout :: int

record tenantCacheEntry =
  cache_present :: bool
  cache_checked :: int

text \<open>The mutable state of a Job runner: what it remembers of tenant claims.\<close>

type_synonym tenantCaches = "tenantCacheEntry gomap"

datatype job_event =
    TimeNow int
  | RandString string
  | GetClaim string string "error option"
  | CreateJob Job "error option"
  | GetJob string string "JobCondition list result"
  | PollTick "error option"
  | ListPods string string "Pod list result"
  | GetLogs string string "string result"
  | LogTick "error option"
  | DeleteJob string string

record job_env =
  time_now :: "job_event list \<Rightarrow> int"
  rand_string :: "job_event list \<Rightarrow> string"
  get_claim :: "job_event list \<Rightarrow> string \<Rightarrow> string \<Rightarrow> error option"
  create_job :: "job_event list \<Rightarrow> Job \<Rightarrow> error option"
  get_job :: "job_event list \<Rightarrow> string \<Rightarrow> string \<Rightarrow> JobCondition list result"
  poll_tick :: "job_event list \<Rightarrow> error option"
  list_pods :: "job_event list \<Rightarrow> string \<Rightarrow> string \<Rightarrow> Pod list result"
  get_logs :: "job_event list \<Rightarrow> string \<Rightarrow> string \<Rightarrow> string result"
  log_tick :: "job_event list \<Rightarrow> error option"
  job_sha256 :: "string \<Rightarrow> string"
  job_float64 :: "string \<Rightarrow> string"

type_synonym 'a job = "(tenantCaches, job_event, 'a) action"

definition Time_now :: "job_env \<Rightarrow> int job" where
  "Time_now E = ask (time_now E) TimeNow"

definition Rand_string :: "job_env \<Rightarrow> string job" where
  "Rand_string E = ask (rand_string E) RandString"

definition Get_claim :: "job_env \<Rightarrow> string \<Rightarrow> string \<Rightarrow> error option job" where
  "Get_claim E ns name = ask (\<lambda>tr. get_claim E tr ns name) (GetClaim ns name)"

definition Create_job :: "job_env \<Rightarrow> Job \<Rightarrow> error option job" where
  "Create_job E j = ask (\<lambda>tr. create_job E tr j) (CreateJob j)"

definition Get_job :: "job_env \<Rightarrow> string \<Rightarrow> string \<Rightarrow> JobCondition list result job" where
  "Get_job E ns name = ask (\<lambda>tr. get_job E tr ns name) (GetJob ns name)"

definition Poll_tick :: "job_env \<Rightarrow> error option job" where
  "Poll_tick E = ask (poll_tick E) PollTick"

definition List_pods :: "job_env \<Rightarrow> string \<Rightarrow> string \<Rightarrow> Pod list result job" where
  "List_pods E ns selector = ask (\<lambda>tr. list_pods E tr ns selector) (ListPods ns selector)"

definition Get_logs :: "job_env \<Rightarrow> string \<Rightarrow> string \<Rightarrow> string result job" where
  "Get_logs E ns pod = ask (\<lambda>tr. get_logs E tr ns pod) (GetLogs ns pod)"

definition Log_tick :: "job_env \<Rightarrow> error option job" where
  "Log_tick E = ask (log_tick E) LogTick"

lemmas job_io_defs = Time_now_def Rand_string_def Get_claim_def Create_job_def Get_job_def Poll_tick_def
  List_pods_def Get_logs_def Log_tick_def

lemma emits_job_io [emits_intros]:
  "(\<And>r. A (TimeNow r)) \<Longrightarrow> emits A (Time_now E)"
  "(\<And>r. A (RandString r)) \<Longrightarrow> emits A (Rand_string E)"
  "(\<And>r. A (GetClaim ns n r)) \<Longrightarrow> emits A (Get_claim E ns n)"
  "(\<And>r. A (CreateJob j r)) \<Longrightarrow> emits A (Create_job E j)"
  "(\<And>r. A (GetJob ns n r)) \<Longrightarrow> emits A (Get_job E ns n)"
  "(\<And>r. A (PollTick r)) \<Longrightarrow> emits A (Poll_tick E)"
  "(\<And>r. A (ListPods ns n r)) \<Longrightarrow> emits A (List_pods E ns n)"
  "(\<And>r. A (GetLogs ns n r)) \<Longrightarrow> emits A (Get_logs E ns n)"
  "(\<And>r. A (LogTick r)) \<Longrightarrow> emits A (Log_tick E)"
  by (auto simp: job_io_defs intro!: emits_intros)

section \<open>Decoding provider schemas\<close>

lemma json_field_size [termination_simp]: "json_field m name = Some j \<Longrightarrow> size j < Suc (size_list (size_prod (\<lambda>_. 0) size) m)"
proof -
  assume "json_field m name = Some j"
  then obtain k where "find (\<lambda>(k, _). EqualFold k name) (rev m) = Some (k, j)" by (auto simp: json_field_def)
  then have "(k, j) \<in> set (rev m)" by (metis find_Some_iff nth_mem)
  then have "(k, j) \<in> set m" by simp
  then show ?thesis by (rule json_size_obj)
qed

definition zero_property :: PropertySchema where
  "zero_property = PropertySchema [] [] None None []"

text \<open>\<open>null\<close> leaves a struct at its zero value and a pointer nil.\<close>

function decode_property :: "json \<Rightarrow> PropertySchema result" where
  "decode_property j =
     (case j of
        JNull \<Rightarrow> Inr zero_property
      | JObj m \<Rightarrow>
          and_then (string_field ''PropertySchema.'' m ''type'') (\<lambda>t.
          and_then (string_field ''PropertySchema.'' m ''$ref'') (\<lambda>r.
          and_then (case json_field m ''items'' of
                      None \<Rightarrow> Inr None
                    | Some x \<Rightarrow> if x = JNull then Inr None else map_sum (\<lambda>e. e) Some (decode_property x)) (\<lambda>items.
          and_then (case json_field m ''additionalProperties'' of
                      None \<Rightarrow> Inr None
                    | Some x \<Rightarrow> if x = JNull then Inr None else map_sum (\<lambda>e. e) Some (decode_property x)) (\<lambda>additional.
          and_then (case json_field m ''oneOf'' of
                      None \<Rightarrow> Inr []
                    | Some JNull \<Rightarrow> Inr []
                    | Some (JArr xs) \<Rightarrow> first_error (map decode_property xs)
                    | Some x \<Rightarrow> Inl (field_error ''PropertySchema.oneOf'' ''[]pulumido.PropertySchema'' x)) (\<lambda>oneOf.
            Inr (PropertySchema t r items additional oneOf))))))
      | _ \<Rightarrow> Inl (Errorf (''json: cannot unmarshal '' @ go_kind j @ '' into Go value of type pulumido.PropertySchema'')))"
  by pat_completeness auto
termination
proof (relation "measure size")
  fix j m and x :: json and xs y
  assume "j = JObj m" "json_field m ''oneOf'' = Some x" "x = JArr xs" "y \<in> set xs"
  then have "size y < size x" "size x < size j"
    using json_field_size [of m "''oneOf''" x] size_list_estimation' [of y xs "size y" size] by simp_all
  then show "(y, j) \<in> measure size" by simp
qed (use json_field_size in auto)

declare decode_property.simps [simp del]

definition decode_map :: "string \<Rightarrow> (json \<Rightarrow> 'a result) \<Rightarrow> jobj \<Rightarrow> string \<Rightarrow> 'a gomap result" where
  "decode_map what dec m name =
     (case json_field m name of
        None \<Rightarrow> Inr []
      | Some JNull \<Rightarrow> Inr []
      | Some (JObj o') \<Rightarrow> first_error (map (\<lambda>(k, v). map_sum (\<lambda>e. e) (Pair k) (dec v)) o')
      | Some x \<Rightarrow> Inl (field_error name what x))"

definition decode_resource :: "json \<Rightarrow> ResourceSchema result" where
  "decode_resource j =
     and_then (object_or ''pulumido.ResourceSchema'' j) (\<lambda>m.
     and_then (decode_map ''map[string]pulumido.PropertySchema'' decode_property m ''inputProperties'') (\<lambda>inputs.
     and_then (case json_field m ''requiredInputs'' of
                 None \<Rightarrow> Inr []
               | Some JNull \<Rightarrow> Inr []
               | Some (JArr xs) \<Rightarrow>
                   first_error (map (\<lambda>x. case x of JNull \<Rightarrow> Inr [] | JStr s \<Rightarrow> Inr s
                                        | _ \<Rightarrow> Inl (field_error ''ResourceSchema.requiredInputs'' ''string'' x)) xs)
               | Some x \<Rightarrow> Inl (field_error ''ResourceSchema.requiredInputs'' ''[]string'' x)) (\<lambda>required.
     and_then (decode_map ''map[string]pulumido.PropertySchema'' decode_property m ''properties'') (\<lambda>outs.
     and_then (bool_field ''ResourceSchema.'' m ''isComponent'') (\<lambda>comp.
       Inr \<lparr>InputProperties = inputs, RequiredInputs = required, rs_Outputs = outs, IsComponent = comp\<rparr>)))))"

definition decode_schema :: "string \<Rightarrow> PackageSchema result" where
  "decode_schema raw =
     and_then (unmarshal raw) (\<lambda>doc.
     and_then (object_or ''pulumido.PackageSchema'' doc) (\<lambda>m.
     and_then (string_field ''PackageSchema.'' m ''name'') (\<lambda>name.
     and_then (string_field ''PackageSchema.'' m ''version'') (\<lambda>version.
     and_then (decode_map ''map[string]pulumido.ResourceSchema'' decode_resource m ''resources'') (\<lambda>rs.
       Inr \<lparr>ps_Name = name, ps_Version = version, Resources = rs\<rparr>)))))"

end
