(* ===== verification/Job_Runner.thy ===== *)
theory Job_Runner
  imports Job_Types
begin

text \<open>
  The Job runner (\<open>internal/pulumido/job.go\<close>): naming, placing and building the Job of an
  operation, waiting for it, reading its log and deciding when to delete it. Polling a Job
  may never end, so \<open>executeOp\<close> takes a bound on the rounds and returns \<open>None\<close> when it is
  used up; the operation's deadline is the error of a \<open>PollTick\<close>. Pods with the same
  creation time are ordered as the API lists them.
\<close>

section \<open>The Job of an operation\<close>

definition labelManagedBy :: string where "labelManagedBy = ''app.kubernetes.io/managed-by''"
definition labelVerb :: string where "labelVerb = ''do.pulumi.com/verb''"
definition operatorName :: string where "operatorName = ''doplane''"
definition bakedPluginsDir :: string where "bakedPluginsDir = ''/opt/pulumi-home/plugins''"
definition EnvPluginCache :: string where "EnvPluginCache = ''DOPLANE_PLUGIN_CACHE''"

text \<open>Durations in nanoseconds.\<close>

definition second :: int where "second = 10 ^ 9"
definition tenantCacheTTL :: int where "tenantCacheTTL = 5 * 60 * second"
definition completedReadJobTTL :: int where "completedReadJobTTL = 10 * 60 * second"
definition completedMutationJobTTL :: int where "completedMutationJobTTL = 24 * 60 * 60 * second"

definition jobTTLSeconds :: "string \<Rightarrow> int" where
  "jobTTLSeconds verb =
     (if verb = VerbRead \<or> verb = VerbSchema then completedReadJobTTL div second else completedMutationJobTTL div second)"

definition jr_timeout :: "JobRunner \<Rightarrow> int" where
  "jr_timeout r = (if 0 < jr_Timeout r then jr_Timeout r else 10 * 60 * second)"

definition plain_env :: "string \<Rightarrow> string \<Rightarrow> EnvVar" where
  "plain_env name v = \<lparr>ev_Name = name, ev_Value = v, ev_SecretKeyRef = None\<rparr>"

definition buildJob ::
  "JobRunner \<Rightarrow> string \<Rightarrow> string \<Rightarrow> string \<Rightarrow> string \<Rightarrow> string \<Rightarrow> EnvVar list \<Rightarrow> bool \<Rightarrow> Job" where
  "buildJob r name namespace credentials verb opJSON secretEnv mountCache =
     \<lparr>job_Name = name, job_Namespace = namespace,
      job_Labels = [(labelManagedBy, operatorName), (labelVerb, verb)],
      BackoffLimit = 0, TTLSecondsAfterFinished = jobTTLSeconds verb, ActiveDeadlineSeconds = jr_timeout r div second,
      job_Template = \<lparr>
        pod_Labels = [(labelManagedBy, operatorName)], RestartPolicy = ''Never'', AutomountServiceAccountToken = False,
        RunAsNonRoot = True, RunAsUser = 65532, RunAsGroup = 65532,
        FSGroup = (if mountCache then Some 65532 else None), SeccompProfile = ''RuntimeDefault'',
        pod_Container = \<lparr>
          ct_Name = ''doplane'', ct_Image = Image r, ct_ImagePullPolicy = ImagePullPolicy r, ct_Command = [''/doplane-runner''],
          ct_Env = [plain_env ''DOPLANE_OP'' opJSON, plain_env ''DOPLANE_BAKED_PLUGINS'' bakedPluginsDir,
                    plain_env ''PULUMI_SKIP_UPDATE_CHECK'' ''true''] @ secretEnv @
                   (if mountCache then [plain_env EnvPluginCache (PluginCacheMountPath r)] else []),
          ct_EnvFrom = (if credentials \<noteq> [] then [(credentials, True)] else []),
          AllowPrivilegeEscalation = False, ReadOnlyRootFilesystem = True, DropCapabilities = [''ALL''],
          ct_VolumeMounts = [\<lparr>vm_Name = ''tmp'', vm_MountPath = ''/tmp''\<rparr>] @
            (if mountCache then [\<lparr>vm_Name = ''plugin-cache'', vm_MountPath = PluginCacheMountPath r\<rparr>] else []),
          RequestCPU = ''100m'', RequestMemory = ''256Mi'', LimitMemory = ''2Gi''\<rparr>,
        pod_Volumes = [\<lparr>vol_Name = ''tmp'', vol_ClaimName = None\<rparr>] @
          (if mountCache then [\<lparr>vol_Name = ''plugin-cache'', vol_ClaimName = Some (PluginCachePVC r)\<rparr>] else [])\<rparr>\<rparr>"

definition jobNamespace :: "JobRunner \<Rightarrow> op_ctx \<Rightarrow> string" where
  "jobNamespace r ctx =
     (if PerResourceNamespace r \<and> ctx_namespace ctx \<noteq> [] then ctx_namespace ctx else jr_Namespace r)"

definition teardownVerb :: "string \<Rightarrow> bool" where
  "teardownVerb verb = (verb = VerbDelete \<or> verb = VerbEngineDestroy)"

text \<open>What the Job name hashes: owner, operation document and, for secret inputs, their versions.\<close>

definition name_salt :: "op_ctx \<Rightarrow> string \<Rightarrow> string" where
  "name_salt ctx verb = (if VerbTakesSecretInputs verb then ctx_salt ctx else [])"

definition name_preimage :: "string \<Rightarrow> string \<Rightarrow> string \<Rightarrow> string" where
  "name_preimage owner opJSON salt =
     owner @ [CHR 0x00] @ opJSON @ (if salt \<noteq> [] then [CHR 0x00] @ salt else [])"

definition jobName :: "job_env \<Rightarrow> op_ctx \<Rightarrow> string \<Rightarrow> string \<Rightarrow> string job" where
  "jobName E ctx verb opJSON =
     (if ctx_owner ctx = [] \<and> verb \<noteq> VerbSchema then
        do { rnd \<leftarrow> Rand_string E; ret (''do-'' @ verb @ ''-'' @ rnd) }
      else ret (''do-'' @ verb @ ''-'' @ take 16 (job_sha256 E (name_preimage (ctx_owner ctx) opJSON (name_salt ctx verb)))))"

text \<open>
  The tenant claim lookup, remembered for five minutes. The clock is read when the entry is
  judged and again when it is written.
\<close>

definition cacheAvailable :: "job_env \<Rightarrow> JobRunner \<Rightarrow> string \<Rightarrow> bool job" where
  "cacheAvailable E r namespace =
     (if PluginCachePVC r = [] then ret False
      else if namespace = jr_Namespace r then ret True
      else do {
        caches \<leftarrow> get_obj;
        known \<leftarrow> (case gomap_get caches namespace of
                    None \<Rightarrow> ret None
                  | Some entry \<Rightarrow>
                      do { now \<leftarrow> Time_now E;
                           ret (if now - cache_checked entry < tenantCacheTTL then Some (cache_present entry) else None) });
        (case known of
           Some present \<Rightarrow> ret present
         | None \<Rightarrow>
             do { err \<leftarrow> Get_claim E namespace (PluginCachePVC r);
                  checked \<leftarrow> Time_now E;
                  modify_obj (gomap_put namespace \<lparr>cache_present = (err = None), cache_checked = checked\<rparr>);
                  ret (err = None) }) })"

definition HasNamespaceTerminatingCause :: "error \<Rightarrow> bool" where
  "HasNamespaceTerminatingCause e = (e_api e = Some ApiNamespaceTerminating)"

definition ensureJob ::
  "job_env \<Rightarrow> JobRunner \<Rightarrow> op_ctx \<Rightarrow> string \<Rightarrow> string \<Rightarrow> string \<Rightarrow> string \<Rightarrow> EnvVar list \<Rightarrow> string result job" where
  "ensureJob E r ctx namespace name verb opJSON secretEnv =
     (let credentials = (if ctx_credentials ctx \<noteq> [] then ctx_credentials ctx else CredentialsSecret r) in
      do { mount \<leftarrow> cacheAvailable E r namespace;
           err \<leftarrow> Create_job E (buildJob r name namespace credentials verb opJSON secretEnv mount);
           (case err of
              None \<Rightarrow> ret (Inr namespace)
            | Some e \<Rightarrow>
                if IsAlreadyExistsApi e then ret (Inr namespace)
                else if namespace \<noteq> jr_Namespace r \<and> teardownVerb verb \<and> HasNamespaceTerminatingCause e then
                  do { err2 \<leftarrow> Create_job E (buildJob r name (jr_Namespace r) credentials verb opJSON secretEnv
                                               (PluginCachePVC r \<noteq> []));
                       ret (case err2 of
                              None \<Rightarrow> Inr (jr_Namespace r)
                            | Some e2 \<Rightarrow>
                                if IsAlreadyExistsApi e2 then Inr (jr_Namespace r)
                                else Inl (wrap_error (''creating fallback runner job '' @ jr_Namespace r @ ''/'' @ name @
                                       '' for terminating namespace '' @ namespace @ '': '') e2)) }
                else ret (Inl (wrap_error (''creating runner job '' @ namespace @ ''/'' @ name @ '': '') e))) })"

section \<open>Waiting and reading the log\<close>

text \<open>The verdict of a Job's conditions: complete, failed with a message, or none yet.\<close>

datatype verdict = JobComplete | JobFailed string

fun job_verdict :: "JobCondition list \<Rightarrow> verdict option" where
  "job_verdict [] = None"
| "job_verdict (c # cs) =
     (if jc_Status c \<noteq> ''True'' then job_verdict cs
      else if jc_Type c = ''Complete'' then Some JobComplete
      else if jc_Type c = ''Failed'' then Some (JobFailed (jc_Message c))
      else job_verdict cs)"

primrec poll_job :: "nat \<Rightarrow> job_env \<Rightarrow> string \<Rightarrow> string \<Rightarrow> verdict result option job" where
  "poll_job 0 E ns name = ret None"
| "poll_job (Suc n) E ns name =
     do { j \<leftarrow> Get_job E ns name;
          (case (case j of
                   Inl e \<Rightarrow> if IsNotFound e then Some (Inl (Errorf (''runner job '' @ name @ '' disappeared''))) else None
                 | Inr conds \<Rightarrow> map_option Inr (job_verdict conds)) of
             Some out \<Rightarrow> ret (Some out)
           | None \<Rightarrow>
               do { w \<leftarrow> Poll_tick E;
                    (case w of Some e \<Rightarrow> ret (Some (Inl e)) | None \<Rightarrow> poll_job n E ns name) }) }"

text \<open>\<open>errors.Join\<close> of two errors.\<close>

definition join_errors :: "error \<Rightarrow> error \<Rightarrow> error" where
  "join_errors a b =
     \<lparr>e_msg = e_msg a @ newline @ e_msg b, e_chain = e_chain a @ e_chain b,
      e_coded = (case e_coded a of None \<Rightarrow> e_coded b | c \<Rightarrow> c), e_api = (case e_api a of None \<Rightarrow> e_api b | c \<Rightarrow> c)\<rparr>"

definition fetch_logs :: "job_env \<Rightarrow> string \<Rightarrow> string \<Rightarrow> string result job" where
  "fetch_logs E ns name =
     do { pods \<leftarrow> List_pods E ns (''job-name='' @ name);
          (case pods of
             Inl e \<Rightarrow> ret (Inl e)
           | Inr [] \<Rightarrow> ret (Inl (Errorf (''no pods found for job '' @ name)))
           | Inr ps \<Rightarrow> Get_logs E ns (p_Name (last (sort_key p_Created ps)))) }"

text \<open>The further attempts after the error \<open>e\<close>.\<close>

primrec retry_logs :: "nat \<Rightarrow> job_env \<Rightarrow> string \<Rightarrow> string \<Rightarrow> error \<Rightarrow> string result job" where
  "retry_logs 0 E ns name e = ret (Inl e)"
| "retry_logs (Suc n) E ns name e =
     do { w \<leftarrow> Log_tick E;
          (case w of
             Some c \<Rightarrow> ret (Inl (join_errors e c))
           | None \<Rightarrow>
               do { logs \<leftarrow> fetch_logs E ns name;
                    (case logs of Inr raw \<Rightarrow> ret (Inr raw) | Inl e' \<Rightarrow> retry_logs n E ns name e') }) }"

definition podLogs :: "job_env \<Rightarrow> string \<Rightarrow> string \<Rightarrow> string result job" where
  "podLogs E ns name =
     do { logs \<leftarrow> fetch_logs E ns name;
          (case logs of Inr raw \<Rightarrow> ret (Inr raw) | Inl e \<Rightarrow> retry_logs 4 E ns name e) }"

section \<open>One operation\<close>

definition no_result :: Result where
  "no_result = success\<lparr>OK := False\<rparr>"

definition secret_env :: "SecretInput list \<Rightarrow> EnvVar list" where
  "secret_env ordered =
     map (\<lambda>(i, s). \<lparr>ev_Name = secretEnvName i, ev_Value = [],
            ev_SecretKeyRef = Some \<lparr>skr_Name = SecretName s, skr_Key = SecretKey s, skr_Optional = True\<rparr>\<rparr>)
         (enumerate 0 ordered)"

text \<open>The operation as it travels: with the secret mapping of the context where its verb takes one.\<close>

definition job_op :: "op_ctx \<Rightarrow> Op \<Rightarrow> Op" where
  "job_op ctx op =
     (if ctx_inputs ctx \<noteq> [] \<and> VerbTakesSecretInputs (Verb op)
      then op\<lparr>SecretInputs := fst (secretInputsPlan (ctx_inputs ctx))\<rparr> else op)"

definition job_secret_env :: "op_ctx \<Rightarrow> Op \<Rightarrow> EnvVar list" where
  "job_secret_env ctx op =
     (if ctx_inputs ctx \<noteq> [] \<and> VerbTakesSecretInputs (Verb op)
      then secret_env (snd (secretInputsPlan (ctx_inputs ctx))) else [])"

text \<open>What a failed Job is reported as, and what the log of a completed one says.\<close>

definition failed_job :: "string \<Rightarrow> string \<Rightarrow> string \<Rightarrow> string \<Rightarrow> error" where
  "failed_job name verb failMsg logs =
     (let base = Errorf (''runner job '' @ name @ '' ('' @ verb @ '') failed: '' @ failMsg @ '': '' @
                         Truncate (TrimSpace logs) 4000) in
      case classifyInfraFailure logs failMsg of
        Some sentinel \<Rightarrow> sentinel_wrap sentinel '': '' base
      | None \<Rightarrow> base)"

definition decoded_job :: "job_env \<Rightarrow> string \<Rightarrow> Result \<times> error option" where
  "decoded_job E logs =
     (case decodeEnvelope (job_float64 E) logs of
        Inl e \<Rightarrow> (no_result, Some e)
      | Inr res \<Rightarrow> (res, resultErr res))"

definition finish_job ::
  "job_env \<Rightarrow> string \<Rightarrow> string \<Rightarrow> string \<Rightarrow> verdict \<Rightarrow> (Result \<times> error option) job" where
  "finish_job E ns name verb v =
     do { logs \<leftarrow> podLogs E ns name;
          (case v of
             JobFailed failMsg \<Rightarrow>
               do { emit (DeleteJob ns name);
                    ret (no_result, Some (failed_job name verb failMsg (case logs of Inl _ \<Rightarrow> [] | Inr t \<Rightarrow> t))) }
           | JobComplete \<Rightarrow>
               (case logs of
                  Inl e \<Rightarrow> ret (no_result, Some (sentinel_wrap ErrOutputUnavailable '': ''
                             (wrap_error (''runner job '' @ name @ '' ('' @ verb @ '') completed but its logs could not be read: '') e)))
                | Inr t \<Rightarrow> do { emit (DeleteJob ns name); ret (decoded_job E t) })) }"

definition executeOp :: "nat \<Rightarrow> job_env \<Rightarrow> JobRunner \<Rightarrow> op_ctx \<Rightarrow> Op \<Rightarrow> (Result \<times> error option) option job" where
  "executeOp n E r ctx op =
     (case encode_op (job_op ctx op) of
        Inl e \<Rightarrow> ret (Some (no_result, Some e))
      | Inr opJSON \<Rightarrow>
          do { name \<leftarrow> jobName E ctx (Verb op) opJSON;
               ns \<leftarrow> ensureJob E r ctx (jobNamespace r ctx) name (Verb op) opJSON (job_secret_env ctx op);
               (case ns of
                  Inl e \<Rightarrow> ret (Some (no_result, Some e))
                | Inr namespace \<Rightarrow>
                    do { polled \<leftarrow> poll_job n E namespace name;
                         (case polled of
                            None \<Rightarrow> ret None
                          | Some (Inl e) \<Rightarrow>
                              ret (Some (no_result, Some (wrap_error (''waiting for runner job '' @ name @ '' ('' @ Verb op @ ''): '') e)))
                          | Some (Inr v) \<Rightarrow> do { out \<leftarrow> finish_job E namespace name (Verb op) v; ret (Some out) }) }) })"

section \<open>The runner interface\<close>

text \<open>
  Both runners build the same operation for each method and read the same fields of its
  result; \<open>exec\<close> is \<open>executeOp\<close> or the in-process \<open>execute\<close>.
\<close>

definition bare_op :: "string \<Rightarrow> string \<Rightarrow> string \<Rightarrow> Op" where
  "bare_op verb token pkg =
     \<lparr>Verb = verb, Token = token, Package = pkg, op_ID = [], Properties = [], op_EngineState = [], op_State = [], SecretInputs = []\<rparr>"

definition op_outcome :: "(Result \<Rightarrow> 'a) \<Rightarrow> Result \<times> error option \<Rightarrow> 'a result" where
  "op_outcome f out = (case snd out of Some e \<Rightarrow> Inl e | None \<Rightarrow> Inr (f (fst out)))"

definition Create_op :: "string \<Rightarrow> string \<Rightarrow> jobj \<Rightarrow> Op" where
  "Create_op token pkg props = (bare_op VerbCreate token pkg)\<lparr>Properties := props\<rparr>"

definition Patch_op :: "string \<Rightarrow> string \<Rightarrow> string \<Rightarrow> jobj \<Rightarrow> Op" where
  "Patch_op token pkg rid props = (bare_op VerbPatch token pkg)\<lparr>op_ID := rid, Properties := props\<rparr>"

definition Read_op :: "string \<Rightarrow> string \<Rightarrow> string \<Rightarrow> Op" where
  "Read_op token pkg rid = (bare_op VerbRead token pkg)\<lparr>op_ID := rid\<rparr>"

definition Delete_op :: "string \<Rightarrow> string \<Rightarrow> string \<Rightarrow> jobj \<Rightarrow> Op" where
  "Delete_op token pkg rid state = (bare_op VerbDelete token pkg)\<lparr>op_ID := rid, op_State := bounded_state state\<rparr>"

definition engine_op :: "string \<Rightarrow> string \<Rightarrow> string \<Rightarrow> jobj \<Rightarrow> string \<Rightarrow> Op" where
  "engine_op verb token pkg props state = (bare_op verb token pkg)\<lparr>Properties := props, op_EngineState := state\<rparr>"

definition Job_Create :: "nat \<Rightarrow> job_env \<Rightarrow> JobRunner \<Rightarrow> op_ctx \<Rightarrow> string \<Rightarrow> string \<Rightarrow> jobj \<Rightarrow> (string \<times> jobj) result option job" where
  "Job_Create n E r ctx token pkg props =
     do { out \<leftarrow> executeOp n E r ctx (Create_op token pkg props);
          ret (map_option (op_outcome (\<lambda>res. (res_ID res, res_State res))) out) }"

definition Job_Patch :: "nat \<Rightarrow> job_env \<Rightarrow> JobRunner \<Rightarrow> op_ctx \<Rightarrow> string \<Rightarrow> string \<Rightarrow> string \<Rightarrow> jobj \<Rightarrow> jobj result option job" where
  "Job_Patch n E r ctx token pkg rid props =
     do { out \<leftarrow> executeOp n E r ctx (Patch_op token pkg rid props); ret (map_option (op_outcome res_State) out) }"

definition Job_Read :: "nat \<Rightarrow> job_env \<Rightarrow> JobRunner \<Rightarrow> op_ctx \<Rightarrow> string \<Rightarrow> string \<Rightarrow> string \<Rightarrow> jobj result option job" where
  "Job_Read n E r ctx token pkg rid =
     do { out \<leftarrow> executeOp n E r ctx (Read_op token pkg rid); ret (map_option (op_outcome res_State) out) }"

definition Job_Delete :: "nat \<Rightarrow> job_env \<Rightarrow> JobRunner \<Rightarrow> op_ctx \<Rightarrow> string \<Rightarrow> string \<Rightarrow> string \<Rightarrow> jobj \<Rightarrow> error option option job" where
  "Job_Delete n E r ctx token pkg rid state =
     do { out \<leftarrow> executeOp n E r ctx (Delete_op token pkg rid state); ret (map_option snd out) }"

definition Job_FetchSchema :: "nat \<Rightarrow> job_env \<Rightarrow> JobRunner \<Rightarrow> op_ctx \<Rightarrow> string \<Rightarrow> string \<Rightarrow> PackageSchema result option job" where
  "Job_FetchSchema n E r ctx pkg token =
     do { out \<leftarrow> executeOp n E r ctx (bare_op VerbSchema token pkg);
          ret (map_option (\<lambda>o'. and_then (op_outcome res_Schema o') (\<lambda>raw.
                 case decode_schema raw of
                   Inl e \<Rightarrow> Inl (wrap_error (''decoding schema for '' @ pkg @ '': '') e)
                 | Inr s \<Rightarrow> Inr s)) out) }"

definition Job_CreateComponent ::
  "nat \<Rightarrow> job_env \<Rightarrow> JobRunner \<Rightarrow> op_ctx \<Rightarrow> string \<Rightarrow> string \<Rightarrow> jobj \<Rightarrow> (string \<times> jobj \<times> string) result option job" where
  "Job_CreateComponent n E r ctx token pkg props =
     do { out \<leftarrow> executeOp n E r ctx (engine_op VerbEngineUp token pkg props []);
          ret (map_option (op_outcome (\<lambda>res. (res_ID res, Outputs res, res_EngineState res))) out) }"

definition Job_UpdateComponent ::
  "nat \<Rightarrow> job_env \<Rightarrow> JobRunner \<Rightarrow> op_ctx \<Rightarrow> string \<Rightarrow> string \<Rightarrow> jobj \<Rightarrow> string \<Rightarrow> (jobj \<times> string) result option job" where
  "Job_UpdateComponent n E r ctx token pkg props engineState =
     (case engineStateJSON engineState of
        Inl e \<Rightarrow> ret (Some (Inl e))
      | Inr state \<Rightarrow>
          do { out \<leftarrow> executeOp n E r ctx (engine_op VerbEngineUp token pkg props state);
               ret (map_option (op_outcome (\<lambda>res. (Outputs res, res_EngineState res))) out) })"

definition Job_DeleteComponent ::
  "nat \<Rightarrow> job_env \<Rightarrow> JobRunner \<Rightarrow> op_ctx \<Rightarrow> string \<Rightarrow> string \<Rightarrow> string \<Rightarrow> error option option job" where
  "Job_DeleteComponent n E r ctx token pkg engineState =
     (case engineStateJSON engineState of
        Inl e \<Rightarrow> ret (Some (Some e))
      | Inr state \<Rightarrow>
          do { out \<leftarrow> executeOp n E r ctx (engine_op VerbEngineDestroy token pkg [] state); ret (map_option snd out) })"

end
