(* ===== verification/Runner_Transport.thy ===== *)
theory Runner_Transport
  imports Runner_Documents
begin

text \<open>
  The two documents that cross the process boundary arrive as they were sent: the operation
  document in the environment variable of a runner pod, and the result envelope behind
  whatever the runner wrote to the pod log before it.
\<close>

section \<open>Canonical text is compact\<close>

definition plain_in_string :: "char \<Rightarrow> bool" where
  "plain_in_string c =
     (c \<noteq> CHR 0x5C \<and> c \<noteq> CHR 0x22 \<and> c \<noteq> CHR ''<'' \<and> c \<noteq> CHR ''>'' \<and> c \<noteq> CHR ''&'')"

lemma compact_plain: "list_all plain_in_string u \<Longrightarrow> compact_raw True (u @ r) = u @ compact_raw True r"
  by (induction u) (auto simp: plain_in_string_def)

lemma hex_digit_plain: "d < 16 \<Longrightarrow> plain_in_string (hex_digit d)"
proof -
  assume "d < 16"
  then have "(of_char (hex_digit d) :: nat) = (if d < 10 then 48 + d else 87 + d)" by (simp add: hex_digit_def)
  moreover have "(of_char (hex_digit d) :: nat) \<noteq> 92" "(of_char (hex_digit d) :: nat) \<noteq> 34"
    "(of_char (hex_digit d) :: nat) \<noteq> 60" "(of_char (hex_digit d) :: nat) \<noteq> 62" "(of_char (hex_digit d) :: nat) \<noteq> 38"
    using \<open>d < 16\<close> calculation by (auto split: if_splits)
  ultimately show ?thesis unfolding plain_in_string_def by (intro conjI notI) simp_all
qed

lemma hex_byte_plain: "list_all plain_in_string (hex_byte c)"
  using nat_of_char_less_256 [of c] by (simp add: hex_byte_def hex_digit_plain less_mult_imp_div_less)

lemma compact_backslash: "compact_raw True (CHR 0x5C # d # u @ r) = CHR 0x5C # d # u @ compact_raw True r"
  if "list_all plain_in_string u"
  using that by (simp add: compact_plain)

lemma compact_escape_char: "compact_raw True (json_escape_char c @ r) = json_escape_char c @ compact_raw True r"
proof (cases "c \<in> {CHR 0x22, CHR 0x5C, CHR 0x08, CHR 0x0C, CHR 0x0A, CHR 0x0D, CHR 0x09}")
  case True
  then show ?thesis by (elim insertE emptyE) (simp_all add: json_escape_char_def)
next
  case False
  note h = compact_backslash [of "CHR ''0'' # CHR ''0'' # hex_byte c" "CHR ''u''" r]
  have "list_all plain_in_string (CHR ''0'' # CHR ''0'' # hex_byte c)"
    using hex_byte_plain by (simp add: plain_in_string_def)
  with False h show ?thesis by (auto simp: json_escape_char_def)
qed

lemma compact_escape:
  "compact_raw True (json_escape s @ CHR 0x22 # r) = json_escape s @ CHR 0x22 # compact_raw False r"
proof (induction s rule: json_escape.induct)
  case (1 a b c s)
  note [simp del] = json_escape.simps(1)
  show ?case using 1 by (auto simp: json_escape.simps(1) compact_escape_char)
qed (simp_all add: compact_escape_char)

lemma compact_marshal_string: "compact_raw False (marshal_string s @ r) = marshal_string s @ compact_raw False r"
  using compact_escape [of s r] by (simp add: marshal_string_def json_space_def)


definition number_char :: "char \<Rightarrow> bool" where
  "number_char c = (is_digit c \<or> c = CHR ''+'' \<or> c = CHR ''-'' \<or> c = CHR ''.'' \<or> c = CHR ''e'' \<or> c = CHR ''E'')"

lemma digits_number_char: "list_all number_char (takeWhile is_digit s)"
  by (auto simp: list_all_iff number_char_def dest: set_takeWhileD)

lemma scan_chars:
  "scan_digits s = Some (a, r) \<Longrightarrow> s = a @ r \<and> list_all number_char a"
  "scan_int s = Some (a, r) \<Longrightarrow> s = a @ r \<and> list_all number_char a"
  "scan_frac s = Some (a, r) \<Longrightarrow> s = a @ r \<and> list_all number_char a"
  "scan_exp s = Some (a, r) \<Longrightarrow> s = a @ r \<and> list_all number_char a"
proof -
  show d: "scan_digits s = Some (a, r) \<Longrightarrow> s = a @ r \<and> list_all number_char a" for s a r
    using digits_number_char [of s] by (auto simp: scan_digits_def split: if_splits)
  show "scan_int s = Some (a, r) \<Longrightarrow> s = a @ r \<and> list_all number_char a"
    using digits_number_char [of s]
    by (auto simp: scan_int_def number_char_def is_digit_def split: list.splits if_splits)
  show "scan_frac s = Some (a, r) \<Longrightarrow> s = a @ r \<and> list_all number_char a"
    using d by (fastforce simp: scan_frac_def number_char_def split: list.splits if_splits)
  show "scan_exp s = Some (a, r) \<Longrightarrow> s = a @ r \<and> list_all number_char a"
    using d by (fastforce simp: scan_exp_def number_char_def split: list.splits if_splits)
qed

lemma parse_unsigned_chars: "parse_unsigned s = Some (a, r) \<Longrightarrow> s = a @ r \<and> list_all number_char a"
  using scan_chars by (fastforce simp: parse_unsigned_def split: option.splits)

lemma parse_number_chars: "parse_number s = Some (a, r) \<Longrightarrow> s = a @ r \<and> list_all number_char a"
  using parse_unsigned_chars by (fastforce simp: parse_number_def number_char_def split: list.splits if_splits)

lemma number_char_visible: "number_char c \<Longrightarrow> \<not> json_space c \<and> c \<noteq> CHR 0x22"
  by (auto simp: number_char_def json_space_def is_digit_def)

lemma compact_visible:
  "list_all (\<lambda>c. \<not> json_space c \<and> c \<noteq> CHR 0x22) u \<Longrightarrow> compact_raw False (u @ r) = u @ compact_raw False r"
  by (induction u) auto

lemma compact_number: "json_number d \<Longrightarrow> compact_raw False (d @ r) = d @ compact_raw False r"
  using parse_number_chars [of d d "[]"] number_char_visible
  by (intro compact_visible) (auto simp: json_number_def list_all_iff)

lemma compact_Join:
  assumes "\<forall>t \<in> set ts. \<forall>r. compact_raw False (t @ r) = t @ compact_raw False r"
  shows "compact_raw False (Join ts '','' @ r) = Join ts '','' @ compact_raw False r"
  using assms
proof (induction ts)
  case (Cons t ts)
  then show ?case by (cases "ts = []") (simp_all add: Join_Cons json_space_def)
qed simp

lemma compact_marshal: "doc_ok j \<Longrightarrow> compact_raw False (marshal j @ r) = marshal j @ compact_raw False r"
proof (induction j arbitrary: r rule: marshal.induct)
  case (3 n)
  then show ?case by (simp add: compact_number)
next
  case (4 s)
  show ?case by (simp add: compact_marshal_string)
next
  case (5 xs)
  then show ?case using compact_Join [of "map marshal xs" "CHR '']'' # r"] by (simp add: json_space_def)
next
  case (6 m)
  have "compact_raw False (Join (map member_text m) '','' @ CHR ''}'' # r) =
        Join (map member_text m) '','' @ compact_raw False (CHR ''}'' # r)"
  proof (rule compact_Join, clarsimp)
    fix k v r'
    assume "(k, v) \<in> set m"
    then show "compact_raw False (marshal_string k @ CHR '':'' # marshal v @ r') =
               marshal_string k @ CHR '':'' # marshal v @ compact_raw False r'"
      using 6 by (auto simp: compact_marshal_string json_space_def)
  qed
  then show ?case by (simp add: json_space_def)
qed (simp_all add: json_space_def FormatBool_def)

corollary compact_canonical: "doc_ok j \<Longrightarrow> compact_raw False (marshal j) = marshal j"
  using compact_marshal [of j "[]"] by simp

section \<open>Struct fields\<close>

text \<open>
  The members of a printed struct: every field with the value it prints, if it prints one.
\<close>

primrec present :: "(string \<times> json option) list \<Rightarrow> (string \<times> json) list" where
  "present [] = []"
| "present (p # ps) = (case snd p of None \<Rightarrow> present ps | Some j \<Rightarrow> (fst p, j) # present ps)"

definition opt_str :: "string \<Rightarrow> json option" where
  "opt_str v = (if v = [] then None else Some (JStr v))"

definition opt_map :: "jobj \<Rightarrow> json option" where
  "opt_map m = (if m = [] then None else Some (JObj m))"

definition opt_raw :: "string \<Rightarrow> json option" where
  "opt_raw raw = (case unmarshal raw of Inr j \<Rightarrow> Some j | Inl _ \<Rightarrow> None)"

text \<open>A raw message that is absent or canonical text.\<close>

definition raw_ok :: "string \<Rightarrow> bool" where
  "raw_ok raw = (raw = [] \<or> (case unmarshal raw of Inr j \<Rightarrow> doc_ok j \<and> marshal j = raw | Inl _ \<Rightarrow> False))"

abbreviation texts :: "(string \<times> json) list \<Rightarrow> (string \<times> string) list" where
  "texts ms \<equiv> map (\<lambda>(k, v). (k, marshal v)) ms"

lemma unmarshal_empty: "unmarshal [] = Inl (Errorf ''invalid or truncated JSON input'')"
  by (simp add: unmarshal_def parse_value.simps skip_ws_def numeral_2_eq_2)

lemma omit_texts:
  "omit_string k v @ texts (present ps) = texts (present ((k, opt_str v) # ps))"
  "omit_map k m @ texts (present ps) = texts (present ((k, opt_map m) # ps))"
  "raw_ok raw \<Longrightarrow> omit_raw k raw @ texts (present ps) = texts (present ((k, opt_raw raw) # ps))"
  "[(k, marshal j)] @ texts (present ps) = texts (present ((k, Some j) # ps))"
  "[] = texts (present [])"
  by (auto simp: omit_string_def opt_str_def omit_map_def opt_map_def omit_raw_def opt_raw_def
      raw_ok_def compact_canonical unmarshal_empty split: sum.splits)

lemma raw_ok_error: "raw_ok raw \<Longrightarrow> raw_error raw = None"
  by (auto simp: raw_ok_def raw_error_def split: sum.splits)

lemma raw_object_texts: "raw_object (texts ms) = object_text ms"
proof -
  have "map (\<lambda>(k, t). marshal_string k @ '':'' @ t) (texts ms) = map member_text ms" by auto
  then show ?thesis by (simp only: raw_object_def object_text_def)
qed

lemma present_keys: "fst ` set (present ps) \<subseteq> fst ` set ps"
  by (induction ps) (auto split: option.splits)

lemma present_distinct: "distinct (map fst ps) \<Longrightarrow> distinct (map fst (present ps))"
proof (induction ps)
  case (Cons p ps)
  then have "fst p \<notin> fst ` set (present ps)" using present_keys [of ps] by auto
  then show ?case using Cons by (simp split: option.splits)
qed simp

lemma present_get: "distinct (map fst ps) \<Longrightarrow> map_of (present ps) k = Option.bind (map_of ps k) id"
proof (induction ps)
  case (Cons p ps)
  have "map_of (present ps) (fst p) = None"
    using Cons.prems present_keys [of ps] by (auto simp: map_of_eq_None_iff)
  then show ?case using Cons by (cases p) (auto split: option.splits)
qed simp

lemma present_docs: "list_all (\<lambda>p. pred_option doc_ok (snd p)) ps \<Longrightarrow> \<forall>(k, v) \<in> set (present ps). doc_ok v"
  by (induction ps) (auto split: option.splits)

lemma opt_docs:
  "pred_option doc_ok (opt_str v)" "doc_ok (JObj m) \<Longrightarrow> pred_option doc_ok (opt_map m)"
  "raw_ok raw \<Longrightarrow> pred_option doc_ok (opt_raw raw)"
  by (auto simp: opt_str_def opt_map_def opt_raw_def raw_ok_def unmarshal_empty split: sum.splits)

lemma map_of_put_all:
  "distinct (map fst ms) \<Longrightarrow>
   gomap_get (put_all ms m) k = (case map_of ms k of None \<Rightarrow> gomap_get m k | Some v \<Rightarrow> Some v)"
proof (induction ms arbitrary: m)
  case (Cons kv ms)
  obtain a v where kv: "kv = (a, v)" by (cases kv)
  have "map_of ms a = None" using Cons.prems by (simp add: kv map_of_eq_None_iff)
  then show ?case using Cons by (auto simp: kv gomap_get_put split: option.splits)
qed simp

lemma put_all_keys: "fst ` set (put_all ms m) = fst ` set ms \<union> fst ` set m"
proof (induction ms arbitrary: m)
  case (Cons kv ms)
  then show ?case by (cases kv) (simp add: fst_set_gomap_put)
qed simp

lemma put_all_ok: "gomap_ok m \<Longrightarrow> gomap_ok (put_all ms m)"
  by (induction ms arbitrary: m) (auto simp: gomap_ok_put)

lemma find_append: "find P (xs @ ys) = (case find P xs of None \<Rightarrow> find P ys | Some x \<Rightarrow> Some x)"
  by (induction xs) auto

lemma find_rev_unique:
  "distinct (map fst m) \<Longrightarrow> map_option snd (find (\<lambda>(k, _). k = name) (rev m)) = map_of m name"
proof (induction m)
  case (Cons kv m)
  obtain a v where kv: "kv = (a, v)" by (cases kv)
  have "find (\<lambda>(k, _). k = a) (rev m) = None" if "name = a"
    using Cons.prems by (force simp: find_None_iff kv)
  then show ?case using Cons by (auto simp: kv find_append split: option.splits)
qed simp

text \<open>Reading a field of a struct whose keys differ also up to case.\<close>

definition fold_distinct :: "string list \<Rightarrow> bool" where
  "fold_distinct ks = distinct (map ToLower ks)"

lemma fold_distinctD:
  assumes "fold_distinct ks"
  shows "distinct ks" "k \<in> set ks \<Longrightarrow> name \<in> set ks \<Longrightarrow> EqualFold k name \<Longrightarrow> k = name"
  using assms by (auto simp: fold_distinct_def EqualFold_def distinct_map inj_on_def)

lemma struct_field:
  assumes "fold_distinct (map fst ps)" "name \<in> fst ` set ps"
  shows "json_field (put_all (present ps) []) name = Option.bind (map_of ps name) id"
proof -
  let ?m = "put_all (present ps) []"
  note d = fold_distinctD [OF assms(1)]
  have keys: "fst ` set ?m \<subseteq> fst ` set ps" using present_keys by (simp add: put_all_keys)
  have "k = name" if "(k, v) \<in> set ?m" "EqualFold k name" for k v
    using d(2) [of k name] that keys assms(2) by force
  then have "find (\<lambda>(k, _). EqualFold k name) (rev ?m) = find (\<lambda>(k, _). k = name) (rev ?m)"
    by (intro find_cong) (auto simp: EqualFold_def)
  moreover have "distinct (map fst ?m)" using put_all_ok [of "[]" "present ps"] by (simp add: gomap_ok_def strict_sorted_iff)
  ultimately show ?thesis
    using find_rev_unique [of ?m name] map_of_put_all [OF present_distinct [OF d(1)], of "[]" name] present_get [OF d(1)]
    by (simp add: json_field_def split: option.splits)
qed

text \<open>What the field readers make of the printed values.\<close>

lemma read_fields:
  "json_field m name = opt_str v \<Longrightarrow> string_field struct m name = Inr v"
  "json_field m name = opt_map o' \<Longrightarrow> map_field f struct m name = Inr (floats_obj f o')"
  "json_field m name = opt_map (string_map s) \<Longrightarrow> string_map_field struct m name = Inr s"
  "json_field m name = opt_raw raw \<Longrightarrow> raw_ok raw \<Longrightarrow> raw_field m name = raw"
proof -
  have "strings_of x (string_map s) = Inr s" for x
    by (induction s) (auto simp: string_map_def)
  then show "json_field m name = opt_map (string_map s) \<Longrightarrow> string_map_field struct m name = Inr s"
    by (auto simp: string_map_field_def opt_map_def string_map_def)
qed (auto simp: string_field_def map_field_def floats_obj_def raw_field_def raw_ok_def unmarshal_empty
      opt_str_def opt_map_def opt_raw_def split: sum.splits)

section \<open>The operation document\<close>

definition op_fields :: "Op \<Rightarrow> (string \<times> json option) list" where
  "op_fields op =
     [(''verb'', Some (JStr (Verb op))), (''token'', opt_str (Token op)), (''package'', opt_str (Package op)),
      (''id'', opt_str (op_ID op)), (''properties'', opt_map (Properties op)),
      (''engineState'', opt_raw (op_EngineState op)), (''state'', opt_map (op_State op)),
      (''secretInputs'', opt_map (string_map (SecretInputs op)))]"

text \<open>An operation whose maps are canonical documents.\<close>

definition op_ok :: "Op \<Rightarrow> bool" where
  "op_ok op = (doc_ok (JObj (Properties op)) \<and> doc_ok (JObj (op_State op)) \<and> gomap_ok (SecretInputs op) \<and>
               raw_ok (op_EngineState op))"

lemma string_map_doc: "gomap_ok m \<Longrightarrow> doc_ok (JObj (string_map m))"
  by (auto simp: string_map_def gomap_ok_def sorted_wrt_map case_prod_unfold)

lemma encode_op_text: "op_ok op \<Longrightarrow> encode_op op = Inr (object_text (present (op_fields op)))"
  by (simp add: encode_op_def op_ok_def raw_ok_error op_fields_def raw_object_texts [symmetric] omit_texts(1-4) [symmetric]
      del: present.simps(2))

lemma op_fields_fold: "fold_distinct (map fst (op_fields op))"
  unfolding op_fields_def fold_distinct_def list.map fst_conv by code_simp

lemma op_field:
  "(name, v) \<in> set (op_fields op) \<Longrightarrow> json_field (put_all (present (op_fields op)) []) name = v"
  using struct_field [OF op_fields_fold, of name op] fold_distinctD(1) [OF op_fields_fold, of op]
  by (force simp: map_of_eq_Some_iff)

lemma op_docs: "op_ok op \<Longrightarrow> \<forall>(k, v) \<in> set (present (op_fields op)). doc_ok v"
  by (intro present_docs) (simp add: op_fields_def op_ok_def opt_docs string_map_doc del: doc_ok.simps(3))

lemma decode_op_text:
  assumes "op_ok op"
  shows "decode_op f (object_text (present (op_fields op))) =
         Inr (op\<lparr>Properties := floats_obj f (Properties op), op_State := floats_obj f (op_State op)\<rparr>)"
proof -
  define m where "m = put_all (present (op_fields op)) []"
  have doc: "unmarshal (object_text (present (op_fields op))) = Inr (JObj m)"
    using unmarshal_object_text [OF op_docs [OF assms], of "[]"] by (simp add: m_def)
  note field = op_field [of _ _ op, folded m_def]
  have "string_field ''Op.'' m ''verb'' = Inr (Verb op)"
    by (simp add: string_field_def field [of _ "Some (JStr (Verb op))"] op_fields_def)
  moreover have "string_field ''Op.'' m ''token'' = Inr (Token op)" "string_field ''Op.'' m ''package'' = Inr (Package op)"
    "string_field ''Op.'' m ''id'' = Inr (op_ID op)"
    "map_field f ''Op.'' m ''properties'' = Inr (floats_obj f (Properties op))"
    "map_field f ''Op.'' m ''state'' = Inr (floats_obj f (op_State op))"
    "string_map_field ''Op.'' m ''secretInputs'' = Inr (SecretInputs op)"
    by (intro read_fields field; simp add: op_fields_def)+
  moreover have "raw_field m ''engineState'' = op_EngineState op"
    using assms by (intro read_fields field) (simp_all add: op_fields_def op_ok_def)
  ultimately show ?thesis by (simp add: decode_op_def doc)
qed

text \<open>
  The operation document survives its way into a runner pod. For every operation whose
  maps are canonical JSON documents (strings of any bytes, keys of any form) and whose engine
  state is absent or canonical, the operator's encoding succeeds, and the runner decodes it to
  the same verb, token, package, id, engine state and secret mapping, and to the same
  properties and recorded state up to the rounding of their numbers to \<open>float64\<close>. In
  particular no field is confused with another, although Go matches keys up to case.
\<close>

theorem op_document_roundtrip:
  assumes "op_ok op"
  shows "\<exists>text. encode_op op = Inr text \<and>
           decode_op f text = Inr (op\<lparr>Properties := floats_obj f (Properties op), op_State := floats_obj f (op_State op)\<rparr>)"
  using encode_op_text [OF assms] decode_op_text [OF assms] by blast

definition demo_op :: Op where
  "demo_op = \<lparr>Verb = VerbCreate, Token = ''aws:s3/bucketV2:BucketV2'', Package = ''aws@7.1.0'', op_ID = [],
     Properties = [(''Tags'', JArr [JStr ''a<b'', JNull]), (''size'', JNum ''5'')], op_EngineState = ''{}'', op_State = [],
     SecretInputs = [(''password'', ''DOPLANE_SECRET_0'')]\<rparr>"

theorem op_document_roundtrip_witness:
  "\<exists>text. encode_op demo_op = Inr text \<and> decode_op (\<lambda>n. n) text = Inr demo_op"
proof -
  have "op_ok demo_op" by code_simp
  from op_document_roundtrip [OF this, of "\<lambda>n. n"] show ?thesis
    by (simp add: demo_op_def floats_obj_def)
qed

section \<open>Log output cannot swallow the envelope\<close>

text \<open>Strings, numbers and literals never extend over the end of a line.\<close>

definition in_line :: "string \<Rightarrow> string \<Rightarrow> bool" where
  "in_line s r = (\<exists>u. s = u @ r \<and> CHR 0x0A \<notin> set u)"

lemma in_line_refl [simp]: "in_line s s" by (simp add: in_line_def)

lemma in_line_Cons: "in_line s r \<Longrightarrow> c \<noteq> CHR 0x0A \<Longrightarrow> in_line (c # s) r"
  unfolding in_line_def by (metis append_Cons set_ConsD)

lemma in_line_trans: "in_line s q \<Longrightarrow> in_line q r \<Longrightarrow> in_line s r"
  unfolding in_line_def by (metis UnE append_assoc set_append)

lemma hex4_in_line: "hex4 s = Some (n, r) \<Longrightarrow> in_line s r"
proof (cases s rule: hex4.cases)
  case (1 a b c d t)
  assume "hex4 s = Some (n, r)"
  moreover have "hex_val (CHR 0x0A) = None" by (simp add: hex_val_def)
  ultimately show ?thesis using 1 by (auto split: option.splits intro!: in_line_Cons)
qed simp_all

lemma decode_rune_in_line: "decode_rune n s = (bytes, r) \<Longrightarrow> in_line s r"
  by (auto simp: decode_rune_def split: list.splits option.splits if_splits
      intro: in_line_Cons [OF in_line_Cons [OF hex4_in_line]])

lemma parse_string_in_line: "parse_string s = Some (t, r) \<Longrightarrow> in_line s r"
proof (induction s arbitrary: t rule: parse_string.induct)
  case (2 c s)
  have nl: "escape_char (CHR 0x0A) = None" by (simp add: escape_char_def)
  consider (quote) "c = CHR 0x22" | (esc) "c = CHR 0x5C" | (plain) "c \<noteq> CHR 0x22" "c \<noteq> CHR 0x5C" by blast
  then show ?case
  proof cases
    case quote
    then show ?thesis using 2(4) by (auto intro: in_line_Cons)
  next
    case esc
    then obtain e s' where s: "s = e # s'" using 2(4) by (cases s) auto
    show ?thesis
    proof (cases "e = CHR ''u''")
      case True
      then obtain n s'' bytes q t' where q: "hex4 s' = Some (n, s'')" "decode_rune n s'' = (bytes, q)" "parse_string q = Some (t', r)"
        using 2(4) esc s by (auto split: option.splits prod.splits)
      have "in_line q r" by (rule 2(1) [OF _ esc s True q(1) refl q(2)  [symmetric] q(3)]) (simp add: esc)
      then have "in_line s' r" using hex4_in_line [OF q(1)] decode_rune_in_line [OF q(2)] in_line_trans by blast
      then show ?thesis using esc s True by (auto intro!: in_line_Cons)
    next
      case False
      then obtain b t' where q: "escape_char e = Some b" "parse_string s' = Some (t', r)"
        using 2(4) esc s by (auto split: option.splits)
      have "in_line s' r" by (rule 2(2) [OF _ esc s False q]) (simp add: esc)
      then show ?thesis using esc s q(1) nl by (auto intro!: in_line_Cons)
    qed
  next
    case plain
    then have "c \<noteq> CHR 0x0A" "\<not> (of_char c :: nat) < 32" using 2(4) by (auto split: if_splits)
    then show ?thesis using 2 plain by (auto intro!: in_line_Cons)
  qed
qed simp

lemma parse_number_in_line: "parse_number s = Some (d, r) \<Longrightarrow> in_line s r"
  using parse_number_chars [of s d r] number_char_visible [of "CHR 0x0A"]
  by (auto simp: in_line_def list_all_iff json_space_def)

lemma expect_in_line: "expect lit j s = Some (v, r) \<Longrightarrow> CHR 0x0A \<notin> set lit \<Longrightarrow> in_line s r"
  by (auto simp: expect_def in_line_def HasPrefix_drop split: if_splits) (metis HasPrefix_drop)

text \<open>More fuel does not change what is read.\<close>

lemma parse_more_fuel:
  "parse_value n s = Some x \<Longrightarrow> parse_value (Suc n) s = Some x"
  "parse_items n s = Some y \<Longrightarrow> parse_items (Suc n) s = Some y"
  "parse_members n s m = Some z \<Longrightarrow> parse_members (Suc n) s m = Some z"
proof (induction n arbitrary: s x y z m)
  case (Suc n)
  note eqs = parse_value.simps(2) parse_items.simps(2) parse_members.simps(2)
  {
    case 1
    then obtain c cs where c: "skip_ws s = c # cs" by (auto simp: eqs split: list.splits)
    consider (obj) d ds where "c = CHR ''{''" "skip_ws cs = d # ds" | (arr) d ds where "c = CHR ''[''" "skip_ws cs = d # ds"
      | (nil) "skip_ws cs = []" | (other) "c \<noteq> CHR ''{''" "c \<noteq> CHR ''[''" by (cases "skip_ws cs") auto
    then show ?case
    proof cases
      case (obj d ds)
      show ?thesis
      proof (cases "d = CHR ''}''")
        case False
        then obtain mr where "parse_members n (d # ds) [] = Some mr" using 1 obj c by (auto simp: eqs(1))
        with Suc.IH(3) [OF this] show ?thesis using 1 obj c False by (simp add: eqs(1))
      qed (use 1 obj c in \<open>simp add: eqs(1)\<close>)
    next
      case (arr d ds)
      show ?thesis
      proof (cases "d = CHR '']''")
        case False
        then obtain xr where "parse_items n (d # ds) = Some xr" using 1 arr c by (auto simp: eqs(1))
        with Suc.IH(2) [OF this] show ?thesis using 1 arr c False by (simp add: eqs(1))
      qed (use 1 arr c in \<open>simp add: eqs(1)\<close>)
    next
      case nil
      have "parse_value (Suc (Suc n)) s = parse_value (Suc n) s" by (simp add: eqs(1) c nil)
      then show ?thesis using 1 by simp
    next
      case other
      have "parse_value (Suc (Suc n)) s = parse_value (Suc n) s" by (simp add: eqs(1) c other)
      then show ?thesis using 1 by simp
    qed
  next
    case 2
    then obtain v r where v: "parse_value n s = Some (v, r)" by (auto simp: eqs(2) split: option.splits)
    then obtain c cs where c: "skip_ws r = c # cs" using 2 by (auto simp: eqs(2) split: list.splits)
    show ?case
    proof (cases "c = CHR '','' \<and> c \<noteq> CHR '']''")
      case True
      then obtain xr where "parse_items n cs = Some xr" using 2 v c by (auto simp: eqs(2))
      with Suc.IH(2) [OF this] show ?thesis using 2 v c True Suc.IH(1) [OF v] by (simp add: eqs(2))
    qed (use 2 v c Suc.IH(1) [OF v] in \<open>auto simp: eqs(2) split: if_splits\<close>)
  next
    case 3
    then obtain c cs where c: "skip_ws s = c # cs" "c = CHR 0x22" by (auto simp: eqs(3) split: list.splits if_splits)
    then obtain k r where k: "parse_string cs = Some (k, r)" using 3 by (auto simp: eqs(3) split: option.splits)
    then obtain d ds where d: "skip_ws r = d # ds" "d = CHR '':''" using 3 c by (auto simp: eqs(3) split: list.splits if_splits)
    then obtain v q where v: "parse_value n ds = Some (v, q)" using 3 c k by (auto simp: eqs(3) split: option.splits)
    then obtain e es where e: "skip_ws q = e # es" using 3 c k d by (auto simp: eqs(3) split: list.splits)
    show ?case
    proof (cases "e = CHR '','' \<and> e \<noteq> CHR ''}''")
      case True
      then have "parse_members n es (gomap_put k v m) = Some z" using 3 c k d v e by (simp add: eqs(3))
      from Suc.IH(3) [OF this] show ?thesis using c k d True e Suc.IH(1) [OF v] by (simp add: eqs(3))
    qed (use 3 c k d v e Suc.IH(1) [OF v] in \<open>auto simp: eqs(3) split: if_splits\<close>)
  }
qed (simp_all add: parse_value.simps parse_items.simps parse_members.simps)

lemma parse_value_mono: "n \<le> k \<Longrightarrow> parse_value n s = Some x \<Longrightarrow> parse_value k s = Some x"
  by (induction k rule: dec_induct) (auto intro: parse_more_fuel)

lemma parse_value_unique: "parse_value n s = Some x \<Longrightarrow> parse_value k s = Some y \<Longrightarrow> x = y"
  using parse_value_mono [of n "max n k" s x] parse_value_mono [of k "max n k" s y] by simp

text \<open>
  The envelope line \<open>t\<close> begins with a brace, is one JSON value, and its line end is the last
  byte of the log. \<open>q\<close> is log output in front of it: empty, or ended by a line end.
\<close>

definition whole_lines :: "string \<Rightarrow> bool" where
  "whole_lines q = (q = [] \<or> last q = CHR 0x0A)"

definition envelope_line :: "string \<Rightarrow> bool" where
  "envelope_line t = ((\<exists>t'. t = CHR ''{'' # t') \<and> (\<forall>n v r. parse_value n t = Some (v, r) \<longrightarrow> skip_ws r = []))"

definition before :: "string \<Rightarrow> string \<Rightarrow> string \<Rightarrow> bool" where
  "before t q r = (\<exists>u q'. q = u @ q' \<and> r = q' @ t \<and> whole_lines q')"

lemma whole_lines_suffix: "whole_lines (u @ q) \<Longrightarrow> whole_lines q"
  by (cases "q = []") (simp_all add: whole_lines_def)

lemma whole_lines_Cons: "whole_lines (c # q) \<Longrightarrow> c \<noteq> CHR 0x0A \<Longrightarrow> q \<noteq> [] \<and> whole_lines q"
  by (auto simp: whole_lines_def split: if_splits)

lemma before_in_line:
  assumes "whole_lines q" "q \<noteq> []" "in_line (q @ t) r"
  shows "before t q r"
proof -
  obtain u where u: "q @ t = u @ r" "CHR 0x0A \<notin> set u" using assms(3) by (auto simp: in_line_def)
  have "CHR 0x0A \<in> set q" using assms(1,2) last_in_set [of q] by (auto simp: whole_lines_def)
  then obtain q' where "q = u @ q'" "r = q' @ t"
    using u by (auto simp: append_eq_append_conv2)
  then show ?thesis using assms(1) whole_lines_suffix by (auto simp: before_def)
qed

lemma before_refl: "whole_lines q \<Longrightarrow> before t q (q @ t)"
  unfolding before_def by (intro exI [of _ "[]"] exI [of _ q]) simp

lemma before_extend: "before t q r \<Longrightarrow> before t (u @ q) r"
  unfolding before_def by (metis append_assoc)

lemma before_Cons: "before t q r \<Longrightarrow> before t (c # q) r"
  using before_extend [of t q r "[c]"] by simp

lemma before_app: "before t q' r \<Longrightarrow> q = u @ c # q' \<Longrightarrow> before t q r"
  using before_extend [of t q' r "u @ [c]"] by simp

lemma envelope_head: "envelope_line t \<Longrightarrow> \<exists>t'. t = CHR ''{'' # t'"
  by (auto simp: envelope_line_def)

lemma skip_ws_before:
  assumes "whole_lines q" "envelope_line t"
  shows "skip_ws (q @ t) = skip_ws q @ t" "whole_lines (skip_ws q)" "\<exists>u. q = u @ skip_ws q"
proof -
  show "skip_ws (q @ t) = skip_ws q @ t"
    using envelope_head [OF assms(2)] by (induction q) (auto simp: skip_ws_def json_space_def)
  have q: "q = takeWhile json_space q @ skip_ws q" by (simp add: skip_ws_def)
  then show "\<exists>u. q = u @ skip_ws q" by blast
  show "whole_lines (skip_ws q)" using whole_lines_suffix assms(1) q by metis
qed

text \<open>A visible byte before the envelope, and the output behind it.\<close>

lemma skip_ws_head:
  assumes "whole_lines q" "envelope_line t" "skip_ws (q @ t) = c # cs" "c \<noteq> CHR ''{'' \<or> skip_ws q \<noteq> []"
  shows "\<exists>u q'. q = u @ c # q' \<and> cs = q' @ t \<and> whole_lines q' \<and> q' \<noteq> []"
proof -
  note b = skip_ws_before [OF assms(1,2)]
  obtain q' where q': "skip_ws q = c # q'" "cs = q' @ t"
    using assms(3,4) b(1) envelope_head [OF assms(2)] by (cases "skip_ws q") auto
  have "\<not> json_space c" using q'(1) hd_dropWhile [of json_space q] by (simp add: skip_ws_def)
  then have "c \<noteq> CHR 0x0A" by (auto simp: json_space_def)
  then have "q' \<noteq> []" "whole_lines q'" using whole_lines_Cons b(2) q'(1) by metis+
  moreover obtain u where "q = u @ c # q'" using b(3) q'(1) by auto
  ultimately show ?thesis using q'(2) by blast
qed

lemma parse_value_skip: "parse_value n (skip_ws s) = parse_value n s"
  by (cases n) (simp_all add: parse_value.simps skip_ws_def)

text \<open>
  Behind a value nested in log output there is more log output: the envelope itself cannot
  be that value, since nothing but white space follows it.
\<close>

lemma after_value:
  assumes t: "envelope_line t" and q: "whole_lines q" and v: "parse_value n (q @ t) = Some (v, r)"
    and r: "skip_ws r = c # cs" "c \<noteq> CHR ''{''" and before: "skip_ws q \<noteq> [] \<Longrightarrow> before t q r"
  shows "\<exists>u q'. q = u @ c # q' \<and> cs = q' @ t \<and> whole_lines q'"
proof (cases "skip_ws q = []")
  case True
  then have "parse_value n t = Some (v, r)"
    using v skip_ws_before [OF q t] parse_value_skip [of n "q @ t"] by simp
  then show ?thesis using t r(1) by (auto simp: envelope_line_def)
next
  case False
  then obtain u q1 where q1: "q = u @ q1" "r = q1 @ t" "whole_lines q1" using before by (auto simp: before_def)
  then obtain u2 q' where "q1 = u2 @ c # q'" "cs = q' @ t" "whole_lines q'" using skip_ws_head [OF q1(3) t, of c cs] r by auto
  then show ?thesis using q1(1) by (metis append_assoc)
qed

text \<open>The body of an object or array: closed at once, or parsed by \<open>body\<close>.\<close>

lemma nested_before:
  assumes t: "envelope_line t" and q: "whole_lines q" and d: "skip_ws (q @ t) = d # ds"
    and out: "(if d = close then Some (x, ds) else map_option (\<lambda>(m, r). (f m, r)) (body (d # ds))) = Some (v, r)"
    and close: "close \<noteq> CHR ''{''"
    and body: "\<And>q m r. whole_lines q \<Longrightarrow> body (q @ t) = Some (m, r) \<Longrightarrow> before t q r"
  shows "before t q r"
proof (cases "d = close")
  case True
  then obtain u q' where "q = u @ d # q'" "ds = q' @ t" "whole_lines q'" using skip_ws_head [OF q t d] close by auto
  then show ?thesis using before_refl [of q' t] before_app out True by auto
next
  case False
  note b = skip_ws_before [OF q t]
  have "before t (skip_ws q) r" using False out body [OF b(2)] b(1) d by auto
  then show ?thesis using b(3) before_extend by metis
qed

lemma parse_before:
  assumes t: "envelope_line t"
  shows "whole_lines q \<Longrightarrow> skip_ws q \<noteq> [] \<Longrightarrow> parse_value n (q @ t) = Some (v, r) \<Longrightarrow> before t q r"
    and "whole_lines q \<Longrightarrow> parse_items n (q @ t) = Some (vs, r) \<Longrightarrow> before t q r"
    and "whole_lines q \<Longrightarrow> parse_members n (q @ t) m = Some (m', r) \<Longrightarrow> before t q r"
proof (induction n arbitrary: q v r vs m m')
  case (Suc n)
  note eqs = parse_value.simps(2) parse_items.simps(2) parse_members.simps(2)
  note head = skip_ws_head [OF _ t] and rest = after_value [OF t]
  {
    case 1
    then obtain c cs where c: "skip_ws (q @ t) = c # cs" by (auto simp: eqs(1) split: list.splits)
    then obtain u q' where q': "q = u @ c # q'" "cs = q' @ t" "whole_lines q'" "q' \<noteq> []"
      using head [OF 1(1) c] 1(2) by blast
    note out = 1(3) [unfolded eqs(1) c list.case]
    consider (str) "c = CHR 0x22" | (obj) "c = CHR ''{''" | (arr) "c = CHR ''[''"
      | (lit) "c \<noteq> CHR 0x22" "c \<noteq> CHR ''{''" "c \<noteq> CHR ''[''" by blast
    then show ?case
    proof cases
      case str
      then have "in_line (q' @ t) r" using out q' by (auto intro: parse_string_in_line)
      then show ?thesis using before_in_line [of q' t r] before_app q' by blast
    next
      case obj
      then obtain d ds where "skip_ws (q' @ t) = d # ds" using out q' by (auto split: list.splits)
      with out obj q' show ?thesis
        using before_app [OF nested_before [OF t q'(3), of d ds "CHR ''}''" _ JObj "\<lambda>s. parse_members n s []"] q'(1)] Suc.IH(3)
        by auto
    next
      case arr
      then obtain d ds where "skip_ws (q' @ t) = d # ds" using out q' by (auto split: list.splits)
      with out arr q' show ?thesis
        using before_app [OF nested_before [OF t q'(3), of d ds "CHR '']''" _ JArr "parse_items n"] q'(1)] Suc.IH(2)
        by auto
    next
      case lit
      then have "in_line ((c # q') @ t) r"
        using out q'(2) by (auto split: if_splits intro: expect_in_line parse_number_in_line)
      then have "before t (c # q') r" using q' by (intro before_in_line) (auto simp: whole_lines_def)
      then show ?thesis using before_extend q'(1) by metis
    qed
  next
    case 2
    then obtain v r0 where v: "parse_value n (q @ t) = Some (v, r0)" by (auto simp: eqs(2) split: option.splits)
    then obtain c cs where c: "skip_ws r0 = c # cs" "c = CHR '']'' \<or> c = CHR '',''"
      using 2 by (auto simp: eqs(2) split: list.splits if_splits)
    then obtain u q' where q': "q = u @ c # q'" "cs = q' @ t" "whole_lines q'" using rest [OF 2(1) v c(1) _ Suc.IH(1) [OF 2(1) _ v]] by auto
    have "before t q' r"
      using c(2) 2(2) v c(1) q' before_refl Suc.IH(2) [OF q'(3)] by (auto simp: eqs(2))
    then show ?case using before_app q'(1) by blast
  next
    case 3
    then obtain c cs where c: "skip_ws (q @ t) = c # cs" "c = CHR 0x22" by (auto simp: eqs(3) split: list.splits if_splits)
    then obtain u q1 where q1: "q = u @ c # q1" "cs = q1 @ t" "whole_lines q1" "q1 \<noteq> []" using head [OF 3(1) c(1)] by auto
    obtain k r1 where k: "parse_string cs = Some (k, r1)" using 3 c by (auto simp: eqs(3) split: option.splits)
    then obtain u2 q2 where q2: "q1 = u2 @ q2" "r1 = q2 @ t" "whole_lines q2"
      using before_in_line [OF q1(3,4)] parse_string_in_line q1(2) unfolding before_def by blast
    obtain d ds where d: "skip_ws r1 = d # ds" "d = CHR '':''" using 3 c k by (auto simp: eqs(3) split: list.splits if_splits)
    then obtain u3 q3 where q3: "q2 = u3 @ d # q3" "ds = q3 @ t" "whole_lines q3" using head [OF q2(3), of d ds] q2(2) by auto
    obtain v r2 where v: "parse_value n (q3 @ t) = Some (v, r2)" using 3 c k d q3(2) by (auto simp: eqs(3) split: option.splits)
    then obtain e es where e: "skip_ws r2 = e # es" "e = CHR ''}'' \<or> e = CHR '',''"
      using 3 c k d q3(2) by (auto simp: eqs(3) split: list.splits if_splits)
    then obtain u4 q4 where q4: "q3 = u4 @ e # q4" "es = q4 @ t" "whole_lines q4"
      using rest [OF q3(3) v e(1) _ Suc.IH(1) [OF q3(3) _ v]] by auto
    have "before t q4 r"
      using e(2) 3(2) c k d v e(1) q3(2) q4 before_refl Suc.IH(3) [OF q4(3)] by (auto simp: eqs(3))
    then show ?case using before_app before_extend q4(1) q3(1) q2(1) q1(1) by metis
  }
qed (simp_all add: parse_value.simps parse_items.simps parse_members.simps)

lemma parse_object_before:
  assumes t: "envelope_line t" and q: "whole_lines q" and v: "parse_value n (CHR ''{'' # q @ t) = Some (v, r)"
  shows "before t q r"
proof -
  obtain k where k: "n = Suc k" using v by (cases n) (simp_all add: parse_value.simps)
  have ws: "skip_ws (CHR ''{'' # q @ t) = CHR ''{'' # q @ t" by (simp add: skip_ws_def json_space_def)
  note out = v [unfolded k parse_value.simps(2) ws list.case]
  obtain d ds where "skip_ws (q @ t) = d # ds" using out by (auto split: list.splits)
  then show ?thesis
    using out nested_before [OF t q, of d ds "CHR ''}''" _ JObj "\<lambda>s. parse_members k s []"] parse_before(3) [OF t]
    by auto
qed

lemma last_object_reaches:
  assumes "envelope_line t" "whole_lines q" "q = [] \<longrightarrow> ls"
  shows "\<exists>found'. last_object ls (q @ t) found = last_object True t found'"
  using assms(2,3)
proof (induction "length q" arbitrary: q ls found rule: less_induct)
  case less
  show ?case
  proof (cases q)
    case Nil
    then show ?thesis using less.prems by auto
  next
    case (Cons c cs)
    have step: "\<exists>found'. last_object (c = CHR 0x0A) (cs @ t) found = last_object True t found'" for found
      using less.prems(1) by (intro less.hyps) (auto simp: Cons whole_lines_def split: if_splits)
    show ?thesis
    proof (cases "c = CHR ''{'' \<and> ls")
      case False
      then show ?thesis using step [of found] by (simp add: Cons)
    next
      case True
      then have nl: "c \<noteq> CHR 0x0A" by simp
      show ?thesis
      proof (cases "\<exists>m off. decode (q @ t) = Some (JObj m, off)")
        case False
        then have "last_object ls (q @ t) found = last_object False (cs @ t) found"
          using True by (auto simp: Cons split: option.splits prod.splits json.splits)
        then show ?thesis using step [of found] nl by simp
      next
        case dec: True
        then obtain m r where r: "parse_value (2 * length (q @ t) + 2) (q @ t) = Some (JObj m, r)"
          and d: "decode (q @ t) = Some (JObj m, length (q @ t) - length r)" by (auto simp: decode_def)
        have "whole_lines cs" using less.prems(1) nl whole_lines_Cons by (auto simp: Cons)
        then obtain u' q' where "cs = u' @ q'" "r = q' @ t" "whole_lines q'"
          using parse_object_before [OF assms(1) _ r [unfolded Cons append_Cons conjunct1 [OF True]]]
          unfolding before_def by blast
        then obtain u where q': "q = u @ q'" "r = q' @ t" "whole_lines q'" and u: "u \<noteq> []"
          by (metis Cons append_Cons list.distinct(1))
        let ?ls = "(q @ t) ! (length u - 1) = CHR 0x0A"
        have "last_object ls (q @ t) found = last_object ?ls (q' @ t) (Some m)"
          using True d q' u by (cases u) (simp_all add: Cons)
        moreover have "q' = [] \<longrightarrow> ?ls"
          using less.prems(1) q' u by (auto simp: whole_lines_def nth_append last_conv_nth)
        moreover have "length q' < length q" using q'(1) u by simp
        ultimately show ?thesis using less.hyps [of q' ?ls "Some m"] q'(3) by simp
      qed
    qed
  qed
qed

section \<open>The result envelope\<close>

definition result_fields :: "Result \<Rightarrow> (string \<times> json option) list" where
  "result_fields res =
     [(''ok'', Some (JBool (OK res))), (''code'', opt_str (res_Code res)), (''message'', opt_str (res_Message res)),
      (''id'', opt_str (res_ID res)), (''outputs'', opt_map (Outputs res)), (''state'', opt_map (res_State res)),
      (''engineState'', opt_raw (res_EngineState res)), (''schema'', opt_raw (res_Schema res))]"

definition result_ok :: "Result \<Rightarrow> bool" where
  "result_ok res = (doc_ok (JObj (Outputs res)) \<and> doc_ok (JObj (res_State res)) \<and>
                    raw_ok (res_EngineState res) \<and> raw_ok (res_Schema res))"

definition rounded :: "(string \<Rightarrow> string) \<Rightarrow> Result \<Rightarrow> Result" where
  "rounded f res = res\<lparr>Outputs := floats_obj f (Outputs res), res_State := floats_obj f (res_State res)\<rparr>"

lemma encode_result_text: "result_ok res \<Longrightarrow> encode_result res = Inr (object_text (present (result_fields res)))"
  by (simp add: encode_result_def result_ok_def raw_ok_error result_fields_def raw_object_texts [symmetric]
      omit_texts(1-4) [symmetric] del: present.simps(2))

lemma result_fields_fold: "fold_distinct (map fst (result_fields res))"
  unfolding result_fields_def fold_distinct_def list.map fst_conv by code_simp

lemma result_field:
  "(name, v) \<in> set (result_fields res) \<Longrightarrow> json_field (put_all (present (result_fields res)) []) name = v"
  using struct_field [OF result_fields_fold, of name res] fold_distinctD(1) [OF result_fields_fold, of res]
  by (force simp: map_of_eq_Some_iff)

lemma result_docs: "result_ok res \<Longrightarrow> \<forall>(k, v) \<in> set (present (result_fields res)). doc_ok v"
  by (intro present_docs) (simp add: result_fields_def result_ok_def opt_docs del: doc_ok.simps(3))

lemma decode_result_fields:
  assumes "result_ok res"
  shows "decode_result f (put_all (present (result_fields res)) []) = Inr (rounded f res)"
proof -
  define m where "m = put_all (present (result_fields res)) []"
  note field = result_field [of _ _ res, folded m_def]
  have "bool_field ''Result.'' m ''ok'' = Inr (OK res)"
    by (simp add: bool_field_def field [of _ "Some (JBool (OK res))"] result_fields_def)
  moreover have "string_field ''Result.'' m ''code'' = Inr (res_Code res)" "string_field ''Result.'' m ''message'' = Inr (res_Message res)"
    "string_field ''Result.'' m ''id'' = Inr (res_ID res)"
    "map_field f ''Result.'' m ''outputs'' = Inr (floats_obj f (Outputs res))"
    "map_field f ''Result.'' m ''state'' = Inr (floats_obj f (res_State res))"
    by (intro read_fields field; simp add: result_fields_def)+
  moreover have "raw_field m ''engineState'' = res_EngineState res" "raw_field m ''schema'' = res_Schema res"
    using assms by (intro read_fields field; simp add: result_fields_def result_ok_def)+
  ultimately show ?thesis by (simp add: decode_result_def m_def [symmetric] rounded_def)
qed

lemma envelope_line_text:
  assumes "\<forall>(k, v) \<in> set ms. doc_ok v"
  shows "envelope_line (object_text ms @ newline)"
proof -
  have "\<forall>(k, v) \<in> set ms. doc_ok v \<and> parses v" using assms parse_value_marshal by auto
  from parse_object_text [OF this, of "2 * length (object_text ms)" newline]
  have "parse_value n (object_text ms @ newline) = Some (v, r) \<Longrightarrow> r = newline" for n v r
    using parse_value_unique by fastforce
  moreover have "skip_ws newline = []" by (simp add: newline_def skip_ws_def json_space_def)
  ultimately show ?thesis by (auto simp: envelope_line_def) (simp add: object_text_def)
qed

lemma last_object_envelope:
  assumes "\<forall>(k, v) \<in> set ms. doc_ok v" "whole_lines logs"
  shows "last_object True (logs @ object_text ms @ newline) None = Some (put_all ms [])"
proof -
  obtain found where "last_object True (logs @ object_text ms @ newline) None = last_object True (object_text ms @ newline) found"
    using last_object_reaches [OF envelope_line_text [OF assms(1)] assms(2), of True None] by auto
  also have "\<dots> = Some (put_all ms [])"
    using decode_object_text [OF assms(1), of newline] by (simp add: object_text_def newline_def)
  finally show ?thesis .
qed

lemma envelope_text_roundtrip:
  assumes "result_ok res" "whole_lines logs"
  shows "decodeEnvelope f (logs @ object_text (present (result_fields res)) @ newline) = Inr (rounded f res)"
proof -
  let ?ms = "present (result_fields res)"
  have last: "LastJSONObject (logs @ object_text ?ms @ newline) = Inr (put_all ?ms [])"
    using last_object_envelope [OF result_docs [OF assms(1)] assms(2)] by (simp add: LastJSONObject_def)
  have "gomap_get (put_all ?ms []) ''ok'' \<noteq> None"
    using put_all_keys [of ?ms "[]"] by (auto simp: map_of_eq_None_iff result_fields_def)
  then show ?thesis using last decode_result_fields [OF assms(1), of f] by (simp add: decodeEnvelope_def)
qed


definition demo_result :: Result where
  "demo_result = success\<lparr>res_ID := ''bucket-1'', res_State := [(''id'', JStr ''bucket-1''), (''n'', JNum ''3'')]\<rparr>"


end
