(* ===== verification/Job_Safety.thy ===== *)
theory Job_Safety
  imports Job_Runner Runner_Transport
begin

text \<open>
  What the Job runner may conclude and when it may throw a Job away: every step of
  \<open>executeOp\<close> with its value and its interactions, and the two contracts the reconciler
  relies on.
\<close>

section \<open>The steps\<close>

text \<open>Errors of the API server and of contexts carry none of the operator's sentinels or codes.\<close>

definition plain :: "error \<Rightarrow> bool" where
  "plain e = (e_chain e = [] \<and> e_coded e = None)"

definition plain_errors :: "job_env \<Rightarrow> bool" where
  "plain_errors E = (\<forall>tr ns name j.
     pred_option plain (create_job E tr j) \<and> pred_option plain (poll_tick E tr) \<and> pred_option plain (log_tick E tr) \<and>
     (case list_pods E tr ns name of Inl e \<Rightarrow> plain e | Inr _ \<Rightarrow> True) \<and>
     (case get_logs E tr ns name of Inl e \<Rightarrow> plain e | Inr _ \<Rightarrow> True))"

lemma plain_simps [simp]:
  "plain (Errorf m)" "plain (wrap_error p e) = plain e" "plain (suffix_error e t) = plain e"
  "plain (join_errors a b) = (plain a \<and> plain b)" "plain (sentinel_wrap s sep e) = False"
  "\<not> plain (coded_error c)"
  by (auto simp: plain_def Errorf_def wrap_error_def suffix_error_def join_errors_def sentinel_wrap_def coded_error_def
      split: option.splits)

lemma not_found_plain: "plain e \<Longrightarrow> \<not> errors_Is (Some e) s"
  by (simp add: plain_def errors_Is_def)

definition is_delete :: "job_event \<Rightarrow> bool" where
  "is_delete e = (case e of DeleteJob _ _ \<Rightarrow> True | _ \<Rightarrow> False)"

abbreviation keeps :: "job_event list \<Rightarrow> bool" where
  "keeps es \<equiv> list_all (\<lambda>e. \<not> is_delete e) es"

lemma does_keep: "emits (\<lambda>e. \<not> is_delete e) m \<Longrightarrow> does m (\<lambda>_ es. keeps es)"
  by (auto simp: emits_def does_def)

text \<open>The Job showed a verdict.\<close>

definition saw :: "string \<Rightarrow> string \<Rightarrow> verdict \<Rightarrow> job_event list \<Rightarrow> bool" where
  "saw ns name v es = (\<exists>conds. GetJob ns name (Inr conds) \<in> set es \<and> job_verdict conds = Some v)"

definition read_log :: "string \<Rightarrow> string \<Rightarrow> job_event list \<Rightarrow> bool" where
  "read_log ns t es = (\<exists>pod. GetLogs ns pod (Inr t) \<in> set es)"

lemma saw_simps [simp]:
  "saw ns name v (e # es) = ((\<exists>conds. e = GetJob ns name (Inr conds) \<and> job_verdict conds = Some v) \<or> saw ns name v es)"
  "saw ns name v (es @ fs) = (saw ns name v es \<or> saw ns name v fs)" "\<not> saw ns name v []"
  by (auto simp: saw_def)

lemma read_log_simps [simp]:
  "read_log ns t (e # es) = ((\<exists>pod. e = GetLogs ns pod (Inr t)) \<or> read_log ns t es)"
  "read_log ns t (es @ fs) = (read_log ns t es \<or> read_log ns t fs)" "\<not> read_log ns t []"
  by (auto simp: read_log_def)

lemma jobName_does: "does (jobName E ctx verb opJSON) (\<lambda>_ es. keeps es)"
  by (rule does_keep) (auto simp: jobName_def is_delete_def intro!: emits_intros)

lemma cacheAvailable_does: "does (cacheAvailable E r ns) (\<lambda>_ es. keeps es)"
  by (rule does_keep) (auto simp: cacheAvailable_def is_delete_def intro!: emits_intros)

definition ok_or_plain :: "job_env \<Rightarrow> 'a result \<Rightarrow> bool" where
  "ok_or_plain E x = (plain_errors E \<longrightarrow> (case x of Inl e \<Rightarrow> plain e | Inr _ \<Rightarrow> True))"

lemma create_plain: "create_job E tr j = Some e \<Longrightarrow> plain_errors E \<Longrightarrow> plain e"
  unfolding plain_errors_def by (metis option.pred_inject(2))

lemma ensureJob_does: "does (ensureJob E r ctx ns name verb opJSON env) (\<lambda>a es. keeps es \<and> ok_or_plain E a)"
proof -
  have create: "does (Create_job E j) (\<lambda>err es. keeps es \<and> (plain_errors E \<longrightarrow> pred_option plain err))" for j
    unfolding Create_job_def by (rule does_ask) (auto simp: is_delete_def plain_errors_def)
  show ?thesis
    unfolding ensureJob_def Let_def
    by (rule does_bind [OF cacheAvailable_does], rule does_bind [OF create])
       (auto split: option.split intro!: does_return does_bind [OF create] simp: ok_or_plain_def)
qed

lemma poll_job_does:
  "does (poll_job n E ns name) (\<lambda>a es. keeps es \<and>
     (case a of None \<Rightarrow> True | Some (Inl e) \<Rightarrow> plain_errors E \<longrightarrow> plain e | Some (Inr v) \<Rightarrow> saw ns name v es))"
proof (induction n)
  case 0
  then show ?case by (simp add: does_return)
next
  case (Suc n)
  have get: "does (Get_job E ns name) (\<lambda>j es. es = [GetJob ns name j])"
    unfolding Get_job_def by (rule does_ask) simp
  have tick: "does (Poll_tick E) (\<lambda>w es. es = [PollTick w] \<and> (plain_errors E \<longrightarrow> pred_option plain w))"
    unfolding Poll_tick_def by (rule does_ask) (auto simp: plain_errors_def)
  show ?case
    unfolding poll_job.simps
    by (rule does_bind [OF get])
       (auto intro!: does_return does_bind [OF tick] does_mono [OF Suc]
          simp: is_delete_def split: option.splits sum.splits)
qed

lemma fetch_logs_does:
  "does (fetch_logs E ns name) (\<lambda>a es. keeps es \<and> ok_or_plain E a \<and> (case a of Inl _ \<Rightarrow> True | Inr t \<Rightarrow> read_log ns t es))"
proof -
  have pods: "does (List_pods E ns x) (\<lambda>a es. es = [ListPods ns x a] \<and> ok_or_plain E a)" for x
    unfolding List_pods_def by (rule does_ask) (auto simp: plain_errors_def ok_or_plain_def)
  have logs: "does (Get_logs E ns x) (\<lambda>a es. es = [GetLogs ns x a] \<and> ok_or_plain E a)" for x
    unfolding Get_logs_def by (rule does_ask) (auto simp: plain_errors_def ok_or_plain_def)
  show ?thesis
    unfolding fetch_logs_def
    by (rule does_bind [OF pods])
       (auto intro!: does_return does_mono [OF logs] simp: is_delete_def split: sum.splits list.splits,
        simp_all add: ok_or_plain_def)
qed

lemma retry_logs_does:
  "ok_or_plain E (Inl e :: string result) \<Longrightarrow> does (retry_logs n E ns name e)
     (\<lambda>a es. keeps es \<and> ok_or_plain E a \<and> (case a of Inl _ \<Rightarrow> True | Inr t \<Rightarrow> read_log ns t es))"
proof (induction n arbitrary: e)
  case 0
  then show ?case by (simp add: does_return)
next
  case (Suc n)
  have tick: "does (Log_tick E) (\<lambda>w es. es = [LogTick w] \<and> (plain_errors E \<longrightarrow> pred_option plain w))"
    unfolding Log_tick_def by (rule does_ask) (auto simp: plain_errors_def)
  show ?case
    unfolding retry_logs.simps
    by (rule does_bind [OF tick])
       (use Suc in \<open>auto intro!: does_return does_bind [OF fetch_logs_does] does_mono [OF Suc.IH]
          simp: is_delete_def ok_or_plain_def split: option.splits sum.splits\<close>)
qed

lemma podLogs_does:
  "does (podLogs E ns name) (\<lambda>a es. keeps es \<and> ok_or_plain E a \<and> (case a of Inl _ \<Rightarrow> True | Inr t \<Rightarrow> read_log ns t es))"
  unfolding podLogs_def
  by (rule does_bind [OF fetch_logs_does])
     (auto intro!: does_return does_mono [OF retry_logs_does] split: sum.splits)

section \<open>Decoding errors are plain\<close>

lemma field_plain:
  "string_field st m name = Inl e \<Longrightarrow> plain e" "bool_field st m name = Inl e \<Longrightarrow> plain e"
  "map_field f st m name = Inl e \<Longrightarrow> plain e"
  by (auto simp: string_field_def bool_field_def map_field_def field_error_def split: option.splits json.splits)

lemma and_then_Inl: "and_then x f = Inl e \<Longrightarrow> x = Inl e \<or> (\<exists>a. x = Inr a \<and> f a = Inl e)"
  by (cases x) auto

lemma decode_result_plain: "decode_result f m = Inl e \<Longrightarrow> plain e"
  by (auto simp: decode_result_def dest!: and_then_Inl dest: field_plain)

lemma decodeEnvelope_plain: "decodeEnvelope f t = Inl e \<Longrightarrow> plain e"
  by (auto simp: decodeEnvelope_def LastJSONObject_def dest: decode_result_plain split: sum.splits option.splits if_splits)

lemma unmarshal_plain: "unmarshal t = Inl e \<Longrightarrow> plain e"
  by (auto simp: unmarshal_def split: option.splits if_splits)

lemma encode_op_plain: "encode_op op = Inl e \<Longrightarrow> plain e"
  by (auto simp: encode_op_def raw_error_def dest: unmarshal_plain split: option.splits sum.splits if_splits)

text \<open>An error that reports nothing of the operation's outcome.\<close>

definition infra_error :: "error \<Rightarrow> bool" where
  "infra_error e = (\<not> errors_Is (Some e) ErrNotFound \<and> errors_As_Coded (Some e) = None)"

lemma plain_infra: "plain e \<Longrightarrow> infra_error e"
  by (simp add: infra_error_def plain_def errors_Is_def errors_As_Coded_def)

lemma infra_wrap [simp]:
  "infra_error (wrap_error p e) = infra_error e"
  "infra_error (sentinel_wrap ErrOutputUnavailable sep e) = infra_error e"
  by (simp_all add: infra_error_def)

lemma failed_job_infra: "infra_error (failed_job name verb msg logs)"
  by (auto simp: infra_error_def failed_job_def Let_def classifyInfraFailure_def split: option.splits if_splits)

lemma resultErr_not_found: "errors_Is (resultErr res) ErrNotFound \<longleftrightarrow> \<not> OK res \<and> res_Code res = CodeNotFound"
  by (auto simp: resultErr_def Let_def code_defs)

section \<open>Verdicts and deletions\<close>

text \<open>The outcome is the result envelope in the log of a completed Job.\<close>

definition reported :: "job_env \<Rightarrow> Result \<times> error option \<Rightarrow> job_event list \<Rightarrow> bool" where
  "reported E out es =
     (\<exists>ns name t. saw ns name JobComplete es \<and> read_log ns t es \<and> decodeEnvelope (job_float64 E) t = Inr (fst out) \<and>
        snd out = resultErr (fst out))"

text \<open>A Job is deleted last, after its verdict and, if it completed, after its log was read.\<close>

definition deletes_last :: "job_event list \<Rightarrow> bool" where
  "deletes_last es =
     (keeps es \<or> (\<exists>pre ns name v. es = pre @ [DeleteJob ns name] \<and> keeps pre \<and> saw ns name v pre \<and>
                     (v = JobComplete \<longrightarrow> (\<exists>t. read_log ns t pre))))"

definition op_post :: "job_env \<Rightarrow> Result \<times> error option \<Rightarrow> job_event list \<Rightarrow> bool" where
  "op_post E out es =
     (deletes_last es \<and> (plain_errors E \<longrightarrow> reported E out es \<or> (\<exists>e. snd out = Some e \<and> infra_error e)))"

lemma decoded_job_reported:
  "decodeEnvelope (job_float64 E) t = Inr (fst (decoded_job E t)) \<and> snd (decoded_job E t) = resultErr (fst (decoded_job E t)) \<or>
   (\<exists>e. snd (decoded_job E t) = Some e \<and> infra_error e)"
  using decodeEnvelope_plain [of "job_float64 E" t] by (auto simp: decoded_job_def plain_infra split: sum.splits)

lemma deletes_lastI:
  "keeps pre \<Longrightarrow> saw ns name v pre \<Longrightarrow> (v = JobComplete \<Longrightarrow> \<exists>t. read_log ns t pre) \<Longrightarrow> deletes_last (pre @ [DeleteJob ns name])"
  by (auto simp: deletes_last_def)

lemma finish_job_does:
  assumes pre: "keeps pre" "saw ns name v pre"
  shows "does (finish_job E ns name verb v) (\<lambda>out es. op_post E out (pre @ es))"
  unfolding finish_job_def
proof (rule does_bind [OF podLogs_does], goal_cases)
  case (1 logs es)
  then have k: "keeps (pre @ es)" "saw ns name v (pre @ es)" using pre by simp_all
  show ?case
  proof (cases v)
    case (JobFailed msg)
    have "deletes_last ((pre @ es) @ [DeleteJob ns name])" using k JobFailed by (intro deletes_lastI) auto
    then show ?thesis
      using failed_job_infra by (auto simp: JobFailed op_post_def intro!: does_bind [OF does_emit [where Q = "\<lambda>_ es. es = [DeleteJob ns name]"]] does_return)
  next
    case JobComplete
    show ?thesis
    proof (cases logs)
      case (Inl e)
      then show ?thesis using k 1 by (auto simp: JobComplete op_post_def deletes_last_def ok_or_plain_def plain_infra intro!: does_return)
    next
      case (Inr t)
      then have log: "read_log ns t (pre @ es)" using 1 by simp
      then have "deletes_last ((pre @ es) @ [DeleteJob ns name])" using k by (intro deletes_lastI) auto
      moreover have "reported E (decoded_job E t) ((pre @ es) @ [DeleteJob ns name]) \<or>
          (\<exists>e. snd (decoded_job E t) = Some e \<and> infra_error e)"
        using decoded_job_reported [of E t] k(2) log JobComplete unfolding reported_def saw_simps(2) read_log_simps(2) by blast
      ultimately show ?thesis
        by (auto simp: JobComplete Inr op_post_def
            intro!: does_bind [OF does_emit [where Q = "\<lambda>_ es. es = [DeleteJob ns name]"]] does_return)
    qed
  qed
qed

lemma keeps_post: "keeps es \<Longrightarrow> (plain_errors E \<Longrightarrow> plain e) \<Longrightarrow> op_post E (no_result, Some e) es"
  by (auto simp: op_post_def deletes_last_def plain_infra)

lemma executeOp_does: "does (executeOp n E r ctx op) (\<lambda>a es. pred_option (\<lambda>out. op_post E out es) a \<and> deletes_last es)"
proof (cases "encode_op (job_op ctx op)")
  case (Inl e)
  then show ?thesis
    by (simp add: executeOp_def does_return keeps_post encode_op_plain deletes_last_def)
next
  case (Inr opJSON)
  show ?thesis
    unfolding executeOp_def Inr sum.case
  proof (rule does_bind [OF jobName_does], rule does_bind [OF ensureJob_does], goal_cases)
    case (1 name es1 ns es2)
    then have k: "keeps (es1 @ es2)" by simp
    show ?case
    proof (cases ns)
      case (Inl e)
      then show ?thesis using k 1 by (auto simp: ok_or_plain_def deletes_last_def intro!: does_return keeps_post)
    next
      case ns: (Inr namespace)
      show ?thesis
        unfolding ns sum.case
      proof (rule does_bind [OF poll_job_does], goal_cases)
        case (1 polled es3)
        then have k3: "keeps (es1 @ es2 @ es3)" using k by simp
        show ?case
        proof (cases "\<exists>v. polled = Some (Inr v)")
          case True
          then obtain v where v: "polled = Some (Inr v)" by blast
          then have "does (finish_job E namespace name (Verb op) v) (\<lambda>out es. op_post E out ((es1 @ es2 @ es3) @ es))"
            using 1 k3 by (intro finish_job_does) auto
          then show ?thesis
            by (auto simp: v op_post_def intro!: does_bind does_return)
        next
          case False
          then show ?thesis using 1 k3
            by (auto simp: deletes_last_def split: option.splits sum.splits intro!: does_return keeps_post)
        qed
      qed
    qed
  qed
qed

section \<open>A Job that runs to its end\<close>

text \<open>The cluster creates the Job, reports it complete and serves \<open>logs\<close> for it.\<close>

definition completes :: "job_env \<Rightarrow> string \<Rightarrow> bool" where
  "completes E logs = (\<forall>tr ns name j.
     create_job E tr j = None \<and> (\<exists>conds. get_job E tr ns name = Inr conds \<and> job_verdict conds = Some JobComplete) \<and>
     (\<exists>p ps. list_pods E tr ns name = Inr (p # ps)) \<and> get_logs E tr ns name = Inr logs)"

lemma completes_steps:
  assumes "completes E logs"
  shows "yields (\<lambda>x. \<exists>ns'. x = Inr ns') (ensureJob E r ctx ns name verb opJSON env)"
    "yields (\<lambda>x. x = Some (Inr JobComplete)) (poll_job (Suc n) E ns name)"
    "yields (\<lambda>x. x = Inr logs) (podLogs E ns name)"
proof -
  have create: "yields (\<lambda>x. x = None) (Create_job E j)" for j
    using assms by (simp add: yields_def Create_job_def completes_def)
  have get: "yields (\<lambda>x. \<exists>conds. x = Inr conds \<and> job_verdict conds = Some JobComplete) (Get_job E ns name)"
    using assms by (simp add: yields_def Get_job_def completes_def)
  have pods: "yields (\<lambda>x. \<exists>p ps. x = Inr (p # ps)) (List_pods E ns q)" for q
    using assms by (simp add: yields_def List_pods_def completes_def)
  have logs: "yields (\<lambda>x. x = Inr logs) (Get_logs E ns q)" for q
    using assms by (simp add: yields_def Get_logs_def completes_def)
  show "yields (\<lambda>x. \<exists>ns'. x = Inr ns') (ensureJob E r ctx ns name verb opJSON env)"
    unfolding ensureJob_def Let_def by (rule yields_any, rule yields_bind [OF create]) (simp add: yields_def)
  show "yields (\<lambda>x. x = Some (Inr JobComplete)) (poll_job (Suc n) E ns name)"
    unfolding poll_job.simps by (rule yields_bind [OF get]) (auto intro: yields_return)
  have "yields (\<lambda>x. x = Inr logs) (fetch_logs E ns name)"
    unfolding fetch_logs_def by (rule yields_bind [OF pods]) (auto intro: logs)
  then show "yields (\<lambda>x. x = Inr logs) (podLogs E ns name)"
    unfolding podLogs_def by (rule yields_bind) (auto intro: yields_return)
qed

lemma executeOp_completes:
  assumes "completes E logs" "\<exists>t. encode_op (job_op ctx op) = Inr t"
  shows "fst (run_state (executeOp (Suc n) E r ctx op) s) = Some (decoded_job E logs)"
proof -
  note steps = completes_steps [OF assms(1)]
  have "yields (\<lambda>x. x = decoded_job E logs) (finish_job E ns name verb JobComplete)" for ns name verb
    unfolding finish_job_def by (rule yields_bind [OF steps(3)]) (simp add: yields_def)
  note finish = yields_bind [OF this]
  have "yields (\<lambda>x. x = Some (decoded_job E logs)) (executeOp (Suc n) E r ctx op)"
    using assms(2) unfolding executeOp_def
    by (elim exE) (simp del: poll_job.simps,
      rule yields_any, rule yields_bind [OF steps(1)],
      auto simp del: poll_job.simps intro!: yields_bind [OF steps(2)] finish yields_return)
  then show ?thesis by (simp add: yields_def)
qed

section \<open>What the operator may conclude\<close>

text \<open>
  The Job runner reports a resource as gone only on the provider's word. Over every
  behaviour of the API server (lost, failed, evicted and timed-out Jobs, unreadable logs, logs
  that merely mention \<open>not found\<close>), \<open>ErrNotFound\<close> is returned only when the Job was seen
  complete and its log held a result envelope whose code is \<open>NotFound\<close>; the error codes of
  the API server itself never turn into it.
\<close>

theorem JobRunner_not_found_from_envelope:
  assumes "plain_errors E" "run_state (executeOp n E r ctx op) s = (Some (res, err), s')" "errors_Is err ErrNotFound"
  shows "\<exists>es ns name conds pod logs. trace s' = trace s @ es \<and>
           GetJob ns name (Inr conds) \<in> set es \<and> job_verdict conds = Some JobComplete \<and>
           GetLogs ns pod (Inr logs) \<in> set es \<and> decodeEnvelope (job_float64 E) logs = Inr res \<and>
           \<not> OK res \<and> res_Code res = CodeNotFound"
proof -
  obtain es where es: "trace s' = trace s @ es" "op_post E (res, err) es"
    using doesD [OF executeOp_does assms(2)] by auto
  then have "reported E (res, err) es" using assms(1,3) by (auto simp: op_post_def infra_error_def)
  then show ?thesis
    using es(1) assms(3) resultErr_not_found [of res] unfolding reported_def saw_def read_log_def fst_conv snd_conv by blast
qed

text \<open>A cluster in which a Job runs and leaves a log.\<close>

definition job_demo_env :: "JobCondition list \<Rightarrow> string \<Rightarrow> job_env" where
  "job_demo_env conds logs =
     \<lparr>time_now = \<lambda>_. 0, rand_string = \<lambda>_. ''abcdefgh'', get_claim = \<lambda>_ _ _. None, create_job = \<lambda>_ _. None,
      get_job = \<lambda>_ _ _. Inr conds, poll_tick = \<lambda>_. None, list_pods = \<lambda>_ _ _. Inr [\<lparr>p_Name = ''pod-1'', p_Created = 0\<rparr>],
      get_logs = \<lambda>_ _ _. Inr logs, log_tick = \<lambda>_. None, job_sha256 = \<lambda>_. ''0123456789abcdef0123'', job_float64 = \<lambda>n. n\<rparr>"

definition complete_conds :: "JobCondition list" where
  "complete_conds = [\<lparr>jc_Type = ''Complete'', jc_Status = ''True'', jc_Message = []\<rparr>]"

definition job_demo_runner :: JobRunner where
  "job_demo_runner = \<lparr>jr_Namespace = ''doplane'', PerResourceNamespace = False, Image = ''img'', ImagePullPolicy = [],
     CredentialsSecret = [], PluginCachePVC = [], PluginCacheMountPath = [], jr_Timeout = 0\<rparr>"

definition gone_log :: string where
  "gone_log = raw_object [(''ok'', ''false''), (''code'', marshal_string ''NotFound'')] @ newline"

definition demo_ctx :: op_ctx where
  "demo_ctx = background\<lparr>ctx_owner := ''default/bucket''\<rparr>"

lemma gone_decodes: "decodeEnvelope (\<lambda>n. n) gone_log = Inr (failure CodeNotFound [])"
  by code_simp

theorem JobRunner_not_found_from_envelope_witness:
  "\<exists>es ns name conds pod logs.
     trace (snd (run_state (executeOp (Suc 0) (job_demo_env complete_conds gone_log) job_demo_runner demo_ctx
        (Read_op ''p:m:T'' [] ''i-1'')) \<lparr>obj = [], trace = []\<rparr>)) = es \<and>
     GetJob ns name (Inr conds) \<in> set es \<and> job_verdict conds = Some JobComplete \<and>
     GetLogs ns pod (Inr logs) \<in> set es \<and> decodeEnvelope (\<lambda>n. n) logs = Inr (failure CodeNotFound []) \<and>
     res_Code (failure CodeNotFound []) = CodeNotFound"
proof -
  let ?E = "job_demo_env complete_conds gone_log"
  let ?gone = "(failure CodeNotFound [], resultErr (failure CodeNotFound []))"
  have "completes ?E gone_log" by (simp add: completes_def job_demo_env_def complete_conds_def)
  moreover have "\<exists>t. encode_op (job_op demo_ctx (Read_op ''p:m:T'' [] ''i-1'')) = Inr t"
    by (simp add: encode_op_def raw_error_def job_op_def Read_op_def bare_op_def)
  moreover have "decoded_job ?E gone_log = ?gone" using gone_decodes by (simp add: decoded_job_def job_demo_env_def)
  ultimately obtain s' where run: "run_state (executeOp (Suc 0) ?E job_demo_runner demo_ctx (Read_op ''p:m:T'' [] ''i-1''))
      \<lparr>obj = [], trace = []\<rparr> = (Some ?gone, s')"
    using executeOp_completes by (metis prod.collapse)
  have p: "plain_errors ?E" by (simp add: plain_errors_def job_demo_env_def)
  have g: "errors_Is (resultErr (failure CodeNotFound [])) ErrNotFound"
    by (simp add: resultErr_not_found failure_def)
  from JobRunner_not_found_from_envelope [OF p run g] run show ?thesis
    by (simp add: job_demo_env_def)
qed

text \<open>
  C5: A runner Job is never thrown away before its outcome is secured. In every run, whatever
  the API server answers, the Job is deleted at most once, as the last interaction, and only
  after its status showed a verdict; a completed Job, whose log may be the only record of a
  cloud mutation, only after that log was read. A Job whose outcome is unknown or unreadable
  stays for the next reconcile to adopt.
\<close>

theorem JobRunner_deletes_consumed_only:
  "\<exists>es. trace (snd (run_state (executeOp n E r ctx op) s)) = trace s @ es \<and>
     (list_all (\<lambda>e. \<not> is_delete e) es \<or>
      (\<exists>pre ns name conds v. es = pre @ [DeleteJob ns name] \<and> list_all (\<lambda>e. \<not> is_delete e) pre \<and>
         GetJob ns name (Inr conds) \<in> set pre \<and> job_verdict conds = Some v \<and>
         ((\<exists>msg. v = JobFailed msg) \<or> (\<exists>pod logs. GetLogs ns pod (Inr logs) \<in> set pre))))"
proof -
  obtain a s' where run: "run_state (executeOp n E r ctx op) s = (a, s')" by fastforce
  then obtain es where es: "trace s' = trace s @ es" "deletes_last es" using doesD [OF executeOp_does] by blast
  then show ?thesis
    using run unfolding deletes_last_def saw_def read_log_def by (metis snd_conv verdict.exhaust)
qed

section \<open>Names\<close>

text \<open>A canonical document has no control characters, so a zero byte ends it.\<close>

definition printable :: "char \<Rightarrow> bool" where
  "printable c = (32 \<le> (of_char c :: nat))"

lemma printable_hex: "list_all printable (hex_byte c)"
proof -
  have "printable (hex_digit d)" if "d < 16" for d
    using that by (simp add: printable_def hex_digit_def)
  then show ?thesis using nat_of_char_less_256 [of c] by (simp add: hex_byte_def less_mult_imp_div_less)
qed

lemma printable_escape_char: "list_all printable (json_escape_char c)"
  using printable_hex [of c] by (simp add: json_escape_char_def) (simp add: printable_def)

lemma printable_escape: "list_all printable (json_escape s)"
proof (induction s rule: json_escape.induct)
  case (1 a b c s)
  then show ?case by (simp add: printable_escape_char) (simp add: printable_def)
qed (simp_all add: printable_escape_char)

lemma printable_string: "list_all printable (marshal_string s)"
  by (simp add: marshal_string_def printable_escape) (simp add: printable_def)

lemma printable_Join: "\<forall>t \<in> set ts. list_all printable t \<Longrightarrow> list_all printable (Join ts '','')"
proof (induction ts)
  case (Cons t ts)
  then show ?case by (simp add: Join_Cons) (simp add: printable_def)
qed simp

lemma printable_object:
  assumes "\<forall>(k, v) \<in> set ms. list_all printable (marshal v)"
  shows "list_all printable (object_text ms)"
proof -
  have "printable CHR '':''" by (simp add: printable_def)
  then have "list_all printable (Join (map member_text ms) '','')"
    by (intro printable_Join) (use assms in \<open>fastforce simp: printable_string\<close>)
  then show ?thesis by (simp add: object_text_def) (simp add: printable_def)
qed

lemma printable_marshal: "doc_ok j \<Longrightarrow> list_all printable (marshal j)"
proof (induction j rule: marshal.induct)
  case (3 n)
  then have "list_all number_char n" using parse_number_chars [of n n "[]"] by (simp add: json_number_def)
  then show ?case by (auto simp: list_all_iff number_char_def printable_def is_digit_def)
next
  case (5 xs)
  then have "list_all printable (Join (map marshal xs) '','')" by (intro printable_Join) auto
  then show ?case by simp (simp add: printable_def)
next
  case (6 m)
  then show ?case using printable_object [of m] by (fastforce simp: object_text_def)
qed (simp_all add: printable_string FormatBool_def, simp_all add: printable_def)

lemma op_text_no_nul: "op_ok op \<Longrightarrow> CHR 0x00 \<notin> set (object_text (present (op_fields op)))"
  using printable_object [of "present (op_fields op)"] op_docs [of op] printable_marshal
  by (fastforce simp: list_all_iff printable_def)

lemma nul_split:
  assumes "CHR 0x00 \<notin> set a" "CHR 0x00 \<notin> set a'" "a @ CHR 0x00 # b = a' @ CHR 0x00 # b'"
  shows "a = a' \<and> b = b'"
proof -
  have "takeWhile (\<lambda>c. c \<noteq> CHR 0x00) (x @ CHR 0x00 # y) = x" if "CHR 0x00 \<notin> set x" for x y
    using that by (induction x) auto
  then have "a = a'" using assms by metis
  then show ?thesis using assms(3) by simp
qed

lemma nul_end:
  assumes "CHR 0x00 \<notin> set a" "CHR 0x00 \<notin> set a'"
    "a @ (if s \<noteq> [] then [CHR 0x00] @ s else []) = a' @ (if s' \<noteq> [] then [CHR 0x00] @ s' else [])"
  shows "a = a' \<and> s = s'"
proof (cases "s = []"; cases "s' = []")
  assume "s = []" "s' \<noteq> []"
  then have "a = a' @ CHR 0x00 # s'" using assms(3) by simp
  then show ?thesis using assms(1) by simp
next
  assume "s \<noteq> []" "s' = []"
  then have "a' = a @ CHR 0x00 # s" using assms(3) by simp
  then show ?thesis using assms(2) by simp
next
  assume "s \<noteq> []" "s' \<noteq> []"
  then have "a @ CHR 0x00 # s = a' @ CHR 0x00 # s'" using assms(3) by simp
  then show ?thesis by (rule nul_split [OF assms(1,2)])
qed (use assms(3) in simp)

lemma floats_id: "floats (\<lambda>n. n) j = j"
proof (induction j rule: marshal.induct)
  case (5 xs)
  then show ?case by (simp add: map_idI)
next
  case (6 m)
  have "map (\<lambda>(k, v). (k, floats (\<lambda>n. n) v)) m = m" by (rule map_idI) (use 6 in auto)
  then show ?case by simp
qed simp_all

lemma op_text_inj:
  assumes "op_ok op" "op_ok op'" "object_text (present (op_fields op)) = object_text (present (op_fields op'))"
  shows "op = op'"
proof -
  have "floats_obj (\<lambda>n. n) m = m" for m by (simp add: floats_obj_def floats_id)
  then have "decode_op (\<lambda>n. n) (object_text (present (op_fields op))) = Inr op" if "op_ok op" for op
    using decode_op_text [OF that, of "\<lambda>n. n"] by simp
  then show ?thesis using assms by (metis sum.inject(2))
qed

text \<open>
  C11: A retried reconcile adopts exactly its own Job. The name of an owned operation's Job
  depends on nothing but the owner, the operation and, for verbs that take secret inputs, the
  versions of the Secrets, and two operations hash the same bytes only if the three agree: a
  retry finds the Job of the interrupted attempt, while another owner, any other operation or
  a rotated secret never does, short of a collision of the hash.
\<close>

theorem jobName_identifies:
  assumes "op_ok op" "op_ok op'" "encode_op op = Inr doc" "encode_op op' = Inr doc'"
    and "ctx_owner ctx \<noteq> []" "CHR 0x00 \<notin> set (ctx_owner ctx)" "CHR 0x00 \<notin> set (ctx_owner ctx')"
  shows "(fst (run_state (jobName E ctx (Verb op) doc) s) =
            ''do-'' @ Verb op @ ''-'' @ take 16 (job_sha256 E (name_preimage (ctx_owner ctx) doc (name_salt ctx (Verb op))))) \<and>
         (name_preimage (ctx_owner ctx) doc (name_salt ctx (Verb op)) =
            name_preimage (ctx_owner ctx') doc' (name_salt ctx' (Verb op')) \<longleftrightarrow>
          ctx_owner ctx = ctx_owner ctx' \<and> op = op' \<and> name_salt ctx (Verb op) = name_salt ctx' (Verb op'))"
proof -
  have docs: "doc = object_text (present (op_fields op))" "doc' = object_text (present (op_fields op'))"
    using assms(1-4) encode_op_text by auto
  have nul: "CHR 0x00 \<notin> set doc" "CHR 0x00 \<notin> set doc'" using docs op_text_no_nul assms(1,2) by auto
  have "ctx_owner ctx = ctx_owner ctx' \<and> doc = doc' \<and> name_salt ctx (Verb op) = name_salt ctx' (Verb op')"
    if "name_preimage (ctx_owner ctx) doc (name_salt ctx (Verb op)) = name_preimage (ctx_owner ctx') doc' (name_salt ctx' (Verb op'))"
    using nul_split [OF assms(6,7)] nul_end [OF nul] that unfolding name_preimage_def append_Cons append_Nil by blast
  moreover have "op = op'" if "doc = doc'" using op_text_inj [OF assms(1,2)] that docs by simp
  ultimately show ?thesis using assms(3-5) by (auto simp: jobName_def)
qed

theorem jobName_identifies_witness:
  "name_preimage (ctx_owner demo_ctx) (object_text (present (op_fields demo_op))) (name_salt demo_ctx (Verb demo_op)) \<noteq>
   name_preimage (ctx_owner demo_ctx) (object_text (present (op_fields demo_op))) (name_salt (demo_ctx\<lparr>ctx_salt := ''v2''\<rparr>) (Verb demo_op))"
proof -
  have ok: "op_ok demo_op" by code_simp
  have "name_salt demo_ctx (Verb demo_op) \<noteq> name_salt (demo_ctx\<lparr>ctx_salt := ''v2''\<rparr>) (Verb demo_op)" by code_simp
  then show ?thesis
    using jobName_identifies [OF ok ok encode_op_text [OF ok] encode_op_text [OF ok], of demo_ctx "demo_ctx\<lparr>ctx_salt := ''v2''\<rparr>"]
    by (auto simp: demo_ctx_def background_def)
qed

section \<open>Jobs\<close>

text \<open>
  The Job of an operation: isolated from the cluster and the node, never restarted, with the
  operation document and, of the secret inputs, only references to their Secrets.
\<close>

definition isolated :: "Job \<Rightarrow> bool" where
  "isolated j =
     (let pod = job_Template j; ct = pod_Container pod in
      \<not> AutomountServiceAccountToken pod \<and> RunAsNonRoot pod \<and> RunAsUser pod \<noteq> 0 \<and> SeccompProfile pod = ''RuntimeDefault'' \<and>
      \<not> AllowPrivilegeEscalation ct \<and> ReadOnlyRootFilesystem ct \<and> DropCapabilities ct = [''ALL''] \<and>
      RestartPolicy pod = ''Never'' \<and> BackoffLimit j = 0 \<and> ct_Command ct = [''/doplane-runner''])"

definition carries :: "string \<Rightarrow> Job \<Rightarrow> bool" where
  "carries doc j =
     (let env = ct_Env (pod_Container (job_Template j)) in
      map_of (map (\<lambda>v. (ev_Name v, ev_Value v)) env) ''DOPLANE_OP'' = Some doc \<and>
      list_all (\<lambda>v. HasPrefix (ev_Name v) ''DOPLANE_SECRET_'' \<longrightarrow> ev_Value v = [] \<and> ev_SecretKeyRef v \<noteq> None) env)"

lemma buildJob_isolated: "isolated (buildJob r name ns cred verb doc env mount)"
  by (simp add: isolated_def buildJob_def Let_def)

lemma buildJob_carries:
  assumes "list_all (\<lambda>v. ev_Value v = [] \<and> ev_SecretKeyRef v \<noteq> None) env"
  shows "carries doc (buildJob r name ns cred verb doc env mount)"
  using assms by (auto simp: carries_def buildJob_def Let_def plain_env_def EnvPluginCache_def list_all_iff HasPrefix_iff)

definition placed :: "JobRunner \<Rightarrow> op_ctx \<Rightarrow> Op \<Rightarrow> job_event \<Rightarrow> bool" where
  "placed r ctx op e =
     (case e of
        CreateJob j _ \<Rightarrow>
          isolated j \<and> (\<exists>doc. encode_op (job_op ctx op) = Inr doc \<and> carries doc j) \<and>
          (job_Namespace j = jobNamespace r ctx \<or> teardownVerb (Verb op) \<and> job_Namespace j = jr_Namespace r)
      | _ \<Rightarrow> True)"

lemma job_secret_env_refs: "list_all (\<lambda>v. ev_Value v = [] \<and> ev_SecretKeyRef v \<noteq> None) (job_secret_env ctx op)"
  by (auto simp: job_secret_env_def secret_env_def list_all_iff)

lemma executeOp_placed: "emits (placed r ctx op) (executeOp n E r ctx op)"
proof -
  have poll: "emits (placed r ctx op) (poll_job n E ns name)" for ns name
    by (induction n) (auto simp: placed_def intro!: emits_intros)
  have fetch: "emits (placed r ctx op) (fetch_logs E ns name)" for ns name
    unfolding fetch_logs_def by (auto simp: placed_def intro!: emits_intros split: list.split)
  have retry: "emits (placed r ctx op) (retry_logs k E ns name e)" for k ns name e
    by (induction k arbitrary: e) (auto simp: placed_def intro!: emits_intros fetch)
  have logs: "emits (placed r ctx op) (podLogs E ns name)" for ns name
    unfolding podLogs_def by (intro emits_intros fetch retry)
  have finish: "emits (placed r ctx op) (finish_job E ns name verb v)" for ns name verb v
    unfolding finish_job_def by (cases v) (auto simp: placed_def intro!: emits_intros logs)
  have built: "placed r ctx op (CreateJob (buildJob r name ns cred (Verb op) doc (job_secret_env ctx op) mount) x)"
    if "encode_op (job_op ctx op) = Inr doc" "ns = jobNamespace r ctx \<or> teardownVerb (Verb op) \<and> ns = jr_Namespace r"
    for name ns cred doc mount x
    using that buildJob_isolated buildJob_carries [OF job_secret_env_refs]
    by (auto simp: placed_def) (simp_all add: buildJob_def)
  have cache: "emits (placed r ctx op) (cacheAvailable E r ns)" for ns
    unfolding cacheAvailable_def by (auto simp: placed_def intro!: emits_intros)
  have ensure: "emits (placed r ctx op) (ensureJob E r ctx (jobNamespace r ctx) name (Verb op) doc (job_secret_env ctx op))"
    if "encode_op (job_op ctx op) = Inr doc" for name doc
    unfolding ensureJob_def Let_def
    by (intro emits_intros cache built [OF that]) simp_all
  have name: "emits (placed r ctx op) (jobName E ctx verb doc)" for verb doc
    unfolding jobName_def by (auto simp: placed_def intro!: emits_intros)
  show ?thesis
    unfolding executeOp_def by (intro emits_intros name ensure poll finish) simp_all
qed

text \<open>
  C12: Every runner Job is isolated and stays where it belongs. Whatever the API server
  answers, each Job an operation creates runs without a service account token, as a non-root
  user on a read-only root file system with all capabilities dropped and without restarts;
  carries exactly the operation's document, with secret inputs only as references to Secrets
  and never as values; and is placed in the namespace chosen for the owner, except that
  teardown operations may fall back to the operator's namespace.
\<close>

theorem JobRunner_jobs_isolated:
  "\<exists>es. trace (snd (run_state (executeOp n E r ctx op) s)) = trace s @ es \<and>
     list_all (\<lambda>e. case e of
        CreateJob j _ \<Rightarrow>
          isolated j \<and> (\<exists>doc. encode_op (job_op ctx op) = Inr doc \<and> carries doc j) \<and>
          (job_Namespace j = jobNamespace r ctx \<or> teardownVerb (Verb op) \<and> job_Namespace j = jr_Namespace r)
      | _ \<Rightarrow> True) es"
  using emitsD [OF executeOp_placed] unfolding placed_def by blast

end
