(* ===== verification/Job_Decides.thy ===== *)
theory Job_Decides
  imports Job_Safety
begin

text \<open>
  The Job runner reaches a decision: its only open-ended loop polls the Job until the
  operation's context ends.
\<close>

definition polls :: "job_event list \<Rightarrow> nat" where
  "polls tr = length (filter (\<lambda>e. \<exists>w. e = PollTick w) tr)"

text \<open>The operation's context is done after at most \<open>k\<close> polls.\<close>

definition job_deadline :: "nat \<Rightarrow> job_env \<Rightarrow> bool" where
  "job_deadline k E = (\<forall>tr. k \<le> polls tr \<longrightarrow> poll_tick E tr \<noteq> None)"

lemma poll_job_decides:
  assumes "job_deadline k E" "k \<le> polls (trace s) + n"
  shows "fst (run_state (poll_job (Suc n) E ns name) s) \<noteq> None"
  using assms(2)
proof (induction n arbitrary: s)
  case 0
  then have "poll_tick E (trace s @ [e]) \<noteq> None" for e
    using assms(1) by (simp add: job_deadline_def polls_def)
  then show ?case by (auto simp: Get_job_def Poll_tick_def split: option.split) (metis option.distinct(1))
next
  case (Suc n)
  have "fst (run_state (poll_job (Suc n) E ns name) (s\<lparr>trace := trace s @ [GetJob ns name j, PollTick None]\<rparr>)) \<noteq> None" for j
    by (rule Suc.IH) (use Suc.prems in \<open>simp add: polls_def\<close>)
  then show ?case
    by (subst poll_job.simps) (auto simp: Get_job_def Poll_tick_def simp del: poll_job.simps split: option.split)
qed

text \<open>
  When the operation's context is done after at most \<open>k\<close> polls, \<open>k + 1\<close> rounds are enough: the
  Job runner returns a result or an error, whatever the API server answers.
\<close>

theorem executeOp_decides:
  assumes "job_deadline k E"
  shows "fst (run_state (executeOp (Suc k) E r ctx op) s) \<noteq> None"
proof -
  have "yields (\<lambda>v. v \<noteq> None) (poll_job (Suc k) E ns name)" for ns name
    using poll_job_decides [OF assms, of _ k] by (simp add: yields_def del: poll_job.simps)
  note polled = yields_bind [OF this]
  have "yields (\<lambda>out. out \<noteq> None) (executeOp (Suc k) E r ctx op)"
    unfolding executeOp_def
    by (rule yields_cases(3), simp add: yields_return, rule yields_any, rule yields_any, rule yields_cases(3),
        simp add: yields_return, rule polled)
       (auto intro!: yields_return yields_any split: option.split sum.split)
  then show ?thesis by (simp add: yields_def)
qed

end
