(* ===== verification/Runner_Env.thy ===== *)
theory Runner_Env
  imports Effects Runner_Documents
begin

text \<open>
  The outside of a runner process: the file system, the pulumi CLI, the registry API, the
  clock and the process environment. As in the controllers, an interaction and its reply are
  one event of the trace, and the replies are given by an environment.
\<close>

section \<open>File paths\<close>

text \<open>\<open>filepath.Clean\<close> and \<open>filepath.Join\<close>.\<close>

fun clean_parts :: "bool \<Rightarrow> string list \<Rightarrow> string list \<Rightarrow> string list" where
  "clean_parts rooted [] acc = rev acc"
| "clean_parts rooted (p # ps) acc =
     (if p = [] \<or> p = ''.'' then clean_parts rooted ps acc
      else if p = ''..'' then
        (case acc of
           [] \<Rightarrow> clean_parts rooted ps (if rooted then [] else [p])
         | a # as \<Rightarrow> if a = ''..'' then clean_parts rooted ps (p # acc) else clean_parts rooted ps as)
      else clean_parts rooted ps (p # acc))"

definition Clean :: "string \<Rightarrow> string" where
  "Clean path =
     (let rooted = HasPrefix path ''/'';
          body = Join (clean_parts rooted (Split path (CHR ''/'')) []) ''/''
      in if rooted then ''/'' @ body else if body = [] then ''.'' else body)"

definition path_join :: "string list \<Rightarrow> string" where
  "path_join elems = (let es = filter (\<lambda>e. e \<noteq> []) elems in if es = [] then [] else Clean (Join es ''/''))"

definition path_dir :: "string \<Rightarrow> string" where
  "path_dir path = Clean (rev (dropWhile (\<lambda>c. c \<noteq> CHR ''/'') (rev path)))"

section \<open>Interactions\<close>

text \<open>
  Besides the replies, an environment fixes the environment variables and four functions of
  the standard library: which URLs \<open>http.NewRequestWithContext\<close> rejects, which texts
  \<open>gzip.NewReader\<close> rejects, what decompression gives, and how a number of a JSON document
  is printed after a round through \<open>float64\<close>.
\<close>

text \<open>What a CLI invocation wrote, in the chunks its pipes delivered, and how it ended.\<close>

record process_result =
  stdout_chunks :: "string list"
  stderr_chunks :: "string list"
  run_err :: "error option"

record dir_entry =
  de_Name :: string
  de_IsDir :: bool

text \<open>\<open>os.Mkdir\<close>: created, already there, or failed.\<close>

datatype mkdir_reply = MkdirOk | MkdirExists | MkdirFailed error

text \<open>\<open>os.Symlink\<close>, \<open>os.ReadDir\<close> and \<open>os.Stat\<close> failures the code tells apart.\<close>

datatype link_reply = LinkOk | LinkExists | LinkFailed error
datatype readdir_reply = DirEntries "dir_entry list" | DirMissing | DirFailed error

record http_response =
  http_status :: nat
  http_status_text :: string
  http_body :: string
  http_read_err :: "error option"

datatype runner_event =
    MkdirTemp "string result"
  | RemoveAll string
  | MkdirAll string "error option"
  | Mkdir string mkdir_reply
  | Remove string
  | StatDir string "bool option"
  | StatAge string "int option"
  | WriteFile string string "error option"
  | ReadFile string "string result"
  | ReadDir string readdir_reply
  | Symlink string string link_reply
  | HttpGet string "(string \<times> string) list" "http_response result"
  | Pulumi string "string list" "string list" process_result
  | Progress string
  | WaitLock "error option"

record runner_env =
  mkdir_temp :: "runner_event list \<Rightarrow> string result"
  mkdir_all :: "runner_event list \<Rightarrow> string \<Rightarrow> error option"
  mkdir :: "runner_event list \<Rightarrow> string \<Rightarrow> mkdir_reply"
  stat_dir :: "runner_event list \<Rightarrow> string \<Rightarrow> bool option"
  stat_age :: "runner_event list \<Rightarrow> string \<Rightarrow> int option"
  write_file :: "runner_event list \<Rightarrow> string \<Rightarrow> string \<Rightarrow> error option"
  read_file :: "runner_event list \<Rightarrow> string \<Rightarrow> string result"
  read_dir :: "runner_event list \<Rightarrow> string \<Rightarrow> readdir_reply"
  symlink :: "runner_event list \<Rightarrow> string \<Rightarrow> string \<Rightarrow> link_reply"
  http_get :: "runner_event list \<Rightarrow> string \<Rightarrow> (string \<times> string) list \<Rightarrow> http_response result"
  pulumi :: "runner_event list \<Rightarrow> string \<Rightarrow> string list \<Rightarrow> string list \<Rightarrow> process_result"
  wait_lock :: "runner_event list \<Rightarrow> error option"
  os_env :: "string \<Rightarrow> string option"
  bad_request :: "string \<Rightarrow> error option"
  gunzip_header :: "string \<Rightarrow> error option"
  gunzip :: "string \<Rightarrow> string result"
  float64 :: "string \<Rightarrow> string"

type_synonym 'a run = "(unit, runner_event, 'a) action"

definition Mkdir_temp :: "runner_env \<Rightarrow> string result run" where
  "Mkdir_temp E = ask (mkdir_temp E) MkdirTemp"

definition Mkdir_all :: "runner_env \<Rightarrow> string \<Rightarrow> error option run" where
  "Mkdir_all E path = ask (\<lambda>tr. mkdir_all E tr path) (MkdirAll path)"

definition Mkdir_lock :: "runner_env \<Rightarrow> string \<Rightarrow> mkdir_reply run" where
  "Mkdir_lock E path = ask (\<lambda>tr. mkdir E tr path) (Mkdir path)"

definition Stat_dir :: "runner_env \<Rightarrow> string \<Rightarrow> bool option run" where
  "Stat_dir E path = ask (\<lambda>tr. stat_dir E tr path) (StatDir path)"

definition Stat_age :: "runner_env \<Rightarrow> string \<Rightarrow> int option run" where
  "Stat_age E path = ask (\<lambda>tr. stat_age E tr path) (StatAge path)"

definition Write_file :: "runner_env \<Rightarrow> string \<Rightarrow> string \<Rightarrow> error option run" where
  "Write_file E path data = ask (\<lambda>tr. write_file E tr path data) (WriteFile path data)"

definition Read_file :: "runner_env \<Rightarrow> string \<Rightarrow> string result run" where
  "Read_file E path = ask (\<lambda>tr. read_file E tr path) (ReadFile path)"

definition Read_dir :: "runner_env \<Rightarrow> string \<Rightarrow> readdir_reply run" where
  "Read_dir E path = ask (\<lambda>tr. read_dir E tr path) (ReadDir path)"

definition Symlink_to :: "runner_env \<Rightarrow> string \<Rightarrow> string \<Rightarrow> link_reply run" where
  "Symlink_to E old new = ask (\<lambda>tr. symlink E tr old new) (Symlink old new)"

definition Http_get :: "runner_env \<Rightarrow> string \<Rightarrow> (string \<times> string) list \<Rightarrow> http_response result run" where
  "Http_get E url headers = ask (\<lambda>tr. http_get E tr url headers) (HttpGet url headers)"

definition Wait_lock :: "runner_env \<Rightarrow> error option run" where
  "Wait_lock E = ask (wait_lock E) WaitLock"

lemmas io_defs = Mkdir_temp_def Mkdir_all_def Mkdir_lock_def Stat_dir_def Stat_age_def Write_file_def
  Read_file_def Read_dir_def Symlink_to_def Http_get_def Wait_lock_def

lemma emits_io [emits_intros]:
  "(\<And>r. A (MkdirTemp r)) \<Longrightarrow> emits A (Mkdir_temp E)"
  "(\<And>r. A (MkdirAll p r)) \<Longrightarrow> emits A (Mkdir_all E p)"
  "(\<And>r. A (Mkdir p r)) \<Longrightarrow> emits A (Mkdir_lock E p)"
  "(\<And>r. A (StatDir p r)) \<Longrightarrow> emits A (Stat_dir E p)"
  "(\<And>r. A (StatAge p r)) \<Longrightarrow> emits A (Stat_age E p)"
  "(\<And>r. A (WriteFile p d r)) \<Longrightarrow> emits A (Write_file E p d)"
  "(\<And>r. A (ReadFile p r)) \<Longrightarrow> emits A (Read_file E p)"
  "(\<And>r. A (ReadDir p r)) \<Longrightarrow> emits A (Read_dir E p)"
  "(\<And>r. A (Symlink p q r)) \<Longrightarrow> emits A (Symlink_to E p q)"
  "(\<And>r. A (HttpGet u h r)) \<Longrightarrow> emits A (Http_get E u h)"
  "(\<And>r. A (WaitLock r)) \<Longrightarrow> emits A (Wait_lock E)"
  by (auto simp: io_defs intro!: emits_intros)

definition Getenv :: "runner_env \<Rightarrow> string \<Rightarrow> string" where
  "Getenv E name = (case os_env E name of None \<Rightarrow> [] | Some v \<Rightarrow> v)"

end
