(* ===== verification/Runner_Execute.thy ===== *)
theory Runner_Execute
  imports Runner_Env
begin

text \<open>
  The runner process: \<open>internal/runnerops/execute.go\<close>, \<open>env.go\<close>, \<open>plugincache.go\<close>,
  \<open>deletefallback.go\<close>, the registry client of \<open>registry.go\<close> and \<open>cmd/runner/main.go\<close>.
  The two output streams of a CLI invocation reach the progress sink as one \<open>Progress\<close>
  event each; how their lines interleave is left open. The lock loop of the plugin cache may
  never end, so the operations take a bound on its rounds and return \<open>None\<close> when it is
  used up.
\<close>

section \<open>Running the CLI\<close>

record Runner =
  PulumiBin :: string
  BakedPlugins :: string
  PluginCache :: string
  LookupEnv :: "(string \<Rightarrow> string option) option"
  redactSecrets :: "string list"

definition bin :: "Runner \<Rightarrow> string" where
  "bin r = (if PulumiBin r \<noteq> [] then PulumiBin r else ''pulumi'')"

definition lookupEnv :: "runner_env \<Rightarrow> Runner \<Rightarrow> string \<Rightarrow> string option" where
  "lookupEnv E r = (case LookupEnv r of None \<Rightarrow> os_env E | Some f \<Rightarrow> f)"

text \<open>What the progress sink receives of one stream, with its redactor flushed at the end.\<close>

definition progressWriters :: "Runner \<Rightarrow> string list \<Rightarrow> string" where
  "progressWriters r chunks =
     (if redactSecrets r = [] then concat chunks
      else dst (fst (rw_Flush (\<lambda>_ _. None) (write_all (newRedactingWriter [] (redactSecrets r)) chunks))))"

definition runEnv :: "runner_env \<Rightarrow> Runner \<Rightarrow> string \<Rightarrow> string list \<Rightarrow> string list \<Rightarrow> (string \<times> error option) run" where
  "runEnv E r dir env args =
     do { p \<leftarrow> ask (\<lambda>tr. pulumi E tr dir env (bin r # args)) (Pulumi dir env (bin r # args));
          emit (Progress (progressWriters r (stdout_chunks p)));
          emit (Progress (progressWriters r (stderr_chunks p)));
          let stdout = concat (stdout_chunks p);
          let combined = TrimSpace (concat (stderr_chunks p) @ newline @ stdout);
          ret (stdout, map_option (\<lambda>e. suffix_error e ('':'' @ newline @ Truncate combined 4000)) (run_err p)) }"

record workspace =
  ws_root :: string
  ws_env :: "string list"

definition projectDir :: "workspace \<Rightarrow> string" where
  "projectDir w = path_join [ws_root w, ''project'']"

definition runIn :: "runner_env \<Rightarrow> Runner \<Rightarrow> workspace \<Rightarrow> string \<Rightarrow> string list \<Rightarrow> (string \<times> error option) run" where
  "runIn E r ws dir args = runEnv E r dir (ws_env ws) args"

section \<open>Preparing the workspace\<close>

primrec symlink_files :: "runner_env \<Rightarrow> string \<Rightarrow> string \<Rightarrow> dir_entry list \<Rightarrow> error option run" where
  "symlink_files E src target [] = ret None"
| "symlink_files E src target (f # fs) =
     do { l \<leftarrow> Symlink_to E (path_join [src, de_Name f]) (path_join [target, de_Name f]);
          (case l of LinkFailed e \<Rightarrow> ret (Some e) | _ \<Rightarrow> symlink_files E src target fs) }"

primrec seed_entries :: "runner_env \<Rightarrow> string \<Rightarrow> string \<Rightarrow> dir_entry list \<Rightarrow> error option run" where
  "seed_entries E baked dest [] = ret None"
| "seed_entries E baked dest (e # es) =
     (let src = path_join [baked, de_Name e]; target = path_join [dest, de_Name e] in
      do { err \<leftarrow>
             (if de_IsDir e then
                do { m \<leftarrow> Mkdir_all E target;
                     (case m of
                        Some x \<Rightarrow> ret (Some x)
                      | None \<Rightarrow>
                          do { inner \<leftarrow> Read_dir E src;
                               (case inner of
                                  DirEntries fs \<Rightarrow> symlink_files E src target fs
                                | DirMissing \<Rightarrow> ret (Some (Errorf (''open '' @ src @ '': no such file or directory'')))
                                | DirFailed x \<Rightarrow> ret (Some x)) }) }
              else if HasSuffix (de_Name e) ''.lock'' then Write_file E target []
              else do { l \<leftarrow> Symlink_to E src target;
                        ret (case l of LinkFailed x \<Rightarrow> Some x | _ \<Rightarrow> None) });
           (case err of Some x \<Rightarrow> ret (Some x) | None \<Rightarrow> seed_entries E baked dest es) })"

definition seedPlugins :: "runner_env \<Rightarrow> string \<Rightarrow> string \<Rightarrow> error option run" where
  "seedPlugins E baked dest =
     do { entries \<leftarrow> Read_dir E baked;
          (case entries of
             DirMissing \<Rightarrow> ret None
           | DirFailed e \<Rightarrow> ret (Some (wrap_error ''reading baked plugins: '' e))
           | DirEntries es \<Rightarrow> seed_entries E baked dest es) }"

primrec mkdirs :: "runner_env \<Rightarrow> string list \<Rightarrow> error option run" where
  "mkdirs E [] = ret None"
| "mkdirs E (d # ds) =
     do { m \<leftarrow> Mkdir_all E d;
          (case m of
             Some e \<Rightarrow> ret (Some (wrap_error ''preparing workspace: '' e))
           | None \<Rightarrow> mkdirs E ds) }"

primrec seed_all :: "runner_env \<Rightarrow> string \<Rightarrow> string list \<Rightarrow> error option run" where
  "seed_all E dest [] = ret None"
| "seed_all E dest (p # ps) =
     (if p = [] then seed_all E dest ps
      else do { err \<leftarrow> seedPlugins E p dest;
                (case err of Some e \<Rightarrow> ret (Some e) | None \<Rightarrow> seed_all E dest ps) })"

definition workspace_env :: "runner_env \<Rightarrow> string \<Rightarrow> string \<Rightarrow> string list" where
  "workspace_env E root home =
     [''PULUMI_HOME='' @ home, ''HOME='' @ root, ''PULUMI_SKIP_UPDATE_CHECK=true'', ''PULUMI_CONFIG_PASSPHRASE='',
      ''PULUMI_BACKEND_URL=file://'' @ path_join [root, ''state'']] @
     (if Getenv E ''USER'' = [] then [''USER=doplane''] else [])"

definition prepare :: "runner_env \<Rightarrow> string \<Rightarrow> string \<Rightarrow> string \<Rightarrow> workspace result run" where
  "prepare E root bakedPlugins cachePlugins =
     (let home = path_join [root, ''pulumi-home''] in
      do { m \<leftarrow> mkdirs E [path_join [home, ''plugins''], path_join [root, ''state''], path_join [root, ''project'']];
           (case m of
              Some e \<Rightarrow> ret (Inl e)
            | None \<Rightarrow>
                do { s \<leftarrow> seed_all E (path_join [home, ''plugins'']) [bakedPlugins, cachePlugins];
                     (case s of
                        Some e \<Rightarrow> ret (Inl e)
                      | None \<Rightarrow>
                          let env = workspace_env E root home; kc = Getenv E ''KUBECONFIG_CONTENT'' in
                          if kc = [] then ret (Inr \<lparr>ws_root = root, ws_env = env\<rparr>)
                          else do {
                            w \<leftarrow> Write_file E (path_join [root, ''kubeconfig'']) kc;
                            (case w of
                               Some e \<Rightarrow> ret (Inl (wrap_error ''writing kubeconfig: '' e))
                             | None \<Rightarrow> ret (Inr \<lparr>ws_root = root,
                                              ws_env = env @ [''KUBECONFIG='' @ path_join [root, ''kubeconfig'']]\<rparr>)) }) }) })"

section \<open>The plugin cache\<close>

text \<open>Fifteen minutes, in nanoseconds.\<close>

definition staleLockAge :: int where "staleLockAge = 900 * 10 ^ 9"

record cacheError =
  ce_code :: string
  ce_err :: error

definition pluginDir :: "string \<Rightarrow> string \<Rightarrow> string \<Rightarrow> string" where
  "pluginDir home name version = path_join [home, ''plugins'', ''resource-'' @ name @ ''-v'' @ version]"

definition installed :: "runner_env \<Rightarrow> string \<Rightarrow> bool run" where
  "installed E dir =
     do { d \<leftarrow> Stat_dir E dir;
          (if d = Some True then
             do { p \<leftarrow> Stat_dir E (dir @ ''.partial''); ret (p = None) }
           else ret False) }"

definition lock_path :: "string \<Rightarrow> string \<Rightarrow> string \<Rightarrow> string" where
  "lock_path cache name version = path_join [cache, ''.locks'', name @ ''@'' @ version @ ''.lock'']"

text \<open>
  The acquisition loop; \<open>None\<close> after \<open>n\<close> rounds without a decision. A stale lock is removed
  and the loop goes on at once, without waiting and without looking at the context.
\<close>

primrec acquire_lock :: "nat \<Rightarrow> runner_env \<Rightarrow> string \<Rightarrow> cacheError option option run" where
  "acquire_lock 0 E lock = ret None"
| "acquire_lock (Suc n) E lock =
     do { m \<leftarrow> Mkdir_lock E lock;
          (case m of
             MkdirOk \<Rightarrow> ret (Some None)
           | MkdirFailed e \<Rightarrow>
               ret (Some (Some \<lparr>ce_code = CodePluginCacheNotWritable,
                                ce_err = wrap_error ''acquiring plugin install lock: '' e\<rparr>))
           | MkdirExists \<Rightarrow>
               do { age \<leftarrow> Stat_age E lock;
                    (if (case age of None \<Rightarrow> False | Some a \<Rightarrow> staleLockAge < a) then
                       do { emit (Remove lock); acquire_lock n E lock }
                     else do {
                       w \<leftarrow> Wait_lock E;
                       (case w of
                          Some e \<Rightarrow> ret (Some (Some \<lparr>ce_code = CodePluginInstall,
                                                     ce_err = wrap_error ''waiting for plugin install lock: '' e\<rparr>))
                        | None \<Rightarrow> acquire_lock n E lock) }) }) }"

definition ensurePlugin ::
  "nat \<Rightarrow> runner_env \<Rightarrow> Runner \<Rightarrow> string \<Rightarrow> string \<Rightarrow> string \<Rightarrow> cacheError option option run" where
  "ensurePlugin n E r cache name version =
     (let lock = lock_path cache name version in
      do { before \<leftarrow> installed E (pluginDir cache name version);
           (if before then ret (Some None)
            else do {
              m \<leftarrow> Mkdir_all E (path_dir lock);
              (case m of
                 Some e \<Rightarrow> ret (Some (Some \<lparr>ce_code = CodePluginCacheNotWritable,
                                            ce_err = wrap_error ''preparing plugin cache locks: '' e\<rparr>))
               | None \<Rightarrow>
                   do { a \<leftarrow> acquire_lock n E lock;
                        (case a of
                           None \<Rightarrow> ret None
                         | Some (Some ce) \<Rightarrow> ret (Some (Some ce))
                         | Some None \<Rightarrow>
                             do { meanwhile \<leftarrow> installed E (pluginDir cache name version);
                                  out \<leftarrow> (if meanwhile then ret None
                                         else do {
                                           res \<leftarrow> runEnv E r cache [''PULUMI_HOME='' @ cache, ''PULUMI_SKIP_UPDATE_CHECK=true'']
                                                    [''plugin'', ''install'', ''resource'', name, version];
                                           ret (case snd res of
                                                  None \<Rightarrow> None
                                                | Some e \<Rightarrow> Some \<lparr>ce_code = CodePluginInstall,
                                                     ce_err = wrap_error (''installing plugin '' @ name @ ''@'' @ version @ '': '') e\<rparr>) });
                                  emit (Remove lock);
                                  ret (Some out) }) }) }) })"

section \<open>The registry client\<close>

record registryClient =
  apiURL :: string
  rc_token :: string

definition newRegistryClient :: "runner_env \<Rightarrow> registryClient result" where
  "newRegistryClient E =
     (let token = Getenv E ''PULUMI_ACCESS_TOKEN''; api = Getenv E ''PULUMI_API'' in
      if token = [] then
        Inl (Errorf (''PULUMI_ACCESS_TOKEN is not set; add it to the provider-credentials Secret to use '' @
                     ''private registry packages''))
      else Inr \<lparr>apiURL = TrimRight (if api = [] then ''https://api.pulumi.com'' else api) ''/'', rc_token = token\<rparr>)"

text \<open>The registry record of a response body; only strings are expected in it.\<close>

definition decode_registryPackage :: "string \<Rightarrow> registryPackage result" where
  "decode_registryPackage body =
     (case decode body of
        None \<Rightarrow> Inl (Errorf ''invalid or truncated JSON input'')
      | Some (doc, _) \<Rightarrow>
          and_then (object_or ''runnerops.registryPackage'' doc) (\<lambda>m.
          and_then (string_field ''registryPackage.'' m ''name'') (\<lambda>name.
          and_then (string_field ''registryPackage.'' m ''version'') (\<lambda>version.
          and_then (string_field ''registryPackage.'' m ''schemaURL'') (\<lambda>schemaURL.
          and_then (string_field ''registryPackage.'' m ''pluginDownloadURL'') (\<lambda>plugin.
            Inr \<lparr>rp_Name = name, rp_Version = version, rp_SchemaURL = schemaURL, rp_PluginDownloadURL = plugin\<rparr>))))))"

definition rc_resolve :: "runner_env \<Rightarrow> registryClient \<Rightarrow> string \<Rightarrow> registryPackage result run" where
  "rc_resolve E c apiPath =
     (let url = apiURL c @ ''/api/preview/registry/packages/'' @ apiPath in
      case bad_request E url of
        Some e \<Rightarrow> ret (Inl e)
      | None \<Rightarrow>
          do { resp \<leftarrow> Http_get E url
                   [(''Authorization'', ''token '' @ rc_token c), (''Accept'', ''application/json'')];
               ret (case resp of
                      Inl e \<Rightarrow> Inl (wrap_error ''registry API request failed: '' e)
                    | Inr rsp \<Rightarrow>
                        if http_status rsp \<noteq> 200 then
                          Inl (Errorf (''registry API returned '' @ http_status_text rsp @ '' for '' @ apiPath @ '': '' @
                                       TrimSpace (take 512 (http_body rsp))))
                        else case decode_registryPackage (http_body rsp) of
                            Inl e \<Rightarrow> Inl (wrap_error ''decoding registry response: '' e)
                          | Inr pkg \<Rightarrow> Inr pkg) })"

definition rc_fetchSchema :: "runner_env \<Rightarrow> registryPackage \<Rightarrow> string result run" where
  "rc_fetchSchema E p =
     (if rp_SchemaURL p = [] then
        ret (Inl (Errorf (''registry package '' @ rp_Name p @ ''@'' @ rp_Version p @ '' has no schema URL'')))
      else case bad_request E (rp_SchemaURL p) of
          Some e \<Rightarrow> ret (Inl e)
        | None \<Rightarrow>
            do { resp \<leftarrow> Http_get E (rp_SchemaURL p) [];
                 ret (case resp of
                        Inl e \<Rightarrow> Inl (wrap_error ''schema download failed: '' e)
                      | Inr rsp \<Rightarrow>
                          if http_status rsp \<noteq> 200 then Inl (Errorf (''schema download returned '' @ http_status_text rsp))
                          else case http_read_err rsp of
                              Some e \<Rightarrow> Inl e
                            | None \<Rightarrow>
                                if take 2 (http_body rsp) = [CHR 0x1F, CHR 0x8B] then
                                  (case gunzip_header E (http_body rsp) of
                                     Some e \<Rightarrow> Inl (wrap_error ''decompressing schema: '' e)
                                   | None \<Rightarrow> gunzip E (http_body rsp))
                                else Inr (http_body rsp)) })"

section \<open>Executing an operation\<close>

text \<open>A list of CLI steps; the first failure is reported with the step.\<close>

primrec run_steps ::
  "runner_env \<Rightarrow> Runner \<Rightarrow> workspace \<Rightarrow> string list list \<Rightarrow> (string list \<times> error) option run" where
  "run_steps E r ws [] = ret None"
| "run_steps E r ws (step # steps) =
     do { out \<leftarrow> runIn E r ws (projectDir ws) step;
          (case snd out of
             Some e \<Rightarrow> ret (Some (step, e))
           | None \<Rightarrow> run_steps E r ws steps) }"

definition executeStateDelete :: "runner_env \<Rightarrow> Runner \<Rightarrow> workspace \<Rightarrow> Op \<Rightarrow> Result \<Rightarrow> Result run" where
  "executeStateDelete E r ws op primary =
     (case deletePluginRef op of
        None \<Rightarrow> ret primary
      | Some (pluginName, pluginVersion) \<Rightarrow>
          let checkpoint = deleteCheckpoint pluginName pluginVersion (Token op) (op_ID op) (op_State op);
              project = ''{'' @ Quote ''name'' @ '': '' @ Quote deleteFallbackProject @ '', '' @ Quote ''runtime'' @ '': '' @
                        Quote ''yaml'' @ ''}'' @ newline;
              checkpointFile = path_join [ws_root ws, ''delete-state.json'']
          in do {
            w1 \<leftarrow> Write_file E (path_join [projectDir ws, ''Pulumi.yaml'']) project;
            (case w1 of
               Some e \<Rightarrow> ret (failure CodeOperationFailed (''writing project: '' @ e_msg e))
             | None \<Rightarrow>
                 do { w2 \<leftarrow> Write_file E checkpointFile checkpoint;
                      (case w2 of
                         Some e \<Rightarrow> ret (failure CodeOperationFailed (''writing delete checkpoint: '' @ e_msg e))
                       | None \<Rightarrow>
                           do { out \<leftarrow> run_steps E r ws
                                  [[''stack'', ''init'', deleteFallbackStack, ''--non-interactive''],
                                   [''stack'', ''import'', ''--file'', checkpointFile],
                                   [''destroy'', ''--yes'', ''--non-interactive'']];
                                (case out of
                                   None \<Rightarrow> ret (success\<lparr>res_ID := op_ID op\<rparr>)
                                 | Some (step, e) \<Rightarrow>
                                     let fb = classifyDoFailure e [] in
                                     if res_Code fb = CodeNotFound then ret fb
                                     else ret (failure CodeOperationFailed
                                       (''stateless delete failed ('' @ res_Code primary @ '': '' @
                                        Truncate (res_Message primary) 1500 @ ''); engine destroy fallback failed: pulumi '' @
                                        Join (take 2 step) '' '' @ '': '' @ e_msg e))) }) }) })"

definition do_args :: "Op \<Rightarrow> string list" where
  "do_args op =
     [''do'', Token op] @ (if Package op \<noteq> [] then [''--package'', Package op] else []) @ [Verb op] @
     (if op_ID op \<noteq> [] then [op_ID op] else []) @ (if Verb op \<noteq> VerbRead then [''--yes''] else [])"

definition do_flags :: "string list" where
  "do_flags = [''--stateless'', ''--non-interactive'', ''--color'', ''never'', ''--output'', ''json'']"

text \<open>The result of a successful \<open>pulumi do\<close>.\<close>

definition do_outcome :: "Op \<Rightarrow> string \<Rightarrow> Result" where
  "do_outcome op stdout =
     (if Verb op = VerbDelete then success\<lparr>res_ID := op_ID op\<rparr>
      else case LastJSONObject stdout of
          Inl e \<Rightarrow> failure CodeOutputParse (''parsing '' @ Verb op @ '' output: '' @ e_msg e @ '' (output: '' @
                     Truncate stdout 1500 @ '')'')
        | Inr state \<Rightarrow>
            let rid = (case gomap_get state ''id'' of Some (JStr s) \<Rightarrow> s | _ \<Rightarrow> []) in
            if rid = [] \<and> Verb op = VerbCreate then
              failure CodeOutputParse (''create output contains no id (output: '' @ Truncate stdout 1500 @ '')'')
            else success\<lparr>res_ID := (if rid = [] then op_ID op else rid), res_State := state\<rparr>)"

definition run_do :: "runner_env \<Rightarrow> Runner \<Rightarrow> workspace \<Rightarrow> Op \<Rightarrow> string list \<Rightarrow> Result run" where
  "run_do E r ws op args =
     do { out \<leftarrow> runIn E r ws (ws_root ws) (args @ do_flags);
          (case snd out of
             Some runErr \<Rightarrow>
               let res = classifyDoFailure runErr (fst out) in
               if Verb op = VerbDelete \<and> op_State op \<noteq> [] \<and> deleteFallbackApplies res
               then executeStateDelete E r ws op res
               else ret res
           | None \<Rightarrow> ret (do_outcome op (fst out))) }"

definition executeDo :: "runner_env \<Rightarrow> Runner \<Rightarrow> workspace \<Rightarrow> Op \<Rightarrow> Result run" where
  "executeDo E r ws op =
     (if Properties op = [] then run_do E r ws op (do_args op)
      else
        let inputFile = path_join [ws_root ws, ''input.yaml''] in
        do { w \<leftarrow> Write_file E inputFile (marshal (JObj (Properties op)));
             (case w of
                Some e \<Rightarrow> ret (failure CodeOperationFailed (''writing input file: '' @ e_msg e))
              | None \<Rightarrow> run_do E r ws op (do_args op @ [''--input-file'', inputFile])) })"

definition schema_source :: "runner_env \<Rightarrow> Runner \<Rightarrow> workspace \<Rightarrow> Op \<Rightarrow> (Result + string) run" where
  "schema_source E r ws op =
     (case ClassifyPackageRef (Package op) of (kind, apiPath) \<Rightarrow>
        if kind = PkgKindRegistry then
          (case newRegistryClient E of
             Inl e \<Rightarrow> ret (Inl (failure CodeRegistryAuthMissing (e_msg e)))
           | Inr client \<Rightarrow>
               do { p \<leftarrow> rc_resolve E client apiPath;
                    (case p of
                       Inl e \<Rightarrow> ret (Inl (failure CodeRegistryResolve (e_msg e)))
                     | Inr pkg \<Rightarrow>
                         do { raw \<leftarrow> rc_fetchSchema E pkg;
                              ret (case raw of
                                     Inl e \<Rightarrow> Inl (failure CodeSchemaFetch (e_msg e))
                                   | Inr s \<Rightarrow> Inr s) }) })
        else
          let pref = (if Package op = [] then PackageForToken (Token op) else Package op) in
          do { out \<leftarrow> runIn E r ws (ws_root ws) [''package'', ''get-schema'', pref];
               ret (case snd out of
                      Some e \<Rightarrow> Inl (failure CodeSchemaFetch (''pulumi package get-schema '' @ pref @ '': '' @ e_msg e))
                    | None \<Rightarrow> Inr (fst out)) })"

definition executeSchema :: "runner_env \<Rightarrow> Runner \<Rightarrow> workspace \<Rightarrow> Op \<Rightarrow> Result run" where
  "executeSchema E r ws op =
     do { src \<leftarrow> schema_source E r ws op;
          ret (case src of
                 Inl res \<Rightarrow> res
               | Inr raw \<Rightarrow>
                   (case trimSchema raw (Token op) of
                      Inl e \<Rightarrow> failure CodeSchemaFetch (e_msg e)
                    | Inr trimmed \<Rightarrow> success\<lparr>res_Schema := trimmed\<rparr>)) }"

definition engine_source :: "runner_env \<Rightarrow> Op \<Rightarrow> (Result + string) run" where
  "engine_source E op =
     (case ClassifyPackageRef (Package op) of (kind, apiPath) \<Rightarrow>
        if kind = PkgKindRegistry then
          (case newRegistryClient E of
             Inl e \<Rightarrow> ret (Inl (failure CodeRegistryAuthMissing (e_msg e)))
           | Inr client \<Rightarrow>
               do { p \<leftarrow> rc_resolve E client apiPath;
                    ret (case p of
                           Inl e \<Rightarrow> Inl (failure CodeRegistryResolve (e_msg e))
                         | Inr pkg \<Rightarrow>
                             (case gitSource pkg of
                                Inl e \<Rightarrow> Inl (failure CodeRegistryResolve (e_msg e))
                              | Inr s \<Rightarrow> Inr s)) })
        else ret (Inr (if Package op = [] then PackageForToken (Token op) else Package op)))"

definition engineResultFromCheckpoint :: "runner_env \<Rightarrow> string \<Rightarrow> string \<Rightarrow> Result run" where
  "engineResultFromCheckpoint E path token =
     do { raw \<leftarrow> Read_file E path;
          ret (case raw of
                 Inl e \<Rightarrow> failure CodeEngineFailed (''reading checkpoint: '' @ e_msg e)
               | Inr s \<Rightarrow> engine_result (float64 E) s token) }"

text \<open>The CLI steps of an engine operation, and what follows them.\<close>

definition engine_steps :: "runner_env \<Rightarrow> Runner \<Rightarrow> workspace \<Rightarrow> Op \<Rightarrow> string \<Rightarrow> string list list \<Rightarrow> Result run" where
  "engine_steps E r ws op pkgSrc imports =
     do { out \<leftarrow> run_steps E r ws
            ([[''package'', ''add'', pkgSrc], [''stack'', ''init'', ''dev'', ''--non-interactive'']] @ imports @
             [if Verb op = VerbEngineDestroy then [''destroy'', ''--yes'', ''--non-interactive'']
              else [''up'', ''--yes'', ''--non-interactive'', ''--skip-preview'']]);
          (case out of
             Some (step, e) \<Rightarrow>
               ret (failure CodeEngineFailed (''pulumi '' @ Join (take 2 step) '' '' @ '': '' @ e_msg e))
           | None \<Rightarrow>
               if Verb op = VerbEngineDestroy then ret (success\<lparr>res_ID := op_ID op\<rparr>)
               else
                 let checkpoint = path_join [ws_root ws, ''checkpoint.json''] in
                 do { ex \<leftarrow> runIn E r ws (projectDir ws) [''stack'', ''export'', ''--file'', checkpoint];
                      (case snd ex of
                         Some e \<Rightarrow> ret (failure CodeEngineFailed (''pulumi stack export: '' @ e_msg e))
                       | None \<Rightarrow> engineResultFromCheckpoint E checkpoint (Token op)) }) }"

definition executeEngine :: "runner_env \<Rightarrow> Runner \<Rightarrow> workspace \<Rightarrow> Op \<Rightarrow> Result run" where
  "executeEngine E r ws op =
     do { src \<leftarrow> engine_source E op;
          (case src of
             Inl res \<Rightarrow> ret res
           | Inr pkgSrc \<Rightarrow>
               do { w \<leftarrow> Write_file E (path_join [projectDir ws, ''Pulumi.yaml'']) (engineProgram (Token op) (Properties op));
                    (case w of
                       Some e \<Rightarrow> ret (failure CodeEngineFailed (''writing project: '' @ e_msg e))
                     | None \<Rightarrow>
                         if op_EngineState op = [] then engine_steps E r ws op pkgSrc []
                         else
                           let prev = path_join [ws_root ws, ''prev-state.json''] in
                           do { w2 \<leftarrow> Write_file E prev (op_EngineState op);
                                (case w2 of
                                   Some e \<Rightarrow> ret (failure CodeEngineFailed (''writing prior state: '' @ e_msg e))
                                 | None \<Rightarrow> engine_steps E r ws op pkgSrc [[''stack'', ''import'', ''--file'', prev]]) }) }) }"

text \<open>The verb dispatch, and the part of \<open>Execute\<close> behind the plugin cache.\<close>

definition execute_verb :: "runner_env \<Rightarrow> Runner \<Rightarrow> workspace \<Rightarrow> Op \<Rightarrow> Result run" where
  "execute_verb E r ws op =
     (if Verb op = VerbCreate \<or> Verb op = VerbPatch \<or> Verb op = VerbRead \<or> Verb op = VerbDelete then executeDo E r ws op
      else if Verb op = VerbSchema then executeSchema E r ws op
      else if Verb op = VerbEngineUp \<or> Verb op = VerbEngineDestroy then executeEngine E r ws op
      else ret (failure CodeInvalidSpec (''unknown verb '' @ Quote (Verb op))))"

definition execute_in :: "runner_env \<Rightarrow> Runner \<Rightarrow> string \<Rightarrow> string \<Rightarrow> Op \<Rightarrow> Result run" where
  "execute_in E r work cachePlugins op0 =
     do { wsr \<leftarrow> prepare E work (BakedPlugins r) cachePlugins;
          (case wsr of
             Inl e \<Rightarrow> ret (failure CodeOperationFailed (e_msg e))
           | Inr ws \<Rightarrow>
               if SecretInputs op0 \<noteq> [] \<and> (Verb op0 = VerbEngineUp \<or> Verb op0 = VerbEngineDestroy) then
                 ret (failure CodeInvalidSpec ''secret inputs are not supported for component resources'')
               else
                 let op1 = (if VerbTakesSecretInputs (Verb op0) then op0 else op0\<lparr>SecretInputs := []\<rparr>) in
                 (case applySecretInputs op1 (lookupEnv E r) of
                    (_, Inl e) \<Rightarrow> ret (failure CodeSecretInputMissing (e_msg e))
                  | (op, Inr secrets) \<Rightarrow>
                      do { res \<leftarrow> execute_verb E (r\<lparr>redactSecrets := secrets\<rparr>) ws op;
                           ret (guardSecretID (redactResult res secrets) secrets) })) }"

definition Execute :: "nat \<Rightarrow> runner_env \<Rightarrow> Runner \<Rightarrow> Op \<Rightarrow> Result option run" where
  "Execute n E r op =
     do { w \<leftarrow> Mkdir_temp E;
          (case w of
             Inl e \<Rightarrow> ret (Some (failure CodeOperationFailed (''creating workspace: '' @ e_msg e)))
           | Inr work \<Rightarrow>
               do { res \<leftarrow>
                      (if PluginCache r = [] then
                         do { x \<leftarrow> execute_in E r work [] op; ret (Some x) }
                       else do {
                         c \<leftarrow> (case ParsePluginRef (Package op) of
                                 None \<Rightarrow> ret (Some None)
                               | Some (name, version) \<Rightarrow> ensurePlugin n E r (PluginCache r) name version);
                         (case c of
                            None \<Rightarrow> ret None
                          | Some (Some ce) \<Rightarrow> ret (Some (failure (ce_code ce) (e_msg (ce_err ce))))
                          | Some None \<Rightarrow>
                              do { x \<leftarrow> execute_in E r work (path_join [PluginCache r, ''plugins'']) op;
                                   ret (Some x) }) });
                    emit (RemoveAll work);
                    ret res }) }"

text \<open>The runner binary: exit code and standard output.\<close>

definition run_main :: "nat \<Rightarrow> runner_env \<Rightarrow> (int \<times> string) option run" where
  "run_main n E =
     (let raw = Getenv E ''DOPLANE_OP'' in
      if raw = [] then ret (Some (3, []))
      else case decode_op (float64 E) raw of
          Inl e \<Rightarrow> ret (Some (3, []))
        | Inr op \<Rightarrow>
            do { res \<leftarrow> Execute n E \<lparr>PulumiBin = [], BakedPlugins = Getenv E ''DOPLANE_BAKED_PLUGINS'',
                                      PluginCache = Getenv E ''DOPLANE_PLUGIN_CACHE'', LookupEnv = None,
                                      redactSecrets = []\<rparr> op;
                 ret (case res of
                        None \<Rightarrow> None
                      | Some r \<Rightarrow> Some (case encode_result r of Inl e \<Rightarrow> (3, []) | Inr t \<Rightarrow> (0, t @ newline))) })"

end
