(* ===== verification/Exec_Runner.thy ===== *)
theory Exec_Runner
  imports Runner_Execute Job_Runner
begin

text \<open>
  The in-process runner of development mode (\<open>internal/pulumido/exec.go\<close>). The secret
  resolver is a parameter, as in the source; the deadline of an operation is that of its
  context and shows in the environment's replies.
\<close>

record ExecRunner =
  er_PulumiBin :: string
  er_Timeout :: int
  ResolveSecret :: "(string \<Rightarrow> string \<Rightarrow> string \<Rightarrow> string result) option"

definition er_timeout :: "ExecRunner \<Rightarrow> int" where
  "er_timeout r = (if 0 < er_Timeout r then er_Timeout r else 10 * 60 * second)"

text \<open>The values of the plan by variable, or the first resolution failure.\<close>

primrec resolve_inputs ::
  "(string \<Rightarrow> string \<Rightarrow> string \<Rightarrow> string result) \<Rightarrow> string \<Rightarrow> nat \<Rightarrow> SecretInput list \<Rightarrow> string gomap \<Rightarrow> string gomap result" where
  "resolve_inputs resolve ns i [] vals = Inr vals"
| "resolve_inputs resolve ns i (s # ss) vals =
     (case resolve ns (SecretName s) (SecretKey s) of
        Inl e \<Rightarrow> Inl (coded_error \<lparr>Code = CodeSecretInputMissing,
                   Message = ''resolving secret input for '' @ Quote (ToPath s) @ '': '' @ e_msg e\<rparr>)
      | Inr v \<Rightarrow> resolve_inputs resolve ns (Suc i) ss (gomap_put (secretEnvName i) v vals))"

definition exec_lookup :: "ExecRunner \<Rightarrow> op_ctx \<Rightarrow> string \<Rightarrow> (string \<Rightarrow> string option) option result" where
  "exec_lookup r ctx verb =
     (if ctx_inputs ctx \<noteq> [] \<and> VerbTakesSecretInputs verb then
        (case ResolveSecret r of
           None \<Rightarrow> Inl (coded_error \<lparr>Code = CodeSecretInputMissing, Message = ''exec runner has no secret resolver configured''\<rparr>)
         | Some resolve \<Rightarrow>
             (case resolve_inputs resolve (ctx_namespace ctx) 0 (snd (secretInputsPlan (ctx_inputs ctx))) [] of
                Inl e \<Rightarrow> Inl e
              | Inr vals \<Rightarrow> Inr (Some (gomap_get vals))))
      else Inr None)"

definition execute :: "nat \<Rightarrow> runner_env \<Rightarrow> ExecRunner \<Rightarrow> op_ctx \<Rightarrow> Op \<Rightarrow> (Result \<times> error option) option run" where
  "execute n E r ctx op =
     (case exec_lookup r ctx (Verb op) of
        Inl e \<Rightarrow> ret (Some (no_result, Some e))
      | Inr lookup \<Rightarrow>
          do { res \<leftarrow> Execute n E \<lparr>PulumiBin = er_PulumiBin r, BakedPlugins = [], PluginCache = [],
                                   LookupEnv = lookup, redactSecrets = []\<rparr> (job_op ctx op);
               ret (map_option (\<lambda>x. (x, resultErr x)) res) })"

definition Exec_Create :: "nat \<Rightarrow> runner_env \<Rightarrow> ExecRunner \<Rightarrow> op_ctx \<Rightarrow> string \<Rightarrow> string \<Rightarrow> jobj \<Rightarrow> (string \<times> jobj) result option run" where
  "Exec_Create n E r ctx token pkg props =
     do { out \<leftarrow> execute n E r ctx (Create_op token pkg props);
          ret (map_option (op_outcome (\<lambda>res. (res_ID res, res_State res))) out) }"

definition Exec_Patch :: "nat \<Rightarrow> runner_env \<Rightarrow> ExecRunner \<Rightarrow> op_ctx \<Rightarrow> string \<Rightarrow> string \<Rightarrow> string \<Rightarrow> jobj \<Rightarrow> jobj result option run" where
  "Exec_Patch n E r ctx token pkg rid props =
     do { out \<leftarrow> execute n E r ctx (Patch_op token pkg rid props); ret (map_option (op_outcome res_State) out) }"

definition Exec_Read :: "nat \<Rightarrow> runner_env \<Rightarrow> ExecRunner \<Rightarrow> op_ctx \<Rightarrow> string \<Rightarrow> string \<Rightarrow> string \<Rightarrow> jobj result option run" where
  "Exec_Read n E r ctx token pkg rid =
     do { out \<leftarrow> execute n E r ctx (Read_op token pkg rid); ret (map_option (op_outcome res_State) out) }"

definition Exec_Delete :: "nat \<Rightarrow> runner_env \<Rightarrow> ExecRunner \<Rightarrow> op_ctx \<Rightarrow> string \<Rightarrow> string \<Rightarrow> string \<Rightarrow> jobj \<Rightarrow> error option option run" where
  "Exec_Delete n E r ctx token pkg rid state =
     do { out \<leftarrow> execute n E r ctx (Delete_op token pkg rid state); ret (map_option snd out) }"

definition Exec_FetchSchema :: "nat \<Rightarrow> runner_env \<Rightarrow> ExecRunner \<Rightarrow> op_ctx \<Rightarrow> string \<Rightarrow> string \<Rightarrow> PackageSchema result option run" where
  "Exec_FetchSchema n E r ctx pkg token =
     do { out \<leftarrow> execute n E r ctx (bare_op VerbSchema token pkg);
          ret (map_option (\<lambda>o'. and_then (op_outcome res_Schema o') decode_schema) out) }"

definition Exec_CreateComponent ::
  "nat \<Rightarrow> runner_env \<Rightarrow> ExecRunner \<Rightarrow> op_ctx \<Rightarrow> string \<Rightarrow> string \<Rightarrow> jobj \<Rightarrow> (string \<times> jobj \<times> string) result option run" where
  "Exec_CreateComponent n E r ctx token pkg props =
     do { out \<leftarrow> execute n E r ctx (engine_op VerbEngineUp token pkg props []);
          ret (map_option (op_outcome (\<lambda>res. (res_ID res, Outputs res, res_EngineState res))) out) }"

definition Exec_UpdateComponent ::
  "nat \<Rightarrow> runner_env \<Rightarrow> ExecRunner \<Rightarrow> op_ctx \<Rightarrow> string \<Rightarrow> string \<Rightarrow> jobj \<Rightarrow> string \<Rightarrow> (jobj \<times> string) result option run" where
  "Exec_UpdateComponent n E r ctx token pkg props engineState =
     (case engineStateJSON engineState of
        Inl e \<Rightarrow> ret (Some (Inl e))
      | Inr state \<Rightarrow>
          do { out \<leftarrow> execute n E r ctx (engine_op VerbEngineUp token pkg props state);
               ret (map_option (op_outcome (\<lambda>res. (Outputs res, res_EngineState res))) out) })"

definition Exec_DeleteComponent ::
  "nat \<Rightarrow> runner_env \<Rightarrow> ExecRunner \<Rightarrow> op_ctx \<Rightarrow> string \<Rightarrow> string \<Rightarrow> string \<Rightarrow> error option option run" where
  "Exec_DeleteComponent n E r ctx token pkg engineState =
     (case engineStateJSON engineState of
        Inl e \<Rightarrow> ret (Some (Some e))
      | Inr state \<Rightarrow>
          do { out \<leftarrow> execute n E r ctx (engine_op VerbEngineDestroy token pkg [] state); ret (map_option snd out) })"

end
