(* ===== verification/Runner_Safety.thy ===== *)
theory Runner_Safety
  imports Runner_Execute
begin

text \<open>
  What a runner does with its surroundings and what it reports: the interactions of every
  operation are covered by one interface, which the registry token, the secret values and the
  shape of the envelope use.
\<close>

section \<open>Interactions of a runner\<close>

lemma emits_link [emits_intros]:
  "emits A m \<Longrightarrow> emits A n \<Longrightarrow> (\<And>e. emits A (f e)) \<Longrightarrow>
   emits A (case x of LinkOk \<Rightarrow> m | LinkExists \<Rightarrow> n | LinkFailed e \<Rightarrow> f e)"
  by (cases x) auto

lemma emits_dir [emits_intros]:
  "(\<And>es. emits A (f es)) \<Longrightarrow> emits A m \<Longrightarrow> (\<And>e. emits A (g e)) \<Longrightarrow>
   emits A (case x of DirEntries es \<Rightarrow> f es | DirMissing \<Rightarrow> m | DirFailed e \<Rightarrow> g e)"
  by (cases x) auto

lemma emits_mkdir [emits_intros]:
  "emits A m \<Longrightarrow> emits A n \<Longrightarrow> (\<And>e. emits A (f e)) \<Longrightarrow>
   emits A (case x of MkdirOk \<Rightarrow> m | MkdirExists \<Rightarrow> n | MkdirFailed e \<Rightarrow> f e)"
  by (cases x) auto

text \<open>
  \<open>A\<close> admits every file-system, clock and CLI interaction, the requests of the registry
  client, and the progress output of the runners in \<open>P\<close>.
\<close>

locale runner_interactions =
  fixes A :: "runner_event \<Rightarrow> bool" and E :: runner_env and P :: "Runner \<Rightarrow> bool"
  assumes files: "A (MkdirTemp t)" "A (RemoveAll p)" "A (MkdirAll p m)" "A (Mkdir p k)" "A (Remove p)" "A (StatDir p d)"
      "A (StatAge p a)" "A (WriteFile p s m)" "A (ReadFile p t)" "A (ReadDir p ds)" "A (Symlink p q l)" "A (WaitLock m)"
    and cli: "A (Pulumi dir env args p')"
    and download: "A (HttpGet url [] resp)"
    and registry: "newRegistryClient E = Inr c \<Longrightarrow>
      A (HttpGet (apiURL c @ ''/api/preview/registry/packages/'' @ path)
           [(''Authorization'', ''token '' @ rc_token c), (''Accept'', ''application/json'')] resp)"
    and progress: "P r \<Longrightarrow> A (Progress (progressWriters r (stdout_chunks (pulumi E tr dir env args))))"
      "P r \<Longrightarrow> A (Progress (progressWriters r (stderr_chunks (pulumi E tr dir env args))))"
begin

lemma io [emits_intros]:
  "emits A (Mkdir_temp E)" "emits A (Mkdir_all E p)" "emits A (Mkdir_lock E p)" "emits A (Stat_dir E p)"
  "emits A (Stat_age E p)" "emits A (Write_file E p s)" "emits A (Read_file E p)" "emits A (Read_dir E p)"
  "emits A (Symlink_to E p q)" "emits A (Wait_lock E)" "emits A (emit (Remove p))" "emits A (emit (RemoveAll p))"
  by (auto intro!: emits_intros files)

lemma runEnv_emits [emits_intros]: "P r \<Longrightarrow> emits A (runEnv E r dir env args)"
  by (simp add: runEnv_def emits_def cli progress Let_def)

lemma runIn_emits [emits_intros]: "P r \<Longrightarrow> emits A (runIn E r ws dir args)"
  by (simp add: runIn_def runEnv_emits)

lemma symlink_files_emits [emits_intros]: "emits A (symlink_files E src target fs)"
  by (induction fs) (auto intro!: emits_intros)

lemma seed_entries_emits [emits_intros]: "emits A (seed_entries E baked dest es)"
  by (induction es) (auto simp: Let_def intro!: emits_intros)

lemma seedPlugins_emits [emits_intros]: "emits A (seedPlugins E baked dest)"
  unfolding seedPlugins_def by (intro emits_intros)

lemma mkdirs_emits [emits_intros]: "emits A (mkdirs E ds)"
  by (induction ds) (auto intro!: emits_intros)

lemma seed_all_emits [emits_intros]: "emits A (seed_all E dest ps)"
  by (induction ps) (auto intro!: emits_intros)

lemma prepare_emits [emits_intros]: "emits A (prepare E root baked cache)"
  unfolding prepare_def by (intro emits_intros)

lemma installed_emits [emits_intros]: "emits A (installed E dir)"
  unfolding installed_def by (intro emits_intros)

lemma acquire_lock_emits [emits_intros]: "emits A (acquire_lock n E lock)"
  by (induction n) (auto intro!: emits_intros)

lemma ensurePlugin_emits [emits_intros]: "P r \<Longrightarrow> emits A (ensurePlugin n E r cache name version)"
  unfolding ensurePlugin_def by (intro emits_intros)

lemma rc_resolve_emits: "newRegistryClient E = Inr c \<Longrightarrow> emits A (rc_resolve E c path)"
  unfolding rc_resolve_def Let_def by (intro emits_intros registry)

lemma rc_fetchSchema_emits [emits_intros]: "emits A (rc_fetchSchema E p)"
  unfolding rc_fetchSchema_def by (intro emits_intros download)

lemma run_steps_emits [emits_intros]: "P r \<Longrightarrow> emits A (run_steps E r ws steps)"
  by (induction steps) (auto intro!: emits_intros)

lemma executeStateDelete_emits [emits_intros]: "P r \<Longrightarrow> emits A (executeStateDelete E r ws op primary)"
  unfolding executeStateDelete_def by (intro emits_intros)

lemma executeDo_emits [emits_intros]: "P r \<Longrightarrow> emits A (executeDo E r ws op)"
  unfolding executeDo_def run_do_def by (intro emits_intros)

lemma executeSchema_emits [emits_intros]: "P r \<Longrightarrow> emits A (executeSchema E r ws op)"
  unfolding executeSchema_def schema_source_def by (intro emits_intros rc_resolve_emits)

lemma executeEngine_emits [emits_intros]: "P r \<Longrightarrow> emits A (executeEngine E r ws op)"
  unfolding executeEngine_def engine_source_def engine_steps_def engineResultFromCheckpoint_def
  by (intro emits_intros rc_resolve_emits)

lemma execute_verb_emits [emits_intros]: "P r \<Longrightarrow> emits A (execute_verb E r ws op)"
  unfolding execute_verb_def by (intro emits_intros)

lemma execute_in_emits:
  assumes "\<And>op' secrets. applySecretInputs (if VerbTakesSecretInputs (Verb op) then op else op\<lparr>SecretInputs := []\<rparr>)
       (lookupEnv E r) = (op', Inr secrets) \<Longrightarrow> P (r\<lparr>redactSecrets := secrets\<rparr>)"
  shows "emits A (execute_in E r work cache op)"
  unfolding execute_in_def Let_def by (intro emits_intros) (use assms in auto)

lemma Execute_emits: "(\<And>r. P r) \<Longrightarrow> emits A (Execute n E r op)"
  unfolding Execute_def by (intro emits_intros execute_in_emits)

end

section \<open>The registry token\<close>

definition registry_base :: "runner_env \<Rightarrow> string" where
  "registry_base E =
     TrimRight (if Getenv E ''PULUMI_API'' = [] then ''https://api.pulumi.com'' else Getenv E ''PULUMI_API'') ''/''"

definition token_safe :: "runner_env \<Rightarrow> runner_event \<Rightarrow> bool" where
  "token_safe E e =
     (case e of
        HttpGet url headers _ \<Rightarrow>
          headers = [] \<or> HasPrefix url (registry_base E @ ''/api/preview/registry/packages/'')
      | _ \<Rightarrow> True)"

interpretation tk: runner_interactions "token_safe E" E "\<lambda>_. True" for E
  by unfold_locales
     (auto simp: token_safe_def newRegistryClient_def registry_base_def Let_def HasPrefix_iff split: if_splits)

text \<open>
  C16: The registry credential never leaves the registry API. In every run of every operation,
  whatever the registry, the CLI and the file system answer, a request that carries headers
  (the access token is only ever sent in one) goes to a URL below
  \<open>/api/preview/registry/packages/\<close> of the configured API; the presigned schema URL, which
  the registry's answer chooses, is requested with no headers at all.
\<close>

theorem Execute_token_stays_with_registry:
  "\<exists>events. trace (snd (run_state (Execute n E r op) s)) = trace s @ events \<and>
     list_all (\<lambda>e. case e of
        HttpGet url headers _ \<Rightarrow>
          headers = [] \<or> HasPrefix url (registry_base E @ ''/api/preview/registry/packages/'')
      | _ \<Rightarrow> True) events"
  using emitsD [OF tk.Execute_emits [OF TrueI]] unfolding token_safe_def by blast

section \<open>Secret values\<close>

text \<open>Every line the CLI prints fits the redactor's buffer.\<close>

definition short_output :: "runner_env \<Rightarrow> bool" where
  "short_output E = (\<forall>tr dir env args.
     short_lines (concat (stdout_chunks (pulumi E tr dir env args))) \<and>
     short_lines (concat (stderr_chunks (pulumi E tr dir env args))))"

definition quiet :: "string \<Rightarrow> runner_env \<Rightarrow> runner_event \<Rightarrow> bool" where
  "quiet v E e = (case e of Progress out \<Rightarrow> short_output E \<longrightarrow> \<not> Contains out v | _ \<Rightarrow> True)"

definition hides :: "string \<Rightarrow> Runner \<Rightarrow> bool" where
  "hides v r = (v \<in> set (redactSecrets r) \<and> list_all redactable (redactSecrets r) \<and>
                list_all (\<lambda>v. CHR 0x0A \<notin> set v) (redactSecrets r))"

lemma progress_quiet:
  assumes "hides v r" "short_lines (concat chunks)"
  shows "\<not> Contains (progressWriters r chunks) v"
  using assms writer_output [OF assms(2), of "redactSecrets r"] redact_lines_no_value [of "redactSecrets r" v "concat chunks"]
  by (auto simp: hides_def progressWriters_def)

interpretation qt: runner_interactions "quiet v E" E "hides v" for v E
  by unfold_locales (auto simp: quiet_def short_output_def progress_quiet)

lemma reported_quiet:
  assumes "list_all redactable secrets" "v \<in> set secrets"
  shows "guardSecretID (redactResult res secrets) secrets = secret_id_failure \<or>
         (\<not> Contains (res_Message (guardSecretID (redactResult res secrets) secrets)) v \<and>
          (6 \<le> length v \<longrightarrow> \<not> Contains (res_ID (guardSecretID (redactResult res secrets) secrets)) v))"
proof -
  have "list_all (\<lambda>v. CHR ''('' \<notin> set v) secrets" using assms(1) by (auto simp: list_all_iff redactable_def)
  note guard = guardSecretID_eq [OF this, of "redactResult res secrets"]
  have "\<not> Contains (res_Message (redactResult res secrets)) v"
    using redactString_no_value [OF assms] assms(2) by (auto simp: redactResult_def)
  then show ?thesis using guard assms(2) by (auto split: if_splits)
qed

text \<open>
  C15: A secret input value stays inside the runner process. Once the workspace of a create or
  patch is prepared and its secret values are substituted, and whatever the CLI prints in lines
  that fit the redactor's buffer, no value appears in the progress output of either stream of
  any CLI call, in the message of the envelope, or (for values of at least six bytes) in the
  id; the one exception is the fixed report that the id had to be withheld. The values are
  non-empty, single-line, without parentheses and no part of the redaction mark.
\<close>

theorem execute_in_hides_secrets:
  assumes verb: "Verb op \<in> {VerbCreate, VerbPatch}"
    and applied: "applySecretInputs op (lookupEnv E r) = (op', Inr secrets)"
    and prepared: "fst (run_state (prepare E work (BakedPlugins r) cache) s) = Inr ws"
    and v: "v \<in> set secrets" "list_all redactable secrets" "list_all (\<lambda>v. CHR 0x0A \<notin> set v) secrets"
    and cli: "short_output E"
    and run: "run_state (execute_in E r work cache op) s = (res, s')"
  shows "(res = secret_id_failure \<or>
          \<not> Contains (res_Message res) v \<and> (6 \<le> length v \<longrightarrow> \<not> Contains (res_ID res) v)) \<and>
         (\<exists>events. trace s' = trace s @ events \<and>
            list_all (\<lambda>e. case e of Progress out \<Rightarrow> \<not> Contains out v | _ \<Rightarrow> True) events)"
proof -
  have takes: "VerbTakesSecretInputs (Verb op)" "Verb op \<noteq> VerbEngineUp" "Verb op \<noteq> VerbEngineDestroy"
    using verb by (auto simp: VerbTakesSecretInputs_def verb_defs)
  obtain s1 where p: "run_state (prepare E work (BakedPlugins r) cache) s = (Inr ws, s1)"
    using prepared by (metis prod.collapse)
  obtain out s2 where "run_state (execute_verb E (r\<lparr>redactSecrets := secrets\<rparr>) ws op') s1 = (out, s2)" by fastforce
  with run p takes applied have "res = guardSecretID (redactResult out secrets) secrets"
    by (simp add: execute_in_def Let_def)
  then have "res = secret_id_failure \<or>
      \<not> Contains (res_Message res) v \<and> (6 \<le> length v \<longrightarrow> \<not> Contains (res_ID res) v)"
    using reported_quiet [OF v(2,1), of out] by simp
  moreover have "emits (quiet v E) (execute_in E r work cache op)"
    by (rule qt.execute_in_emits) (use takes applied v in \<open>simp add: hides_def\<close>)
  then obtain es where es: "trace s' = trace s @ es" "list_all (quiet v E) es" using emitsD [of _ _ s] run by fastforce
  have "list_all (\<lambda>e. case e of Progress out \<Rightarrow> \<not> Contains out v | _ \<Rightarrow> True) es"
    by (rule list.pred_mono_strong [OF es(2)]) (auto simp: quiet_def cli split: runner_event.splits)
  ultimately show ?thesis using es(1) by blast
qed

text \<open>A runner whose CLI fails and quotes the secret.\<close>

definition failing_cli :: "string list \<Rightarrow> runner_env" where
  "failing_cli err =
     \<lparr>mkdir_temp = \<lambda>_. Inr ''/tmp/op'', mkdir_all = \<lambda>_ _. None, mkdir = \<lambda>_ _. MkdirOk, stat_dir = \<lambda>_ _. None,
      stat_age = \<lambda>_ _. None, write_file = \<lambda>_ _ _. None, read_file = \<lambda>_ _. Inr [], read_dir = \<lambda>_ _. DirMissing,
      symlink = \<lambda>_ _ _. LinkOk, http_get = \<lambda>_ _ _. Inl (Errorf ''offline''),
      pulumi = \<lambda>_ _ _ _. \<lparr>stdout_chunks = [], stderr_chunks = err, run_err = Some (Errorf ''exit status 255'')\<rparr>,
      wait_lock = \<lambda>_. None, os_env = (\<lambda>name. if name = ''DOPLANE_SECRET_0'' then Some ''hunter2x'' else None),
      bad_request = \<lambda>_. None, gunzip_header = \<lambda>_. None, gunzip = Inr, float64 = \<lambda>n. n\<rparr>"

definition demo_runner :: Runner where
  "demo_runner = \<lparr>PulumiBin = [], BakedPlugins = [], PluginCache = [], LookupEnv = None, redactSecrets = []\<rparr>"

definition secret_op :: Op where
  "secret_op = \<lparr>Verb = VerbCreate, Token = ''p:m:T'', Package = [], op_ID = [], Properties = [], op_EngineState = [],
     op_State = [], SecretInputs = [(''password'', ''DOPLANE_SECRET_0'')]\<rparr>"

theorem execute_in_hides_secrets_witness:
  "let E = failing_cli [''error: login hunt'', ''er2x denied'']; s = \<lparr>obj = (), trace = []\<rparr>;
       (res, s') = run_state (execute_in E demo_runner ''/tmp/op'' [] secret_op) s
   in \<not> Contains (res_Message res) ''hunter2x'' \<and>
      (\<exists>events. trace s' = trace s @ events \<and>
         list_all (\<lambda>e. case e of Progress out \<Rightarrow> \<not> Contains out ''hunter2x'' | _ \<Rightarrow> True) events)"
proof -
  let ?E = "failing_cli [''error: login hunt'', ''er2x denied'']" and ?s = "\<lparr>obj = (), trace = []\<rparr> :: (unit, runner_event) world"
  obtain res s' where run: "run_state (execute_in ?E demo_runner ''/tmp/op'' [] secret_op) ?s = (res, s')" by fastforce
  have "applySecretInputs secret_op (lookupEnv ?E demo_runner) =
        (secret_op\<lparr>Properties := [(''password'', JStr ''hunter2x'')]\<rparr>, Inr [''hunter2x''])" by code_simp
  moreover have "\<exists>ws. fst (run_state (prepare ?E ''/tmp/op'' (BakedPlugins demo_runner) []) ?s) = Inr ws"
    by (simp add: prepare_def failing_cli_def demo_runner_def io_defs Getenv_def Let_def)
  moreover have "short_output ?E" by (simp add: short_output_def failing_cli_def short_lines_def)
  moreover have "Verb secret_op \<in> {VerbCreate, VerbPatch}" "list_all redactable [''hunter2x'']"
    by (simp_all add: secret_op_def redactable_def)
  moreover have "\<not> Contains (res_Message secret_id_failure) ''hunter2x''" by code_simp
  ultimately show ?thesis
    using run execute_in_hides_secrets [OF _ _ _ _ _ _ _ run, of _ "[''hunter2x'']" _ "''hunter2x''"] by auto
qed

section \<open>What an envelope can hold\<close>

text \<open>A failed result carries nothing but a code and a message; a checkpoint is bounded.\<close>

definition sound_result :: "Result \<Rightarrow> bool" where
  "sound_result res =
     (length (res_EngineState res) \<le> MaxEngineStateBytes \<and>
      (if OK res then res_Code res = []
       else res_Code res \<noteq> [] \<and> res_ID res = [] \<and> Outputs res = [] \<and> res_State res = [] \<and>
            res_EngineState res = [] \<and> res_Schema res = []))"

lemma sound_failure [simp]: "code \<noteq> [] \<Longrightarrow> sound_result (failure code msg)"
  by (simp add: sound_result_def failure_def)

lemma sound_success [simp]:
  "sound_result (success\<lparr>res_ID := i\<rparr>)" "sound_result (success\<lparr>res_ID := i, res_State := st\<rparr>)"
  "sound_result (success\<lparr>res_Schema := sch\<rparr>)"
  "length raw \<le> MaxEngineStateBytes \<Longrightarrow> sound_result (success\<lparr>res_ID := i, Outputs := outs, res_EngineState := raw\<rparr>)"
  by (simp_all add: sound_result_def success_def)

lemma codes_nonempty [simp]:
  "CodeInvalidSpec \<noteq> []" "CodeNotFound \<noteq> []" "CodeReadNotSupported \<noteq> []" "CodeRegistryAuthMissing \<noteq> []"
  "CodeRegistryResolve \<noteq> []" "CodeSchemaFetch \<noteq> []" "CodeOperationFailed \<noteq> []" "CodeEngineFailed \<noteq> []"
  "CodeOutputParse \<noteq> []" "CodePluginInstall \<noteq> []" "CodePluginCacheNotWritable \<noteq> []" "CodeSecretInputMissing \<noteq> []"
  "CodeReplacementRequired \<noteq> []" "CodeAlreadyExists \<noteq> []" "CodeSecretInputInID \<noteq> []"
  by (simp_all add: code_defs)

lemma classify_sound [simp]: "sound_result (classifyDoFailure e out)"
  by (simp add: classifyDoFailure_def Let_def)

lemma engine_result_sound [simp]: "sound_result (engine_result f raw token)"
  by (auto simp: engine_result_def split: sum.splits option.splits)

lemma do_outcome_sound [simp]: "sound_result (do_outcome op out)"
  by (auto simp: do_outcome_def Let_def split: sum.splits)

lemma executeStateDelete_sound: "sound_result primary \<Longrightarrow> yields sound_result (executeStateDelete E r ws op primary)"
  unfolding executeStateDelete_def Let_def by (intro yields_intros) simp_all

lemma executeDo_sound: "yields sound_result (executeDo E r ws op)"
  unfolding executeDo_def run_do_def by (intro yields_intros executeStateDelete_sound) simp_all

lemma sum_sound: "(\<And>res. x = Inl res \<Longrightarrow> sound_result res) \<Longrightarrow> (\<And>a. x = Inr a \<Longrightarrow> sound_result (f a)) \<Longrightarrow>
   sound_result (case x of Inl res \<Rightarrow> res | Inr a \<Rightarrow> f a)"
  by (cases x) auto

definition sound_source :: "Result + 'a \<Rightarrow> bool" where
  "sound_source src = (case src of Inl res \<Rightarrow> sound_result res | Inr _ \<Rightarrow> True)"

lemma sources_sound: "yields sound_source (schema_source E r ws op)" "yields sound_source (engine_source E op)"
proof -
  show "yields sound_source (schema_source E r ws op)"
    unfolding schema_source_def by (intro yields_intros) (auto simp: sound_source_def split: sum.splits option.splits)
  show "yields sound_source (engine_source E op)"
    unfolding engine_source_def by (intro yields_intros) (auto simp: sound_source_def split: sum.splits)
qed

lemma executeSchema_sound: "yields sound_result (executeSchema E r ws op)"
  unfolding executeSchema_def
  by (rule yields_bind [OF sources_sound(1)]) (auto simp: sound_source_def yields_def split: sum.splits)

lemma executeEngine_sound: "yields sound_result (executeEngine E r ws op)"
  unfolding executeEngine_def engine_steps_def engineResultFromCheckpoint_def
  by (rule yields_bind [OF sources_sound(2)], intro yields_intros)
     (auto simp: sound_source_def split: sum.splits)

lemma execute_verb_sound: "yields sound_result (execute_verb E r ws op)"
  unfolding execute_verb_def
  by (intro yields_intros executeDo_sound executeSchema_sound executeEngine_sound) simp

lemma redact_sound: "sound_result res \<Longrightarrow> sound_result (guardSecretID (redactResult res secrets) secrets)"
  by (auto simp: guardSecretID_def redactResult_def secret_id_failure_def Let_def)
     (auto simp: sound_result_def)

lemma execute_in_sound: "yields sound_result (execute_in E r work cache op)"
proof -
  have "yields sound_result (execute_verb E r' ws op' \<bind> (\<lambda>res. ret (guardSecretID (redactResult res secrets) secrets)))"
    for r' ws op' secrets
    by (rule yields_bind [OF execute_verb_sound]) (simp add: yields_def redact_sound)
  note verb = this
  show ?thesis unfolding execute_in_def Let_def by (rule verb | rule yields_intros | simp)+
qed

definition coded :: "cacheError option option \<Rightarrow> bool" where
  "coded c = pred_option (pred_option (\<lambda>ce. ce_code ce \<noteq> [])) c"

lemma yields_mkdir [yields_intros]:
  "yields Q m \<Longrightarrow> yields Q n \<Longrightarrow> (\<And>e. yields Q (f e)) \<Longrightarrow>
   yields Q (case x of MkdirOk \<Rightarrow> m | MkdirExists \<Rightarrow> n | MkdirFailed e \<Rightarrow> f e)"
  by (cases x) auto

lemma acquire_lock_coded: "yields coded (acquire_lock n E lock)"
proof (induction n)
  case (Suc n)
  show ?case unfolding acquire_lock.simps
    by (rule Suc | rule yields_intros | simp add: coded_def)+
qed (simp add: yields_def coded_def)

lemma ensurePlugin_coded: "yields coded (ensurePlugin n E r cache name version)"
proof -
  have locked: "yields coded (acquire_lock n E lock \<bind> f)" if "\<And>a. coded a \<Longrightarrow> yields coded (f a)" for lock f
    by (rule yields_bind [OF acquire_lock_coded that])
  have install: "yields (\<lambda>out. coded (Some out)) (if b then ret None else m \<bind> (\<lambda>res.
      ret (case snd res of None \<Rightarrow> None | Some e \<Rightarrow> Some \<lparr>ce_code = CodePluginInstall, ce_err = g e\<rparr>)))"
    for b and m :: "(string \<times> error option) run" and g
    by (auto intro!: yields_intros simp: coded_def split: option.splits)
  show ?thesis
    unfolding ensurePlugin_def Let_def
    by (rule locked | rule yields_bind [OF install] | rule yields_intros | simp add: coded_def)+
qed

text \<open>
  C14: Envelopes are well formed and their checkpoints fit. Whenever a runner reaches a
  decision, for any operation and any behaviour of the CLI, the registry and the file system,
  a failed result has a code and carries no id, state, outputs, checkpoint or schema, a
  successful one has no code, and the engine checkpoint is at most 900 KiB, so the operator
  accepts it again as the prior state of the next component operation.
\<close>

theorem Execute_result_bounds:
  "pred_option (\<lambda>res.
     length (res_EngineState res) \<le> 900 * 1024 \<and>
     engineStateJSON (res_EngineState res) = Inr (res_EngineState res) \<and>
     (if OK res then res_Code res = []
      else res_Code res \<noteq> [] \<and> res_ID res = [] \<and> Outputs res = [] \<and> res_State res = [] \<and>
           res_EngineState res = [] \<and> res_Schema res = []))
   (fst (run_state (Execute n E r op) s))"
proof -
  have run: "yields (pred_option sound_result) (execute_in E r work cache op \<bind> (\<lambda>x. ret (Some x)))" for work cache
    by (rule yields_bind [OF execute_in_sound]) (simp add: yields_def)
  have cache: "yields coded (case x of None \<Rightarrow> ret (Some None) | Some (name, version) \<Rightarrow> ensurePlugin n E r (PluginCache r) name version)"
    for x by (auto simp: coded_def intro!: yields_intros ensurePlugin_coded)
  have kept: "yields (pred_option sound_result) (m \<bind> (\<lambda>res. emit e \<bind> (\<lambda>_. ret res)))"
    if "yields (pred_option sound_result) m" for m and e :: runner_event
    by (rule yields_bind [OF that]) (simp add: yields_def)
  have "yields (pred_option sound_result) (Execute n E r op)"
    unfolding Execute_def
    by (rule run | rule kept | rule yields_bind [OF cache] | rule yields_intros | simp add: coded_def)+
  then have "pred_option sound_result (fst (run_state (Execute n E r op) s))" by (simp add: yields_def)
  then show ?thesis
    by (rule option.pred_mono_strong) (simp add: sound_result_def engineStateJSON_def MaxEngineStateBytes_def)
qed

end
