(* ===== verification/Runner_Refinement.thy ===== *)
theory Runner_Refinement
  imports Job_Safety Exec_Runner Runner_Safety
begin

text \<open>
  The two runners behind the \<open>Runner\<close> interface of \<open>internal/pulumido/runner.go\<close>: a Job
  whose pod runs the \<open>doplane-runner\<close> binary returns what the operation returns in process,
  and both keep the error contract the reconciler acts on.
\<close>

section \<open>Remote execution refines local execution\<close>

text \<open>The runner the binary sets up from its environment.\<close>

definition pod_runner :: "runner_env \<Rightarrow> Runner" where
  "pod_runner PE = \<lparr>PulumiBin = [], BakedPlugins = Getenv PE ''DOPLANE_BAKED_PLUGINS'',
     PluginCache = Getenv PE ''DOPLANE_PLUGIN_CACHE'', LookupEnv = None, redactSecrets = []\<rparr>"

text \<open>An operation after its numbers were read as \<open>float64\<close>.\<close>

definition rounded_op :: "(string \<Rightarrow> string) \<Rightarrow> Op \<Rightarrow> Op" where
  "rounded_op f op = op\<lparr>Properties := floats_obj f (Properties op), op_State := floats_obj f (op_State op)\<rparr>"

lemma resultErr_rounded [simp]: "resultErr (rounded f res) = resultErr res"
  by (simp add: resultErr_def rounded_def Let_def)

lemma run_main_executes:
  assumes "op_ok op" "encode_op op = Inr text" "Getenv PE ''DOPLANE_OP'' = text"
    and "run_state (run_main m PE) s = (Some (0, out), s')"
  shows "\<exists>res t. fst (run_state (Execute m PE (pod_runner PE) (rounded_op (float64 PE) op)) s) = Some res \<and>
           encode_result res = Inr t \<and> out = t @ newline"
proof -
  have "text \<noteq> []" using encode_op_text [OF assms(1)] assms(2) by (auto simp: object_text_def)
  moreover have "decode_op (float64 PE) text = Inr (rounded_op (float64 PE) op)"
    using decode_op_text [OF assms(1)] encode_op_text [OF assms(1)] assms(2) by (simp add: rounded_op_def)
  moreover obtain a s1 where "run_state (Execute m PE (pod_runner PE) (rounded_op (float64 PE) op)) s = (a, s1)" by fastforce
  ultimately show ?thesis
    using assms(3,4) by (auto simp: run_main_def pod_runner_def split: option.splits sum.splits)
qed

lemma envelope_decoded:
  assumes "result_ok res" "whole_lines logs" "encode_result res = Inr t"
  shows "decodeEnvelope f (logs @ t @ newline) = Inr (rounded f res)"
  using envelope_text_roundtrip [OF assms(1,2), of f] encode_result_text [OF assms(1)] assms(3) by simp


text \<open>A pod whose CLI fails, and the read operation it is given.\<close>

definition demo_read :: Op where
  "demo_read = Read_op ''p:m:T'' [] ''i-1''"

definition demo_document :: string where
  "demo_document = object_text (present (op_fields demo_read))"

definition demo_pod :: runner_env where
  "demo_pod = (failing_cli [''error: not found''])\<lparr>os_env := (\<lambda>name. if name = ''DOPLANE_OP'' then Some demo_document else None)\<rparr>"

lemma demo_read_op: "job_op demo_ctx demo_read = demo_read" "op_ok demo_read" "rounded_op f demo_read = demo_read"
  by (simp_all add: job_op_def demo_ctx_def background_def demo_read_def Read_op_def bare_op_def op_ok_def raw_ok_def
      gomap_ok_def rounded_op_def floats_obj_def)

lemma failure_result_ok: "result_ok (failure code msg)"
  by (simp add: result_ok_def failure_def raw_ok_def gomap_ok_def)

definition demo_error :: error where
  "demo_error = suffix_error (Errorf ''exit status 255'')
     ('':'' @ newline @ Truncate (TrimSpace (''error: not found'' @ newline @ [])) 4000)"

lemma demo_gone: "classifyDoFailure demo_error [] = failure CodeNotFound (e_msg demo_error)"
  by code_simp

lemma demo_pod_executes:
  "\<exists>s'. run_state (Execute m demo_pod (pod_runner demo_pod) demo_read) s = (Some (failure CodeNotFound (e_msg demo_error)), s')"
  using demo_gone
  by (simp add: Execute_def execute_in_def prepare_def execute_verb_def executeDo_def run_do_def runIn_def runEnv_def
      io_defs demo_pod_def failing_cli_def pod_runner_def demo_read_def Read_op_def bare_op_def Getenv_def
      applySecretInputs_def redactResult_def guardSecretID_def failure_def Let_def verb_defs VerbTakesSecretInputs_def
      workspace_env_def demo_error_def)


section \<open>The error contract\<close>

text \<open>
  What the reconciler relies on: no error means the operation succeeded, and \<open>ErrNotFound\<close>
  means the provider said so. \<open>trusted\<close> is what the runner in turn relies on.
\<close>

locale runner_contract =
  fixes exec :: "Op \<Rightarrow> ('s, (Result \<times> error option) option) state" and trusted :: bool
  assumes nil_means_done: "yields (pred_option (\<lambda>out. snd out = None \<longrightarrow> OK (fst out))) (exec op)"
    and not_found_means_gone: "trusted \<Longrightarrow>
      yields (pred_option (\<lambda>out. errors_Is (snd out) ErrNotFound \<longrightarrow> \<not> OK (fst out) \<and> res_Code (fst out) = CodeNotFound)) (exec op)"
begin

lemma settled:
  assumes "trusted" "fst (run_state (exec op) s) = Some (res, err)" "err = None \<or> errors_Is err ErrNotFound"
  shows "OK res \<or> \<not> OK res \<and> res_Code res = CodeNotFound"
proof -
  have "err = None \<longrightarrow> OK res" using nil_means_done [of op] assms(2) by (auto simp: yields_def dest: spec [of _ s])
  moreover have "errors_Is err ErrNotFound \<longrightarrow> \<not> OK res \<and> res_Code res = CodeNotFound"
    using not_found_means_gone [OF assms(1), of op] assms(2) by (auto simp: yields_def dest: spec [of _ s])
  ultimately show ?thesis using assms(3) by blast
qed

end

lemma resultErr_None: "resultErr res = None \<longleftrightarrow> OK res"
  by (simp add: resultErr_def Let_def)

text \<open>The only error of the in-process runner's own making.\<close>

definition input_missing :: "error \<Rightarrow> bool" where
  "input_missing e = (\<not> errors_Is (Some e) ErrNotFound \<and>
     (\<exists>c. errors_As_Coded (Some e) = Some c \<and> Code c = CodeSecretInputMissing))"

lemma exec_lookup_error: "exec_lookup r ctx verb = Inl e \<Longrightarrow> input_missing e"
proof -
  have "resolve_inputs resolve ns i ss vals = Inl e \<Longrightarrow> input_missing e" for resolve ns i ss vals
    by (induction ss arbitrary: i vals) (auto simp: input_missing_def split: sum.splits)
  then show "exec_lookup r ctx verb = Inl e \<Longrightarrow> input_missing e"
    by (auto simp: exec_lookup_def input_missing_def split: if_splits option.splits sum.splits)
qed

lemma execute_yields:
  "(\<And>e. input_missing e \<Longrightarrow> P (no_result, Some e)) \<Longrightarrow> (\<And>x. P (x, resultErr x)) \<Longrightarrow>
   yields (pred_option P) (execute n E r ctx op)"
  unfolding execute_def using exec_lookup_error
  by (auto intro!: yields_intros split: sum.split) (auto simp: pred_option_def option.set_map)

interpretation xr: runner_contract "execute n E r ctx" True for n E r ctx
proof
  show "yields (pred_option (\<lambda>out. snd out = None \<longrightarrow> OK (fst out))) (execute n E r ctx op)" for op
    by (rule execute_yields) (simp_all add: resultErr_None)
  show "yields (pred_option (\<lambda>out. errors_Is (snd out) ErrNotFound \<longrightarrow> \<not> OK (fst out) \<and> res_Code (fst out) = CodeNotFound))
          (execute n E r ctx op)" for op
    by (rule execute_yields) (simp_all add: resultErr_not_found input_missing_def)
qed

lemma finish_job_done: "yields (\<lambda>out. snd out = None \<longrightarrow> OK (fst out)) (finish_job E ns name verb v)"
proof -
  have "snd (decoded_job E t) = None \<longrightarrow> OK (fst (decoded_job E t))" for t
    by (simp add: decoded_job_def resultErr_None split: sum.split)
  then show ?thesis unfolding finish_job_def by (cases v) (auto intro!: yields_intros split: sum.split)
qed

interpretation jr: runner_contract "executeOp n E r ctx" "plain_errors E" for n E r ctx
proof
  have finish: "yields (pred_option (\<lambda>out. snd out = None \<longrightarrow> OK (fst out)))
      (finish_job E ns name verb v \<bind> (\<lambda>out. ret (Some out)))" for ns name verb v
    by (rule yields_bind [OF finish_job_done]) (simp add: yields_def)
  show "yields (pred_option (\<lambda>out. snd out = None \<longrightarrow> OK (fst out))) (executeOp n E r ctx op)" for op
    unfolding executeOp_def by (rule finish | rule yields_intros | simp)+
  show "yields (pred_option (\<lambda>out. errors_Is (snd out) ErrNotFound \<longrightarrow> \<not> OK (fst out) \<and> res_Code (fst out) = CodeNotFound))
          (executeOp n E r ctx op)" if "plain_errors E" for op
  proof -
    have "pred_option (\<lambda>out. errors_Is (snd out) ErrNotFound \<longrightarrow> \<not> OK (fst out) \<and> res_Code (fst out) = CodeNotFound)
        (fst (run_state (executeOp n E r ctx op) s))" for s
    proof -
      obtain es where "pred_option (\<lambda>out. op_post E out es) (fst (run_state (executeOp n E r ctx op) s))"
        using executeOp_does [of n E r ctx op] unfolding does_def by blast
      then show ?thesis
        by (rule option.pred_mono_strong) (use that in \<open>auto simp: op_post_def reported_def infra_error_def resultErr_not_found\<close>)
    qed
    then show ?thesis by (simp add: yields_def)
  qed
qed

text \<open>
  Both runners keep the contract finalizers depend on. When the in-process runner or, with
  API errors that carry no sentinel, the Job runner reports a teardown (or any operation) as
  done or as \<open>ErrNotFound\<close>, the runner's own verdict was success or the provider's
  \<open>NotFound\<close>; a lost Job, a failed pod or an undecodable log is never reported that way.
\<close>

theorem runners_settle_on_verdict:
  assumes "plain_errors E"
    and "fst (run_state (executeOp n E r ctx op) s) = Some (res, err)" "err = None \<or> errors_Is err ErrNotFound"
    and "fst (run_state (execute n' E' r' ctx op) s') = Some (res', err')" "err' = None \<or> errors_Is err' ErrNotFound"
  shows "(OK res \<or> \<not> OK res \<and> res_Code res = CodeNotFound) \<and> (OK res' \<or> \<not> OK res' \<and> res_Code res' = CodeNotFound)"
  using jr.settled [OF assms(1-3)] xr.settled [OF TrueI assms(4,5)] by blast

definition demo_exec :: ExecRunner where
  "demo_exec = \<lparr>er_PulumiBin = [], er_Timeout = 0, ResolveSecret = None\<rparr>"

theorem runners_settle_on_verdict_witness:
  "\<exists>res err res' err'.
     fst (run_state (executeOp (Suc 0) (job_demo_env complete_conds gone_log) job_demo_runner demo_ctx demo_read)
       \<lparr>obj = [], trace = []\<rparr>) = Some (res, err) \<and>
     fst (run_state (execute 0 demo_pod demo_exec demo_ctx demo_read) \<lparr>obj = (), trace = []\<rparr>) = Some (res', err') \<and>
     (OK res \<or> \<not> OK res \<and> res_Code res = CodeNotFound) \<and> (OK res' \<or> \<not> OK res' \<and> res_Code res' = CodeNotFound)"
proof -
  let ?E = "job_demo_env complete_conds gone_log" and ?s0 = "\<lparr>obj = (), trace = []\<rparr> :: (unit, runner_event) world"
  let ?gone = "failure CodeNotFound []" and ?gone' = "failure CodeNotFound (e_msg demo_error)"
  have "completes ?E gone_log" by (simp add: completes_def job_demo_env_def complete_conds_def)
  moreover have "decoded_job ?E gone_log = (?gone, resultErr ?gone)"
    using gone_decodes by (simp add: decoded_job_def job_demo_env_def)
  ultimately have job: "fst (run_state (executeOp (Suc 0) ?E job_demo_runner demo_ctx demo_read) \<lparr>obj = [], trace = []\<rparr>) =
      Some (?gone, resultErr ?gone)"
    using executeOp_completes demo_read_op(1,2) encode_op_text by metis
  have "exec_lookup demo_exec demo_ctx (Verb demo_read) = Inr None"
    by (simp add: exec_lookup_def demo_ctx_def background_def)
  moreover have "\<lparr>PulumiBin = er_PulumiBin demo_exec, BakedPlugins = [], PluginCache = [], LookupEnv = None, redactSecrets = []\<rparr> =
      pod_runner demo_pod"
    by (simp add: pod_runner_def demo_exec_def demo_pod_def Getenv_def)
  ultimately have exec: "fst (run_state (execute 0 demo_pod demo_exec demo_ctx demo_read) ?s0) = Some (?gone', resultErr ?gone')"
    using demo_pod_executes [of 0 ?s0] by (auto simp: execute_def demo_read_op(1))
  have gone: "errors_Is (resultErr (failure CodeNotFound msg)) ErrNotFound" for msg
    by (simp add: resultErr_not_found failure_def)
  have "plain_errors ?E" by (simp add: plain_errors_def job_demo_env_def)
  from runners_settle_on_verdict [OF this job disjI2 [OF gone] exec disjI2 [OF gone]] job exec
  show ?thesis by blast
qed

end
