(* ===== verification/Api_Types.thy ===== *)
theory Api_Types
  imports Json
begin

text \<open>
  The custom resources (\<open>api/v1alpha1\<close>) and the parts of Kubernetes' object metadata
  the controllers read and write. A pointer to a JSON document is a \<^typ>\<open>json option\<close>: the
  API server stores parsed documents, so \<open>None\<close> stands for an absent (or empty) one. A
  deletion timestamp only matters as being set or not. Condition transition times and the
  type metadata are left out.
\<close>

section \<open>Object metadata\<close>

record OwnerReference =
  or_Kind :: string
  or_Name :: string
  or_UID :: string
  or_Controller :: bool

record ObjectMeta =
  om_Name :: string
  om_Namespace :: string
  om_UID :: string
  om_Generation :: int
  om_ResourceVersion :: string
  om_Annotations :: "string gomap"
  om_Labels :: "string gomap"
  om_Finalizers :: "string list"
  om_Deleting :: bool
  om_Owners :: "OwnerReference list"

definition blank_meta :: ObjectMeta where
  "blank_meta =
     \<lparr>om_Name = [], om_Namespace = [], om_UID = [], om_Generation = 0, om_ResourceVersion = [],
      om_Annotations = [], om_Labels = [], om_Finalizers = [], om_Deleting = False, om_Owners = []\<rparr>"

datatype ConditionStatus = ConditionTrue | ConditionFalse | ConditionUnknown

record Condition =
  c_Type :: string
  c_Status :: ConditionStatus
  c_Reason :: string
  c_Message :: string
  c_ObservedGeneration :: int

text \<open>An annotation read as Go reads a missing map key: the empty string.\<close>

definition annotation :: "ObjectMeta \<Rightarrow> string \<Rightarrow> string" where
  "annotation m k = (case gomap_get (om_Annotations m) k of None \<Rightarrow> [] | Some v \<Rightarrow> v)"

record Secret =
  sec_meta :: ObjectMeta
  sec_data :: "string gomap"

section \<open>Provider profiles\<close>

record LocalSecretReference =
  lsr_Name :: string

record DoProviderSpec =
  dp_Package :: string
  dp_CredentialsSecretRef :: "LocalSecretReference option"
  dp_CredentialKeys :: "string list"
  dp_AllowedResources :: "string list"
  dp_TypedResources :: "string list"

record ProviderPackageStatus =
  pps_Name :: string
  pps_Version :: string

record ProviderPluginStatus =
  pls_Ready :: bool
  pls_CachePath :: string

record DoProviderStatus =
  dps_Package :: "ProviderPackageStatus option"
  dps_Plugin :: "ProviderPluginStatus option"
  dps_LastSchemaFetchTime :: "nat option"
  dps_Dependents :: int
  dps_ObservedGeneration :: int
  dps_Conditions :: "Condition list"

text \<open>The cluster-scoped profile and its namespaced twin share spec and status.\<close>

record DoProvider =
  prov_meta :: ObjectMeta
  prov_spec :: DoProviderSpec
  prov_status :: DoProviderStatus

type_synonym DoProviderConfig = DoProvider

section \<open>DoResource\<close>

datatype DeletionPolicy = DeletionDelete | DeletionOrphan | DeletionUnset | DeletionOther string

definition ConditionReady :: string where "ConditionReady = ''Ready''"
definition ConditionSynced :: string where "ConditionSynced = ''Synced''"

record SecretKeySelector =
  sks_Name :: string
  sks_Key :: string

record ValueFrom =
  vf_ToPath :: string
  vf_SecretKeyRef :: SecretKeySelector

record ConnectionDetail =
  cd_Name :: string
  cd_FromFieldPath :: string
  cd_Value :: string

definition ProviderKindCluster :: string where "ProviderKindCluster = ''DoProvider''"
definition ProviderKindConfig :: string where "ProviderKindConfig = ''DoProviderConfig''"

record ProviderReference =
  pr_Name :: string
  pr_Kind :: string

record ReferenceSource =
  rs_Name :: string
  rs_FieldPath :: string

record Reference =
  ref_ToPath :: string
  ref_From :: ReferenceSource
  ref_Template :: string

record DoResourceSpec =
  spec_Type :: string
  spec_Package :: string
  spec_ProviderRef :: "ProviderReference option"
  spec_Properties :: "json option"
  spec_DeletionPolicy :: DeletionPolicy
  spec_Protect :: "bool option"
  spec_References :: "Reference list"
  spec_WriteConnectionSecretToRef :: "LocalSecretReference option"
  spec_ConnectionDetails :: "ConnectionDetail list"
  spec_ValuesFrom :: "ValueFrom list"

record DoResourceStatus =
  st_ID :: string
  st_Outputs :: "json option"
  st_ObservedGeneration :: int
  st_AppliedHash :: string
  st_EngineState :: "string option"
  st_Conditions :: "Condition list"

record DoResource =
  meta :: ObjectMeta
  spec :: DoResourceSpec
  status :: DoResourceStatus

section \<open>DoUsage\<close>

record UsageTarget =
  ut_Name :: string

record DoUsageSpec =
  us_Of :: UsageTarget
  us_Reason :: string

record DoUsage =
  usage_meta :: ObjectMeta
  usage_spec :: DoUsageSpec

section \<open>Composites\<close>

text \<open>
  A schema is the part of \<open>JSONSchemaProps\<close> the code walks; the
  validation the API server performs with the rest is not the operator's.
\<close>

datatype JSONSchemaProps = JSONSchemaProps
  (sp_Type: string) (sp_Properties: "(string \<times> JSONSchemaProps) list")
  (sp_AdditionalProperties: "JSONSchemaProps option") (sp_AllowsAdditional: bool)
  (sp_Items: "JSONSchemaProps option") (sp_Required: "string list") (sp_Default: "json option")
  (sp_PreserveUnknown: bool) (sp_Description: string) (sp_MinLength: "int option") (sp_Enum: "json list")

record PrinterColumn =
  pc_Name :: string
  pc_Type :: string
  pc_JSONPath :: string

record CompositeAPI =
  api_Group :: string
  api_Kind :: string
  api_Plural :: string
  api_Version :: string
  api_DeprecatedVersions :: "string list"
  api_ParametersSchema :: "JSONSchemaProps option"
  api_AdditionalPrinterColumns :: "PrinterColumn list"

record CompositeResourceTemplate =
  t_Name :: string
  t_Type :: string
  t_Package :: string
  t_ProviderRef :: "ProviderReference option"
  t_DeletionPolicy :: DeletionPolicy
  t_Properties :: "json option"
  t_ExternalName :: string

record DoCompositeDefinitionSpec =
  cds_Resources :: "CompositeResourceTemplate list"
  cds_Outputs :: "json option"
  cds_API :: "CompositeAPI option"

record TypedAPIVersionStatus =
  tav_Name :: string
  tav_Deprecated :: bool
  tav_Objects :: int

record DoCompositeDefinitionStatus =
  cdst_Composites :: int
  cdst_APIVersions :: "TypedAPIVersionStatus list"
  cdst_Conditions :: "Condition list"

record DoCompositeDefinition =
  def_meta :: ObjectMeta
  def_spec :: DoCompositeDefinitionSpec
  def_status :: DoCompositeDefinitionStatus

record DoCompositeDefinitionRevisionSpec =
  rev_DefinitionName :: string
  rev_Revision :: int
  rev_Definition :: DoCompositeDefinitionSpec

record DoCompositeDefinitionRevision =
  rev_meta :: ObjectMeta
  rev_spec :: DoCompositeDefinitionRevisionSpec

datatype UpdatePolicy = UpdateAutomatic | UpdateManual | UpdateUnset | UpdateOther string

record RevisionReference =
  rr_Name :: string

record DoCompositeSpec =
  comp_Definition :: string
  comp_Parameters :: "json option"
  comp_UpdatePolicy :: UpdatePolicy
  comp_RevisionRef :: "RevisionReference option"

record CompositeResourceStatus =
  crs_Name :: string
  crs_ResourceName :: string
  crs_Ready :: bool
  crs_ID :: string

record DoCompositeStatus =
  comps_Resources :: "CompositeResourceStatus list"
  comps_ReadyResources :: string
  comps_Outputs :: "json option"
  comps_Revision :: string
  comps_ObservedGeneration :: int
  comps_Conditions :: "Condition list"

record DoComposite =
  comp_meta :: ObjectMeta
  comp_spec :: DoCompositeSpec
  comp_status :: DoCompositeStatus

end
