(* ===== verification/Resource_Env.thy ===== *)
theory Resource_Env
  imports Effects Api_Types Op_Context Provider_Schema
begin

text \<open>
  The outside of the DoResource controller: the API server behind the controller-runtime
  client, the event recorder, the schema cache, the runner, and the helper functions of the
  Kubernetes libraries and of Go's hash and duration packages. Everything here is a
  parameter of the controller model; an interaction and its reply become one \<open>event\<close> of
  the trace.
\<close>

datatype reader_kind = LiveReader | CachedReader

record ctrl_result =
  Requeue :: bool
  RequeueAfter :: int

definition no_requeue :: ctrl_result where
  "no_requeue = \<lparr>Requeue = False, RequeueAfter = 0\<rparr>"

type_synonym reconcile_result = "ctrl_result \<times> error option"

datatype event =
    ApiGetResource reader_kind string string "DoResource result"
  | ApiGetProvider string "DoProvider result"
  | ApiGetProviderConfig string string "DoProviderConfig result"
  | ApiListResources string "DoResource list result"
  | ApiListUsages string "DoUsage list result"
  | ApiGetSecretVersion string string "string result"
  | ApiGetSecret string string "Secret result"
  | ApiUpdate DoResource "DoResource result"
  | ApiUpdateStatus DoResource "error option"
  | ApiCreateSecret Secret "error option"
  | ApiUpdateSecret Secret "error option"
  | Recorded string string string
  | SchemaGet op_ctx string string "PackageSchema result"
  | RunCreate op_ctx string string jobj "(string \<times> jobj option) result"
  | RunPatch op_ctx string string string jobj "jobj option result"
  | RunRead op_ctx string string string "jobj option result"
  | RunDelete op_ctx string string string jobj "error option"
  | RunCreateComponent op_ctx string string jobj "(string \<times> jobj option \<times> string) result"
  | RunUpdateComponent op_ctx string string jobj string "(jobj option \<times> string) result"
  | RunDeleteComponent op_ctx string string string "error option"

record env =
  has_live :: bool
  get_resource :: "event list \<Rightarrow> reader_kind \<Rightarrow> string \<Rightarrow> string \<Rightarrow> DoResource result"
  get_provider :: "event list \<Rightarrow> string \<Rightarrow> DoProvider result"
  get_provider_config :: "event list \<Rightarrow> string \<Rightarrow> string \<Rightarrow> DoProviderConfig result"
  list_resources :: "event list \<Rightarrow> string \<Rightarrow> DoResource list result"
  list_usages :: "event list \<Rightarrow> string \<Rightarrow> DoUsage list result"
  get_secret_version :: "event list \<Rightarrow> string \<Rightarrow> string \<Rightarrow> string result"
  get_secret :: "event list \<Rightarrow> string \<Rightarrow> string \<Rightarrow> Secret result"
  update_resource :: "event list \<Rightarrow> DoResource \<Rightarrow> DoResource result"
  update_status :: "event list \<Rightarrow> DoResource \<Rightarrow> error option"
  create_secret :: "event list \<Rightarrow> Secret \<Rightarrow> error option"
  update_secret :: "event list \<Rightarrow> Secret \<Rightarrow> error option"
  schemas_get :: "event list \<Rightarrow> op_ctx \<Rightarrow> string \<Rightarrow> string \<Rightarrow> PackageSchema result"
  runner_Create :: "event list \<Rightarrow> op_ctx \<Rightarrow> string \<Rightarrow> string \<Rightarrow> jobj \<Rightarrow> (string \<times> jobj option) result"
  runner_Patch :: "event list \<Rightarrow> op_ctx \<Rightarrow> string \<Rightarrow> string \<Rightarrow> string \<Rightarrow> jobj \<Rightarrow> jobj option result"
  runner_Read :: "event list \<Rightarrow> op_ctx \<Rightarrow> string \<Rightarrow> string \<Rightarrow> string \<Rightarrow> jobj option result"
  runner_Delete :: "event list \<Rightarrow> op_ctx \<Rightarrow> string \<Rightarrow> string \<Rightarrow> string \<Rightarrow> jobj \<Rightarrow> error option"
  runner_CreateComponent ::
    "event list \<Rightarrow> op_ctx \<Rightarrow> string \<Rightarrow> string \<Rightarrow> jobj \<Rightarrow> (string \<times> jobj option \<times> string) result"
  runner_UpdateComponent ::
    "event list \<Rightarrow> op_ctx \<Rightarrow> string \<Rightarrow> string \<Rightarrow> jobj \<Rightarrow> string \<Rightarrow> (jobj option \<times> string) result"
  runner_DeleteComponent :: "event list \<Rightarrow> op_ctx \<Rightarrow> string \<Rightarrow> string \<Rightarrow> string \<Rightarrow> error option"
  retry_again :: "event list \<Rightarrow> error \<Rightarrow> bool"
  retry_steps :: nat
  SetStatusCondition :: "Condition list \<Rightarrow> Condition \<Rightarrow> Condition list"
  FindStatusCondition :: "Condition list \<Rightarrow> string \<Rightarrow> Condition option"
  ContainsFinalizer :: "ObjectMeta \<Rightarrow> string \<Rightarrow> bool"
  AddFinalizer :: "ObjectMeta \<Rightarrow> string \<Rightarrow> ObjectMeta"
  RemoveFinalizer :: "ObjectMeta \<Rightarrow> string \<Rightarrow> ObjectMeta"
  GetControllerOf :: "ObjectMeta \<Rightarrow> OwnerReference option"
  SetControllerReference :: "ObjectMeta \<Rightarrow> Secret \<Rightarrow> Secret result"
  ParseDuration :: "string \<Rightarrow> int option"
  sha256_hex :: "string \<Rightarrow> string"

type_synonym 'a rec = "(DoResource, event, 'a) action"

section \<open>The interactions\<close>

definition Get_resource :: "env \<Rightarrow> reader_kind \<Rightarrow> string \<Rightarrow> string \<Rightarrow> DoResource result rec" where
  "Get_resource E rd ns name = ask (\<lambda>tr. get_resource E tr rd ns name) (ApiGetResource rd ns name)"

definition List_resources :: "env \<Rightarrow> string \<Rightarrow> DoResource list result rec" where
  "List_resources E ns = ask (\<lambda>tr. list_resources E tr ns) (ApiListResources ns)"

definition List_usages :: "env \<Rightarrow> string \<Rightarrow> DoUsage list result rec" where
  "List_usages E ns = ask (\<lambda>tr. list_usages E tr ns) (ApiListUsages ns)"

text \<open>A successful update also refreshes the caller's copy with the server's reply.\<close>

definition Update_resource :: "env \<Rightarrow> DoResource \<Rightarrow> DoResource result rec" where
  "Update_resource E res = ask (\<lambda>tr. update_resource E tr res) (ApiUpdate res)"

definition Update_status :: "env \<Rightarrow> DoResource \<Rightarrow> error option rec" where
  "Update_status E res = ask (\<lambda>tr. update_status E tr res) (ApiUpdateStatus res)"

definition Eventf :: "string \<Rightarrow> string \<Rightarrow> string \<Rightarrow> unit rec" where
  "Eventf etype reason msg = emit (Recorded etype reason msg)"

definition Schemas_Get :: "env \<Rightarrow> op_ctx \<Rightarrow> string \<Rightarrow> string \<Rightarrow> PackageSchema result rec" where
  "Schemas_Get E ctx pkg token = ask (\<lambda>tr. schemas_get E tr ctx pkg token) (SchemaGet ctx pkg token)"

definition Run_Create :: "env \<Rightarrow> op_ctx \<Rightarrow> string \<Rightarrow> string \<Rightarrow> jobj \<Rightarrow> (string \<times> jobj option) result rec" where
  "Run_Create E ctx token pkg props =
     ask (\<lambda>tr. runner_Create E tr ctx token pkg props) (RunCreate ctx token pkg props)"

definition Run_Patch :: "env \<Rightarrow> op_ctx \<Rightarrow> string \<Rightarrow> string \<Rightarrow> string \<Rightarrow> jobj \<Rightarrow> jobj option result rec" where
  "Run_Patch E ctx token pkg rid props =
     ask (\<lambda>tr. runner_Patch E tr ctx token pkg rid props) (RunPatch ctx token pkg rid props)"

definition Run_Read :: "env \<Rightarrow> op_ctx \<Rightarrow> string \<Rightarrow> string \<Rightarrow> string \<Rightarrow> jobj option result rec" where
  "Run_Read E ctx token pkg rid = ask (\<lambda>tr. runner_Read E tr ctx token pkg rid) (RunRead ctx token pkg rid)"

definition Run_Delete :: "env \<Rightarrow> op_ctx \<Rightarrow> string \<Rightarrow> string \<Rightarrow> string \<Rightarrow> jobj \<Rightarrow> error option rec" where
  "Run_Delete E ctx token pkg rid state =
     ask (\<lambda>tr. runner_Delete E tr ctx token pkg rid state) (RunDelete ctx token pkg rid state)"

definition Run_CreateComponent ::
  "env \<Rightarrow> op_ctx \<Rightarrow> string \<Rightarrow> string \<Rightarrow> jobj \<Rightarrow> (string \<times> jobj option \<times> string) result rec" where
  "Run_CreateComponent E ctx token pkg props =
     ask (\<lambda>tr. runner_CreateComponent E tr ctx token pkg props) (RunCreateComponent ctx token pkg props)"

definition Run_UpdateComponent ::
  "env \<Rightarrow> op_ctx \<Rightarrow> string \<Rightarrow> string \<Rightarrow> jobj \<Rightarrow> string \<Rightarrow> (jobj option \<times> string) result rec" where
  "Run_UpdateComponent E ctx token pkg props st =
     ask (\<lambda>tr. runner_UpdateComponent E tr ctx token pkg props st) (RunUpdateComponent ctx token pkg props st)"

definition Run_DeleteComponent :: "env \<Rightarrow> op_ctx \<Rightarrow> string \<Rightarrow> string \<Rightarrow> string \<Rightarrow> error option rec" where
  "Run_DeleteComponent E ctx token pkg st =
     ask (\<lambda>tr. runner_DeleteComponent E tr ctx token pkg st) (RunDeleteComponent ctx token pkg st)"

lemmas call_defs = Get_resource_def List_resources_def List_usages_def Update_resource_def
  Update_status_def Eventf_def Schemas_Get_def Run_Create_def Run_Patch_def Run_Read_def
  Run_Delete_def Run_CreateComponent_def Run_UpdateComponent_def Run_DeleteComponent_def

section \<open>Classes of interactions\<close>

text \<open>Calls that reach the cloud provider through the runner.\<close>

fun is_run :: "event \<Rightarrow> bool" where
  "is_run (RunCreate _ _ _ _ _) = True"
| "is_run (RunPatch _ _ _ _ _ _) = True"
| "is_run (RunRead _ _ _ _ _) = True"
| "is_run (RunDelete _ _ _ _ _ _) = True"
| "is_run (RunCreateComponent _ _ _ _ _) = True"
| "is_run (RunUpdateComponent _ _ _ _ _ _) = True"
| "is_run (RunDeleteComponent _ _ _ _ _) = True"
| "is_run _ = False"

text \<open>Writes of the object itself other than its status.\<close>

fun is_update :: "event \<Rightarrow> bool" where
  "is_update (ApiUpdate _ _) = True"
| "is_update _ = False"

text \<open>Reads of the API server, the schema cache and the recorder: nothing changes.\<close>

fun is_read :: "event \<Rightarrow> bool" where
  "is_read (ApiGetResource _ _ _ _) = True"
| "is_read (ApiGetProvider _ _) = True"
| "is_read (ApiGetProviderConfig _ _ _) = True"
| "is_read (ApiListResources _ _) = True"
| "is_read (ApiListUsages _ _) = True"
| "is_read (ApiGetSecretVersion _ _ _) = True"
| "is_read (ApiGetSecret _ _ _) = True"
| "is_read (SchemaGet _ _ _ _) = True"
| "is_read (Recorded _ _ _) = True"
| "is_read _ = False"

text \<open>What the bookkeeping of a reconcile may do: reads and status writes.\<close>

fun is_status :: "event \<Rightarrow> bool" where
  "is_status (ApiUpdateStatus _ _) = True"
| "is_status e = is_read e"

lemma read_status: "is_read e \<Longrightarrow> is_status e"
  by (cases e) auto

lemma status_no_run: "is_status e \<Longrightarrow> \<not> is_run e \<and> \<not> is_update e"
  by (cases e) auto

end
