(* ===== verification/Resource_Status.thy ===== *)
theory Resource_Status
  imports Resource_Env
begin

text \<open>
  How a reconcile records its outcome
  (\<open>internal/controller/doresource_controller.go\<close>): conditions, the durable status write
  with conflict retries, failures with their reason, and the small helpers of that file.
  The \<open>*DoResource\<close> a Go function receives is the object of the world; \<open>logf\<close> output is
  left out.
\<close>

section \<open>Helpers\<close>

definition reader :: "env \<Rightarrow> reader_kind" where
  "reader E = (if has_live E then LiveReader else CachedReader)"

definition decode_object :: "json \<Rightarrow> jobj result" where
  "decode_object j = (case j of
       JObj m \<Rightarrow> Inr m
     | JNull \<Rightarrow> Inr []
     | _ \<Rightarrow> Inl (Errorf (''json: cannot unmarshal '' @ go_kind j @
                         '' into Go value of type map[string]interface {}'')))"

definition decodeProperties :: "json option \<Rightarrow> jobj result" where
  "decodeProperties j = (case j of None \<Rightarrow> Inr [] | Some d \<Rightarrow> decode_object d)"

definition schemaPackage :: "string \<Rightarrow> string \<Rightarrow> string" where
  "schemaPackage pkg token = (if pkg \<noteq> [] then pkg else PackageForToken token)"

definition compact :: "string \<Rightarrow> string" where
  "compact s =
     (let t = Join (Fields s) '' '' in if 700 < length t then take 700 t @ ellipsis else t)"

section \<open>Conditions and status\<close>

definition setCondition :: "env \<Rightarrow> DoResource \<Rightarrow> string \<Rightarrow> ConditionStatus \<Rightarrow> string \<Rightarrow> string \<Rightarrow> DoResource" where
  "setCondition E res condType cstatus reason message =
     res\<lparr>status := (status res)\<lparr>st_Conditions :=
       SetStatusCondition E (st_Conditions (status res))
         \<lparr>c_Type = condType, c_Status = cstatus, c_Reason = reason, c_Message = message,
          c_ObservedGeneration = om_Generation (meta res)\<rparr>\<rparr>\<rparr>"

definition set_condition :: "env \<Rightarrow> string \<Rightarrow> ConditionStatus \<Rightarrow> string \<Rightarrow> string \<Rightarrow> unit rec" where
  "set_condition E condType cstatus reason message =
     modify_obj (\<lambda>res. setCondition E res condType cstatus reason message)"

definition persistStatus :: "env \<Rightarrow> error option rec" where
  "persistStatus E =
     do { res \<leftarrow> get_obj;
          retry (retry_again E) (retry_steps E)
            (do { r \<leftarrow> Get_resource E (reader E) (om_Namespace (meta res)) (om_Name (meta res));
                  case r of
                    Inl e \<Rightarrow> ret (IgnoreNotFound (Some e))
                  | Inr latest \<Rightarrow>
                      do { err \<leftarrow> Update_status E (latest\<lparr>status := status res\<rparr>);
                           ret (IgnoreNotFound err) } }) }"

definition markSyncFailed :: "env \<Rightarrow> string \<Rightarrow> error \<Rightarrow> bool \<Rightarrow> reconcile_result rec" where
  "markSyncFailed E reason0 opErr retryOp =
     (let reason = (case errors_As_Coded (Some opErr) of
                      Some coded \<Rightarrow> if Code coded \<noteq> [] then Code coded else reason0
                    | None \<Rightarrow> reason0)
      in do { Eventf ''Warning'' reason (compact (e_msg opErr));
              set_condition E ConditionSynced ConditionFalse reason (compact (e_msg opErr));
              res \<leftarrow> get_obj;
              (if st_ID (status res) = []
               then set_condition E ConditionReady ConditionFalse reason ''external resource not provisioned''
               else ret ());
              err \<leftarrow> persistStatus E;
              case err of
                Some e \<Rightarrow> ret (no_requeue, Some e)
              | None \<Rightarrow> if retryOp then ret (no_requeue, Some opErr) else ret (no_requeue, None) })"

section \<open>Interactions\<close>

lemma emits_calls [emits_intros]:
  "(\<And>r. A (ApiGetResource rd ns name r)) \<Longrightarrow> emits A (Get_resource E rd ns name)"
  "(\<And>r. A (ApiListResources ns r)) \<Longrightarrow> emits A (List_resources E ns)"
  "(\<And>r. A (ApiListUsages ns r)) \<Longrightarrow> emits A (List_usages E ns)"
  "(\<And>r. A (ApiUpdate res r)) \<Longrightarrow> emits A (Update_resource E res)"
  "(\<And>r. A (ApiUpdateStatus res r)) \<Longrightarrow> emits A (Update_status E res)"
  "A (Recorded t reason msg) \<Longrightarrow> emits A (Eventf t reason msg)"
  "(\<And>r. A (SchemaGet ctx pkg token r)) \<Longrightarrow> emits A (Schemas_Get E ctx pkg token)"
  "(\<And>r. A (RunCreate ctx token pkg props r)) \<Longrightarrow> emits A (Run_Create E ctx token pkg props)"
  "(\<And>r. A (RunPatch ctx token pkg rid props r)) \<Longrightarrow> emits A (Run_Patch E ctx token pkg rid props)"
  "(\<And>r. A (RunRead ctx token pkg rid r)) \<Longrightarrow> emits A (Run_Read E ctx token pkg rid)"
  "(\<And>r. A (RunDelete ctx token pkg rid st r)) \<Longrightarrow> emits A (Run_Delete E ctx token pkg rid st)"
  "(\<And>r. A (RunCreateComponent ctx token pkg props r)) \<Longrightarrow> emits A (Run_CreateComponent E ctx token pkg props)"
  "(\<And>r. A (RunUpdateComponent ctx token pkg props es r)) \<Longrightarrow>
     emits A (Run_UpdateComponent E ctx token pkg props es)"
  "(\<And>r. A (RunDeleteComponent ctx token pkg es r)) \<Longrightarrow> emits A (Run_DeleteComponent E ctx token pkg es)"
  by (auto simp: call_defs intro!: emits_intros)

lemma emits_set_condition [emits_intros]: "emits A (set_condition E t cs reason msg)"
  by (simp add: set_condition_def emits_intros)

text \<open>The status bookkeeping reads the object and writes its status, nothing else.\<close>

lemma emits_persistStatus: "emits is_status (persistStatus E)"
  unfolding persistStatus_def by (intro emits_intros; simp)

lemma emits_markSyncFailed: "emits is_status (markSyncFailed E reason err b)"
  unfolding markSyncFailed_def by (intro emits_intros emits_persistStatus; simp)

text \<open>It keeps the object but for its conditions.\<close>

definition same_but_conditions :: "DoResource \<Rightarrow> DoResource \<Rightarrow> bool" where
  "same_but_conditions a b =
     (meta a = meta b \<and> spec a = spec b \<and>
      status a\<lparr>st_Conditions := st_Conditions (status b)\<rparr> = status b)"

lemma same_but_conditions_refl: "reflp same_but_conditions"
  by (simp add: reflp_def same_but_conditions_def)

lemma same_but_conditions_trans: "transp same_but_conditions"
  unfolding transp_def same_but_conditions_def
  by (metis DoResourceStatus.surjective DoResourceStatus.update_convs(6))

lemma changes_calls [changes_intros]:
  "reflp R \<Longrightarrow> changes R (Get_resource E rd ns name)" "reflp R \<Longrightarrow> changes R (List_resources E ns)"
  "reflp R \<Longrightarrow> changes R (List_usages E ns)" "reflp R \<Longrightarrow> changes R (Update_resource E res)"
  "reflp R \<Longrightarrow> changes R (Update_status E res)" "reflp R \<Longrightarrow> changes R (Eventf t reason msg)"
  "reflp R \<Longrightarrow> changes R (Schemas_Get E ctx pkg token)"
  "reflp R \<Longrightarrow> changes R (Run_Create E ctx token pkg props)"
  "reflp R \<Longrightarrow> changes R (Run_Patch E ctx token pkg rid props)"
  "reflp R \<Longrightarrow> changes R (Run_Read E ctx token pkg rid)"
  "reflp R \<Longrightarrow> changes R (Run_Delete E ctx token pkg rid st)"
  by (auto simp: call_defs intro!: changes_intros)

lemma changes_set_condition [changes_intros]: "changes same_but_conditions (set_condition E t cs reason msg)"
  unfolding set_condition_def
  by (rule changes_modify) (simp add: same_but_conditions_def setCondition_def)

lemma changes_persistStatus: "changes (=) (persistStatus E)"
  unfolding persistStatus_def by (intro changes_intros; simp add: reflp_def transp_def)

lemma changes_eq_refl: "reflp R \<Longrightarrow> changes (=) m \<Longrightarrow> changes R m"
  unfolding changes_def by (metis reflpD)

lemma changes_markSyncFailed: "changes same_but_conditions (markSyncFailed E reason err b)"
  unfolding markSyncFailed_def
  by (intro changes_intros changes_eq_refl [OF _ changes_persistStatus]
        same_but_conditions_refl same_but_conditions_trans)

end
