(* ===== verification/Resource_Examples.thy ===== *)
theory Resource_Examples
  imports Resource_Env
begin

text \<open>
  Concrete environments and objects for the witnesses of the controller properties: a
  quiet cluster in which every call fails or finds nothing, to be overridden field by field,
  and plain implementations of the library helpers.
\<close>

definition std_SetStatusCondition :: "Condition list \<Rightarrow> Condition \<Rightarrow> Condition list" where
  "std_SetStatusCondition cs c =
     (if list_ex (\<lambda>d. c_Type d = c_Type c) cs
      then map (\<lambda>d. if c_Type d = c_Type c then c else d) cs else cs @ [c])"

definition std_FindStatusCondition :: "Condition list \<Rightarrow> string \<Rightarrow> Condition option" where
  "std_FindStatusCondition cs t = find (\<lambda>c. c_Type c = t) cs"

definition std_AddFinalizer :: "ObjectMeta \<Rightarrow> string \<Rightarrow> ObjectMeta" where
  "std_AddFinalizer m f = (if f \<in> set (om_Finalizers m) then m else m\<lparr>om_Finalizers := om_Finalizers m @ [f]\<rparr>)"

definition std_RemoveFinalizer :: "ObjectMeta \<Rightarrow> string \<Rightarrow> ObjectMeta" where
  "std_RemoveFinalizer m f = m\<lparr>om_Finalizers := filter (\<lambda>g. g \<noteq> f) (om_Finalizers m)\<rparr>"

definition refused :: error where
  "refused = Errorf ''refused''"

definition quiet_env :: env where
  "quiet_env =
     \<lparr>has_live = True, get_resource = (\<lambda>_ _ _ _. Inl (api_error ApiNotFound ''not found'')),
      get_provider = (\<lambda>_ _. Inl (api_error ApiNotFound ''not found'')),
      get_provider_config = (\<lambda>_ _ _. Inl (api_error ApiNotFound ''not found'')),
      list_resources = (\<lambda>_ _. Inr []), list_usages = (\<lambda>_ _. Inr []),
      get_secret_version = (\<lambda>_ _ _. Inl refused), get_secret = (\<lambda>_ _ _. Inl (api_error ApiNotFound ''not found'')),
      update_resource = (\<lambda>_ res. Inr res), update_status = (\<lambda>_ _. None),
      create_secret = (\<lambda>_ _. None), update_secret = (\<lambda>_ _. None),
      schemas_get = (\<lambda>_ _ _ _. Inl refused), runner_Create = (\<lambda>_ _ _ _ _. Inl refused),
      runner_Patch = (\<lambda>_ _ _ _ _ _. Inl refused), runner_Read = (\<lambda>_ _ _ _ _. Inl refused),
      runner_Delete = (\<lambda>_ _ _ _ _ _. Some refused), runner_CreateComponent = (\<lambda>_ _ _ _ _. Inl refused),
      runner_UpdateComponent = (\<lambda>_ _ _ _ _ _. Inl refused), runner_DeleteComponent = (\<lambda>_ _ _ _ _. Some refused),
      retry_again = (\<lambda>_ e. IsConflict e), retry_steps = 4,
      SetStatusCondition = std_SetStatusCondition, FindStatusCondition = std_FindStatusCondition,
      ContainsFinalizer = (\<lambda>m f. f \<in> set (om_Finalizers m)), AddFinalizer = std_AddFinalizer,
      RemoveFinalizer = std_RemoveFinalizer,
      GetControllerOf = (\<lambda>m. find or_Controller (om_Owners m)),
      SetControllerReference = (\<lambda>m s. Inr (s\<lparr>sec_meta := (sec_meta s)\<lparr>om_Owners :=
         [\<lparr>or_Kind = ''DoResource'', or_Name = om_Name m, or_UID = om_UID m, or_Controller = True\<rparr>]\<rparr>\<rparr>)),
      ParseDuration = (\<lambda>_. None), sha256_hex = (\<lambda>s. s)\<rparr>"

definition blank_spec :: DoResourceSpec where
  "blank_spec =
     \<lparr>spec_Type = ''p:m:T'', spec_Package = ''p@1'', spec_ProviderRef = None, spec_Properties = None,
      spec_DeletionPolicy = DeletionDelete, spec_Protect = None, spec_References = [],
      spec_WriteConnectionSecretToRef = None, spec_ConnectionDetails = [], spec_ValuesFrom = []\<rparr>"

definition blank_status :: DoResourceStatus where
  "blank_status =
     \<lparr>st_ID = [], st_Outputs = None, st_ObservedGeneration = 0, st_AppliedHash = [],
      st_EngineState = None, st_Conditions = []\<rparr>"

definition plain_resource :: "string \<Rightarrow> DoResource" where
  "plain_resource name =
     \<lparr>meta = blank_meta\<lparr>om_Name := name, om_Namespace := ''ns''\<rparr>, spec = blank_spec, status = blank_status\<rparr>"

definition refs_to :: "string list \<Rightarrow> Reference list" where
  "refs_to names = map (\<lambda>n. \<lparr>ref_ToPath = ''x'', ref_From = \<lparr>rs_Name = n, rs_FieldPath = ''status.id''\<rparr>,
                             ref_Template = []\<rparr>) names"

definition with_refs :: "string list \<Rightarrow> DoResource \<Rightarrow> DoResource" where
  "with_refs names res = res\<lparr>spec := (spec res)\<lparr>spec_References := refs_to names\<rparr>\<rparr>"

end
