(* ===== verification/References.thy ===== *)
theory References
  imports Resource_Status Resource_Examples
begin

text \<open>
  The reference graph of DoResources (\<open>internal/controller/references.go\<close>): resolving
  references into properties, cycle detection, and which dependents block a teardown.
\<close>

section \<open>Field paths and templates\<close>

definition fieldPathID :: string where "fieldPathID = ''status.id''"
definition fieldPathOutputs :: string where "fieldPathOutputs = ''status.outputs''"

text \<open>\<open>Inr None\<close> is a value that is not populated yet.\<close>

definition resolveFieldPath :: "DoResource \<Rightarrow> string \<Rightarrow> json option result" where
  "resolveFieldPath src fieldPath =
     (if fieldPath = fieldPathID
      then Inr (if st_ID (status src) \<noteq> [] then Some (JStr (st_ID (status src))) else None)
      else if fieldPath = fieldPathOutputs \<or> HasPrefix fieldPath (fieldPathOutputs @ ''.'') then
        (case st_Outputs (status src) of
           None \<Rightarrow> Inr None
         | Some doc \<Rightarrow>
             (case decode_object doc of
                Inl e \<Rightarrow> Inl (wrap_error (''source '' @ Quote (om_Name (meta src)) @
                                         '' has unparseable outputs: '') e)
              | Inr outputs \<Rightarrow>
                  if fieldPath = fieldPathOutputs then Inr (Some (JObj outputs))
                  else Inr (GetPath (JObj outputs) (TrimPrefix fieldPath (fieldPathOutputs @ ''.'')))))
      else Inl (Errorf (''fieldPath '' @ Quote fieldPath @ '' must be '' @ [CHR 0x22] @ ''status.id'' @
                        [CHR 0x22] @ '' or start with '' @ [CHR 0x22] @ ''status.outputs.'' @ [CHR 0x22])))"

definition literalMark :: string where
  "literalMark = [CHR 0x00] @ ''DOPLANE_LITERAL'' @ [CHR 0x00]"

definition expandTemplate :: "string \<Rightarrow> string \<Rightarrow> string" where
  "expandTemplate tpl rendered =
     (let out = ReplaceAll tpl ''$${value}'' literalMark;
          out = ReplaceAll out ''${value}'' rendered
      in ReplaceAll out literalMark ''${value}'')"

text \<open>\<open>strings.IndexAny(rest, ".[")\<close> and the slice before it.\<close>

definition first_segment :: "string \<Rightarrow> string" where
  "first_segment rest =
     (let before = takeWhile (\<lambda>c. c \<noteq> CHR ''.'' \<and> c \<noteq> CHR ''['') rest in
      if before \<noteq> [] \<and> length before < length rest then before else rest)"

definition checkOutputPath :: "env \<Rightarrow> op_ctx \<Rightarrow> DoResource \<Rightarrow> string \<Rightarrow> error option rec" where
  "checkOutputPath E ctx src fieldPath =
     (case CutPrefix fieldPath ''status.outputs.'' of (rest, isOutput) \<Rightarrow>
        if \<not> isOutput \<or> rest = [] then ret None
        else do {
          sr \<leftarrow> Schemas_Get E ctx (schemaPackage (spec_Package (spec src)) (spec_Type (spec src)))
                            (spec_Type (spec src));
          case sr of
            Inl _ \<Rightarrow> ret None
          | Inr schema \<Rightarrow>
              (let outputs = (case gomap_get (Resources schema) (spec_Type (spec src)) of
                                None \<Rightarrow> [] | Some r \<Rightarrow> rs_Outputs r);
                   first = first_segment rest
               in if outputs = [] then ret None
                  else if first = ''id'' then ret None
                  else if gomap_get outputs first = None then
                    ret (Some (Errorf (''fieldPath '' @ Quote fieldPath @ '': output property '' @ Quote first @
                       '' does not exist in the schema of '' @ spec_Type (spec src) @ '' ('' @
                       ps_Name schema @ ''@'' @ ps_Version schema @ '')'')))
                  else ret None) })"

section \<open>Resolution\<close>

primrec resolve_refs ::
  "env \<Rightarrow> op_ctx \<Rightarrow> string \<Rightarrow> Reference list \<Rightarrow> nat \<Rightarrow> jobj \<Rightarrow> string list \<Rightarrow> (jobj \<times> string list result) rec"
where
  "resolve_refs E ctx ns [] i props waiting = ret (props, Inr waiting)"
| "resolve_refs E ctx ns (ref # refs) i props waiting =
     do { r \<leftarrow> Get_resource E (reader E) ns (rs_Name (ref_From ref));
          case r of
            Inl e \<Rightarrow>
              if IsNotFound e then
                resolve_refs E ctx ns refs (Suc i) props
                  (waiting @ [rs_Name (ref_From ref) @ '' (object not found)''])
              else ret (props, Inl (wrap_error (''reading reference source '' @
                                      Quote (rs_Name (ref_From ref)) @ '': '') e))
          | Inr src \<Rightarrow>
              (case resolveFieldPath src (rs_FieldPath (ref_From ref)) of
                 Inl e \<Rightarrow> ret (props, Inl (wrap_error (''references['' @ show_nat i @ '']: '') e))
               | Inr None \<Rightarrow>
                   do { cerr \<leftarrow> checkOutputPath E ctx src (rs_FieldPath (ref_From ref));
                        case cerr of
                          Some e \<Rightarrow> ret (props, Inl (wrap_error (''references['' @ show_nat i @ '']: '') e))
                        | None \<Rightarrow>
                            resolve_refs E ctx ns refs (Suc i) props
                              (waiting @ [rs_Name (ref_From ref) @ '' ('' @ rs_FieldPath (ref_From ref) @
                                          '' not yet available)'']) }
               | Inr (Some v) \<Rightarrow>
                   (let value = (if ref_Template ref \<noteq> [] then JStr (expandTemplate (ref_Template ref) (RenderScalar v))
                                 else v)
                    in case SetPath props (ref_ToPath ref) value of
                         (props', Some e) \<Rightarrow>
                           ret (props', Inl (wrap_error (''references['' @ show_nat i @ '']: setting '' @
                                              Quote (ref_ToPath ref) @ '': '') e))
                       | (props', None) \<Rightarrow> resolve_refs E ctx ns refs (Suc i) props' waiting)) }"

definition resolveReferences :: "env \<Rightarrow> op_ctx \<Rightarrow> jobj \<Rightarrow> (jobj \<times> string list result) rec" where
  "resolveReferences E ctx props =
     do { res \<leftarrow> get_obj;
          resolve_refs E ctx (om_Namespace (meta res)) (spec_References (spec res)) 0 props [] }"

section \<open>Cycle detection\<close>

text \<open>
  The closure \<open>walk\<close> of \<open>detectCycle\<close>, with its shared \<open>visited\<close> set passed along. The first
  argument is what is left of the path length bound: \<open>walk\<close> gives up when the path has
  more than 32 names.
\<close>

fun walk_refs ::
  "(string \<Rightarrow> string list \<Rightarrow> string list \<Rightarrow> (string option \<times> string list) rec) \<Rightarrow> string \<Rightarrow> string \<Rightarrow>
   string list \<Rightarrow> string list \<Rightarrow> Reference list \<Rightarrow> (string option \<times> string list) rec"
where
  "walk_refs w self name path visited [] = ret (None, visited)"
| "walk_refs w self name path visited (ref # refs) =
     (let nxt = rs_Name (ref_From ref) in
      if nxt = self then ret (Some (Join (path @ [name, nxt]) '' -> ''), visited)
      else if nxt \<in> set visited then walk_refs w self name path visited refs
      else do {
        r \<leftarrow> w nxt (path @ [name]) (nxt # visited);
        case r of (found, visited') \<Rightarrow>
          (case found of
             Some cycle \<Rightarrow> ret (Some cycle, visited')
           | None \<Rightarrow> walk_refs w self name path visited' refs) })"

primrec walk ::
  "env \<Rightarrow> string \<Rightarrow> string \<Rightarrow> nat \<Rightarrow> string \<Rightarrow> string list \<Rightarrow> string list \<Rightarrow> (string option \<times> string list) rec"
where
  "walk E ns self 0 = (\<lambda>name path visited. ret (None, visited))"
| "walk E ns self (Suc n) = (\<lambda>name path visited.
     do { r \<leftarrow> Get_resource E CachedReader ns name;
          case r of
            Inl _ \<Rightarrow> ret (None, visited)
          | Inr cur \<Rightarrow> walk_refs (walk E ns self n) self name path visited (spec_References (spec cur)) })"

definition detectCycle :: "env \<Rightarrow> string option rec" where
  "detectCycle E =
     do { res \<leftarrow> get_obj;
          r \<leftarrow> walk E (om_Namespace (meta res)) (om_Name (meta res)) 33 (om_Name (meta res)) [] [];
          ret (fst r) }"

section \<open>Reachability and blocking dependents\<close>

text \<open>The search of \<open>reaches\<close>: every round visits a new name or shortens the queue.\<close>

fun reaches_loop :: "env \<Rightarrow> string \<Rightarrow> string \<Rightarrow> nat \<Rightarrow> string list \<Rightarrow> string list \<Rightarrow> bool rec" where
  "reaches_loop E ns target 0 visited queue = ret False"
| "reaches_loop E ns target (Suc n) visited [] = ret False"
| "reaches_loop E ns target (Suc n) visited (name # queue) =
     (if 64 \<le> length visited then ret False
      else if name = target then ret True
      else if name \<in> set visited then reaches_loop E ns target (Suc n) visited queue
      else do {
        r \<leftarrow> Get_resource E CachedReader ns name;
        case r of
          Inl _ \<Rightarrow> reaches_loop E ns target n (name # visited) queue
        | Inr cur \<Rightarrow>
            reaches_loop E ns target n (name # visited)
              (queue @ map (\<lambda>ref. rs_Name (ref_From ref)) (spec_References (spec cur))) })"

definition reaches :: "env \<Rightarrow> DoResource \<Rightarrow> string \<Rightarrow> bool rec" where
  "reaches E res target =
     reaches_loop E (om_Namespace (meta res)) target 64 [om_Name (meta res)]
       (map (\<lambda>ref. rs_Name (ref_From ref)) (spec_References (spec res)))"

definition references_name :: "DoResource \<Rightarrow> string \<Rightarrow> bool" where
  "references_name item name = list_ex (\<lambda>ref. rs_Name (ref_From ref) = name) (spec_References (spec item))"

definition dependentsOf :: "env \<Rightarrow> DoResource \<Rightarrow> string list result rec" where
  "dependentsOf E res =
     do { r \<leftarrow> List_resources E (om_Namespace (meta res));
          case r of
            Inl e \<Rightarrow> ret (Inl e)
          | Inr items \<Rightarrow>
              ret (Inr (map (\<lambda>item. om_Name (meta item))
                    (filter (\<lambda>item. om_Name (meta item) \<noteq> om_Name (meta res) \<and>
                                    references_name item (om_Name (meta res))) items))) }"

definition usage_entry :: "DoUsage \<Rightarrow> string" where
  "usage_entry u =
     (if us_Reason (usage_spec u) \<noteq> []
      then ''usage '' @ Quote (om_Name (usage_meta u)) @ '' ('' @ us_Reason (usage_spec u) @ '')''
      else ''usage '' @ Quote (om_Name (usage_meta u)))"

definition blockingUsages :: "env \<Rightarrow> DoResource \<Rightarrow> string list result rec" where
  "blockingUsages E res =
     do { r \<leftarrow> List_usages E (om_Namespace (meta res));
          case r of
            Inl e \<Rightarrow> ret (Inl e)
          | Inr items \<Rightarrow>
              ret (Inr (map usage_entry
                    (filter (\<lambda>u. ut_Name (us_Of (usage_spec u)) = om_Name (meta res) \<and>
                                 \<not> om_Deleting (usage_meta u)) items))) }"

primrec blocking_loop :: "env \<Rightarrow> DoResource \<Rightarrow> string list \<Rightarrow> string list \<Rightarrow> string list rec" where
  "blocking_loop E res [] blocking = ret blocking"
| "blocking_loop E res (name # deps) blocking =
     do { r \<leftarrow> Get_resource E CachedReader (om_Namespace (meta res)) name;
          case r of
            Inl _ \<Rightarrow> blocking_loop E res deps blocking
          | Inr dep \<Rightarrow>
              if om_Deleting (meta dep) then
                (if st_ID (status dep) = [] then blocking_loop E res deps blocking
                 else do { b \<leftarrow> reaches E res (om_Name (meta dep));
                           if b \<and> om_Name (meta dep) < om_Name (meta res)
                           then blocking_loop E res deps blocking
                           else blocking_loop E res deps (blocking @ [name]) })
              else blocking_loop E res deps (blocking @ [name]) }"

definition blockingDependents :: "env \<Rightarrow> string list result rec" where
  "blockingDependents E =
     do { res \<leftarrow> get_obj;
          dr \<leftarrow> dependentsOf E res;
          case dr of
            Inl e \<Rightarrow> ret (Inl e)
          | Inr deps \<Rightarrow>
              do { ur \<leftarrow> blockingUsages E res;
                   case ur of
                     Inl e \<Rightarrow> ret (Inl e)
                   | Inr usages \<Rightarrow>
                       do { b \<leftarrow> blocking_loop E res deps usages; ret (Inr b) } } }"

definition mapUsageTarget :: "DoUsage \<Rightarrow> (string \<times> string) list" where
  "mapUsageTarget u =
     (if ut_Name (us_Of (usage_spec u)) = [] then []
      else [(om_Namespace (usage_meta u), ut_Name (us_Of (usage_spec u)))])"

definition hashProps :: "env \<Rightarrow> jobj \<Rightarrow> string" where
  "hashProps E props = take 16 (sha256_hex E (marshal (JObj props)))"

section \<open>The reference phase\<close>

definition applyReferences :: "env \<Rightarrow> op_ctx \<Rightarrow> jobj \<Rightarrow> (jobj \<times> reconcile_result option) rec" where
  "applyReferences E ctx props =
     do { res \<leftarrow> get_obj;
          if spec_References (spec res) = [] then ret (props, None)
          else do {
            cyc \<leftarrow> detectCycle E;
            case cyc of
              Some cycle \<Rightarrow>
                do { r \<leftarrow> markSyncFailed E ''CyclicReference''
                            (Errorf (''reference cycle detected: '' @ cycle)) False;
                     ret (props, Some r) }
            | None \<Rightarrow>
                do { rr \<leftarrow> resolveReferences E ctx props;
                     case rr of (props', resolved) \<Rightarrow>
                       (case resolved of
                          Inl refErr \<Rightarrow>
                            do { r \<leftarrow> markSyncFailed E ''InvalidReferences'' refErr False;
                                 ret (props', Some r) }
                        | Inr waiting \<Rightarrow>
                            if waiting \<noteq> [] then
                              do { set_condition E ConditionReady ConditionFalse ''WaitingForDependency''
                                     (''waiting for: '' @ Join waiting ''; '');
                                   err \<leftarrow> persistStatus E;
                                   (case err of
                                      Some e \<Rightarrow> ret (props', Some (no_requeue, Some e))
                                    | None \<Rightarrow> ret (props', Some (no_requeue\<lparr>RequeueAfter := 60 * 10 ^ 9\<rparr>, None))) }
                            else ret (props', None)) } } }"

section \<open>The searches on a fixed graph\<close>

text \<open>
  With the objects of the namespace held fixed, both searches are functions of the graph
  \<open>succs\<close> of referenced names. A name without an object has no successors.
\<close>

type_synonym graph = "string \<Rightarrow> string list"

definition edges :: "graph \<Rightarrow> (string \<times> string) set" where
  "edges succs = {(x, y). y \<in> set (succs x)}"

definition ref_names :: "DoResource \<Rightarrow> string list" where
  "ref_names res = map (\<lambda>ref. rs_Name (ref_From ref)) (spec_References (spec res))"

definition succs_of :: "(string \<Rightarrow> DoResource result) \<Rightarrow> graph" where
  "succs_of store name = (case store name of Inl _ \<Rightarrow> [] | Inr r \<Rightarrow> ref_names r)"

definition fixed_store :: "env \<Rightarrow> string \<Rightarrow> (string \<Rightarrow> DoResource result) \<Rightarrow> bool" where
  "fixed_store E ns store = (\<forall>tr name. get_resource E tr CachedReader ns name = store name)"

fun dfs_refs ::
  "(string \<Rightarrow> string list \<Rightarrow> string list \<Rightarrow> string option \<times> string list) \<Rightarrow> string \<Rightarrow> string \<Rightarrow>
   string list \<Rightarrow> string list \<Rightarrow> string list \<Rightarrow> string option \<times> string list"
where
  "dfs_refs w self name path visited [] = (None, visited)"
| "dfs_refs w self name path visited (y # ys) =
     (if y = self then (Some (Join (path @ [name, y]) '' -> ''), visited)
      else if y \<in> set visited then dfs_refs w self name path visited ys
      else case w y (path @ [name]) (y # visited) of
          (Some c, v) \<Rightarrow> (Some c, v)
        | (None, v) \<Rightarrow> dfs_refs w self name path v ys)"

primrec dfs :: "graph \<Rightarrow> string \<Rightarrow> nat \<Rightarrow> string \<Rightarrow> string list \<Rightarrow> string list \<Rightarrow> string option \<times> string list"
where
  "dfs succs self 0 = (\<lambda>name path visited. (None, visited))"
| "dfs succs self (Suc n) =
     (\<lambda>name path visited. dfs_refs (dfs succs self n) self name path visited (succs name))"

lemma walk_refs_dfs:
  assumes "\<And>name path visited s. fst (run_state (w name path visited) s) = D name path visited"
  shows "fst (run_state (walk_refs w self name path visited refs) s) =
         dfs_refs D self name path visited (map (\<lambda>ref. rs_Name (ref_From ref)) refs)"
proof (induction refs arbitrary: visited s)
  case (Cons ref refs)
  let ?y = "rs_Name (ref_From ref)"
  show ?case
  proof (cases "?y = self \<or> ?y \<in> set visited")
    case False
    obtain a s1 where r: "run_state (w ?y (path @ [name]) (?y # visited)) s = (a, s1)" by fastforce
    then have "a = D ?y (path @ [name]) (?y # visited)" using assms by (metis fst_conv)
    with r False Cons.IH show ?thesis
      by (cases a) (auto simp: Let_def split: option.split prod.split)
  qed (use Cons.IH in auto)
qed simp

lemma succs_of_Inr: "store name = Inr cur \<Longrightarrow> succs_of store name = ref_names cur"
  by (simp add: succs_of_def)

lemma succs_of_Inl: "store name = Inl e \<Longrightarrow> succs_of store name = []"
  by (simp add: succs_of_def)

lemma walk_dfs:
  assumes "fixed_store E ns store"
  shows "fst (run_state (walk E ns self n name path visited) s) = dfs (succs_of store) self n name path visited"
proof (induction n arbitrary: name path visited s)
  case (Suc n)
  have r: "run_state (Get_resource E CachedReader ns name) s =
      (store name, s\<lparr>trace := trace s @ [ApiGetResource CachedReader ns name (store name)]\<rparr>)"
    using assms by (simp add: call_defs fixed_store_def)
  show ?case
  proof (cases "store name")
    case (Inr cur)
    then show ?thesis
      using walk_refs_dfs [of "walk E ns self n" "dfs (succs_of store) self n", OF Suc]
      by (simp add: r succs_of_Inr ref_names_def)
  qed (simp add: r succs_of_Inl)
qed simp

text \<open>A reported cycle is a path of the graph from the object back to itself.\<close>

lemma dfs_refs_sound:
  assumes "\<And>y path visited c v. D y path visited = (Some c, v) \<Longrightarrow> successively (\<lambda>x y. y \<in> set (succs x)) (path @ [y]) \<Longrightarrow>
      \<exists>mid. c = Join (path @ y # mid @ [self]) '' -> '' \<and> successively (\<lambda>x y. y \<in> set (succs x)) (path @ y # mid @ [self])"
    and "dfs_refs D self name path visited ys = (Some c, v)"
    and "successively (\<lambda>x y. y \<in> set (succs x)) (path @ [name])" "set ys \<subseteq> set (succs name)"
  shows "\<exists>mid. c = Join (path @ name # mid @ [self]) '' -> '' \<and>
               successively (\<lambda>x y. y \<in> set (succs x)) (path @ name # mid @ [self])"
  using assms(2,4)
proof (induction ys arbitrary: visited)
  case (Cons y ys)
  show ?case
  proof (cases "y = self")
    case True
    with Cons.prems assms(3) show ?thesis
      by (intro exI [of _ "[]"]) (auto simp: successively_append_iff)
  next
    case False
    show ?thesis
    proof (cases "y \<in> set visited")
      case True
      with False Cons show ?thesis by auto
    next
      case nv: False
      obtain found v1 where d: "D y (path @ [name]) (y # visited) = (found, v1)" by fastforce
      show ?thesis
      proof (cases found)
        case (Some c1)
        have "successively (\<lambda>x y. y \<in> set (succs x)) ((path @ [name]) @ [y])"
          using assms(3) Cons.prems(2) by (auto simp: successively_append_iff)
        from assms(1) [OF d [unfolded Some] this] obtain mid where
          "c1 = Join ((path @ [name]) @ y # mid @ [self]) '' -> ''"
          "successively (\<lambda>x y. y \<in> set (succs x)) ((path @ [name]) @ y # mid @ [self])" by blast
        moreover have "c = c1" using Some d False nv Cons.prems by simp
        ultimately show ?thesis by (intro exI [of _ "y # mid"]) simp
      next
        case None
        with d False nv Cons.prems have "dfs_refs D self name path v1 ys = (Some c, v)" by simp
        with Cons.IH Cons.prems(2) show ?thesis by simp
      qed
    qed
  qed
qed simp

lemma dfs_sound:
  "dfs succs self n name path visited = (Some c, v) \<Longrightarrow>
   successively (\<lambda>x y. y \<in> set (succs x)) (path @ [name]) \<Longrightarrow>
   \<exists>mid. c = Join (path @ name # mid @ [self]) '' -> '' \<and>
         successively (\<lambda>x y. y \<in> set (succs x)) (path @ name # mid @ [self])"
proof (induction n arbitrary: name path visited c v)
  case (Suc n)
  from Suc.prems(1) have "dfs_refs (dfs succs self n) self name path visited (succs name) = (Some c, v)" by simp
  from dfs_refs_sound [OF Suc.IH this Suc.prems(2)] show ?case by simp
qed simp

text \<open>A silent search has closed off what it visited, as long as the bound is not hit.\<close>

definition closed_off :: "graph \<Rightarrow> string \<Rightarrow> string set \<Rightarrow> string set \<Rightarrow> bool" where
  "closed_off succs self X V = (\<forall>x \<in> X. \<forall>y \<in> set (succs x). y \<noteq> self \<and> y \<in> V)"

lemma dfs_refs_complete:
  assumes D: "\<And>y path visited v. D y path visited = (None, v) \<Longrightarrow> y \<in> U \<Longrightarrow> set visited \<subseteq> U \<Longrightarrow>
        card (U - set visited) < n \<Longrightarrow>
        set visited \<subseteq> set v \<and> set v \<subseteq> U \<and> closed_off succs self (insert y (set v - set visited)) (set v)"
    and fin: "finite U"
    and "dfs_refs D self name path visited ys = (None, v)" "set ys \<subseteq> U" "set visited \<subseteq> U"
    and "card (U - set visited) < Suc n"
  shows "set visited \<subseteq> set v \<and> set v \<subseteq> U \<and> closed_off succs self (set v - set visited) (set v) \<and>
         (\<forall>y \<in> set ys. y \<noteq> self \<and> y \<in> set v)"
  using assms(3-)
proof (induction ys arbitrary: visited)
  case (Cons y ys)
  have "y \<noteq> self" using Cons.prems(1) by auto
  show ?case
  proof (cases "y \<in> set visited")
    case True
    with \<open>y \<noteq> self\<close> Cons show ?thesis by auto
  next
    case False
    obtain found v1 where d: "D y (path @ [name]) (y # visited) = (found, v1)" by fastforce
    with \<open>y \<noteq> self\<close> False Cons.prems(1) have fn: "found = None"
      and rest: "dfs_refs D self name path v1 ys = (None, v)" by (auto split: option.splits)
    have yU: "y \<in> U" "set (y # visited) \<subseteq> U" using Cons.prems by auto
    have "U - set (y # visited) \<subset> U - set visited" using False yU by auto
    then have "card (U - set (y # visited)) < card (U - set visited)"
      using fin by (intro psubset_card_mono) auto
    with Cons.prems(4) have "card (U - set (y # visited)) < n" by simp
    from D [OF d [unfolded fn] yU this] have one: "set (y # visited) \<subseteq> set v1" "set v1 \<subseteq> U"
      "closed_off succs self (insert y (set v1 - set (y # visited))) (set v1)" by auto
    have "card (U - set v1) \<le> card (U - set visited)"
      using fin one by (intro card_mono) auto
    with Cons.IH [OF rest _ one(2)] Cons.prems have two: "set v1 \<subseteq> set v" "set v \<subseteq> U"
      "closed_off succs self (set v - set v1) (set v)" "\<forall>y \<in> set ys. y \<noteq> self \<and> y \<in> set v" by auto
    have "closed_off succs self (set v - set visited) (set v)"
      unfolding closed_off_def
    proof (intro ballI)
      fix x z
      assume x: "x \<in> set v - set visited" and z: "z \<in> set (succs x)"
      show "z \<noteq> self \<and> z \<in> set v"
      proof (cases "x \<in> set v1")
        case True
        with x have "x \<in> insert y (set v1 - set (y # visited))" by auto
        with one(3) z two(1) show ?thesis unfolding closed_off_def by blast
      next
        case False
        with x z two(3) show ?thesis unfolding closed_off_def by blast
      qed
    qed
    with one two \<open>y \<noteq> self\<close> show ?thesis by auto
  qed
qed (auto simp: closed_off_def)

lemma dfs_complete:
  assumes "finite U" "\<forall>x \<in> U. set (succs x) \<subseteq> U"
  shows "dfs succs self n name path visited = (None, v) \<Longrightarrow> set (succs name) \<subseteq> U \<Longrightarrow> set visited \<subseteq> U \<Longrightarrow>
    card (U - set visited) < n \<Longrightarrow>
    set visited \<subseteq> set v \<and> set v \<subseteq> U \<and> closed_off succs self (insert name (set v - set visited)) (set v)"
proof (induction n arbitrary: name path visited v)
  case (Suc n)
  have "set visited \<subseteq> set v \<and> set v \<subseteq> U \<and> closed_off succs self (set v - set visited) (set v) \<and>
        (\<forall>y \<in> set (succs name). y \<noteq> self \<and> y \<in> set v)"
    by (rule dfs_refs_complete [where n = n and D = "dfs succs self n"])
       (use Suc assms in auto)
  then show ?case by (auto simp: closed_off_def)
qed simp

lemma closed_off_no_cycle:
  assumes "closed_off succs self (insert self V) V"
  shows "(self, self) \<notin> (edges succs)\<^sup>+"
proof
  assume "(self, self) \<in> (edges succs)\<^sup>+"
  moreover have "(self, y) \<in> (edges succs)\<^sup>+ \<Longrightarrow> y \<in> V \<and> y \<noteq> self" for y
    by (induction rule: trancl_induct)
       (use assms in \<open>auto simp: closed_off_def edges_def\<close>)
  ultimately show False by blast
qed

lemma successively_trancl:
  "successively (\<lambda>x y. y \<in> set (succs x)) (x # mid @ [y]) \<Longrightarrow> (x, y) \<in> (edges succs)\<^sup>+"
proof (induction mid arbitrary: x)
  case (Cons m mid)
  then have "(x, m) \<in> edges succs" by (auto simp: edges_def)
  with Cons show ?case by (auto intro: trancl_into_trancl2)
qed (auto simp: edges_def)

text \<open>
  C33: With the namespace held fixed and at most 32 names reachable, \<open>detectCycle\<close> reports a
  cycle exactly when the object can reach itself through references, and what it reports is
  such a path, from the object back to itself.
\<close>

theorem detectCycle_correct:
  assumes "fixed_store E (om_Namespace (meta (obj s))) store"
    and "finite U" "card U \<le> 32" "set (succs_of store (om_Name (meta (obj s)))) \<subseteq> U"
    and "\<forall>x \<in> U. set (succs_of store x) \<subseteq> U"
  shows "(fst (run_state (detectCycle E) s) \<noteq> None \<longleftrightarrow>
            (om_Name (meta (obj s)), om_Name (meta (obj s))) \<in> (edges (succs_of store))\<^sup>+) \<and>
         (\<forall>c. fst (run_state (detectCycle E) s) = Some c \<longrightarrow>
            (\<exists>mid. c = Join (om_Name (meta (obj s)) # mid @ [om_Name (meta (obj s))]) '' -> '' \<and>
                   successively (\<lambda>x y. y \<in> set (succs_of store x))
                     (om_Name (meta (obj s)) # mid @ [om_Name (meta (obj s))])))"
proof -
  let ?self = "om_Name (meta (obj s))" and ?succs = "succs_of store"
  obtain found v where d: "dfs ?succs ?self 33 ?self [] [] = (found, v)" by fastforce
  have r: "fst (run_state (detectCycle E) s) = found"
    using walk_dfs [OF assms(1), of ?self 33 ?self "[]" "[]" s] d
    by (auto simp: detectCycle_def split: prod.splits)
  have sound: "\<exists>mid. c = Join (?self # mid @ [?self]) '' -> '' \<and>
      successively (\<lambda>x y. y \<in> set (?succs x)) (?self # mid @ [?self])" if "found = Some c" for c
    using dfs_sound [of ?succs ?self 33 ?self "[]" "[]" c v] d that by simp
  have "(?self, ?self) \<notin> (edges ?succs)\<^sup>+" if "found = None"
  proof -
    have "closed_off ?succs ?self (insert ?self (set v - set [])) (set v)"
      using dfs_complete [OF assms(2,5), of ?self 33 ?self "[]" "[]" v] d that assms(3,4) by simp
    then show ?thesis using closed_off_no_cycle [of ?succs ?self "set v"] by simp
  qed
  with sound r show ?thesis by (metis option.exhaust successively_trancl)
qed

definition two_cycle_store :: "string \<Rightarrow> DoResource result" where
  "two_cycle_store name =
     (if name = ''a'' then Inr (with_refs [''b''] (plain_resource ''a''))
      else if name = ''b'' then Inr (with_refs [''a''] (plain_resource ''b''))
      else Inl (api_error ApiNotFound ''not found''))"

theorem detectCycle_correct_witness:
  "fst (run_state (detectCycle (quiet_env\<lparr>get_resource := (\<lambda>_ _ _ name. two_cycle_store name)\<rparr>))
        \<lparr>obj = with_refs [''b''] (plain_resource ''a''), trace = []\<rparr>) \<noteq> None"
proof -
  let ?E = "quiet_env\<lparr>get_resource := (\<lambda>_ _ _ name. two_cycle_store name)\<rparr>"
  let ?s = "\<lparr>obj = with_refs [''b''] (plain_resource ''a''), trace = ([] :: event list)\<rparr>"
  have succs: "succs_of two_cycle_store ''a'' = [''b'']" "succs_of two_cycle_store ''b'' = [''a'']"
    by (simp_all add: succs_of_def ref_names_def two_cycle_store_def with_refs_def refs_to_def)
  have name: "om_Name (meta (obj ?s)) = ''a''"
    by (simp add: with_refs_def plain_resource_def)
  have "(''a'', ''b'') \<in> edges (succs_of two_cycle_store)" "(''b'', ''a'') \<in> edges (succs_of two_cycle_store)"
    by (simp_all add: edges_def succs)
  then have cyc: "(''a'', ''a'') \<in> (edges (succs_of two_cycle_store))\<^sup>+" by (meson trancl.simps)
  have "fst (run_state (detectCycle ?E) ?s) \<noteq> None \<longleftrightarrow>
        (om_Name (meta (obj ?s)), om_Name (meta (obj ?s))) \<in> (edges (succs_of two_cycle_store))\<^sup>+"
    by (rule detectCycle_correct [of ?E ?s two_cycle_store "{''a'', ''b''}", THEN conjunct1])
       (simp_all add: fixed_store_def name [simplified] succs)
  with cyc name show ?thesis by simp
qed

section \<open>Reachability and the tie-break\<close>

fun bfs :: "graph \<Rightarrow> string \<Rightarrow> nat \<Rightarrow> string list \<Rightarrow> string list \<Rightarrow> bool" where
  "bfs succs target 0 visited queue = False"
| "bfs succs target (Suc n) visited [] = False"
| "bfs succs target (Suc n) visited (name # queue) =
     (if 64 \<le> length visited then False
      else if name = target then True
      else if name \<in> set visited then bfs succs target (Suc n) visited queue
      else bfs succs target n (name # visited) (queue @ succs name))"

lemma reaches_loop_bfs:
  assumes "fixed_store E ns store"
  shows "fst (run_state (reaches_loop E ns target n visited queue) s) = bfs (succs_of store) target n visited queue"
proof (induction "succs_of store" target n visited queue arbitrary: s rule: bfs.induct)
  case (3 target n visited name queue)
  have r: "run_state (Get_resource E CachedReader ns name) s' =
      (store name, s'\<lparr>trace := trace s' @ [ApiGetResource CachedReader ns name (store name)]\<rparr>)" for s'
    using assms by (simp add: call_defs fixed_store_def)
  show ?case
  proof (cases "64 \<le> length visited \<or> name = target \<or> name \<in> set visited")
    case True
    with 3 show ?thesis by auto
  next
    case False
    with 3 r show ?thesis
      by (cases "store name") (auto simp: succs_of_Inl succs_of_Inr ref_names_def)
  qed
qed auto

lemma bfs_sound: "bfs succs target n visited queue \<Longrightarrow> \<exists>q \<in> set queue. (q, target) \<in> (edges succs)\<^sup>*"
proof (induction succs target n visited queue rule: bfs.induct)
  case (3 succs target n visited name queue)
  show ?case
  proof (cases "name = target \<or> name \<in> set visited")
    case True
    with 3 show ?thesis by (auto split: if_splits)
  next
    case False
    with 3 have "\<exists>q \<in> set (queue @ succs name). (q, target) \<in> (edges succs)\<^sup>*" by (auto split: if_splits)
    then show ?thesis by (auto simp: edges_def intro: converse_rtrancl_into_rtrancl)
  qed
qed auto

text \<open>
  A failed search has explored a set closed under references. The count of visited names
  and the remaining rounds add up, so the bound of 64 is never the reason below it.
\<close>

lemma bfs_complete:
  "finite U \<Longrightarrow> \<forall>x \<in> U. set (succs x) \<subseteq> U \<Longrightarrow> card U \<le> 63 \<Longrightarrow>
   \<not> bfs succs target n visited queue \<Longrightarrow> length visited + n = 65 \<Longrightarrow> distinct visited \<Longrightarrow>
   set visited \<subseteq> U \<Longrightarrow> set queue \<subseteq> U \<Longrightarrow>
   \<forall>x \<in> set visited. set (succs x) \<subseteq> set visited \<union> set queue \<Longrightarrow>
   \<exists>V. set visited \<subseteq> V \<and> set queue \<subseteq> V \<and> target \<notin> set queue \<and> (\<forall>x \<in> V. set (succs x) \<subseteq> V) \<and>
       (target \<in> V \<longrightarrow> target \<in> set visited)"
proof (induction succs target n visited queue rule: bfs.induct)
  case (1 succs target visited queue)
  then have "card (set visited) = 65" by (simp add: distinct_card)
  moreover have "card (set visited) \<le> 63" using 1 by (meson card_mono le_trans)
  ultimately show ?case by simp
next
  case (2 succs target n visited)
  then show ?case by (intro exI [of _ "set visited"]) simp
next
  case (3 succs target n visited name queue)
  note h = 3(3-)
  have "length visited \<le> 63" using h distinct_card [of visited] by (metis card_mono le_trans)
  then have small: "\<not> 64 \<le> length visited" by simp
  have nt: "name \<noteq> target" using h(4) small by auto
  show ?case
  proof (cases "name \<in> set visited")
    case True
    have "\<exists>V. set visited \<subseteq> V \<and> set queue \<subseteq> V \<and> target \<notin> set queue \<and> (\<forall>x \<in> V. set (succs x) \<subseteq> V) \<and>
         (target \<in> V \<longrightarrow> target \<in> set visited)"
      by (rule 3(1) [OF small nt True h(1-3)]) (use h True small nt in auto)
    with True nt show ?thesis by auto
  next
    case False
    have "\<exists>V. set (name # visited) \<subseteq> V \<and> set (queue @ succs name) \<subseteq> V \<and> target \<notin> set (queue @ succs name) \<and>
         (\<forall>x \<in> V. set (succs x) \<subseteq> V) \<and> (target \<in> V \<longrightarrow> target \<in> set (name # visited))"
      by (rule 3(2) [OF small nt False h(1-3)]) (use h False small nt in auto)
    with nt show ?thesis by auto
  qed
qed

text \<open>
  C34: With the namespace held fixed and at most 62 names reachable, \<open>reaches\<close> decides
  whether an object transitively references another one.
\<close>

theorem reaches_correct:
  assumes "fixed_store E (om_Namespace (meta res)) store" "store (om_Name (meta res)) = Inr res"
    and "finite U" "card U \<le> 62" "set (ref_names res) \<subseteq> U" "\<forall>x \<in> U. set (succs_of store x) \<subseteq> U"
    and "target \<noteq> om_Name (meta res)"
  shows "fst (run_state (reaches E res target) s) \<longleftrightarrow>
         (om_Name (meta res), target) \<in> (edges (succs_of store))\<^sup>+"
proof -
  let ?self = "om_Name (meta res)" and ?succs = "succs_of store"
  let ?U = "insert ?self U"
  have self: "?succs ?self = ref_names res" using assms(2) by (simp add: succs_of_Inr)
  have r: "fst (run_state (reaches E res target) s) = bfs ?succs target 64 [?self] (ref_names res)"
    unfolding reaches_def using reaches_loop_bfs [OF assms(1)] by (simp add: ref_names_def)
  show ?thesis
  proof
    assume "fst (run_state (reaches E res target) s)"
    then obtain q where "q \<in> set (ref_names res)" "(q, target) \<in> (edges ?succs)\<^sup>*"
      using bfs_sound r by blast
    then show "(?self, target) \<in> (edges ?succs)\<^sup>+"
      using self by (auto simp: edges_def intro: rtrancl_into_trancl2)
  next
    assume t: "(?self, target) \<in> (edges ?succs)\<^sup>+"
    show "fst (run_state (reaches E res target) s)"
    proof (rule ccontr)
      assume "\<not> fst (run_state (reaches E res target) s)"
      then have "\<not> bfs ?succs target 64 [?self] (ref_names res)" using r by simp
      moreover have "card ?U \<le> 63" using assms(3,4) by (simp add: card_insert_if)
      ultimately have "\<exists>V. set [?self] \<subseteq> V \<and> set (ref_names res) \<subseteq> V \<and> target \<notin> set (ref_names res) \<and>
          (\<forall>x \<in> V. set (?succs x) \<subseteq> V) \<and> (target \<in> V \<longrightarrow> target \<in> set [?self])"
        by (intro bfs_complete [of ?U]) (use assms self in auto)
      then obtain V where "?self \<in> V" "\<forall>x \<in> V. set (?succs x) \<subseteq> V" "target \<notin> V"
        using assms(7) by auto
      moreover from t this(1,2) have "target \<in> V"
        by (induction rule: trancl_induct) (auto simp: edges_def)
      ultimately show False by blast
    qed
  qed
qed

theorem reaches_correct_witness:
  "fst (run_state (reaches (quiet_env\<lparr>get_resource := (\<lambda>_ _ _ name. two_cycle_store name)\<rparr>)
          (with_refs [''b''] (plain_resource ''a'')) ''b'') \<lparr>obj = plain_resource ''x'', trace = []\<rparr>)"
proof -
  let ?E = "quiet_env\<lparr>get_resource := (\<lambda>_ _ _ name. two_cycle_store name)\<rparr>"
  let ?res = "with_refs [''b''] (plain_resource ''a'')"
  have name: "om_Name (meta ?res) = ''a''" by (simp add: with_refs_def plain_resource_def)
  have refs: "ref_names ?res = [''b'']" by (simp add: with_refs_def refs_to_def ref_names_def)
  have succs: "succs_of two_cycle_store ''a'' = [''b'']" "succs_of two_cycle_store ''b'' = [''a'']"
    by (simp_all add: succs_of_def ref_names_def two_cycle_store_def with_refs_def refs_to_def)
  have "fst (run_state (reaches ?E ?res ''b'') \<lparr>obj = plain_resource ''x'', trace = []\<rparr>) \<longleftrightarrow>
        (om_Name (meta ?res), ''b'') \<in> (edges (succs_of two_cycle_store))\<^sup>+"
    by (rule reaches_correct [of ?E ?res two_cycle_store "{''a'', ''b''}"])
       (simp_all add: fixed_store_def name refs succs two_cycle_store_def)
  then show ?thesis using succs by (auto simp: name edges_def)
qed

lemma blocking_loop_mono: "set blocking \<subseteq> set (fst (run_state (blocking_loop E res deps blocking) s))"
proof (induction deps arbitrary: blocking s)
  case (Cons name deps)
  obtain r s1 where r: "run_state (Get_resource E CachedReader (om_Namespace (meta res)) name) s = (r, s1)"
    by fastforce
  show ?case
  proof (cases r)
    case (Inr dep)
    obtain b s2 where b: "run_state (reaches E res (om_Name (meta dep))) s1 = (b, s2)" by fastforce
    show ?thesis
      using Cons.IH [of blocking] Cons.IH [of "blocking @ [name]"] Inr r b by auto
  qed (use Cons.IH r in auto)
qed simp

lemma blocking_loop_skips:
  assumes "fixed_store E (om_Namespace (meta res)) store" "store name = Inr dep" "om_Deleting (meta dep)"
    and "st_ID (status dep) = [] \<or>
         (om_Name (meta dep) < om_Name (meta res) \<and> (\<forall>s. fst (run_state (reaches E res (om_Name (meta dep))) s)))"
  shows "name \<notin> set blocking \<Longrightarrow> name \<notin> set (fst (run_state (blocking_loop E res deps blocking) s))"
proof (induction deps arbitrary: blocking s)
  case (Cons name' deps)
  obtain s1 where r: "run_state (Get_resource E CachedReader (om_Namespace (meta res)) name') s = (store name', s1)"
    using assms(1) by (simp add: call_defs fixed_store_def)
  show ?case
  proof (cases "name' = name")
    case True
    obtain b s2 where b: "run_state (reaches E res (om_Name (meta dep))) s1 = (b, s2)" by fastforce
    then have "st_ID (status dep) = [] \<or> (b \<and> om_Name (meta dep) < om_Name (meta res))"
      using assms(4) by (metis fst_conv)
    with True r b assms(2,3) Cons show ?thesis by auto
  next
    case False
    then have IH: "name \<notin> set (fst (run_state (blocking_loop E res deps bl) s))"
      if "bl = blocking \<or> bl = blocking @ [name']" for bl s
      using that Cons by auto
    show ?thesis
    proof (cases "store name'")
      case (Inr d)
      obtain b s2 where "run_state (reaches E res (om_Name (meta d))) s1 = (b, s2)" by fastforce
      with Inr r IH show ?thesis by auto
    qed (use r IH in auto)
  qed
qed simp

lemma blocking_loop_keeps:
  assumes "fixed_store E (om_Namespace (meta res)) store" "store name = Inr dep"
    and "om_Deleting (meta dep) \<longrightarrow> st_ID (status dep) \<noteq> [] \<and> om_Name (meta res) \<le> om_Name (meta dep)"
  shows "name \<in> set deps \<Longrightarrow> name \<in> set (fst (run_state (blocking_loop E res deps blocking) s))"
proof (induction deps arbitrary: blocking s)
  case (Cons name' deps)
  obtain s1 where r: "run_state (Get_resource E CachedReader (om_Namespace (meta res)) name') s = (store name', s1)"
    using assms(1) by (simp add: call_defs fixed_store_def)
  show ?case
  proof (cases "name' = name")
    case True
    have keep: "name \<in> set (fst (run_state (blocking_loop E res deps (blocking @ [name])) s'))" for s'
      using blocking_loop_mono [of "blocking @ [name]" E res deps s'] by auto
    obtain b s2 where "run_state (reaches E res (om_Name (meta dep))) s1 = (b, s2)" by fastforce
    with True r assms(2,3) keep show ?thesis by auto
  next
    case False
    then have IH: "name \<in> set (fst (run_state (blocking_loop E res deps bl) s))" for bl s
      using Cons by auto
    show ?thesis
    proof (cases "store name'")
      case (Inr d)
      obtain b s2 where "run_state (reaches E res (om_Name (meta d))) s1 = (b, s2)" by fastforce
      with Inr r IH show ?thesis by auto
    qed (use r IH in auto)
  qed
qed simp


definition dying :: "string \<Rightarrow> string \<Rightarrow> DoResource" where
  "dying name other = (with_refs [other] (plain_resource name))
     \<lparr>meta := blank_meta\<lparr>om_Name := name, om_Namespace := ''ns'', om_Deleting := True\<rparr>,
      status := blank_status\<lparr>st_ID := ''id''\<rparr>\<rparr>"

definition dying_store :: "string \<Rightarrow> DoResource result" where
  "dying_store name =
     (if name = ''a'' then Inr (dying ''a'' ''b'') else if name = ''b'' then Inr (dying ''b'' ''a'')
      else Inl (api_error ApiNotFound ''not found''))"


section \<open>Templates in one pass\<close>

text \<open>The reading of the documentation: left to right, escapes before placeholders.\<close>

function expand :: "string \<Rightarrow> string \<Rightarrow> string" where
  "expand [] rendered = []"
| "expand (c # cs) rendered =
     (if HasPrefix (c # cs) ''$${value}'' then ''${value}'' @ expand (drop 9 (c # cs)) rendered
      else if HasPrefix (c # cs) ''${value}'' then rendered @ expand (drop 8 (c # cs)) rendered
      else c # expand cs rendered)"
  by pat_completeness auto
termination
  by (relation "measure (\<lambda>(t, r). length t)") auto

lemma replace_skip:
  "old \<noteq> [] \<Longrightarrow> \<forall>c \<in> set a. c \<noteq> hd old \<Longrightarrow> replace_loop (a @ x) old new = a @ replace_loop x old new"
proof (induction a)
  case (Cons c a)
  then have "\<not> HasPrefix (c # a @ x) old" by (cases old) auto
  with Cons show ?case by simp
qed simp

lemma replace_hit: "old \<noteq> [] \<Longrightarrow> replace_loop (old @ x) old new = new @ replace_loop x old new"
  by (cases old) auto

lemma HasPrefix_replace:
  "new \<noteq> [] \<Longrightarrow> hd new \<notin> set w \<Longrightarrow> HasPrefix (replace_loop s old new) w \<Longrightarrow> HasPrefix s w"
proof (induction s old new arbitrary: w rule: replace_loop.induct)
  case (2 c cs old new)
  show ?case
  proof (cases w)
    case (Cons x w')
    with 2 show ?thesis by (cases new) (auto split: if_splits)
  qed simp
qed simp

abbreviation escape_text :: string where "escape_text \<equiv> ''$${value}''"
abbreviation place_text :: string where "place_text \<equiv> ''${value}''"

lemma literalMark_facts:
  "literalMark \<noteq> []" "hd literalMark = CHR 0x00" "\<forall>c \<in> set literalMark. c \<noteq> CHR ''$''"
  by (simp_all add: literalMark_def)

lemma pass1_val: "replace_loop (place_text @ x) escape_text literalMark = (if HasPrefix (place_text @ x) escape_text then [] else place_text @ replace_loop x escape_text literalMark)"
  using replace_skip [of escape_text "''{value}''" x literalMark] by simp

lemma three_passes:
  "CHR 0x00 \<notin> set t \<Longrightarrow> CHR 0x00 \<notin> set r \<Longrightarrow>
   replace_loop (replace_loop (replace_loop t escape_text literalMark) place_text r) literalMark place_text = expand t r"
proof (induction t r rule: expand.induct)
  case (2 c cs r)
  note mark = literalMark_facts
  have skipM: "replace_loop (literalMark @ x) place_text r = literalMark @ replace_loop x place_text r" for x
    using replace_skip [of place_text literalMark x r] mark(3) by simp
  have skipr: "replace_loop (a @ x) literalMark place_text = a @ replace_loop x literalMark place_text"
    if "CHR 0x00 \<notin> set a" for a x
    using replace_skip [of literalMark a x place_text] mark that by auto
  consider (e) x where "c # cs = escape_text @ x" | (v) x where "c # cs = place_text @ x" "\<not> HasPrefix (c # cs) escape_text"
    | (o) "\<not> HasPrefix (c # cs) escape_text" "\<not> HasPrefix (c # cs) place_text" by (auto simp: HasPrefix_iff)
  then show ?case
  proof cases
    case (e x)
    have p: "HasPrefix (c # cs) escape_text" "drop 9 (c # cs) = x" unfolding e by simp_all
    have "expand (c # cs) r = place_text @ expand x r" using p by simp
    moreover have "replace_loop (c # cs) escape_text literalMark = literalMark @ replace_loop x escape_text literalMark"
      unfolding e by (rule replace_hit) simp
    moreover have "CHR 0x00 \<notin> set x" using 2(4) unfolding e by simp
    ultimately show ?thesis
      using 2(1) [OF p(1)] p(2) 2(5) skipM replace_hit [OF mark(1)] by simp
  next
    case (v x)
    have p: "HasPrefix (c # cs) place_text" "drop 8 (c # cs) = x" unfolding v(1) by simp_all
    have "expand (c # cs) r = r @ expand x r" using p v(2) by simp
    moreover have "replace_loop (c # cs) escape_text literalMark = place_text @ replace_loop x escape_text literalMark"
      using pass1_val [of x] v by simp
    moreover have "CHR 0x00 \<notin> set x" using 2(4) unfolding v(1) by simp
    ultimately show ?thesis
      using 2(2) [OF v(2) p(1)] p(2) 2(5) skipr replace_hit [of place_text] by simp
  next
    case o
    have "\<not> HasPrefix (c # replace_loop cs escape_text literalMark) place_text"
    proof
      assume "HasPrefix (c # replace_loop cs escape_text literalMark) place_text"
      then have "c = CHR ''$''" "HasPrefix (replace_loop cs escape_text literalMark) ''{value}''" by auto
      moreover from this(2) have "HasPrefix cs ''{value}''"
        using HasPrefix_replace [of literalMark "''{value}''" cs escape_text] mark by simp
      ultimately show False using o(2) by simp
    qed
    then have p2: "replace_loop (c # replace_loop cs escape_text literalMark) place_text r =
               c # replace_loop (replace_loop cs escape_text literalMark) place_text r" by auto
    have p1: "replace_loop (c # cs) escape_text literalMark = c # replace_loop cs escape_text literalMark" using o by auto
    have p3: "replace_loop (c # x) literalMark place_text = c # replace_loop x literalMark place_text" for x
      using skipr [of "[c]" x] 2(4) by (simp del: replace_loop.simps)
    have "expand (c # cs) r = c # expand cs r" using o by auto
    moreover have "replace_loop (replace_loop (replace_loop cs escape_text literalMark) place_text r) literalMark place_text = expand cs r"
      using 2(3) [OF o] 2(4,5) by simp
    ultimately show ?thesis by (simp only: p1 p2 p3)
  qed
qed simp

lemma expandTemplate_eq:
  "CHR 0x00 \<notin> set tpl \<Longrightarrow> CHR 0x00 \<notin> set rendered \<Longrightarrow> expandTemplate tpl rendered = expand tpl rendered"
  using three_passes by (simp add: expandTemplate_def ReplaceAll_def Let_def literalMark_def)

text \<open>
  Expanding a template by three global replacements through a marker equals one pass
  that turns \<open>$${value}\<close> into a literal \<open>${value}\<close> and every other \<open>${value}\<close> into the rendered
  value, for templates and values without a NUL byte. The value itself is never expanded.
\<close>

theorem expandTemplate_one_pass:
  assumes "CHR 0x00 \<notin> set tpl" "CHR 0x00 \<notin> set rendered"
  shows "expandTemplate tpl rendered = expand tpl rendered"
  using assms by (rule expandTemplate_eq)

theorem expandTemplate_one_pass_witness:
  "expandTemplate ''a $${value} ${value}'' ''${value}!'' = ''a ${value} ${value}!''"
proof -
  have "expandTemplate ''a $${value} ${value}'' ''${value}!'' = expand ''a $${value} ${value}'' ''${value}!''"
    by (rule expandTemplate_one_pass) simp_all
  also have "\<dots> = ''a ${value} ${value}!''" by simp
  finally show ?thesis .
qed

end
