(* ===== verification/Do_Resource.thy ===== *)
theory Do_Resource
  imports References Package_Refs
begin

text \<open>
  The DoResource controller: provider resolution (\<open>provider_resolution.go\<close>), secret
  inputs (\<open>secret_inputs.go\<close>, \<open>delete_state.go\<close>), lifecycle annotations
  (\<open>annotations.go\<close>), the connection Secret (\<open>connection_secret.go\<close>), replacement
  (\<open>replacement.go\<close>) and the reconcile loop (\<open>doresource_controller.go\<close>).
\<close>

definition doResourceFinalizer :: string where "doResourceFinalizer = ''do.pulumi.com/finalizer''"

text \<open>Durations are in nanoseconds, as in Go.\<close>

definition resyncInterval :: int where "resyncInterval = 600 * 10 ^ 9"

section \<open>Provider resolution\<close>

record providerProfile =
  pp_ref :: string
  pp_spec :: DoProviderSpec

definition refKind :: "ProviderReference option \<Rightarrow> string" where
  "refKind ref = (case ref of
       Some r \<Rightarrow> if pr_Kind r = ProviderKindConfig then ProviderKindConfig else ProviderKindCluster
     | None \<Rightarrow> ProviderKindCluster)"

definition getProvider :: "env \<Rightarrow> providerProfile option result rec" where
  "getProvider E =
     do { res \<leftarrow> get_obj;
          case spec_ProviderRef (spec res) of
            None \<Rightarrow> ret (Inr None)
          | Some ref \<Rightarrow>
              if pr_Kind ref = ProviderKindConfig then
                do { r \<leftarrow> ask (\<lambda>tr. get_provider_config E tr (om_Namespace (meta res)) (pr_Name ref))
                             (ApiGetProviderConfig (om_Namespace (meta res)) (pr_Name ref));
                     (case r of
                        Inl e \<Rightarrow> ret (Inl e)
                      | Inr config \<Rightarrow>
                          ret (Inr (Some \<lparr>pp_ref = ''doproviderconfig '' @
                                            Quote (om_Namespace (meta res) @ ''/'' @ pr_Name ref),
                                         pp_spec = prov_spec config\<rparr>))) }
              else
                do { r \<leftarrow> ask (\<lambda>tr. get_provider E tr (pr_Name ref)) (ApiGetProvider (pr_Name ref));
                     (case r of
                        Inl e \<Rightarrow> ret (Inl e)
                      | Inr provider \<Rightarrow>
                          ret (Inr (Some \<lparr>pp_ref = ''doprovider '' @ Quote (pr_Name ref),
                                         pp_spec = prov_spec provider\<rparr>))) } }"

definition resolveProvider ::
  "env \<Rightarrow> op_ctx \<Rightarrow> string \<Rightarrow> string \<Rightarrow> (op_ctx \<times> string \<times> reconcile_result option) rec" where
  "resolveProvider E ctx pkg token =
     do { res \<leftarrow> get_obj;
          pr \<leftarrow> getProvider E;
          case pr of
            Inl e \<Rightarrow>
              if \<not> IsNotFound e then ret (ctx, pkg, Some (no_requeue, Some e))
              else if om_Deleting (meta res) then ret (ctx, pkg, None)
              else do { r \<leftarrow> markSyncFailed E ''ProviderNotFound''
                              (Errorf (''provider profile '' @
                                 Quote (case spec_ProviderRef (spec res) of Some ref \<Rightarrow> pr_Name ref | None \<Rightarrow> []) @
                                 '' (kind '' @ refKind (spec_ProviderRef (spec res)) @ '') not found'')) False;
                        ret (ctx, pkg, Some r) }
          | Inr None \<Rightarrow> ret (ctx, pkg, None)
          | Inr (Some profile) \<Rightarrow>
              (let pspec = pp_spec profile;
                   ctx' = (case dp_CredentialsSecretRef pspec of
                             None \<Rightarrow> ctx | Some r \<Rightarrow> WithCredentialsSecret ctx (lsr_Name r));
                   pkg' = (if pkg = [] \<or> om_Deleting (meta res) then dp_Package pspec else pkg)
               in if om_Deleting (meta res) then ret (ctx', pkg', None)
                  else if pkg' \<noteq> dp_Package pspec then
                    do { r \<leftarrow> markSyncFailed E ''ProviderPackageMismatch''
                           (Errorf (''spec.package '' @ Quote pkg' @ '' conflicts with '' @ pp_ref profile @
                              '' package '' @ Quote (dp_Package pspec) @
                              ''; drop spec.package or make them match'')) False;
                         ret (ctx', pkg', Some r) }
                  else if \<not> tokenAllowed (dp_AllowedResources pspec) token then
                    do { r \<leftarrow> markSyncFailed E ''ResourceNotAllowed''
                           (Errorf (''resource type '' @ Quote token @ '' is not in '' @ pp_ref profile @
                              '' allowedResources'')) False;
                         ret (ctx', pkg', Some r) }
                  else ret (ctx', pkg', None)) }"

section \<open>Secret inputs\<close>

definition secretInputPlaceholder :: string where
  "secretInputPlaceholder = ''doplane:secret-input''"

primrec secret_versions :: "env \<Rightarrow> string \<Rightarrow> ValueFrom list \<Rightarrow> string rec" where
  "secret_versions E ns [] = ret []"
| "secret_versions E ns (v # vs) =
     do { r \<leftarrow> ask (\<lambda>tr. get_secret_version E tr ns (sks_Name (vf_SecretKeyRef v)))
                  (ApiGetSecretVersion ns (sks_Name (vf_SecretKeyRef v)));
          rest \<leftarrow> secret_versions E ns vs;
          ret (case r of
                 Inl _ \<Rightarrow> rest
               | Inr version \<Rightarrow> sks_Name (vf_SecretKeyRef v) @ ''='' @ version @ '';'' @ rest) }"

definition mixSecretVersions :: "env \<Rightarrow> string \<Rightarrow> (string \<times> string) rec" where
  "mixSecretVersions E hash =
     do { res \<leftarrow> get_obj;
          if spec_ValuesFrom (spec res) = [] then ret (hash, [])
          else do { versions \<leftarrow> secret_versions E (om_Namespace (meta res)) (spec_ValuesFrom (spec res));
                    ret (take 16 (sha256_hex E (hash @ versions)), take 16 (sha256_hex E versions)) } }"

fun stage_loop :: "ValueFrom list \<Rightarrow> nat \<Rightarrow> jobj \<Rightarrow> SecretInput list \<Rightarrow> jobj \<times> SecretInput list result" where
  "stage_loop [] i props inputs = (props, Inr inputs)"
| "stage_loop (v # vs) i props inputs =
     (case SetPath props (vf_ToPath v) (JStr secretInputPlaceholder) of
        (props', Some e) \<Rightarrow> (props', Inl (wrap_error (''valuesFrom['' @ show_nat i @ '']: '') e))
      | (props', None) \<Rightarrow>
          stage_loop vs (Suc i) props'
            (inputs @ [\<lparr>ToPath = vf_ToPath v, SecretName = sks_Name (vf_SecretKeyRef v),
                        SecretKey = sks_Key (vf_SecretKeyRef v)\<rparr>]))"

definition stageSecretInputs :: "env \<Rightarrow> op_ctx \<Rightarrow> jobj \<Rightarrow> (op_ctx \<times> jobj \<times> reconcile_result option) rec" where
  "stageSecretInputs E ctx props =
     do { res \<leftarrow> get_obj;
          if spec_ValuesFrom (spec res) = [] then ret (ctx, props, None)
          else case stage_loop (spec_ValuesFrom (spec res)) 0 props [] of
              (props', Inl e) \<Rightarrow>
                do { r \<leftarrow> markSyncFailed E ''InvalidValuesFrom'' e False; ret (ctx, props', Some r) }
            | (props', Inr inputs) \<Rightarrow> ret (WithSecretInputs ctx inputs, props', None) }"

text \<open>The recorded state shipped with a delete; the empty map is nil.\<close>

definition deleteState :: "DoResource \<Rightarrow> jobj" where
  "deleteState res =
     (case st_Outputs (status res) of
        None \<Rightarrow> []
      | Some doc \<Rightarrow>
          (case decode_object doc of
             Inl _ \<Rightarrow> []
           | Inr state \<Rightarrow>
               if state = [] then [] else foldl ErasePath state (map vf_ToPath (spec_ValuesFrom (spec res)))))"

section \<open>Lifecycle annotations\<close>

definition annExternalName :: string where "annExternalName = ''crossplane.io/external-name''"
definition annPaused :: string where "annPaused = ''crossplane.io/paused''"
definition annPollInterval :: string where "annPollInterval = ''crossplane.io/poll-interval''"

definition paused :: "DoResource \<Rightarrow> bool" where
  "paused res = (annotation (meta res) annPaused = ''true'')"

definition externalName :: "DoResource \<Rightarrow> string" where
  "externalName res = annotation (meta res) annExternalName"

definition pollInterval :: "env \<Rightarrow> DoResource \<Rightarrow> int \<Rightarrow> int \<times> bool" where
  "pollInterval E res fallback =
     (let raw = annotation (meta res) annPollInterval in
      if raw = [] then (fallback, True)
      else case ParseDuration E raw of
          None \<Rightarrow> (fallback, False)
        | Some d \<Rightarrow> if d \<le> 0 then (fallback, False) else (d, True))"

definition secretIDTerminal :: "env \<Rightarrow> DoResource \<Rightarrow> bool" where
  "secretIDTerminal E res =
     (case FindStatusCondition E (st_Conditions (status res)) ConditionSynced of
        None \<Rightarrow> False
      | Some cond \<Rightarrow> c_Status cond = ConditionFalse \<and> c_Reason cond = ''SecretInputInID'' \<and>
                     c_ObservedGeneration cond = om_Generation (meta res))"

definition set_annotation :: "string \<Rightarrow> string \<Rightarrow> DoResource \<Rightarrow> DoResource" where
  "set_annotation k v res =
     res\<lparr>meta := (meta res)\<lparr>om_Annotations := gomap_put k v (om_Annotations (meta res))\<rparr>\<rparr>"

definition persistExternalName :: "env \<Rightarrow> string \<Rightarrow> error option rec" where
  "persistExternalName E name =
     do { res \<leftarrow> get_obj;
          if annotation (meta res) annExternalName = name then ret None
          else do {
            err \<leftarrow> retry (retry_again E) (retry_steps E)
              (do { r \<leftarrow> Get_resource E (reader E) (om_Namespace (meta res)) (om_Name (meta res));
                    case r of
                      Inl e \<Rightarrow> ret (IgnoreNotFound (Some e))
                    | Inr latest \<Rightarrow>
                        do { u \<leftarrow> Update_resource E (set_annotation annExternalName name latest);
                             ret (case u of Inl e \<Rightarrow> Some e | Inr _ \<Rightarrow> None) } });
            (if err = None then modify_obj (set_annotation annExternalName name) else ret ());
            ret err } }"

section \<open>The connection Secret\<close>

text \<open>The collected data, or the first invalid detail.\<close>

primrec connection_data ::
  "DoResource \<Rightarrow> Secret option \<Rightarrow> ConnectionDetail list \<Rightarrow> nat \<Rightarrow> string gomap \<Rightarrow> string gomap result rec" where
  "connection_data res existing [] i data = ret (Inr data)"
| "connection_data res existing (d # ds) i data =
     (let detail = ''connectionDetails['' @ show_nat i @ ''] ('' @ cd_Name d @ ''): '' in
      if cd_Value d \<noteq> [] \<and> cd_FromFieldPath d \<noteq> [] then
        ret (Inl (Errorf (detail @ ''fromFieldPath and value are mutually exclusive'')))
      else if cd_Value d \<noteq> [] then
        connection_data res existing ds (Suc i) (gomap_put (cd_Name d) (cd_Value d) data)
      else if cd_FromFieldPath d \<noteq> [] then
        (case resolveFieldPath res (cd_FromFieldPath d) of
           Inl e \<Rightarrow> ret (Inl (wrap_error detail e))
         | Inr None \<Rightarrow>
             (case (case existing of None \<Rightarrow> None | Some sec \<Rightarrow> gomap_get (sec_data sec) (cd_Name d)) of
                Some prev \<Rightarrow> connection_data res existing ds (Suc i) (gomap_put (cd_Name d) prev data)
              | None \<Rightarrow>
                  do { Eventf ''Warning'' ''ConnectionDetailUnresolved''
                         (''connection detail '' @ Quote (cd_Name d) @ '': '' @ cd_FromFieldPath d @
                          '' is not populated yet; key omitted'');
                       connection_data res existing ds (Suc i) data })
         | Inr (Some v) \<Rightarrow>
             connection_data res existing ds (Suc i) (gomap_put (cd_Name d) (RenderScalar v) data))
      else ret (Inl (Errorf (detail @ ''one of fromFieldPath or value is required''))))"

text \<open>
  \<open>reflect.DeepEqual\<close> tells the nil data of a decoded empty Secret from an empty map, so
  empty data always counts as changed.
\<close>

definition publishConnectionSecret :: "env \<Rightarrow> error option rec" where
  "publishConnectionSecret E =
     do { res \<leftarrow> get_obj;
          case spec_WriteConnectionSecretToRef (spec res) of
            None \<Rightarrow> ret None
          | Some ref \<Rightarrow>
              do { r \<leftarrow> ask (\<lambda>tr. get_secret E tr (om_Namespace (meta res)) (lsr_Name ref))
                            (ApiGetSecret (om_Namespace (meta res)) (lsr_Name ref));
                   (case r of
                      Inl e \<Rightarrow>
                        if \<not> IsNotFound e then
                          ret (Some (wrap_error (''reading connection secret '' @ Quote (lsr_Name ref) @ '': '') e))
                        else do {
                          dr \<leftarrow> connection_data res None (spec_ConnectionDetails (spec res)) 0 [];
                          case dr of
                            Inl e \<Rightarrow> ret (Some e)
                          | Inr data \<Rightarrow>
                              (case SetControllerReference E (meta res)
                                      \<lparr>sec_meta = blank_meta\<lparr>om_Namespace := om_Namespace (meta res), om_Name := lsr_Name ref\<rparr>,
                                       sec_data = data\<rparr> of
                                 Inl e \<Rightarrow> ret (Some (wrap_error ''connection secret owner reference: '' e))
                               | Inr secret \<Rightarrow>
                                   do { err \<leftarrow> ask (\<lambda>tr. create_secret E tr secret) (ApiCreateSecret secret);
                                        (case err of
                                           Some e \<Rightarrow> ret (Some (wrap_error (''creating connection secret '' @
                                                        Quote (lsr_Name ref) @ '': '') e))
                                         | None \<Rightarrow>
                                             do { Eventf ''Normal'' ''ConnectionSecretCreated''
                                                    (''connection details written to secret '' @ Quote (lsr_Name ref));
                                                  ret None }) }) }
                    | Inr existing \<Rightarrow>
                        if (case GetControllerOf E (sec_meta existing) of
                              None \<Rightarrow> True | Some owner \<Rightarrow> or_UID owner \<noteq> om_UID (meta res)) then
                          ret (Some (Errorf (''connection secret '' @ Quote (lsr_Name ref) @
                               '' exists but is not owned by this resource; choose another name'')))
                        else do {
                          dr \<leftarrow> connection_data res (Some existing) (spec_ConnectionDetails (spec res)) 0 [];
                          case dr of
                            Inl e \<Rightarrow> ret (Some e)
                          | Inr data \<Rightarrow>
                              if data \<noteq> [] \<and> sec_data existing = data then ret None
                              else do {
                                err \<leftarrow> ask (\<lambda>tr. update_secret E tr (existing\<lparr>sec_data := data\<rparr>))
                                           (ApiUpdateSecret (existing\<lparr>sec_data := data\<rparr>));
                                case err of
                                  Some e \<Rightarrow> ret (Some (wrap_error (''updating connection secret '' @
                                               Quote (lsr_Name ref) @ '': '') e))
                                | None \<Rightarrow>
                                    do { Eventf ''Normal'' ''ConnectionSecretUpdated''
                                           (''connection details written to secret '' @ Quote (lsr_Name ref));
                                         ret None } } }) } }"

section \<open>Recording success\<close>

definition markSynced :: "env \<Rightarrow> string \<Rightarrow> jobj option \<Rightarrow> string \<Rightarrow> reconcile_result rec" where
  "markSynced E rid state appliedHash =
     do { modify_obj (\<lambda>res. res\<lparr>status := (status res)
            \<lparr>st_ID := rid,
             st_Outputs := (case state of None \<Rightarrow> st_Outputs (status res) | Some m \<Rightarrow> Some (JObj m)),
             st_AppliedHash := appliedHash,
             st_ObservedGeneration := om_Generation (meta res)\<rparr>\<rparr>);
          set_condition E ConditionSynced ConditionTrue ''Synced''
            ''last operation against the provider succeeded'';
          set_condition E ConditionReady ConditionTrue ''Available'' ''external resource exists'';
          err \<leftarrow> persistStatus E;
          case err of
            Some e \<Rightarrow> ret (no_requeue, Some e)
          | None \<Rightarrow>
              do { perr \<leftarrow> publishConnectionSecret E;
                   (case perr of
                      Some e \<Rightarrow>
                        do { Eventf ''Warning'' ''ConnectionSecretFailed'' (compact (e_msg e));
                             ret (no_requeue, Some e) }
                    | None \<Rightarrow>
                        do { res \<leftarrow> get_obj;
                             (case pollInterval E res resyncInterval of (interval, ok) \<Rightarrow>
                                do { (if \<not> ok
                                      then Eventf ''Warning'' ''InvalidPollInterval''
                                             ''cannot parse the crossplane.io/poll-interval annotation; using the default 10m0s''
                                      else ret ());
                                     ret (no_requeue\<lparr>RequeueAfter := interval\<rparr>, None) }) }) } }"

section \<open>Create and adopt\<close>

definition IsReplacementRequired :: "error \<Rightarrow> bool" where
  "IsReplacementRequired err =
     (case errors_As_Coded (Some err) of Some c \<Rightarrow> Code c = CodeReplacementRequired | None \<Rightarrow> False)"

definition IsAlreadyExists :: "error \<Rightarrow> bool" where
  "IsAlreadyExists err =
     (case errors_As_Coded (Some err) of Some c \<Rightarrow> Code c = CodeAlreadyExists | None \<Rightarrow> False)"

definition IsSecretInputInID :: "error \<Rightarrow> bool" where
  "IsSecretInputInID err =
     (case errors_As_Coded (Some err) of Some c \<Rightarrow> Code c = CodeSecretInputInID | None \<Rightarrow> False)"

text \<open>\<open>None\<close> is \<open>handled = false\<close>: there is nothing to adopt.\<close>

definition adoptExternal :: "env \<Rightarrow> op_ctx \<Rightarrow> string \<Rightarrow> string \<Rightarrow> string \<Rightarrow> string \<Rightarrow> reconcile_result option rec" where
  "adoptExternal E ctx token pkg name hash =
     do { r \<leftarrow> Run_Read E ctx token pkg name;
          case r of
            Inl e \<Rightarrow>
              if errors_Is (Some e) ErrNotFound then ret None
              else if errors_Is (Some e) ErrReadNotSupported then
                do { Eventf ''Normal'' ''Adopted'' (''Adopted external resource '' @ token @ '' '' @ Quote name @
                       '' (unverified: provider does not support read)'');
                     result \<leftarrow> markSynced E name None hash;
                     ret (Some result) }
              else do { result \<leftarrow> markSyncFailed E ''AdoptFailed'' e True; ret (Some result) }
          | Inr state \<Rightarrow>
              do { Eventf ''Normal'' ''Adopted'' (''Adopted external resource '' @ token @ '' '' @ Quote name);
                   result \<leftarrow> markSynced E name state hash;
                   ret (Some result) } }"

definition reconcileCreate :: "env \<Rightarrow> op_ctx \<Rightarrow> string \<Rightarrow> string \<Rightarrow> jobj \<Rightarrow> string \<Rightarrow> reconcile_result rec" where
  "reconcileCreate E ctx token pkg props hash =
     do { res0 \<leftarrow> get_obj;
          handled \<leftarrow> (if externalName res0 \<noteq> [] then adoptExternal E ctx token pkg (externalName res0) hash
                     else ret None);
          case handled of
            Some result \<Rightarrow> ret result
          | None \<Rightarrow>
              do { res \<leftarrow> get_obj;
                   if secretIDTerminal E res then ret (no_requeue, None)
                   else do {
                     r \<leftarrow> Run_Create E ctx token pkg props;
                     case r of
                       Inl e \<Rightarrow>
                         if IsSecretInputInID e then markSyncFailed E ''SecretInputInID'' e False
                         else markSyncFailed E ''CreateFailed'' e True
                     | Inr created \<Rightarrow>
                         do { err \<leftarrow> persistExternalName E (fst created);
                              (case err of
                                 Some e \<Rightarrow> ret (no_requeue, Some e)
                               | None \<Rightarrow>
                                   do { Eventf ''Normal'' ''Created''
                                          (''Created external resource '' @ token @ '' '' @ Quote (fst created));
                                        markSynced E (fst created) (snd created) hash }) } } } }"

section \<open>Replacement\<close>

definition annApproveReplacement :: string where
  "annApproveReplacement = ''do.pulumi.com/approve-replacement''"

definition replacementApproved :: "DoResource \<Rightarrow> bool" where
  "replacementApproved res = (annotation (meta res) annApproveReplacement = show_int (om_Generation (meta res)))"

definition protected :: "DoResource \<Rightarrow> bool" where
  "protected res = (case spec_Protect (spec res) of None \<Rightarrow> True | Some b \<Rightarrow> b)"

text \<open>The create of a replacement, with the delete-first fallback on an identity conflict.\<close>

definition replace_create ::
  "env \<Rightarrow> op_ctx \<Rightarrow> string \<Rightarrow> string \<Rightarrow> jobj \<Rightarrow> string \<Rightarrow> jobj \<Rightarrow>
   (reconcile_result + (string \<times> jobj option) result) rec" where
  "replace_create E ctx token pkg props oldID oldState =
     do { r \<leftarrow> Run_Create E ctx token pkg props;
          case r of
            Inl e \<Rightarrow>
              if IsAlreadyExists e then
                do { derr \<leftarrow> Run_Delete E ctx token pkg oldID oldState;
                     (case derr of
                        Some de \<Rightarrow>
                          if \<not> errors_Is (Some de) ErrNotFound then
                            do { res \<leftarrow> markSyncFailed E ''ReplaceFailed'' de True; ret (Inl res) }
                          else do { r2 \<leftarrow> Run_Create E ctx token pkg props; ret (Inr r2) }
                      | None \<Rightarrow> do { r2 \<leftarrow> Run_Create E ctx token pkg props; ret (Inr r2) }) }
              else ret (Inr (Inl e))
          | Inr created \<Rightarrow> ret (Inr (Inr created)) }"

definition reconcileReplacement ::
  "env \<Rightarrow> op_ctx \<Rightarrow> string \<Rightarrow> string \<Rightarrow> jobj \<Rightarrow> string \<Rightarrow> error \<Rightarrow> reconcile_result rec" where
  "reconcileReplacement E ctx token pkg props hash patchErr =
     do { res \<leftarrow> get_obj;
          if protected res \<and> \<not> replacementApproved res then
            markSyncFailed E ''ReplacementRequired''
              (wrap_error (''the change cannot be applied in place and replacing external resource '' @
                 Quote (st_ID (status res)) @ '' needs approval: '' @ ''annotate with '' @ annApproveReplacement @
                 ''='' @ show_int (om_Generation (meta res)) @ '' (or set spec.protect=false): '') patchErr) False
          else if secretIDTerminal E res then ret (no_requeue, None)
          else do {
            cr \<leftarrow> replace_create E ctx token pkg props (st_ID (status res)) (deleteState res);
            case cr of
              Inl result \<Rightarrow> ret result
            | Inr (Inl e) \<Rightarrow>
                if IsSecretInputInID e then markSyncFailed E ''SecretInputInID'' e False
                else markSyncFailed E ''ReplaceFailed'' e True
            | Inr (Inr created) \<Rightarrow>
                do { err \<leftarrow> persistExternalName E (fst created);
                     (case err of
                        Some e \<Rightarrow> ret (no_requeue, Some e)
                      | None \<Rightarrow>
                          do { (if fst created \<noteq> st_ID (status res) then
                                  do { derr \<leftarrow> Run_Delete E ctx token pkg (st_ID (status res)) (deleteState res);
                                       (case derr of
                                          Some de \<Rightarrow>
                                            if \<not> errors_Is (Some de) ErrNotFound then
                                              Eventf ''Warning'' ''OrphanedOldResource''
                                                (''replaced '' @ token @ '' but could not delete the previous external resource '' @
                                                 Quote (st_ID (status res)) @ '': '' @ compact (e_msg de))
                                            else ret ()
                                        | None \<Rightarrow> ret ()) }
                                else ret ());
                               Eventf ''Normal'' ''Replaced''
                                 (''Replaced external resource '' @ token @ '' '' @ Quote (st_ID (status res)) @
                                  '' with '' @ Quote (fst created));
                               markSynced E (fst created) (snd created) hash }) } } }"

section \<open>Components\<close>

definition set_engine_state :: "string \<Rightarrow> DoResource \<Rightarrow> DoResource" where
  "set_engine_state st res = res\<lparr>status := (status res)\<lparr>st_EngineState := Some st\<rparr>\<rparr>"

definition reconcileComponent :: "env \<Rightarrow> op_ctx \<Rightarrow> string \<Rightarrow> string \<Rightarrow> jobj \<Rightarrow> string \<Rightarrow> reconcile_result rec" where
  "reconcileComponent E ctx token pkg props hash =
     do { res \<leftarrow> get_obj;
          case (if st_ID (status res) = [] then None else st_EngineState (status res)) of
            Some engine \<Rightarrow>
              if st_AppliedHash (status res) \<noteq> hash then
                do { r \<leftarrow> Run_UpdateComponent E ctx token pkg props engine;
                     (case r of
                        Inl e \<Rightarrow> markSyncFailed E ''UpdateFailed'' e True
                      | Inr (outputs, st) \<Rightarrow>
                          do { Eventf ''Normal'' ''Updated'' (''Updated component '' @ token @ '' '' @
                                 Quote (st_ID (status res)));
                               modify_obj (set_engine_state st);
                               markSynced E (st_ID (status res)) outputs hash }) }
              else markSynced E (st_ID (status res)) None hash
          | None \<Rightarrow>
              do { r \<leftarrow> Run_CreateComponent E ctx token pkg props;
                   (case r of
                      Inl e \<Rightarrow> markSyncFailed E ''CreateFailed'' e True
                    | Inr (rid, outputs, st) \<Rightarrow>
                        do { Eventf ''Normal'' ''Created'' (''Constructed component '' @ token @ '' '' @ Quote rid);
                             modify_obj (set_engine_state st);
                             markSynced E rid outputs hash }) } }"

section \<open>Deletion\<close>

text \<open>The external part of a teardown: \<open>None\<close> when the finalizer may go.\<close>

definition delete_external :: "env \<Rightarrow> op_ctx \<Rightarrow> string \<Rightarrow> error option rec" where
  "delete_external E ctx pkg =
     do { res \<leftarrow> get_obj;
          let token = spec_Type (spec res);
          if spec_DeletionPolicy (spec res) \<noteq> DeletionOrphan \<and> st_ID (status res) \<noteq> [] then
            do { derr \<leftarrow> (case st_EngineState (status res) of
                           Some engine \<Rightarrow> Run_DeleteComponent E ctx token pkg engine
                         | None \<Rightarrow> Run_Delete E ctx token pkg (st_ID (status res)) (deleteState res));
                 (case derr of
                    None \<Rightarrow> do { Eventf ''Normal'' ''Deleted'' (''Deleted external resource '' @ token @ '' '' @
                                    Quote (st_ID (status res)));
                                 ret None }
                  | Some e \<Rightarrow>
                      if errors_Is (Some e) ErrNotFound then ret None
                      else do { Eventf ''Warning'' ''DeleteFailed'' (''Failed to delete '' @ token @ '' '' @
                                  Quote (st_ID (status res)) @ '': '' @ compact (e_msg e));
                                ret (Some e) }) }
          else ret None }"

definition reconcileDelete :: "env \<Rightarrow> op_ctx \<Rightarrow> string \<Rightarrow> reconcile_result rec" where
  "reconcileDelete E ctx pkg =
     do { res \<leftarrow> get_obj;
          if \<not> ContainsFinalizer E (meta res) doResourceFinalizer then ret (no_requeue, None)
          else do {
            br \<leftarrow> blockingDependents E;
            case br of
              Inl e \<Rightarrow> ret (no_requeue, Some e)
            | Inr deps \<Rightarrow>
                if deps \<noteq> [] then
                  (let msg = ''deletion blocked by dependent resources: '' @ Join deps '', '' in
                   do { set_condition E ConditionReady ConditionFalse ''BlockedByDependents'' msg;
                        Eventf ''Normal'' ''BlockedByDependents'' msg;
                        err \<leftarrow> persistStatus E;
                        (case err of
                           Some e \<Rightarrow> ret (no_requeue, Some e)
                         | None \<Rightarrow> ret (no_requeue\<lparr>RequeueAfter := 15 * 10 ^ 9\<rparr>, None)) })
                else do {
                  derr \<leftarrow> delete_external E ctx pkg;
                  case derr of
                    Some e \<Rightarrow> ret (no_requeue, Some e)
                  | None \<Rightarrow>
                      do { modify_obj (\<lambda>res. res\<lparr>meta := RemoveFinalizer E (meta res) doResourceFinalizer\<rparr>);
                           released \<leftarrow> get_obj;
                           u \<leftarrow> Update_resource E released;
                           (case u of
                              Inl e \<Rightarrow> ret (no_requeue, IgnoreNotFound (Some e))
                            | Inr stored \<Rightarrow> do { put_obj stored; ret (no_requeue, None) }) } } } }"

section \<open>The reconcile loop\<close>

text \<open>The external resource vanished: forget it and start over.\<close>

definition forget_external :: "env \<Rightarrow> string \<Rightarrow> reconcile_result rec" where
  "forget_external E token =
     do { res \<leftarrow> get_obj;
          Eventf ''Warning'' ''Drifted'' (''External resource '' @ token @ '' '' @ Quote (st_ID (status res)) @
            '' no longer exists; recreating'');
          modify_obj (\<lambda>res. res\<lparr>status := (status res)\<lparr>st_ID := [], st_Outputs := None, st_AppliedHash := []\<rparr>\<rparr>);
          set_condition E ConditionReady ConditionFalse ''Missing'' ''external resource no longer exists'';
          err \<leftarrow> persistStatus E;
          case err of
            Some e \<Rightarrow> ret (no_requeue, Some e)
          | None \<Rightarrow> ret (no_requeue\<lparr>Requeue := True\<rparr>, None) }"

text \<open>The update branch of \<open>Reconcile\<close>.\<close>

definition reconcile_patch :: "env \<Rightarrow> op_ctx \<Rightarrow> string \<Rightarrow> string \<Rightarrow> jobj \<Rightarrow> string \<Rightarrow> reconcile_result rec" where
  "reconcile_patch E ctx token pkg props hash =
     do { res \<leftarrow> get_obj;
          r \<leftarrow> Run_Patch E ctx token pkg (st_ID (status res)) props;
          case r of
            Inl e \<Rightarrow>
              if IsReplacementRequired e then reconcileReplacement E ctx token pkg props hash e
              else if errors_Is (Some e) ErrReadNotSupported then
                markSyncFailed E ''UpdateNotSupported'' (Errorf (e_msg e)) False
              else if errors_Is (Some e) ErrNotFound then forget_external E token
              else markSyncFailed E ''UpdateFailed'' e True
          | Inr state \<Rightarrow>
              do { Eventf ''Normal'' ''Updated'' (''Updated external resource '' @ token @ '' '' @
                     Quote (st_ID (status res)));
                   markSynced E (st_ID (status res)) state hash } }"

text \<open>The settled branch: a drift read.\<close>

definition reconcile_read :: "env \<Rightarrow> op_ctx \<Rightarrow> string \<Rightarrow> string \<Rightarrow> string \<Rightarrow> reconcile_result rec" where
  "reconcile_read E ctx token pkg hash =
     do { res \<leftarrow> get_obj;
          r \<leftarrow> Run_Read E ctx token pkg (st_ID (status res));
          case r of
            Inl e \<Rightarrow>
              if errors_Is (Some e) ErrReadNotSupported then markSynced E (st_ID (status res)) None hash
              else if errors_Is (Some e) ErrNotFound then forget_external E token
              else markSyncFailed E ''ReadFailed'' e True
          | Inr state \<Rightarrow> markSynced E (st_ID (status res)) state hash }"

text \<open>Everything after validation: hash, then component, create, patch or read.\<close>

definition reconcile_external ::
  "env \<Rightarrow> op_ctx \<Rightarrow> string \<Rightarrow> string \<Rightarrow> PackageSchema \<Rightarrow> jobj \<Rightarrow> reconcile_result rec" where
  "reconcile_external E ctx0 token pkg schema props =
     do { hs \<leftarrow> mixSecretVersions E (hashProps E props);
          let hash = fst hs;
          let ctx = (if snd hs \<noteq> [] then WithSecretVersionSalt ctx0 (snd hs) else ctx0);
          res \<leftarrow> get_obj;
          if (case gomap_get (Resources schema) token of None \<Rightarrow> False | Some r \<Rightarrow> IsComponent r) then
            (if spec_ValuesFrom (spec res) \<noteq> [] then
               markSyncFailed E ''ValuesFromUnsupported''
                 (Errorf (''valuesFrom is not supported for component resources: the engine checkpoint persisted in '' @
                          ''status.engineState would contain the secret values'')) False
             else reconcileComponent E ctx token pkg props hash)
          else if st_ID (status res) = [] then reconcileCreate E ctx token pkg props hash
          else if st_AppliedHash (status res) \<noteq> hash then reconcile_patch E ctx token pkg props hash
          else reconcile_read E ctx token pkg hash }"

text \<open>References, secret inputs and validation, for an object that stays.\<close>

definition reconcile_live :: "env \<Rightarrow> op_ctx \<Rightarrow> string \<Rightarrow> string \<Rightarrow> reconcile_result rec" where
  "reconcile_live E ctx pkg token =
     do { (if \<not> PackagePinned pkg
           then Eventf ''Warning'' ''ProviderNotPinned''
                  ''provider package is not pinned; set spec.package to name@version for reproducible operations''
           else ret ());
          res \<leftarrow> get_obj;
          case decodeProperties (spec_Properties (spec res)) of
            Inl e \<Rightarrow> markSyncFailed E ''InvalidProperties'' (wrap_error ''spec.properties is not a JSON object: '' e) False
          | Inr props \<Rightarrow>
              do { ar \<leftarrow> applyReferences E ctx props;
                   (case ar of
                      (_, Some halt) \<Rightarrow> ret halt
                    | (props1, None) \<Rightarrow>
                        do { sr \<leftarrow> stageSecretInputs E ctx props1;
                             (case sr of
                                (_, _, Some halt) \<Rightarrow> ret halt
                              | (ctx2, props2, None) \<Rightarrow>
                                  do { sch \<leftarrow> Schemas_Get E ctx2 (schemaPackage pkg token) token;
                                       (case sch of
                                          Inl e \<Rightarrow> markSyncFailed E ''SchemaUnavailable'' e True
                                        | Inr schema \<Rightarrow>
                                            (case Validate schema token props2 of
                                               Inl e \<Rightarrow> markSyncFailed E ''UnknownResourceType'' e False
                                             | Inr violations \<Rightarrow>
                                                 if violations \<noteq> [] then
                                                   markSyncFailed E ''ValidationFailed''
                                                     (Errorf (''schema validation ('' @ ps_Name schema @ ''@'' @
                                                        ps_Version schema @ ''): '' @ Join violations ''; '')) False
                                                 else reconcile_external E ctx2 token pkg schema props2)) }) }) } }"

text \<open>The branches of \<open>Reconcile\<close> once the object is read.\<close>

definition reconcile_object :: "env \<Rightarrow> op_ctx \<Rightarrow> DoResource \<Rightarrow> reconcile_result rec" where
  "reconcile_object E ctx0 res =
     (if paused res then
        do { set_condition E ConditionSynced ConditionFalse ''ReconcilePaused''
               ''reconciliation is paused via the crossplane.io/paused annotation'';
             err \<leftarrow> persistStatus E;
             (case err of
                Some e \<Rightarrow> ret (no_requeue, Some e)
              | None \<Rightarrow> ret (no_requeue, None)) }
      else do {
        pr \<leftarrow> resolveProvider E ctx0 (spec_Package (spec res)) (spec_Type (spec res));
        case pr of
          (_, _, Some halt) \<Rightarrow> ret halt
        | (ctx, pkg, None) \<Rightarrow>
            if om_Deleting (meta res) then reconcileDelete E ctx pkg
            else if ContainsFinalizer E (meta res) doResourceFinalizer
            then reconcile_live E ctx pkg (spec_Type (spec res))
            else do {
              modify_obj (\<lambda>res. res\<lparr>meta := AddFinalizer E (meta res) doResourceFinalizer\<rparr>);
              marked \<leftarrow> get_obj;
              u \<leftarrow> Update_resource E marked;
              (case u of
                 Inl e \<Rightarrow> ret (no_requeue, Some e)
               | Inr stored \<Rightarrow>
                   do { put_obj stored;
                        reconcile_live E ctx pkg (spec_Type (spec res)) }) } })"

definition Reconcile :: "env \<Rightarrow> string \<Rightarrow> string \<Rightarrow> reconcile_result rec" where
  "Reconcile E ns name =
     do { gr \<leftarrow> Get_resource E (reader E) ns name;
          case gr of
            Inl e \<Rightarrow> ret (no_requeue, IgnoreNotFound (Some e))
          | Inr res \<Rightarrow>
              do { put_obj res;
                   reconcile_object E (WithNamespace (WithOwner background (ns @ ''/'' @ name)) ns) res } }"

section \<open>Wake-ups\<close>

text \<open>\<open>mapGraphNeighbors\<close>: the requests for an event on \<open>res\<close>.\<close>

definition mapGraphNeighbors :: "env \<Rightarrow> DoResource \<Rightarrow> (string \<times> string) list rec" where
  "mapGraphNeighbors E res =
     do { dr \<leftarrow> dependentsOf E res;
          let deps = (case dr of Inl _ \<Rightarrow> [] | Inr names \<Rightarrow> map (\<lambda>n. (om_Namespace (meta res), n)) names);
          let sources = (if om_Deleting (meta res)
                         then map (\<lambda>n. (om_Namespace (meta res), n))
                                (filter (\<lambda>n. n \<noteq> om_Name (meta res)) (ref_names res))
                         else []);
          ret (deps @ sources) }"

text \<open>The field indexers of \<open>SetupWithManager\<close> and the profile watches that use them.\<close>

definition provider_index :: "string \<Rightarrow> DoResource \<Rightarrow> string list" where
  "provider_index kind res =
     (case spec_ProviderRef (spec res) of
        None \<Rightarrow> []
      | Some ref \<Rightarrow> if refKind (Some ref) \<noteq> kind then [] else [pr_Name ref])"

definition requestsFromIndex :: "string \<Rightarrow> string \<Rightarrow> string \<Rightarrow> DoResource list \<Rightarrow> (string \<times> string) list" where
  "requestsFromIndex kind val ns items =
     map (\<lambda>res. (om_Namespace (meta res), om_Name (meta res)))
       (filter (\<lambda>res. val \<in> set (provider_index kind res) \<and> (ns = [] \<or> om_Namespace (meta res) = ns)) items)"

definition mapProviderResources :: "ObjectMeta \<Rightarrow> DoResource list \<Rightarrow> (string \<times> string) list" where
  "mapProviderResources m items = requestsFromIndex ProviderKindCluster (om_Name m) [] items"

definition mapProviderConfigResources :: "ObjectMeta \<Rightarrow> DoResource list \<Rightarrow> (string \<times> string) list" where
  "mapProviderConfigResources m items = requestsFromIndex ProviderKindConfig (om_Name m) (om_Namespace m) items"

end
