(* ===== verification/Do_Resource_Safety.thy ===== *)
theory Do_Resource_Safety
  imports Do_Resource
begin

text \<open>
  Safety of the DoResource controller for every environment: which interactions each phase
  of a reconcile may have, in which order, and how often.
\<close>

section \<open>The interactions of each phase\<close>

text \<open>Recording an outcome: reads, status writes and the connection Secret.\<close>

fun is_record :: "event \<Rightarrow> bool" where
  "is_record (ApiCreateSecret _ _) = True"
| "is_record (ApiUpdateSecret _ _) = True"
| "is_record e = is_status e"

lemma status_record: "is_status e \<Longrightarrow> is_record e"
  by (cases e) auto

lemma read_record: "is_read e \<Longrightarrow> is_record e"
  by (cases e) auto

lemma record_no_run: "is_record e \<Longrightarrow> \<not> is_run e \<and> \<not> is_update e"
  by (cases e) auto

lemma emits_checkOutputPath: "emits is_read (checkOutputPath E ctx src fp)"
  unfolding checkOutputPath_def by (intro emits_intros; simp)

lemma emits_resolve_refs: "emits is_read (resolve_refs E ctx ns refs i props w)"
proof (induction refs arbitrary: i props w)
  case (Cons ref refs)
  then show ?case
    by (simp add: Let_def del: State_Monad.bind_assoc)
       (intro emits_intros Cons emits_checkOutputPath; simp)
qed (simp add: emits_intros)

lemma emits_walk_refs:
  "(\<And>n p v. emits is_read (w n p v)) \<Longrightarrow> emits is_read (walk_refs w self name path visited refs)"
proof (induction refs arbitrary: visited)
  case (Cons ref refs)
  then show ?case by (simp add: Let_def) (intro conjI impI emits_intros; simp)
qed (simp add: emits_intros)

lemma emits_walk: "emits is_read (walk E ns self n name path visited)"
proof (induction n arbitrary: name path visited)
  case (Suc n)
  then show ?case by simp (intro emits_intros emits_walk_refs; simp)
qed (simp add: emits_intros)

lemma emits_detectCycle: "emits is_read (detectCycle E)"
  unfolding detectCycle_def by (intro emits_intros emits_walk)

lemma emits_applyReferences: "emits is_status (applyReferences E ctx props)"
  unfolding applyReferences_def resolveReferences_def
  by (intro emits_intros emits_markSyncFailed emits_persistStatus
        emits_mono [OF emits_detectCycle read_status] emits_mono [OF emits_resolve_refs read_status])

lemma emits_getProvider: "emits is_read (getProvider E)"
  unfolding getProvider_def by (intro emits_intros; simp)

lemma emits_resolveProvider: "emits is_status (resolveProvider E ctx pkg token)"
  unfolding resolveProvider_def
  by (intro emits_intros emits_markSyncFailed emits_mono [OF emits_getProvider read_status])

lemma emits_secret_versions: "emits is_read (secret_versions E ns vs)"
  by (induction vs) (simp_all, (intro emits_intros; simp)+)

lemma emits_mixSecretVersions: "emits is_read (mixSecretVersions E hash)"
  unfolding mixSecretVersions_def by (intro emits_intros emits_secret_versions)

lemma emits_stageSecretInputs: "emits is_status (stageSecretInputs E ctx props)"
  unfolding stageSecretInputs_def by (intro emits_intros emits_markSyncFailed)

lemma emits_connection_data: "emits is_read (connection_data res ex ds i data)"
proof (induction ds arbitrary: i data)
  case (Cons d ds)
  then show ?case
    by (simp add: Let_def) (intro conjI impI emits_intros; simp add: emits_intros)
qed (simp add: emits_intros)

lemma emits_publishConnectionSecret: "emits is_record (publishConnectionSecret E)"
  unfolding publishConnectionSecret_def
  by (intro emits_intros emits_mono [OF emits_connection_data read_record]; simp)

lemma emits_markSynced: "emits is_record (markSynced E rid state hash)"
  unfolding markSynced_def
  by (intro emits_intros emits_publishConnectionSecret emits_mono [OF emits_persistStatus status_record];
      simp)

lemma emits_persistExternalName: "emits (\<lambda>e. is_read e \<or> is_update e) (persistExternalName E name)"
  unfolding persistExternalName_def by (intro emits_intros; simp)

lemma emits_forget_external: "emits is_status (forget_external E token)"
  unfolding forget_external_def by (intro emits_intros emits_persistStatus; simp)

lemma emits_reaches_loop: "emits is_read (reaches_loop E ns target n visited queue)"
proof (induction E ns target n visited queue rule: reaches_loop.induct)
  case (3 E ns target n visited name queue)
  then show ?case by simp (intro conjI impI emits_intros; simp)
qed (simp_all add: emits_intros)

lemma emits_blocking_loop: "emits is_read (blocking_loop E res deps bl)"
proof (induction deps arbitrary: bl)
  case (Cons d deps)
  then show ?case
    by simp (intro emits_intros; simp add: reaches_def emits_reaches_loop emits_intros)
qed (simp add: emits_intros)

lemma emits_blockingDependents: "emits is_read (blockingDependents E)"
  unfolding blockingDependents_def dependentsOf_def blockingUsages_def
  by (intro emits_intros emits_blocking_loop; simp)

section \<open>The reconcile of an object that was read\<close>

text \<open>The operation context of a reconcile.\<close>

definition reconcile_ctx :: "string \<Rightarrow> string \<Rightarrow> op_ctx" where
  "reconcile_ctx ns name = WithNamespace (WithOwner background (ns @ ''/'' @ name)) ns"

lemma run_Reconcile:
  assumes "get_resource E [] (reader E) ns name = Inr res"
  shows "run_state (Reconcile E ns name) \<lparr>obj = x, trace = []\<rparr> =
           run_state (reconcile_object E (reconcile_ctx ns name) res)
             \<lparr>obj = res, trace = [ApiGetResource (reader E) ns name (Inr res)]\<rparr>"
  using assms by (simp add: Reconcile_def Get_resource_def reconcile_ctx_def)

lemma trace_Reconcile:
  assumes "get_resource E [] (reader E) ns name = Inr res"
    "emits_when P A (reconcile_object E (reconcile_ctx ns name) res)" "P res"
    "A (ApiGetResource (reader E) ns name (Inr res))"
  shows "list_all A (trace (snd (run_state (Reconcile E ns name) \<lparr>obj = x, trace = []\<rparr>)))"
proof -
  let ?s = "\<lparr>obj = res, trace = [ApiGetResource (reader E) ns name (Inr res)]\<rparr>"
  obtain es where "trace (snd (run_state (reconcile_object E (reconcile_ctx ns name) res) ?s)) = trace ?s @ es"
    "list_all A es"
    using assms(2,3) unfolding emits_when_def by (metis world.select_convs(1))
  then show ?thesis using assms(4) by (simp add: run_Reconcile [OF assms(1)])
qed

text \<open>
  A paused object is left alone: whatever the environment, reconciling it reads the
  object and writes its status, and calls neither the runner nor an update of the object,
  even while it is being deleted.
\<close>

theorem Reconcile_paused:
  assumes "get_resource E [] (reader E) ns name = Inr res" "paused res"
  shows "list_all is_status (trace (snd (run_state (Reconcile E ns name) \<lparr>obj = x, trace = []\<rparr>)))"
proof -
  have "emits is_status (reconcile_object E (reconcile_ctx ns name) res)"
    unfolding reconcile_object_def if_P [OF assms(2)] by (intro emits_intros emits_persistStatus)
  then show ?thesis
    using trace_Reconcile [OF assms(1), where P = "\<lambda>_. True" and A = is_status] by (simp add: emits_when_emits)
qed

theorem Reconcile_paused_witness:
  "list_all is_status (trace (snd (run_state
     (Reconcile (quiet_env\<lparr>get_resource := (\<lambda>_ _ _ _. Inr (set_annotation annPaused ''true'' (plain_resource ''r'')))\<rparr>)
        ''ns'' ''r'') \<lparr>obj = plain_resource ''x'', trace = []\<rparr>)))"
  by (rule Reconcile_paused [where res = "set_annotation annPaused ''true'' (plain_resource ''r'')"])
     (simp_all add: paused_def annotation_def set_annotation_def plain_resource_def blank_meta_def)

section \<open>A concrete run\<close>

text \<open>
  A live object without an external resource, a schema that admits its properties and a
  provider that creates it, evaluated once for the witnesses.
\<close>

definition demo_schema :: PackageSchema where
  "demo_schema = \<lparr>ps_Name = ''p'', ps_Version = ''1'',
     Resources = [(''p:m:T'', \<lparr>InputProperties = [], RequiredInputs = [], rs_Outputs = [], IsComponent = False\<rparr>)]\<rparr>"

definition live_meta :: ObjectMeta where
  "live_meta = blank_meta\<lparr>om_Name := ''r'', om_Namespace := ''ns'', om_Finalizers := [doResourceFinalizer]\<rparr>"

definition live_resource :: DoResource where
  "live_resource = \<lparr>meta = live_meta, spec = blank_spec, status = blank_status\<rparr>"

definition create_env :: env where
  "create_env = quiet_env\<lparr>retry_steps := 0, get_resource := (\<lambda>_ _ _ _. Inr live_resource), schemas_get := (\<lambda>_ _ _ _. Inr demo_schema),
     runner_Create := (\<lambda>_ _ _ _ _. Inr (''id-1'', Some [(''a'', JNull)]))\<rparr>"

lemmas reconcile_defs = Reconcile_def reconcile_object_def reconcile_live_def reconcile_external_def reconcileCreate_def
  resolveProvider_def getProvider_def applyReferences_def stageSecretInputs_def mixSecretVersions_def
  persistExternalName_def markSynced_def persistStatus_def publishConnectionSecret_def call_defs set_condition_def
  decodeProperties_def secretIDTerminal_def externalName_def IgnoreNotFound_def

lemma create_env_simps [simp]:
  "get_resource create_env tr rd ns n = Inr live_resource"
  "schemas_get create_env tr c p t = Inr demo_schema"
  "runner_Create create_env tr c p t q = Inr (''id-1'', Some [(''a'', JNull)])"
  "update_resource create_env tr r = Inr r" "update_status create_env tr r = None"
  "ContainsFinalizer create_env m f = (f \<in> set (om_Finalizers m))"
  "retry_steps create_env = 0" "FindStatusCondition create_env = std_FindStatusCondition"
  by (simp_all add: create_env_def quiet_env_def)

lemma live_resource_simps [simp]:
  "meta live_resource = live_meta" "spec live_resource = blank_spec" "status live_resource = blank_status"
  "om_Name live_meta = ''r''" "om_Namespace live_meta = ''ns''" "om_Finalizers live_meta = [doResourceFinalizer]"
  "om_Deleting live_meta = False" "annotation live_meta k = []" "paused live_resource = False"
  by (simp_all add: live_resource_def live_meta_def annotation_def blank_meta_def paused_def annPaused_def)

lemma blank_spec_simps [simp]:
  "spec_Type blank_spec = ''p:m:T''" "spec_Package blank_spec = ''p@1''" "spec_ProviderRef blank_spec = None"
  "spec_Properties blank_spec = None" "spec_References blank_spec = []" "spec_ValuesFrom blank_spec = []"
  "spec_WriteConnectionSecretToRef blank_spec = None" "st_ID blank_status = []" "st_Conditions blank_status = []"
  by (simp_all add: blank_spec_def blank_status_def)

lemma demo_schema_simps [simp]:
  "Validate demo_schema ''p:m:T'' [] = Inr []"
  "gomap_get (Resources demo_schema) ''p:m:T'' = Some \<lparr>InputProperties = [], RequiredInputs = [], rs_Outputs = [], IsComponent = False\<rparr>"
  by (simp_all add: Validate_def demo_schema_def)

lemma pinned_demo: "PackagePinned ''p@1''"
  by code_simp

lemma kept_fields [simp]:
  "meta (setCondition E res t cs r m) = meta res" "spec (setCondition E res t cs r m) = spec res"
  "spec (set_annotation k v res) = spec res"
  by (simp_all add: setCondition_def set_annotation_def)

lemma poll_default [simp]:
  "meta r = meta (set_annotation annExternalName ''id-1'' live_resource) \<Longrightarrow>
   pollInterval create_env r d = (d, True)"
  by (simp add: pollInterval_def set_annotation_def annotation_def live_meta_def blank_meta_def annExternalName_def annPollInterval_def)

lemma create_demo: "RunCreate (reconcile_ctx ''ns'' ''r'') ''p:m:T'' ''p@1'' [] (Inr (''id-1'', Some [(''a'', JNull)]))
  \<in> set (trace (snd (run_state (Reconcile create_env ''ns'' ''r'') \<lparr>obj = live_resource, trace = []\<rparr>)))"
  by (simp add: reconcile_defs reconcile_ctx_def Let_def pinned_demo std_FindStatusCondition_def)

section \<open>The provider only sees validated inputs\<close>

text \<open>The resource type and properties a call hands to the provider.\<close>

fun provider_inputs :: "event \<Rightarrow> (string \<times> jobj) option" where
  "provider_inputs (RunCreate _ token _ props _) = Some (token, props)"
| "provider_inputs (RunPatch _ token _ _ props _) = Some (token, props)"
| "provider_inputs (RunCreateComponent _ token _ props _) = Some (token, props)"
| "provider_inputs (RunUpdateComponent _ token _ props _ _) = Some (token, props)"
| "provider_inputs _ = None"

definition validated :: "string \<Rightarrow> jobj \<Rightarrow> event list \<Rightarrow> bool" where
  "validated token props tr =
     (\<exists>ctx pkg schema. SchemaGet ctx pkg token (Inr schema) \<in> set tr \<and> Validate schema token props = Inr [])"

definition inputs_validated :: "event list \<Rightarrow> event \<Rightarrow> bool" where
  "inputs_validated past e =
     (case provider_inputs e of None \<Rightarrow> True | Some (token, props) \<Rightarrow> validated token props past)"

abbreviation inputs_from :: "string \<Rightarrow> jobj \<Rightarrow> event \<Rightarrow> bool" where
  "inputs_from token props e \<equiv> provider_inputs e = None \<or> provider_inputs e = Some (token, props)"

lemma record_no_inputs: "is_record e \<Longrightarrow> provider_inputs e = None"
  by (cases e) auto

lemma read_no_inputs: "is_read e \<Longrightarrow> provider_inputs e = None"
  by (cases e) auto

lemma status_no_inputs: "is_status e \<Longrightarrow> provider_inputs e = None"
  by (cases e) auto

lemma update_no_inputs: "is_read e \<or> is_update e \<Longrightarrow> provider_inputs e = None"
  by (cases e) auto

lemma emits_record_inputs:
  "emits (inputs_from token props) (markSynced E rid state hash)"
  "emits (inputs_from token props) (markSyncFailed E reason err b)"
  "emits (inputs_from token props) (forget_external E t)"
  "emits (inputs_from token props) (persistExternalName E name)"
  "emits (inputs_from token props) (mixSecretVersions E h)"
  by (auto intro: emits_mono [OF emits_markSynced] emits_mono [OF emits_markSyncFailed]
      emits_mono [OF emits_forget_external] emits_mono [OF emits_persistExternalName]
      emits_mono [OF emits_mixSecretVersions] record_no_inputs read_no_inputs status_no_inputs update_no_inputs)

lemma emits_reconcile_external_inputs:
  "emits (inputs_from token props) (reconcile_external E ctx token pkg schema props)"
  unfolding reconcile_external_def reconcileComponent_def reconcileCreate_def adoptExternal_def
    reconcile_patch_def reconcileReplacement_def replace_create_def reconcile_read_def
  by (intro emits_intros emits_record_inputs; simp)

lemma validated_mono: "validated token props tr \<Longrightarrow> validated token props (tr @ es)"
  by (auto simp: validated_def)

lemma guarded_reconcile_external:
  "valid (\<lambda>s. guarded inputs_validated (trace s) \<and> validated token props (trace s))
     (reconcile_external E ctx token pkg schema props) (\<lambda>_ s. guarded inputs_validated (trace s))"
  by (rule valid_post [OF valid_guarded [where K = "validated token props", OF emits_reconcile_external_inputs]])
     (auto simp: inputs_validated_def validated_mono)

lemma guarded_no_inputs:
  "emits (\<lambda>e. provider_inputs e = None) m \<Longrightarrow>
   valid (\<lambda>s. guarded inputs_validated (trace s)) m (\<lambda>_ s. guarded inputs_validated (trace s))"
  by (erule valid_emits) (auto simp: inputs_validated_def list_all_iff intro!: guarded_append)

lemma guarded_Schemas_Get:
  "valid (\<lambda>s. guarded inputs_validated (trace s)) (Schemas_Get E ctx pkg token)
     (\<lambda>r s. guarded inputs_validated (trace s) \<and>
            (\<forall>schema. r = Inr schema \<longrightarrow> SchemaGet ctx pkg token (Inr schema) \<in> set (trace s)))"
  by (rule validI) (auto simp: Schemas_Get_def guarded_snoc inputs_validated_def)

abbreviation keeps_guard :: "'a rec \<Rightarrow> bool" where
  "keeps_guard m \<equiv> valid (\<lambda>s. guarded inputs_validated (trace s)) m (\<lambda>_ s. guarded inputs_validated (trace s))"

lemma keeps_guard_bind: "keeps_guard m \<Longrightarrow> (\<And>x. keeps_guard (f x)) \<Longrightarrow> keeps_guard (m \<bind> f)"
  by (rule valid_bind)

lemma emits_no_inputs:
  "emits (\<lambda>e. provider_inputs e = None) (markSyncFailed E reason err b)"
  "emits (\<lambda>e. provider_inputs e = None) (applyReferences E ctx props)"
  "emits (\<lambda>e. provider_inputs e = None) (stageSecretInputs E ctx props)"
  "emits (\<lambda>e. provider_inputs e = None) (resolveProvider E ctx pkg token)"
  "emits (\<lambda>e. provider_inputs e = None) (persistStatus E)"
  by (auto intro: emits_mono [OF emits_markSyncFailed] emits_mono [OF emits_applyReferences]
        emits_mono [OF emits_stageSecretInputs] emits_mono [OF emits_resolveProvider]
        emits_mono [OF emits_persistStatus] status_no_inputs)

lemma keeps_guard_prims:
  "keeps_guard (Eventf t reason msg)" "keeps_guard get_obj" "keeps_guard (ret x)"
  "keeps_guard (put_obj res)" "keeps_guard (modify_obj g)" "keeps_guard (Update_resource E res)"
  "keeps_guard (set_condition E ct cs reason msg)" "keeps_guard (Get_resource E rd ns name)"
  by (intro guarded_no_inputs emits_intros; simp)+

lemmas keeps_guard_record = emits_no_inputs [THEN guarded_no_inputs] keeps_guard_prims

lemma keeps_guard_external:
  "keeps_guard (do { sch \<leftarrow> Schemas_Get E ctx pkg' token;
      (case sch of
         Inl e \<Rightarrow> markSyncFailed E ''SchemaUnavailable'' e True
       | Inr schema \<Rightarrow>
           (case Validate schema token props of
              Inl e \<Rightarrow> markSyncFailed E ''UnknownResourceType'' e False
            | Inr violations \<Rightarrow>
                if violations \<noteq> [] then markSyncFailed E ''ValidationFailed'' (msg schema violations) False
                else reconcile_external E ctx token pkg schema props)) })"
proof (rule valid_bind [OF _ guarded_Schemas_Get], rule valid_sum)
  fix sch schema
  assume sch: "sch = (Inr schema :: PackageSchema result)"
  show "valid (\<lambda>s. guarded inputs_validated (trace s) \<and>
          (\<forall>schema. sch = Inr schema \<longrightarrow> SchemaGet ctx pkg' token (Inr schema) \<in> set (trace s)))
       (case Validate schema token props of
              Inl e \<Rightarrow> markSyncFailed E ''UnknownResourceType'' e False
            | Inr violations \<Rightarrow>
                if violations \<noteq> [] then markSyncFailed E ''ValidationFailed'' (msg schema violations) False
                else reconcile_external E ctx token pkg schema props)
       (\<lambda>_ s. guarded inputs_validated (trace s))"
  proof (cases "Validate schema token props = Inr []")
    case True
    have "valid (\<lambda>s. guarded inputs_validated (trace s) \<and>
          (\<forall>schema. sch = Inr schema \<longrightarrow> SchemaGet ctx pkg' token (Inr schema) \<in> set (trace s)))
          (reconcile_external E ctx token pkg schema props) (\<lambda>_ s. guarded inputs_validated (trace s))"
      by (rule valid_weaken [OF guarded_reconcile_external])
         (use sch True in \<open>auto simp: validated_def\<close>)
    with True show ?thesis by simp
  next
    case False
    show ?thesis
      by (rule valid_weaken [where P' = "\<lambda>s. guarded inputs_validated (trace s)"])
         (use False in \<open>auto intro!: keeps_guard_record split: sum.split\<close>)
  qed
qed (auto intro!: valid_weaken [OF keeps_guard_record(1)])

lemma keeps_guard_live: "keeps_guard (reconcile_live E ctx pkg token)"
  unfolding reconcile_live_def
  by (intro keeps_guard_bind keeps_guard_record keeps_guard_external valid_if valid_option valid_sum valid_prod)

lemma emits_delete_external: "emits (\<lambda>e. provider_inputs e = None) (delete_external E ctx pkg)"
  unfolding delete_external_def by (intro emits_intros; simp)

lemma emits_reconcileDelete: "emits (\<lambda>e. provider_inputs e = None) (reconcileDelete E ctx pkg)"
  unfolding reconcileDelete_def
  by (intro emits_intros emits_delete_external emits_mono [OF emits_blockingDependents read_no_inputs]
        emits_mono [OF emits_persistStatus status_no_inputs]; simp)

lemma keeps_guard_Reconcile: "keeps_guard (Reconcile E ns name)"
  unfolding Reconcile_def reconcile_object_def
  by (intro keeps_guard_bind keeps_guard_record keeps_guard_live guarded_no_inputs [OF emits_reconcileDelete]
        valid_if valid_option valid_sum valid_prod)

text \<open>
  C31: In every reconcile, under every environment, each create, patch or component call
  hands the provider exactly properties that were validated without violation, before the
  call, against a schema fetched in the same reconcile.
\<close>

theorem Reconcile_validates_inputs:
  "\<forall>pre e post token props.
     trace (snd (run_state (Reconcile E ns name) \<lparr>obj = x, trace = []\<rparr>)) = pre @ e # post \<longrightarrow>
     provider_inputs e = Some (token, props) \<longrightarrow>
     (\<exists>ctx pkg schema. SchemaGet ctx pkg token (Inr schema) \<in> set pre \<and> Validate schema token props = Inr [])"
proof (intro allI impI)
  fix pre e post token props
  let ?s = "\<lparr>obj = x, trace = []\<rparr>"
  assume tr: "trace (snd (run_state (Reconcile E ns name) ?s)) = pre @ e # post"
    and e: "provider_inputs e = Some (token, props)"
  obtain a s' where r: "run_state (Reconcile E ns name) ?s = (a, s')" by fastforce
  have "guarded inputs_validated (trace s')"
    using validD [OF keeps_guard_Reconcile _ r] by simp
  then have "inputs_validated pre e" using tr r by (auto dest: guarded_split)
  with e show "\<exists>ctx pkg schema. SchemaGet ctx pkg token (Inr schema) \<in> set pre \<and> Validate schema token props = Inr []"
    by (simp add: inputs_validated_def validated_def)
qed

theorem Reconcile_validates_inputs_witness:
  "\<exists>ctx pkg schema pre post.
     trace (snd (run_state (Reconcile create_env ''ns'' ''r'') \<lparr>obj = live_resource, trace = []\<rparr>)) =
       pre @ RunCreate (reconcile_ctx ''ns'' ''r'') ''p:m:T'' ''p@1'' []
              (Inr (''id-1'', Some [(''a'', JNull)])) # post \<and>
     SchemaGet ctx pkg ''p:m:T'' (Inr schema) \<in> set pre \<and> Validate schema ''p:m:T'' [] = Inr []"
proof -
  obtain pre post where tr:
    "trace (snd (run_state (Reconcile create_env ''ns'' ''r'') \<lparr>obj = live_resource, trace = []\<rparr>)) =
       pre @ RunCreate (reconcile_ctx ''ns'' ''r'') ''p:m:T'' ''p@1'' []
              (Inr (''id-1'', Some [(''a'', JNull)])) # post"
    using split_list [OF create_demo] by blast
  then show ?thesis using Reconcile_validates_inputs [rule_format, OF tr] by (metis provider_inputs.simps(1))
qed

end
