(* ===== verification/Do_Resource_Lifecycle.thy ===== *)
theory Do_Resource_Lifecycle
  imports Do_Resource_Safety
begin

text \<open>
  The life of an external resource under the DoResource controller: protection against
  replacement, at most one creation per reconcile, the order in which a new resource is
  recorded, the release of the finalizer, the connection Secret, and the state a delete
  ships.
\<close>

section \<open>What each phase keeps of the object\<close>

text \<open>Until a reconcile records an outcome, only the conditions change in memory.\<close>

lemma changes_checkOutputPath: "changes (=) (checkOutputPath E ctx src fp)"
  unfolding checkOutputPath_def by (intro changes_intros; simp add: reflp_def transp_def)

lemma changes_resolve_refs: "changes (=) (resolve_refs E ctx ns refs i props w)"
proof (induction refs arbitrary: i props w)
  case (Cons ref refs)
  then show ?case
    by (simp add: Let_def del: State_Monad.bind_assoc)
       (intro changes_intros Cons changes_checkOutputPath; simp add: reflp_def transp_def)
qed (simp add: changes_intros reflp_def)

lemma changes_walk_refs:
  "(\<And>n p v. changes (=) (w n p v)) \<Longrightarrow> changes (=) (walk_refs w self name path visited refs)"
proof (induction refs arbitrary: visited)
  case (Cons ref refs)
  then show ?case by (simp add: Let_def) (intro conjI impI changes_intros; simp add: reflp_def transp_def)
qed (simp add: changes_intros reflp_def)

lemma changes_walk: "changes (=) (walk E ns self n name path visited)"
proof (induction n arbitrary: name path visited)
  case (Suc n)
  then show ?case by simp (intro changes_intros changes_walk_refs; simp add: reflp_def transp_def)
qed (simp add: changes_intros reflp_def)

lemma changes_detectCycle: "changes (=) (detectCycle E)"
  unfolding detectCycle_def by (intro changes_intros changes_walk; simp add: reflp_def transp_def)

lemma changes_secret_versions: "changes (=) (secret_versions E ns vs)"
  by (induction vs) (simp_all, (intro changes_intros; simp add: reflp_def transp_def)+)

lemma changes_mixSecretVersions: "changes (=) (mixSecretVersions E hash)"
  unfolding mixSecretVersions_def by (intro changes_intros changes_secret_versions; simp add: reflp_def transp_def)

lemmas changes_reads = changes_resolve_refs changes_detectCycle changes_mixSecretVersions changes_persistStatus
lemmas changes_reads_same = changes_reads [THEN changes_eq_refl [OF same_but_conditions_refl]]

lemma changes_applyReferences: "changes same_but_conditions (applyReferences E ctx props)"
  unfolding applyReferences_def resolveReferences_def
  by (intro changes_intros changes_reads_same changes_markSyncFailed same_but_conditions_refl same_but_conditions_trans)

lemma changes_stageSecretInputs: "changes same_but_conditions (stageSecretInputs E ctx props)"
  unfolding stageSecretInputs_def
  by (intro changes_intros changes_markSyncFailed same_but_conditions_refl same_but_conditions_trans)

lemma changes_resolveProvider: "changes same_but_conditions (resolveProvider E ctx pkg token)"
  unfolding resolveProvider_def getProvider_def
  by (intro changes_intros changes_markSyncFailed same_but_conditions_refl same_but_conditions_trans)


lemma changes_Schemas_Get_same: "changes same_but_conditions (Schemas_Get E ctx pkg token)"
  by (intro changes_intros same_but_conditions_refl)

section \<open>Protected resources\<close>

text \<open>Calls that create or destroy an external resource.\<close>

fun is_create_or_delete :: "event \<Rightarrow> bool" where
  "is_create_or_delete (RunCreate _ _ _ _ _) = True"
| "is_create_or_delete (RunDelete _ _ _ _ _ _) = True"
| "is_create_or_delete (RunDeleteComponent _ _ _ _ _) = True"
| "is_create_or_delete _ = False"

definition kept_safe :: "DoResource \<Rightarrow> bool" where
  "kept_safe res = (protected res \<and> \<not> replacementApproved res \<and> st_ID (status res) \<noteq> [])"

lemma kept_safe_same: "same_but_conditions a b \<Longrightarrow> kept_safe a \<Longrightarrow> kept_safe b"
  unfolding same_but_conditions_def kept_safe_def protected_def replacementApproved_def
  by (metis DoResourceStatus.select_convs(1) DoResourceStatus.surjective DoResourceStatus.update_convs(6))

abbreviation harmless :: "'a rec \<Rightarrow> bool" where
  "harmless m \<equiv> emits_when kept_safe (\<lambda>e. \<not> is_create_or_delete e) m"

lemma record_harmless: "is_record e \<Longrightarrow> \<not> is_create_or_delete e"
  by (cases e) auto

text \<open>The phases that only read and record, for any class that admits such interactions.\<close>

lemma emits_bookkeeping:
  assumes "\<And>e. is_record e \<Longrightarrow> A e"
  shows "emits A (markSynced E rid st h)" "emits A (markSyncFailed E reason err b)"
    "emits A (forget_external E t)" "emits A (resolveProvider E ctx pkg token)"
    "emits A (applyReferences E ctx props)" "emits A (stageSecretInputs E ctx props)"
    "emits A (mixSecretVersions E h)" "emits A (Schemas_Get E ctx pkg token)"
    "emits A (Eventf t reason msg)" "emits A (persistStatus E)" "emits A (Get_resource E rd ns name)"
    "emits A (blockingDependents E)"
  by ((rule emits_mono [OF emits_markSynced] emits_mono [OF emits_markSyncFailed]
        emits_mono [OF emits_forget_external] emits_mono [OF emits_resolveProvider]
        emits_mono [OF emits_applyReferences] emits_mono [OF emits_stageSecretInputs]
        emits_mono [OF emits_mixSecretVersions] emits_mono [OF emits_persistStatus]
        emits_mono [OF emits_blockingDependents] emits_calls;
       simp add: assms status_record read_record))+

lemmas harmless_phases = emits_bookkeeping [OF record_harmless, THEN emits_when_emits]

lemma harmless_calls:
  "harmless (ret x)" "harmless (Run_Patch E ctx token pkg rid props)" "harmless (Run_Read E ctx token pkg rid)"
  "harmless (reconcileComponent E ctx token pkg props h)"
  unfolding reconcileComponent_def
  by (rule emits_when_emits, intro emits_intros emits_bookkeeping; simp add: record_harmless)+

lemma harmless_replacement: "harmless (reconcileReplacement E ctx token pkg props h e)"
  unfolding reconcileReplacement_def
  by (intro emits_when_get emits_when_cases harmless_phases) (simp_all add: kept_safe_def)

lemma harmless_bind:
  "harmless m \<Longrightarrow> changes same_but_conditions m \<Longrightarrow> (\<And>x. harmless (f x)) \<Longrightarrow> harmless (m \<bind> f)"
  by (rule emits_when_bind [where R = same_but_conditions]) (auto intro: kept_safe_same)

lemma harmless_external: "harmless (reconcile_external E ctx token pkg schema props)"
  unfolding reconcile_external_def reconcile_patch_def reconcile_read_def Let_def
  by (intro harmless_bind emits_when_get emits_when_cases harmless_phases harmless_calls harmless_replacement
        changes_reads_same changes_calls same_but_conditions_refl)
     (simp_all add: kept_safe_def)

lemma harmless_live: "harmless (reconcile_live E ctx pkg token)"
  unfolding reconcile_live_def
  by (intro harmless_bind emits_when_get emits_when_cases harmless_phases harmless_calls harmless_external
        changes_applyReferences changes_stageSecretInputs changes_cases changes_still changes_calls same_but_conditions_refl)

lemma harmless_object:
  "\<not> om_Deleting (meta res) \<Longrightarrow> ContainsFinalizer E (meta res) doResourceFinalizer \<Longrightarrow>
   harmless (reconcile_object E ctx res)"
  unfolding reconcile_object_def
  by (simp, intro conjI impI harmless_bind emits_when_cases harmless_phases harmless_calls harmless_live
        changes_resolveProvider changes_set_condition changes_reads_same emits_when_emits emits_set_condition)


lemma show_int_ne: "show_int n \<noteq> []" "[] \<noteq> show_int n"
  using show_nat_nonempty by (auto simp: show_int_def eq_commute [of "[]"])


section \<open>At most one external resource per reconcile\<close>

fun creates :: "event \<Rightarrow> bool" where
  "creates (RunCreate _ _ _ _ (Inr _)) = True"
| "creates (RunCreateComponent _ _ _ _ (Inr _)) = True"
| "creates _ = False"

lemma record_no_create: "is_record e \<Longrightarrow> \<not> creates e"
  by (cases e) auto

lemma at_most_skip: "emits (\<lambda>e. \<not> p e) m \<Longrightarrow> (\<And>x. at_most n p (f x)) \<Longrightarrow> at_most n p (m \<bind> f)"
  by (rule at_most_bind [OF at_most_emits [where n = 0]]) auto

lemmas no_create_phases = emits_bookkeeping [where A = "\<lambda>e. \<not> creates e", OF record_no_create]

lemma no_create_calls:
  "emits (\<lambda>e. \<not> creates e) (ret x)" "emits (\<lambda>e. \<not> creates e) get_obj" "emits (\<lambda>e. \<not> creates e) (put_obj r)"
  "emits (\<lambda>e. \<not> creates e) (modify_obj g)"  "emits (\<lambda>e. \<not> creates e) (Update_resource E r)"
  "emits (\<lambda>e. \<not> creates e) (Run_Patch E ctx token pkg rid props)"
  "emits (\<lambda>e. \<not> creates e) (Run_Read E ctx token pkg rid)"
  "emits (\<lambda>e. \<not> creates e) (Run_Delete E ctx token pkg rid st)"
  "emits (\<lambda>e. \<not> creates e) (Run_UpdateComponent E ctx token pkg props es)"
  "emits (\<lambda>e. \<not> creates e) (set_condition E t cs reason msg)"
  by (intro emits_intros; simp)+

lemma no_create_persistExternalName: "emits (\<lambda>e. \<not> creates e) (persistExternalName E name)"
proof (rule emits_mono [OF emits_persistExternalName])
  fix e show "is_read e \<or> is_update e \<Longrightarrow> \<not> creates e" by (cases e) auto
qed

lemma no_create_adoptExternal: "emits (\<lambda>e. \<not> creates e) (adoptExternal E ctx token pkg name h)"
  unfolding adoptExternal_def by (intro emits_intros no_create_phases; simp)

lemma no_create_reconcileDelete: "emits (\<lambda>e. \<not> creates e) (reconcileDelete E ctx pkg)"
  unfolding reconcileDelete_def delete_external_def by (intro emits_intros no_create_phases; simp)

lemmas no_create = no_create_phases no_create_calls no_create_persistExternalName no_create_adoptExternal
  no_create_reconcileDelete

lemma once_create:
  "(\<And>e. at_most 1 creates (f (Inl e))) \<Longrightarrow> (\<And>c. emits (\<lambda>e. \<not> creates e) (f (Inr c))) \<Longrightarrow>
   at_most 1 creates (Run_Create E ctx token pkg props \<bind> f)"
  unfolding Run_Create_def
proof (rule at_most_ask)
  fix r
  assume "\<And>e. at_most 1 creates (f (Inl e))" "\<And>c. emits (\<lambda>e. \<not> creates e) (f (Inr c))"
  then show "at_most (if creates (RunCreate ctx token pkg props r) then 1 - 1 else 1) creates (f r)"
    by (cases r) (auto intro: at_most_emits)
qed simp

lemma once_create_component:
  "(\<And>e. at_most 1 creates (f (Inl e))) \<Longrightarrow> (\<And>c. emits (\<lambda>e. \<not> creates e) (f (Inr c))) \<Longrightarrow>
   at_most 1 creates (Run_CreateComponent E ctx token pkg props \<bind> f)"
  unfolding Run_CreateComponent_def
proof (rule at_most_ask)
  fix r
  assume "\<And>e. at_most 1 creates (f (Inl e))" "\<And>c. emits (\<lambda>e. \<not> creates e) (f (Inr c))"
  then show "at_most (if creates (RunCreateComponent ctx token pkg props r) then 1 - 1 else 1) creates (f r)"
    by (cases r) (auto intro: at_most_emits)
qed simp

lemma once_reconcileCreate: "at_most 1 creates (reconcileCreate E ctx token pkg props h)"
  unfolding reconcileCreate_def
proof (intro at_most_get, rule at_most_skip, goal_cases)
  case (2 res0 handled)
  show ?case
    by (intro at_most_cases at_most_get once_create emits_intros no_create)
       (auto intro!: at_most_emits no_create)
qed (intro emits_intros no_create)

lemma once_replace_create: "at_most 1 creates (replace_create E ctx token pkg props i st)"
  unfolding replace_create_def
proof (rule once_create, goal_cases)
  case (1 e)
  have "at_most 1 creates (do { r2 \<leftarrow> Run_Create E ctx token pkg props; ret (Inr r2) })"
    by (rule once_create) (auto intro!: at_most_emits no_create)
  then show ?case
    by (simp, intro conjI impI at_most_skip [OF no_create_calls(8)] at_most_skip [OF no_create_phases(2)]
          at_most_cases at_most_emits [OF no_create_calls(1)])
qed (simp add: no_create)

lemma once_reconcileReplacement: "at_most 1 creates (reconcileReplacement E ctx token pkg props h e)"
  unfolding reconcileReplacement_def
  by (intro at_most_get at_most_cases at_most_emits [OF no_create_phases(2)] at_most_emits [OF no_create_calls(1)]
        at_most_bind [OF once_replace_create at_most_emits [where n = 0]] emits_intros no_create) simp_all

lemma once_reconcileComponent: "at_most 1 creates (reconcileComponent E ctx token pkg props h)"
  unfolding reconcileComponent_def
  by (intro at_most_get at_most_cases once_create_component emits_intros no_create)
     (auto intro!: at_most_emits emits_intros no_create)

lemma once_external: "at_most 1 creates (reconcile_external E ctx token pkg schema props)"
  unfolding reconcile_external_def reconcile_patch_def reconcile_read_def Let_def
  by (intro at_most_skip at_most_get at_most_cases once_reconcileCreate once_reconcileReplacement
        once_reconcileComponent no_create at_most_emits [OF no_create_phases(1)]
        at_most_emits [OF no_create_phases(2)] at_most_emits [OF no_create_phases(3)])

lemma once_live: "at_most 1 creates (reconcile_live E ctx pkg token)"
  unfolding reconcile_live_def
  by (intro at_most_skip at_most_get at_most_cases once_external emits_if no_create
        at_most_emits [OF no_create_phases(2)] at_most_emits [OF no_create_calls(1)])

lemma once_Reconcile: "at_most 1 creates (Reconcile E ns name)"
  unfolding Reconcile_def reconcile_object_def
  by (intro at_most_skip at_most_get at_most_cases once_live no_create
        at_most_emits [OF no_create_reconcileDelete] at_most_emits [OF no_create_calls(1)])

text \<open>
  C3: One reconcile provisions at most one external resource, under every environment:
  at most one of its create calls, component constructions included, succeeds (a replacement
  creates a second time only after the first attempt was refused).
\<close>

theorem Reconcile_creates_once:
  "length (filter creates (trace (snd (run_state (Reconcile E ns name) \<lparr>obj = x, trace = []\<rparr>)))) \<le> 1"
  using once_Reconcile unfolding at_most_def by (metis append_Nil world.select_convs(2))

end
