(* ===== verification/Do_Resource_Order.thy ===== *)
theory Do_Resource_Order
  imports Do_Resource_Lifecycle
begin

text \<open>
  The order of a reconcile's durable effects: a created resource is named on the object
  before any status is written, the finalizer goes only when the external resource is out of
  the way, the connection Secret is written only when it is owned, and the state shipped with
  a delete carries no secret input.
\<close>

section \<open>A created resource is recorded before its status\<close>

text \<open>
  The interactions that show the id of a created resource to be durable: the object was
  read or written with it as its external name, or the object no longer exists.
\<close>

fun shows_name :: "string \<Rightarrow> event \<Rightarrow> bool" where
  "shows_name rid (ApiGetResource _ _ _ (Inr res)) = (externalName res = rid)"
| "shows_name rid (ApiGetResource _ _ _ (Inl e)) = IsNotFound e"
| "shows_name rid (ApiUpdate res (Inr stored)) = (externalName res = rid \<or> externalName stored = rid)"
| "shows_name rid _ = False"

fun created_id :: "event \<Rightarrow> string option" where
  "created_id (RunCreate _ _ _ _ (Inr (rid, _))) = Some rid"
| "created_id _ = None"

definition named :: "event list \<Rightarrow> bool" where
  "named tr = (\<forall>e \<in> set tr. \<forall>rid. created_id e = Some rid \<longrightarrow> (\<exists>f \<in> set tr. shows_name rid f))"

fun writes_status :: "event \<Rightarrow> bool" where
  "writes_status (ApiUpdateStatus _ _) = True"
| "writes_status _ = False"

definition status_after_name :: "event list \<Rightarrow> event \<Rightarrow> bool" where
  "status_after_name past e = (writes_status e \<longrightarrow> named past)"

lemma status_after_nameI: "named past \<Longrightarrow> status_after_name past e"
  by (simp add: status_after_name_def)

definition name_seen :: "(DoResource, event) world \<Rightarrow> bool" where
  "name_seen s = (\<exists>f \<in> set (trace s). shows_name (externalName (obj s)) f)"

text \<open>Before anything is created, and once everything created is named.\<close>

definition before_create :: "(DoResource, event) world \<Rightarrow> bool" where
  "before_create s = (guarded status_after_name (trace s) \<and> list_all (\<lambda>e. created_id e = None) (trace s) \<and> name_seen s)"

definition all_named :: "(DoResource, event) world \<Rightarrow> bool" where
  "all_named s = (guarded status_after_name (trace s) \<and> named (trace s))"

lemma before_create_named: "before_create s \<Longrightarrow> all_named s"
  by (auto simp: before_create_def all_named_def named_def list_all_iff)

lemma named_append: "named tr \<Longrightarrow> list_all (\<lambda>e. created_id e = None) es \<Longrightarrow> named (tr @ es)"
  unfolding named_def list_all_iff by fastforce

lemma guarded_named_append:
  assumes "guarded status_after_name tr" "named tr" "list_all (\<lambda>e. created_id e = None) es"
  shows "guarded status_after_name (tr @ es)"
  using assms
proof (induction es rule: rev_induct)
  case (snoc e es)
  then have "guarded status_after_name (tr @ es)" "named (tr @ es)" by (auto intro: named_append)
  then show ?case by (simp add: guarded_snoc status_after_nameI flip: append_assoc)
qed simp

abbreviation makes_nothing :: "'a rec \<Rightarrow> bool" where
  "makes_nothing m \<equiv> emits (\<lambda>e. created_id e = None) m"

lemma keeps_all_named: "makes_nothing m \<Longrightarrow> valid all_named m (\<lambda>_. all_named)"
  unfolding all_named_def
  by (rule valid_emits [where I = "\<lambda>tr. guarded status_after_name tr \<and> named tr"])
     (auto intro: guarded_named_append named_append)

lemma keeps_before_create:
  assumes "makes_nothing m" "changes (\<lambda>a b. meta a = meta b) m"
  shows "valid before_create m (\<lambda>_. before_create)"
proof (rule validI)
  fix s a s'
  assume b: "before_create s" and r: "run_state m s = (a, s')"
  obtain es where es: "trace s' = trace s @ es" "list_all (\<lambda>e. created_id e = None) es"
    using emitsD [OF assms(1), of s] r by auto
  have "all_named s" using b by (rule before_create_named)
  then have "guarded status_after_name (trace s')"
    using es by (simp add: all_named_def guarded_named_append)
  moreover have "externalName (obj s') = externalName (obj s)"
    using changesD [OF assms(2) r] by (simp add: externalName_def)
  ultimately show "before_create s'" using b es by (auto simp: before_create_def name_seen_def)
qed

text \<open>While the external name is being written.\<close>

definition naming :: "string \<Rightarrow> event list \<Rightarrow> bool" where
  "naming name tr =
     (guarded status_after_name tr \<and> (\<forall>e \<in> set tr. \<forall>rid. created_id e = Some rid \<longrightarrow> rid = name))"

lemma naming_done: "naming name (trace s) \<Longrightarrow> f \<in> set (trace s) \<Longrightarrow> shows_name name f \<Longrightarrow> all_named s"
  by (auto simp: naming_def all_named_def named_def)

lemma naming_snoc: "naming name tr \<Longrightarrow> created_id e = None \<Longrightarrow> \<not> writes_status e \<Longrightarrow> naming name (tr @ [e])"
  by (auto simp: naming_def guarded_snoc status_after_name_def)

lemma valid_retry:
  assumes "valid P fn (\<lambda>err s. if err = None then Q s else P s)"
  shows "valid P (retry again n fn) (\<lambda>err s. if err = None then Q s else P s)"
proof (induction n)
  case (Suc n)
  show ?case
    unfolding retry.simps
  proof (rule valid_bind [OF _ assms], rule valid_option)
    fix err :: "error option" and e
    assume "err = Some e"
    then show "valid (\<lambda>s. if err = None then Q s else P s)
        (do { tr \<leftarrow> State (\<lambda>s. (trace s, s)); if again tr e then retry again n fn else ret (Some e) })
        (\<lambda>err s. if err = None then Q s else P s)"
      using Suc by (auto simp: valid_def split: prod.splits)
  qed (auto simp: valid_def)
qed (simp add: assms)

lemma naming_attempt:
  "valid (\<lambda>s. naming name (trace s))
     (do { r \<leftarrow> Get_resource E rd ns n;
           case r of
             Inl e \<Rightarrow> ret (IgnoreNotFound (Some e))
           | Inr latest \<Rightarrow>
               do { u \<leftarrow> Update_resource E (set_annotation annExternalName name latest);
                    ret (case u of Inl e \<Rightarrow> Some e | Inr _ \<Rightarrow> None) } })
     (\<lambda>err s. if err = None then all_named s else naming name (trace s))"
proof (rule validI)
  fix s :: "(DoResource, event) world" and a s'
  assume n: "naming name (trace s)"
    and r: "run_state (do { r \<leftarrow> Get_resource E rd ns n;
           case r of
             Inl e \<Rightarrow> ret (IgnoreNotFound (Some e))
           | Inr latest \<Rightarrow>
               do { u \<leftarrow> Update_resource E (set_annotation annExternalName name latest);
                    ret (case u of Inl e \<Rightarrow> Some e | Inr _ \<Rightarrow> None) } }) s = (a, s')"
  have x: "externalName (set_annotation annExternalName name latest) = name" for latest
    by (simp add: externalName_def annotation_def set_annotation_def gomap_simps)
  show "if a = None then all_named s' else naming name (trace s')"
  proof (cases "get_resource E (trace s) rd ns n")
    case (Inl e)
    let ?e = "ApiGetResource rd ns n (Inl e) :: event"
    have "naming name (trace s @ [?e])" using n by (simp add: naming_snoc)
    then show ?thesis using r Inl naming_done [of name s' ?e]
      by (auto simp: Get_resource_def IgnoreNotFound_def split: if_splits)
  next
    case (Inr latest)
    let ?x = "set_annotation annExternalName name latest"
    let ?tr = "trace s @ [ApiGetResource rd ns n (Inr latest)]"
    let ?u = "update_resource E ?tr ?x"
    have "naming name (?tr @ [ApiUpdate ?x ?u])" using n by (intro naming_snoc) simp_all
    then show ?thesis using r Inr naming_done [of name s' "ApiUpdate ?x ?u"] x
      by (cases ?u) (auto simp: Get_resource_def Update_resource_def)
  qed
qed

lemma persistExternalName_names:
  "valid (\<lambda>s. naming name (trace s) \<and> name_seen s) (persistExternalName E name)
     (\<lambda>err s. if err = None then all_named s else naming name (trace s))"
proof (rule validI)
  fix s :: "(DoResource, event) world" and err s'
  assume p: "naming name (trace s) \<and> name_seen s" and r: "run_state (persistExternalName E name) s = (err, s')"
  show "if err = None then all_named s' else naming name (trace s')"
  proof (cases "annotation (meta (obj s)) annExternalName = name")
    case True
    then show ?thesis using p r naming_done [of name s]
      by (auto simp: persistExternalName_def name_seen_def externalName_def)
  next
    case False
    let ?m = "do { r \<leftarrow> Get_resource E (reader E) (om_Namespace (meta (obj s))) (om_Name (meta (obj s)));
           case r of
             Inl e \<Rightarrow> ret (IgnoreNotFound (Some e))
           | Inr latest \<Rightarrow>
               do { u \<leftarrow> Update_resource E (set_annotation annExternalName name latest);
                    ret (case u of Inl e \<Rightarrow> Some e | Inr _ \<Rightarrow> None) } }"
    obtain a s1 where r1: "run_state (retry (retry_again E) (retry_steps E) ?m) s = (a, s1)" by fastforce
    have "if a = None then all_named s1 else naming name (trace s1)"
      using validD [OF valid_retry [OF naming_attempt] _ r1] p by blast
    then show ?thesis using r r1 False
      by (auto simp: persistExternalName_def all_named_def split: if_splits)
  qed
qed


abbreviation same_meta :: "DoResource \<Rightarrow> DoResource \<Rightarrow> bool" where
  "same_meta a b \<equiv> meta a = meta b"

lemma changes_mono: "changes R m \<Longrightarrow> (\<And>a b. R a b \<Longrightarrow> S a b) \<Longrightarrow> changes S m"
  by (auto simp: changes_def)

lemma same_meta_rel: "reflp same_meta" "transp same_meta"
  by (auto simp: reflp_def transp_def)

lemma same_meta_conditions: "changes same_but_conditions m \<Longrightarrow> changes same_meta m"
  by (erule changes_mono) (simp add: same_but_conditions_def)

lemma changes_connection_data: "changes (=) (connection_data res ex ds i data)"
proof (induction ds arbitrary: i data)
  case (Cons d ds)
  then show ?case
    by (simp add: Let_def) (intro conjI impI changes_intros; simp add: reflp_def transp_def changes_intros)
qed (simp add: changes_intros reflp_def)

lemma changes_publishConnectionSecret: "changes (=) (publishConnectionSecret E)"
  unfolding publishConnectionSecret_def
  by (intro changes_intros changes_connection_data; simp add: reflp_def transp_def)

lemma changes_markSynced: "changes same_meta (markSynced E rid st h)"
  unfolding markSynced_def
  by (intro changes_intros same_meta_rel changes_eq_refl [OF _ changes_publishConnectionSecret]
        changes_eq_refl [OF _ changes_persistStatus] same_meta_conditions [OF changes_set_condition])
     simp

lemma changes_adoptExternal: "changes same_meta (adoptExternal E ctx token pkg name h)"
  unfolding adoptExternal_def
  by (intro changes_intros same_meta_rel changes_markSynced same_meta_conditions [OF changes_markSyncFailed])

lemma record_makes_nothing: "is_record e \<Longrightarrow> created_id e = None"
  by (cases e) auto

lemmas nothing_phases = emits_bookkeeping [where A = "\<lambda>e. created_id e = None", OF record_makes_nothing, simplified]

lemma nothing_calls:
  "makes_nothing (ret x)" "makes_nothing (Run_Delete E ctx token pkg rid st)"
  "makes_nothing (Run_Patch E ctx token pkg rid props)" "makes_nothing (Run_Read E ctx token pkg rid)"
  "makes_nothing (reconcileComponent E ctx token pkg props h)" "makes_nothing (adoptExternal E ctx token pkg name h)"
  "makes_nothing (reconcileDelete E ctx pkg)" "makes_nothing (modify_obj f)" "makes_nothing (put_obj r)"
  "makes_nothing (Update_resource E r)" "makes_nothing (set_condition E t cs reason msg)"
  unfolding reconcileComponent_def adoptExternal_def reconcileDelete_def delete_external_def
  by (intro emits_intros nothing_phases; simp)+

text \<open>The end of a phase, and a phase before anything is created.\<close>

abbreviation ends_named :: "'a rec \<Rightarrow> bool" where
  "ends_named m \<equiv> valid before_create m (\<lambda>_. all_named)"

abbreviation keeps_before :: "'a rec \<Rightarrow> bool" where
  "keeps_before m \<equiv> valid before_create m (\<lambda>_. before_create)"

lemma ends_named_nothing: "makes_nothing m \<Longrightarrow> ends_named m"
  by (rule valid_weaken [OF keeps_all_named]) (auto intro: before_create_named)

lemma ends_named_bind: "keeps_before m \<Longrightarrow> (\<And>x. ends_named (f x)) \<Longrightarrow> ends_named (m \<bind> f)"
  by (rule valid_bind)

lemma ends_named_get: "(\<And>x. ends_named (f x)) \<Longrightarrow> ends_named (get_obj \<bind> f)"
  by (rule ends_named_bind) (auto simp: valid_def)

lemmas keeps_before_phases =
  keeps_before_create [OF nothing_phases(4) same_meta_conditions [OF changes_resolveProvider]]
  keeps_before_create [OF nothing_phases(5) same_meta_conditions [OF changes_applyReferences]]
  keeps_before_create [OF nothing_phases(6) same_meta_conditions [OF changes_stageSecretInputs]]
  keeps_before_create [OF nothing_phases(7) changes_eq_refl [OF same_meta_rel(1) changes_mixSecretVersions]]
  keeps_before_create [OF nothing_phases(8) changes_calls(7) [OF same_meta_rel(1)]]
  keeps_before_create [OF nothing_phases(9) changes_calls(6) [OF same_meta_rel(1)]]
  keeps_before_create [OF nothing_calls(3) changes_calls(9) [OF same_meta_rel(1)]]
  keeps_before_create [OF nothing_calls(2) changes_calls(11) [OF same_meta_rel(1)]]
  keeps_before_create [OF nothing_phases(2) same_meta_conditions [OF changes_markSyncFailed]]
  keeps_before_create [OF nothing_calls(6) changes_adoptExternal]
  keeps_before_create [OF nothing_calls(1) changes_still(1) [OF same_meta_rel(1)]]

text \<open>After a successful create nothing but the external name is written until it is durable.\<close>

lemma Run_Create_naming:
  "valid before_create (Run_Create E ctx token pkg props)
     (\<lambda>r s. case r of Inl e \<Rightarrow> before_create s | Inr created \<Rightarrow> naming (fst created) (trace s) \<and> name_seen s)"
proof (rule validI)
  fix s :: "(DoResource, event) world" and r s'
  assume b: "before_create s" and run: "run_state (Run_Create E ctx token pkg props) s = (r, s')"
  then have s': "s' = s\<lparr>trace := trace s @ [RunCreate ctx token pkg props r]\<rparr>" by (auto simp: Run_Create_def)
  show "case r of Inl e \<Rightarrow> before_create s' | Inr created \<Rightarrow> naming (fst created) (trace s') \<and> name_seen s'"
    using b s' by (cases r) (auto simp: before_create_def naming_def name_seen_def guarded_snoc
        status_after_name_def list_all_iff)
qed

text \<open>What a create leaves behind: nothing, or one id that is still to be named.\<close>

definition created_post :: "(string \<times> jobj option) result \<Rightarrow> (DoResource, event) world \<Rightarrow> bool" where
  "created_post r s =
     (case r of Inl e \<Rightarrow> before_create s | Inr created \<Rightarrow> naming (fst created) (trace s) \<and> name_seen s)"

abbreviation in_order :: "(DoResource, event) world \<Rightarrow> bool" where
  "in_order s \<equiv> guarded status_after_name (trace s)"

abbreviation ends_ok :: "'a rec \<Rightarrow> bool" where
  "ends_ok m \<equiv> valid before_create m (\<lambda>_. in_order)"

lemma ends_ok_nothing: "makes_nothing m \<Longrightarrow> ends_ok m"
  by (rule valid_post [OF ends_named_nothing]) (auto simp: all_named_def)

lemma ends_ok_bind: "keeps_before m \<Longrightarrow> (\<And>x. ends_ok (f x)) \<Longrightarrow> ends_ok (m \<bind> f)"
  by (rule valid_bind)

lemma ends_ok_get: "(\<And>x. ends_ok (f x)) \<Longrightarrow> ends_ok (get_obj \<bind> f)"
  by (rule ends_ok_bind) (auto simp: valid_def)

lemma created_Inl: "(\<And>s. P s \<Longrightarrow> created_post (Inl e) s) \<Longrightarrow> ends_ok m \<Longrightarrow> valid P m (\<lambda>_. in_order)"
  by (erule valid_weaken) (simp add: created_post_def)

lemma named_then:
  assumes "makes_nothing g"
  shows "valid (created_post (Inr created))
     (do { err \<leftarrow> persistExternalName E (fst created); case err of Some e \<Rightarrow> ret (h e) | None \<Rightarrow> g }) (\<lambda>_. in_order)"
proof (rule valid_bind [OF _ valid_weaken [OF persistExternalName_names]], rule valid_option)
  fix err :: "error option"
  assume "err = None"
  then show "valid (\<lambda>s. if err = None then all_named s else naming (fst created) (trace s)) g (\<lambda>_. in_order)"
    by (intro valid_post [OF valid_weaken [OF keeps_all_named [OF assms]]]) (auto simp: all_named_def)
qed (auto simp: created_post_def valid_def naming_def all_named_def)

lemma ends_ok_record:
  assumes "\<And>e. makes_nothing (f e)" "\<And>c. makes_nothing (g c)"
  shows "valid (created_post r)
      (case r of
         Inl e \<Rightarrow> f e
       | Inr c \<Rightarrow> do { err \<leftarrow> persistExternalName E (fst c); case err of None \<Rightarrow> g c | Some e \<Rightarrow> ret (h e) })
      (\<lambda>_. in_order)"
  by (cases r) (auto intro: named_then assms valid_weaken [OF ends_ok_nothing] simp: created_post_def)

lemma ends_ok_create: "ends_ok (reconcileCreate E ctx token pkg props h)"
  unfolding reconcileCreate_def
  by (intro ends_ok_get ends_ok_bind [where f = "case_option _ _"] valid_option valid_if ends_ok_nothing nothing_calls(1)
        valid_bind [OF ends_ok_record Run_Create_naming [folded created_post_def]]
        emits_if emits_bind nothing_phases keeps_before_phases)

lemma create_again:
  "valid before_create (do { r2 \<leftarrow> Run_Create E ctx token pkg props; ret (Inr r2) })
     (\<lambda>cr s. case cr of Inl _ \<Rightarrow> in_order s | Inr r \<Rightarrow> created_post r s)"
  by (rule valid_bind [OF _ Run_Create_naming [folded created_post_def]]) (simp add: valid_def)

lemma in_order_failed:
  "valid before_create (do { res \<leftarrow> markSyncFailed E reason e b; ret (Inl res) })
     (\<lambda>cr s. case cr of Inl _ \<Rightarrow> in_order s | Inr r \<Rightarrow> created_post r s)"
  by (rule valid_bind [OF _ ends_ok_nothing [OF nothing_phases(2)]]) (simp add: valid_def)

lemma replace_create_post:
  "valid before_create (replace_create E ctx token pkg props i st)
     (\<lambda>cr s. case cr of Inl _ \<Rightarrow> in_order s | Inr r \<Rightarrow> created_post r s)"
  unfolding replace_create_def
proof (rule valid_bind [OF _ Run_Create_naming [folded created_post_def]], rule valid_sum)
  fix r :: "(string \<times> jobj option) result" and e
  assume r: "r = Inl e"
  have "valid before_create
     (if IsAlreadyExists e then
        do { derr \<leftarrow> Run_Delete E ctx token pkg i st;
             case derr of
               Some de \<Rightarrow>
                 if \<not> errors_Is (Some de) ErrNotFound
                 then do { res \<leftarrow> markSyncFailed E ''ReplaceFailed'' de True; ret (Inl res) }
                 else do { r2 \<leftarrow> Run_Create E ctx token pkg props; ret (Inr r2) }
             | None \<Rightarrow> do { r2 \<leftarrow> Run_Create E ctx token pkg props; ret (Inr r2) } }
      else ret (Inr (Inl e)))
     (\<lambda>cr s. case cr of Inl _ \<Rightarrow> in_order s | Inr r \<Rightarrow> created_post r s)"
    by (intro valid_if valid_bind [OF valid_option keeps_before_phases(8)] create_again in_order_failed)
       (simp add: valid_def created_post_def)
  with r show "valid (created_post r)
     (if IsAlreadyExists e then
        do { derr \<leftarrow> Run_Delete E ctx token pkg i st;
             case derr of
               Some de \<Rightarrow>
                 if \<not> errors_Is (Some de) ErrNotFound
                 then do { res \<leftarrow> markSyncFailed E ''ReplaceFailed'' de True; ret (Inl res) }
                 else do { r2 \<leftarrow> Run_Create E ctx token pkg props; ret (Inr r2) }
             | None \<Rightarrow> do { r2 \<leftarrow> Run_Create E ctx token pkg props; ret (Inr r2) } }
      else ret (Inr (Inl e)))
     (\<lambda>cr s. case cr of Inl _ \<Rightarrow> in_order s | Inr r \<Rightarrow> created_post r s)"
    by (elim valid_weaken) (simp add: created_post_def)
qed (simp add: valid_def)

lemma ends_ok_replacement: "ends_ok (reconcileReplacement E ctx token pkg props h e)"
  unfolding reconcileReplacement_def
proof (intro ends_ok_get valid_if ends_ok_nothing [OF nothing_phases(2)] ends_ok_nothing [OF nothing_calls(1)], goal_cases)
  case (1 res)
  show ?case
  proof (rule valid_bind [OF _ replace_create_post], rule valid_sum, goal_cases)
    case (2 cr r)
    then show ?case
      by (simp, intro ends_ok_record emits_if emits_bind emits_option nothing_phases nothing_calls)
  qed (simp add: valid_def)
qed

lemma ends_ok_external: "ends_ok (reconcile_external E ctx token pkg schema props)"
  unfolding reconcile_external_def reconcile_patch_def reconcile_read_def Let_def
  by (intro ends_ok_bind [OF keeps_before_phases(4)] ends_ok_get valid_if ends_ok_create
        ends_ok_bind [OF keeps_before_phases(7)] valid_sum ends_ok_replacement
        ends_ok_nothing emits_bind emits_if emits_sum nothing_phases nothing_calls)

lemma ends_ok_live: "ends_ok (reconcile_live E ctx pkg token)"
  unfolding reconcile_live_def
  by (intro ends_ok_bind ends_ok_get valid_if valid_sum valid_prod valid_option ends_ok_external keeps_before_phases
        ends_ok_nothing [OF nothing_phases(2)] ends_ok_nothing [OF nothing_calls(1)])

lemma ends_ok_stored:
  "valid before_create
     (do { modify_obj f; marked \<leftarrow> get_obj; u \<leftarrow> Update_resource E marked;
           case u of
             Inl e \<Rightarrow> ret (h e)
           | Inr stored \<Rightarrow> do { put_obj stored; reconcile_live E ctx pkg token } }) (\<lambda>_. in_order)"
proof (rule validI)
  fix s :: "(DoResource, event) world" and a s'
  assume b: "before_create s" and r: "run_state (do { modify_obj f; marked \<leftarrow> get_obj; u \<leftarrow> Update_resource E marked;
           case u of
             Inl e \<Rightarrow> ret (h e)
           | Inr stored \<Rightarrow> do { put_obj stored; reconcile_live E ctx pkg token } }) s = (a, s')"
  let ?x = "f (obj s)"
  let ?u = "update_resource E (trace s) ?x"
  let ?tr = "trace s @ [ApiUpdate ?x ?u]"
  have g: "guarded status_after_name ?tr" "list_all (\<lambda>e. created_id e = None) ?tr"
    using b by (auto simp: before_create_def guarded_snoc status_after_name_def)
  show "in_order s'"
  proof (cases ?u)
    case (Inr stored)
    then have "before_create \<lparr>obj = stored, trace = ?tr\<rparr>"
      using g by (simp add: before_create_def name_seen_def)
    then show ?thesis
      using validD [OF ends_ok_live, of "\<lparr>obj = stored, trace = ?tr\<rparr>"] r Inr
      by (cases s) (auto simp: Update_resource_def)
  qed (use r g in \<open>auto simp: Update_resource_def\<close>)
qed

lemma ends_ok_object: "ends_ok (reconcile_object E ctx res)"
  unfolding reconcile_object_def
  by (intro valid_if ends_ok_bind [OF keeps_before_phases(1)] valid_prod valid_option ends_ok_live ends_ok_stored
        ends_ok_nothing emits_bind emits_option nothing_phases nothing_calls)


lemma create_demo_order:
  "RunCreate (reconcile_ctx ''ns'' ''r'') ''p:m:T'' ''p@1'' [] (Inr (''id-1'', Some [(''a'', JNull)])) \<in>
     set (butlast (trace (snd (run_state (Reconcile create_env ''ns'' ''r'') \<lparr>obj = live_resource, trace = []\<rparr>)))) \<and>
   writes_status (last (trace (snd (run_state (Reconcile create_env ''ns'' ''r'') \<lparr>obj = live_resource, trace = []\<rparr>))))"
  by (simp add: reconcile_defs reconcile_ctx_def Let_def pinned_demo std_FindStatusCondition_def)

lemma writes_statusE: "writes_status e \<Longrightarrow> (\<And>u r. e = ApiUpdateStatus u r \<Longrightarrow> thesis) \<Longrightarrow> thesis"
  by (cases e) auto


section \<open>The finalizer\<close>

text \<open>A reply to a delete after which the external resource is gone.\<close>

definition gone :: "error option \<Rightarrow> bool" where
  "gone r = (r = None \<or> errors_Is r ErrNotFound)"

definition delete_reply :: "env \<Rightarrow> op_ctx \<Rightarrow> string \<Rightarrow> DoResource \<Rightarrow> event list \<Rightarrow> error option" where
  "delete_reply E ctx pkg res tr =
     (case st_EngineState (status res) of
        Some engine \<Rightarrow> runner_DeleteComponent E tr ctx (spec_Type (spec res)) pkg engine
      | None \<Rightarrow> runner_Delete E tr ctx (spec_Type (spec res)) pkg (st_ID (status res)) (deleteState res))"

lemma changes_reaches_loop: "changes (=) (reaches_loop E ns target n visited queue)"
proof (induction E ns target n visited queue rule: reaches_loop.induct)
  case (3 E ns target n visited name queue)
  then show ?case by simp (intro conjI impI changes_intros; simp add: reflp_def transp_def)
qed (simp_all add: changes_intros reflp_def)

lemma changes_blocking_loop: "changes (=) (blocking_loop E res deps bl)"
proof (induction deps arbitrary: bl)
  case (Cons d deps)
  then show ?case
    by simp (intro changes_intros; simp add: reaches_def changes_reaches_loop changes_intros reflp_def transp_def)
qed (simp add: changes_intros reflp_def)

lemma changes_blockingDependents: "changes (=) (blockingDependents E)"
  unfolding blockingDependents_def dependentsOf_def blockingUsages_def
  by (intro changes_intros changes_blocking_loop; simp add: reflp_def transp_def)

text \<open>The objects a stretch of a trace updates.\<close>

definition updates :: "event list \<Rightarrow> DoResource set" where
  "updates es = {u. \<exists>r. ApiUpdate u r \<in> set es}"

lemma updates_simps [simp]:
  "updates [] = {}" "updates (xs @ ys) = updates xs \<union> updates ys"
  "updates (ApiUpdate u r # es) = insert u (updates es)"
  "updates (RunDelete ctx t pkg i st re # es) = updates es"
  "updates (RunDeleteComponent ctx t pkg en re # es) = updates es"
  "updates (Recorded a b c # es) = updates es"
  by (auto simp: updates_def)

lemma updates_read: "list_all is_read es \<Longrightarrow> updates es = {}"
  by (auto simp: updates_def list_all_iff)

lemma updates_status: "list_all is_status es \<Longrightarrow> updates es = {}"
  by (auto simp: updates_def list_all_iff)

lemma run_delete_call:
  "\<exists>e. run_state (case st_EngineState (status (obj s)) of
      Some engine \<Rightarrow> Run_DeleteComponent E ctx (spec_Type (spec (obj s))) pkg engine
    | None \<Rightarrow> Run_Delete E ctx (spec_Type (spec (obj s))) pkg (st_ID (status (obj s))) (deleteState (obj s))) s =
    (delete_reply E ctx pkg (obj s) (trace s), s\<lparr>trace := trace s @ [e]\<rparr>) \<and> (\<forall>es. updates (e # es) = updates es)"
  by (cases "st_EngineState (status (obj s))") (auto simp: call_defs delete_reply_def)

lemma delete_external_run:
  assumes "run_state (delete_external E ctx pkg) s = (r, s')"
  shows "\<exists>es. obj s' = obj s \<and> trace s' = trace s @ es \<and> updates es = {} \<and>
     (r = None \<longleftrightarrow> spec_DeletionPolicy (spec (obj s)) = DeletionOrphan \<or> st_ID (status (obj s)) = [] \<or>
                  gone (delete_reply E ctx pkg (obj s) (trace s)))"
proof (cases "spec_DeletionPolicy (spec (obj s)) \<noteq> DeletionOrphan \<and> st_ID (status (obj s)) \<noteq> []")
  case True
  obtain e where e: "run_state (case st_EngineState (status (obj s)) of
      Some engine \<Rightarrow> Run_DeleteComponent E ctx (spec_Type (spec (obj s))) pkg engine
    | None \<Rightarrow> Run_Delete E ctx (spec_Type (spec (obj s))) pkg (st_ID (status (obj s))) (deleteState (obj s))) s =
    (delete_reply E ctx pkg (obj s) (trace s), s\<lparr>trace := trace s @ [e]\<rparr>)" "\<forall>es. updates (e # es) = updates es"
    using run_delete_call by blast
  define reply where "reply = delete_reply E ctx pkg (obj s) (trace s)"
  show ?thesis
    using assms True e unfolding reply_def [symmetric]
    by (cases reply) (auto simp: delete_external_def Let_def Eventf_def gone_def split: if_splits)
qed (use assms in \<open>auto simp: delete_external_def Let_def\<close>)

lemma teardown_blocked:
  assumes "run_state (do { set_condition E t cs reason m; Eventf a b c; err \<leftarrow> persistStatus E;
                       case err of Some e \<Rightarrow> ret (f e) | None \<Rightarrow> ret g }) s = (out, s')"
  shows "\<exists>es. trace s' = trace s @ es \<and> updates es = {}"
proof -
  have "emits is_status (do { set_condition E t cs reason m; Eventf a b c; err \<leftarrow> persistStatus E;
                       case err of Some e \<Rightarrow> ret (f e) | None \<Rightarrow> ret g })"
    by (intro emits_intros emits_persistStatus) simp
  from emitsD [OF this, of s] obtain es where "trace s' = trace s @ es" "list_all is_status es"
    using assms by auto
  then show ?thesis by (simp add: updates_status)
qed

text \<open>
  C7: The finalizer is released exactly when it may be: during a teardown the object is
  updated if and only if it carries the finalizer, nothing blocks the deletion, and the
  external resource is out of the way (orphaned by policy, never provisioned, or deleted
  with a reply that says it is gone), and then the only update removes the finalizer.
\<close>

theorem reconcileDelete_releases:
  assumes "run_state (blockingDependents E) \<lparr>obj = res, trace = tr\<rparr> = (blockers, s1)"
    "run_state (reconcileDelete E ctx pkg) \<lparr>obj = res, trace = tr\<rparr> = (out, s2)"
  shows "updates (drop (length tr) (trace s2)) =
     (if ContainsFinalizer E (meta res) doResourceFinalizer \<and> blockers = Inr [] \<and>
         (spec_DeletionPolicy (spec res) = DeletionOrphan \<or> st_ID (status res) = [] \<or>
          gone (delete_reply E ctx pkg res (trace s1)))
      then {res\<lparr>meta := RemoveFinalizer E (meta res) doResourceFinalizer\<rparr>} else {})"
proof -
  have o1: "obj s1 = res" using changesD [OF changes_blockingDependents assms(1)] by simp
  obtain es where es: "trace s1 = tr @ es" "list_all is_read es"
    using emitsD [OF emits_blockingDependents, of E "\<lparr>obj = res, trace = tr\<rparr>"] assms(1) by auto
  note no = updates_read [OF es(2)]
  consider (free) "\<not> ContainsFinalizer E (meta res) doResourceFinalizer"
    | (failed) e where "ContainsFinalizer E (meta res) doResourceFinalizer" "blockers = Inl e"
    | (blocked) d ds where "ContainsFinalizer E (meta res) doResourceFinalizer" "blockers = Inr (d # ds)"
    | (clear) "ContainsFinalizer E (meta res) doResourceFinalizer" "blockers = Inr []"
    by (metis sumE neq_Nil_conv)
  then show ?thesis
  proof cases
    case blocked
    let ?msg = "''deletion blocked by dependent resources: '' @ Join (d # ds) '', ''"
    have "run_state (do { set_condition E ConditionReady ConditionFalse ''BlockedByDependents'' ?msg;
            Eventf ''Normal'' ''BlockedByDependents'' ?msg; err \<leftarrow> persistStatus E;
            case err of Some e \<Rightarrow> ret (no_requeue, Some e)
            | None \<Rightarrow> ret (no_requeue\<lparr>RequeueAfter := 15 * 10 ^ 9\<rparr>, None) }) s1 = (out, s2)"
      using assms blocked by (simp add: reconcileDelete_def Let_def)
    from teardown_blocked [OF this] show ?thesis using blocked es no by auto
  next
    case clear
    obtain r s3 where d: "run_state (delete_external E ctx pkg) s1 = (r, s3)" by fastforce
    from delete_external_run [OF this] obtain ds where ds: "obj s3 = res" "trace s3 = trace s1 @ ds" "updates ds = {}"
      "r = None \<longleftrightarrow> spec_DeletionPolicy (spec res) = DeletionOrphan \<or> st_ID (status res) = [] \<or>
                   gone (delete_reply E ctx pkg res (trace s1))"
      using o1 by auto
    show ?thesis
    proof (cases r)
      case None
      then show ?thesis using assms clear d ds es no
        by (auto simp: reconcileDelete_def Update_resource_def split: sum.splits)
    next
      case (Some e)
      then show ?thesis using assms clear d ds es no by (auto simp: reconcileDelete_def)
    qed
  qed (use assms es no in \<open>auto simp: reconcileDelete_def\<close>)
qed

definition dying_resource :: DoResource where
  "dying_resource = \<lparr>meta = live_meta\<lparr>om_Deleting := True\<rparr>, spec = blank_spec, status = blank_status\<lparr>st_ID := ''i''\<rparr>\<rparr>"

definition teardown_env :: env where
  "teardown_env = quiet_env\<lparr>runner_Delete := (\<lambda>_ _ _ _ _ _. None)\<rparr>"

lemma dying_unblocked: "fst (run_state (blockingDependents teardown_env) \<lparr>obj = dying_resource, trace = []\<rparr>) = Inr []"
  by (simp add: blockingDependents_def dependentsOf_def blockingUsages_def List_resources_def List_usages_def
      teardown_env_def quiet_env_def)

theorem reconcileDelete_releases_witness:
  "updates (drop (length ([] :: event list)) (trace (snd (run_state (reconcileDelete teardown_env background ''p@1'')
      \<lparr>obj = dying_resource, trace = []\<rparr>)))) =
   {dying_resource\<lparr>meta := (live_meta\<lparr>om_Deleting := True\<rparr>)\<lparr>om_Finalizers := []\<rparr>\<rparr>}"
  unfolding reconcileDelete_releases [OF prod.collapse [symmetric] prod.collapse [symmetric]]
  by (simp add: dying_unblocked)
     (simp add: teardown_env_def quiet_env_def dying_resource_def delete_reply_def blank_status_def gone_def
        std_RemoveFinalizer_def)

section \<open>The connection Secret\<close>

fun secret_update :: "event \<Rightarrow> Secret option" where
  "secret_update (ApiUpdateSecret sec _) = Some sec"
| "secret_update _ = None"

definition owned_write :: "env \<Rightarrow> string \<Rightarrow> event \<Rightarrow> bool" where
  "owned_write E uid e =
     (case secret_update e of
        None \<Rightarrow> True
      | Some sec \<Rightarrow> (\<exists>owner. GetControllerOf E (sec_meta sec) = Some owner \<and> or_UID owner = uid))"

abbreviation has_uid :: "string \<Rightarrow> DoResource \<Rightarrow> bool" where
  "has_uid uid res \<equiv> om_UID (meta res) = uid"

abbreviation same_uid :: "DoResource \<Rightarrow> DoResource \<Rightarrow> bool" where
  "same_uid a b \<equiv> om_UID (meta a) = om_UID (meta b)"

abbreviation owned :: "env \<Rightarrow> string \<Rightarrow> 'a rec \<Rightarrow> bool" where
  "owned E uid m \<equiv> emits_when (has_uid uid) (owned_write E uid) m"

lemma same_uid_rel: "reflp same_uid" "transp same_uid"
  by (auto simp: reflp_def transp_def)

lemma same_uid_meta: "changes same_meta m \<Longrightarrow> changes same_uid m"
  by (erule changes_mono) simp

lemma status_owned: "is_status e \<Longrightarrow> owned_write E uid e"
  by (cases e) (auto simp: owned_write_def)

lemma emits_connection_data_owned: "emits (owned_write E uid) (connection_data res ex ds i data)"
  by (rule emits_mono [OF emits_connection_data]) (simp add: status_owned read_status)

lemma owned_publish: "owned E uid (publishConnectionSecret E)"
  unfolding publishConnectionSecret_def
  by (intro emits_when_get emits_when_emits emits_intros emits_connection_data_owned)
     (auto simp: owned_write_def split: option.splits)

lemma owned_bind: "owned E uid m \<Longrightarrow> changes same_uid m \<Longrightarrow> (\<And>x. owned E uid (f x)) \<Longrightarrow> owned E uid (m \<bind> f)"
  by (rule emits_when_bind [where R = same_uid]) auto

lemma owned_status: "emits is_status m \<Longrightarrow> owned E uid m"
  by (rule emits_when_emits) (erule emits_mono, simp add: status_owned)

lemmas owned_phases = owned_status [OF emits_markSyncFailed] owned_status [OF emits_forget_external]
  owned_status [OF emits_resolveProvider] owned_status [OF emits_applyReferences]
  owned_status [OF emits_stageSecretInputs] owned_status [OF emits_mono [OF emits_mixSecretVersions read_status]]
  owned_status [OF emits_persistStatus]

lemma owned_calls:
  "owned E uid (ret x)" "owned E uid (Eventf t reason msg)" "owned E uid (set_condition E ct cs reason msg)"
  "owned E uid (modify_obj f)" "owned E uid (Schemas_Get E ctx pkg token)" "owned E uid (Run_Create E ctx token pkg props)"
  "owned E uid (Run_Patch E ctx token pkg rid props)" "owned E uid (Run_Read E ctx token pkg rid)"
  "owned E uid (Run_Delete E ctx token pkg rid st)" "owned E uid (Run_CreateComponent E ctx token pkg props)"
  "owned E uid (Run_UpdateComponent E ctx token pkg props es)"
  by (intro emits_when_emits emits_intros; simp add: owned_write_def)+

lemma owned_persistExternalName: "owned E uid (persistExternalName E name)"
proof (intro emits_when_emits emits_mono [OF emits_persistExternalName])
  fix e show "is_read e \<or> is_update e \<Longrightarrow> owned_write E uid e" by (cases e) (auto simp: owned_write_def)
qed

lemma changes_persistExternalName: "changes same_uid (persistExternalName E name)"
  unfolding persistExternalName_def
  by (intro changes_intros same_uid_rel) (simp add: set_annotation_def)

lemma changes_component_calls [changes_intros]:
  "reflp R \<Longrightarrow> changes R (Run_CreateComponent E ctx token pkg props)"
  "reflp R \<Longrightarrow> changes R (Run_UpdateComponent E ctx token pkg props es)"
  by (auto simp: call_defs intro!: changes_intros)

lemma changes_uid_phases:
  "changes same_uid (set_condition E t cs reason msg)" "changes same_uid (persistStatus E)"
  "changes same_uid (publishConnectionSecret E)" "changes same_uid (adoptExternal E ctx token pkg name h)"
  "changes same_uid (mixSecretVersions E h)" "changes same_uid (applyReferences E ctx props)"
  "changes same_uid (stageSecretInputs E ctx props)" "changes same_uid (resolveProvider E ctx pkg token)"
  "changes same_uid (markSynced E rid st h)" "changes same_uid (markSyncFailed E reason err b)"
  by (intro same_uid_meta same_meta_conditions [OF changes_set_condition] changes_adoptExternal changes_markSynced
        changes_eq_refl [OF same_meta_rel(1)] changes_persistStatus changes_publishConnectionSecret
        changes_mixSecretVersions same_meta_conditions [OF changes_applyReferences]
        same_meta_conditions [OF changes_stageSecretInputs] same_meta_conditions [OF changes_resolveProvider]
        same_meta_conditions [OF changes_markSyncFailed])+

lemma changes_set_engine_state: "changes same_uid (modify_obj (set_engine_state st))"
  by (rule changes_modify) (simp add: set_engine_state_def)

lemma owned_markSynced: "owned E uid (markSynced E rid st h)"
  unfolding markSynced_def
  by (intro owned_bind emits_when_cases emits_when_get owned_phases owned_calls owned_publish changes_uid_phases
        changes_calls changes_still changes_cases same_uid_rel)
     (intro changes_modify, simp)

lemmas owned_rules = owned_bind emits_when_cases emits_when_get owned_phases owned_calls owned_publish
  owned_markSynced owned_persistExternalName
  changes_uid_phases changes_persistExternalName changes_set_engine_state changes_calls changes_component_calls
  changes_still changes_cases same_uid_rel

lemma owned_adoptExternal: "owned E uid (adoptExternal E ctx token pkg name h)"
  unfolding adoptExternal_def by (intro owned_rules)

lemma owned_reconcileCreate: "owned E uid (reconcileCreate E ctx token pkg props h)"
  unfolding reconcileCreate_def by (intro owned_rules owned_adoptExternal)

lemma owned_replace_create: "owned E uid (replace_create E ctx token pkg props i st)"
  unfolding replace_create_def by (intro owned_rules)

lemma changes_replace_create: "changes same_uid (replace_create E ctx token pkg props i st)"
  unfolding replace_create_def by (intro changes_bind owned_rules)

lemma owned_reconcileReplacement: "owned E uid (reconcileReplacement E ctx token pkg props h e)"
  unfolding reconcileReplacement_def
  by (intro changes_bind owned_rules owned_replace_create changes_replace_create)

lemma owned_reconcileComponent: "owned E uid (reconcileComponent E ctx token pkg props h)"
  unfolding reconcileComponent_def by (intro owned_rules)

lemma owned_live: "owned E uid (reconcile_live E ctx pkg token)"
  unfolding reconcile_live_def reconcile_external_def reconcile_patch_def reconcile_read_def Let_def
  by (intro owned_rules owned_reconcileCreate owned_reconcileReplacement owned_reconcileComponent)

lemma owned_delete: "owned E uid (reconcileDelete E ctx pkg)"
  unfolding reconcileDelete_def delete_external_def Let_def
  by (intro emits_when_emits emits_intros emits_mono [OF emits_blockingDependents status_owned [OF read_status]]
        emits_mono [OF emits_persistStatus status_owned]) (auto simp: owned_write_def)

lemma owned_object:
  "ContainsFinalizer E (meta res) doResourceFinalizer \<Longrightarrow> owned E uid (reconcile_object E ctx res)"
  unfolding reconcile_object_def by (intro owned_rules owned_live owned_delete) simp_all

text \<open>
  C32: The connection Secret is never a way to write foreign Secrets: every Secret the
  reconcile of an object updates has that object (by UID) as its controller.
\<close>

theorem Reconcile_connection_secret_owned:
  assumes "get_resource E [] (reader E) ns name = Inr res" "ContainsFinalizer E (meta res) doResourceFinalizer"
  shows "\<forall>sec r. ApiUpdateSecret sec r \<in> set (trace (snd (run_state (Reconcile E ns name) \<lparr>obj = x, trace = []\<rparr>))) \<longrightarrow>
    (\<exists>owner. GetControllerOf E (sec_meta sec) = Some owner \<and> or_UID owner = om_UID (meta res))"
  using trace_Reconcile [OF assms(1) owned_object [OF assms(2)], of "om_UID (meta res)" x]
  by (fastforce simp: list_all_iff owned_write_def)


text \<open>A resource that publishes a connection Secret it already owns.\<close>

definition secret_owner :: OwnerReference where
  "secret_owner = \<lparr>or_Kind = ''DoResource'', or_Name = ''r'', or_UID = ''u1'', or_Controller = True\<rparr>"

definition publishing_resource :: DoResource where
  "publishing_resource = live_resource\<lparr>meta := live_meta\<lparr>om_UID := ''u1''\<rparr>,
     spec := blank_spec\<lparr>spec_WriteConnectionSecretToRef := Some \<lparr>lsr_Name = ''conn''\<rparr>,
       spec_ConnectionDetails := [\<lparr>cd_Name = ''k'', cd_FromFieldPath = [], cd_Value = ''v''\<rparr>]\<rparr>\<rparr>"

definition publishing_env :: env where
  "publishing_env = create_env\<lparr>get_resource := (\<lambda>_ _ _ _. Inr publishing_resource),
     get_secret := (\<lambda>_ _ _. Inr \<lparr>sec_meta = blank_meta\<lparr>om_Owners := [secret_owner]\<rparr>, sec_data = []\<rparr>)\<rparr>"

theorem Reconcile_connection_secret_owned_witness:
  "list_all (owned_write publishing_env ''u1'') (trace (snd (run_state (Reconcile publishing_env ''ns'' ''r'')
      \<lparr>obj = publishing_resource, trace = []\<rparr>)))"
proof -
  have "get_resource publishing_env [] (reader publishing_env) ''ns'' ''r'' = Inr publishing_resource"
    "ContainsFinalizer publishing_env (meta publishing_resource) doResourceFinalizer"
    by (simp_all add: publishing_env_def publishing_resource_def create_env_def quiet_env_def)
  from Reconcile_connection_secret_owned [OF this, of publishing_resource]
  show ?thesis
    by (auto simp: list_all_iff owned_write_def publishing_resource_def elim!: secret_update.elims
        split: option.split)
qed

section \<open>The state shipped with a delete\<close>

lemma GetPathObj_empty: "blank (GetPathObj [] p)"
proof (cases "parsePath p")
  case (Inr segs)
  then obtain x xs where "segs = x # xs" using parsePath_nonempty by (cases segs) auto
  then show ?thesis using Inr by (cases x) (auto simp: GetPath_def)
qed (simp add: GetPath_def)

text \<open>
  A delete never ships a secret input back out of the cluster: at every path that
  \<open>spec.valuesFrom\<close> feeds, the recorded state handed to the delete is absent or null.
\<close>

theorem deleteState_no_secret_inputs:
  "v \<in> set (spec_ValuesFrom (spec res)) \<Longrightarrow> blank (GetPathObj (deleteState res) (vf_ToPath v))"
  unfolding deleteState_def
  by (auto split: option.split sum.split intro!: jdoc.erase_all_blank GetPathObj_empty)

theorem deleteState_no_secret_inputs_witness:
  "blank (GetPathObj (deleteState (live_resource\<lparr>spec := blank_spec\<lparr>spec_ValuesFrom :=
       [\<lparr>vf_ToPath = ''auth.token'', vf_SecretKeyRef = \<lparr>sks_Name = ''s'', sks_Key = ''k''\<rparr>\<rparr>]\<rparr>,
     status := blank_status\<lparr>st_Outputs := Some (JObj [(''auth'', JObj [(''token'', JStr ''hunter2'')])])\<rparr>\<rparr>)) ''auth.token'')"
  using deleteState_no_secret_inputs [of "\<lparr>vf_ToPath = ''auth.token'', vf_SecretKeyRef = \<lparr>sks_Name = ''s'', sks_Key = ''k''\<rparr>\<rparr>"
     "live_resource\<lparr>spec := blank_spec\<lparr>spec_ValuesFrom :=
       [\<lparr>vf_ToPath = ''auth.token'', vf_SecretKeyRef = \<lparr>sks_Name = ''s'', sks_Key = ''k''\<rparr>\<rparr>]\<rparr>,
     status := blank_status\<lparr>st_Outputs := Some (JObj [(''auth'', JObj [(''token'', JStr ''hunter2'')])])\<rparr>\<rparr>"]
  by simp

end
