(* ===== verification/Guards.thy ===== *)
theory Guards
  imports Effects
begin

text \<open>
  Proving that every interaction of an operation is admissible after the ones before it.
  \<open>ends G I m\<close> says that \<open>m\<close>, started in a state that satisfies \<open>I\<close>, keeps the trace
  guarded by \<open>G\<close>; an operation in the middle of a sequence must keep \<open>I\<close> too (\<open>keeps\<close>).
  After a question its reply is known to be in the trace, which is how a later
  interaction is justified by an earlier one.
\<close>

named_theorems ends_intros \<open>rules for guarded traces\<close>

definition ends :: "('e list \<Rightarrow> 'e \<Rightarrow> bool) \<Rightarrow> (('o, 'e) world \<Rightarrow> bool) \<Rightarrow> ('o, 'e, 'a) action \<Rightarrow> bool" where
  "ends G I m = valid (\<lambda>s. guarded G (trace s) \<and> I s) m (\<lambda>_ s. guarded G (trace s))"

definition keeps :: "('e list \<Rightarrow> 'e \<Rightarrow> bool) \<Rightarrow> (('o, 'e) world \<Rightarrow> bool) \<Rightarrow> ('o, 'e, 'a) action \<Rightarrow> bool" where
  "keeps G I m = valid (\<lambda>s. guarded G (trace s) \<and> I s) m (\<lambda>_ s. guarded G (trace s) \<and> I s)"

lemma ends_keeps: "keeps G I m \<Longrightarrow> ends G I m"
  unfolding keeps_def ends_def by (erule valid_post) simp

lemma ends_weaken: "ends G J m \<Longrightarrow> (\<And>s. I s \<Longrightarrow> J s) \<Longrightarrow> ends G I m"
  unfolding ends_def by (erule valid_weaken) simp

lemma ends_assume: "(b \<Longrightarrow> ends G I m) \<Longrightarrow> ends G (\<lambda>s. b \<and> I s) m"
  by (auto simp: ends_def valid_def)

lemma ends_return [ends_intros]: "ends G I (State_Monad.return x)"
  by (simp add: ends_def valid_def)

lemma ends_bind [ends_intros]: "keeps G I m \<Longrightarrow> (\<And>x. ends G I (f x)) \<Longrightarrow> ends G I (m \<bind> f)"
  unfolding keeps_def ends_def by (rule valid_bind)

lemma ends_bind_yields:
  assumes "keeps G I m" "yields Q m" "\<And>x. Q x \<Longrightarrow> ends G I (f x)"
  shows "ends G I (m \<bind> f)"
  unfolding ends_def valid_def
proof (intro allI impI)
  fix s :: "('b, 'a) world"
  assume s: "guarded G (trace s) \<and> I s"
  obtain a s1 where r: "run_state m s = (a, s1)" by fastforce
  then have "guarded G (trace s1) \<and> I s1" "Q a"
    using validD [OF assms(1) [unfolded keeps_def] s] assms(2) by (auto simp: yields_def dest: spec [of _ s])
  with r show "case run_state (m \<bind> f) s of (_, s) \<Rightarrow> guarded G (trace s)"
    using assms(3) [of a] by (auto simp: ends_def valid_def)
qed

lemma ends_cases [ends_intros]:
  "(b \<Longrightarrow> ends G I m) \<Longrightarrow> (\<not> b \<Longrightarrow> ends G I n) \<Longrightarrow> ends G I (if b then m else n)"
  "(x = None \<Longrightarrow> ends G I m) \<Longrightarrow> (\<And>a. x = Some a \<Longrightarrow> ends G I (f a)) \<Longrightarrow> ends G I (case x of None \<Rightarrow> m | Some a \<Rightarrow> f a)"
  "(\<And>e. y = Inl e \<Longrightarrow> ends G I (g e)) \<Longrightarrow> (\<And>a. y = Inr a \<Longrightarrow> ends G I (h a)) \<Longrightarrow> ends G I (case y of Inl e \<Rightarrow> g e | Inr a \<Rightarrow> h a)"
  "(\<And>a b. z = (a, b) \<Longrightarrow> ends G I (k a b)) \<Longrightarrow> ends G I (case z of (a, b) \<Rightarrow> k a b)"
  "(\<And>x. x = e \<Longrightarrow> ends G I (l x)) \<Longrightarrow> ends G I (Let e l)"
  by (auto split: option.split sum.split prod.split)

lemma ends_get: "(\<And>x. ends G (\<lambda>s. I s \<and> obj s = x) (f x)) \<Longrightarrow> ends G I (get_obj \<bind> f)"
  unfolding ends_def valid_def by (fastforce split: prod.splits)

lemma ends_put:
  "ends G I (f ()) \<Longrightarrow> (\<And>s. J s \<Longrightarrow> I (s\<lparr>obj := x\<rparr>)) \<Longrightarrow> ends G J (put_obj x \<bind> f)"
  unfolding ends_def valid_def by (fastforce split: prod.splits)

text \<open>A question: admissible now, and known afterwards.\<close>

lemma ends_ask:
  assumes "\<And>s r. I s \<Longrightarrow> G (trace s) (ev r)"
    and "\<And>s r. I s \<Longrightarrow> r = reply (trace s) \<Longrightarrow> J r (s\<lparr>trace := trace s @ [ev r]\<rparr>)"
    and "\<And>r. ends G (J r) (f r)"
  shows "ends G I (ask reply ev \<bind> f)"
  unfolding ends_def valid_def
proof (intro allI impI)
  fix s :: "('a, 'b) world"
  assume s: "guarded G (trace s) \<and> I s"
  let ?r = "reply (trace s)" let ?s = "s\<lparr>trace := trace s @ [ev ?r]\<rparr>"
  have "guarded G (trace ?s) \<and> J ?r ?s" using s assms(1,2) by (simp add: guarded_snoc)
  then have "case run_state (f ?r) ?s of (a, s') \<Rightarrow> guarded G (trace s')"
    using validD [OF assms(3) [of ?r, unfolded ends_def], of ?s] by (cases "run_state (f ?r) ?s") simp
  then show "case run_state (ask reply ev \<bind> f) s of (_, s) \<Rightarrow> guarded G (trace s)" by simp
qed

lemma ends_ask_last: "(\<And>s r. I s \<Longrightarrow> G (trace s) (ev r)) \<Longrightarrow> ends G I (ask reply ev)"
  by (simp add: ends_def valid_def guarded_snoc)

lemma guarded_snoc2: "guarded G (tr @ [d, e]) \<longleftrightarrow> guarded G tr \<and> G tr d \<and> G (tr @ [d]) e"
  using guarded_snoc [of G "tr @ [d]" e] by (simp add: guarded_snoc)

lemma ends_upsert:
  assumes "\<And>tr. upsert_events fetched wrote key mutate (fst (reply tr))"
    and "\<And>tr r. G tr (fetched r)"
    and "\<And>s cur new q. I s \<Longrightarrow> mutate (case cur of None \<Rightarrow> key | Some c \<Rightarrow> c) = Inr new \<Longrightarrow>
           G (trace s @ [fetched (Inr cur)]) (wrote cur new q)"
  shows "ends G I (library_call reply)"
  unfolding ends_def
proof (rule validI)
  fix s a s'
  assume s: "guarded G (trace s) \<and> I s" and "run_state (library_call reply) s = (a, s')"
  then have "trace s' = trace s @ fst (reply (trace s))" by auto
  then show "guarded G (trace s')"
    using assms(1) [of "trace s"] assms(2,3) s by (auto simp: upsert_events_def guarded_snoc guarded_snoc2)
qed

lemma ends_emits:
  assumes "emits A m" "\<And>tr e. A e \<Longrightarrow> G tr e"
  shows "ends G I m"
  unfolding ends_def
  by (rule valid_post [OF valid_weaken [OF valid_guarded [OF assms(1), where K = "\<lambda>_. True" and G = G]]])
     (use assms(2) in auto)

lemma ends_admissible: "emits (\<lambda>e. \<forall>tr. G tr e) m \<Longrightarrow> ends G I m"
  by (erule ends_emits) simp

text \<open>What follows without interactions does not matter.\<close>

lemma ends_then:
  assumes "ends G I m" "\<And>x. emits (\<lambda>_. False) (f x)"
  shows "ends G I (m \<bind> f)"
  unfolding ends_def
  by (rule valid_bind [OF _ assms(1) [unfolded ends_def]])
     (rule valid_emits [OF assms(2)], metis append_Nil2 list.pred_inject(2) neq_Nil_conv)

lemma keeps_emits:
  assumes "emits A m" "\<And>tr e. A e \<Longrightarrow> G tr e"
  shows "keeps G (\<lambda>s. True) m"
  using ends_emits [OF assms, where I = "\<lambda>_. True"] by (simp add: keeps_def ends_def)

text \<open>A fact about the object that the operation does not disturb.\<close>

lemma keeps_obj:
  assumes "ends G (\<lambda>s. P (obj s)) m" "changes R m" "\<And>a b. R a b \<Longrightarrow> P a \<Longrightarrow> P b"
  shows "keeps G (\<lambda>s. P (obj s)) m"
  unfolding keeps_def
proof (rule validI)
  fix s a s'
  assume s: "guarded G (trace s) \<and> P (obj s)" and r: "run_state m s = (a, s')"
  then show "guarded G (trace s') \<and> P (obj s')"
    using validD [OF assms(1) [unfolded ends_def] s r] changesD [OF assms(2) r] assms(3) by blast
qed

lemma keeps_obj_known:
  assumes "ends G (\<lambda>s. P (obj s) \<and> e \<in> set (trace s)) m" "changes R m" "\<And>a b. R a b \<Longrightarrow> P a \<Longrightarrow> P b"
    and "emits (\<lambda>_. True) m"
  shows "keeps G (\<lambda>s. P (obj s) \<and> e \<in> set (trace s)) m"
  unfolding keeps_def
proof (rule validI)
  fix s a s'
  assume s: "guarded G (trace s) \<and> P (obj s) \<and> e \<in> set (trace s)" and r: "run_state m s = (a, s')"
  obtain es where "trace s' = trace s @ es" using emitsD [OF assms(4), of s] r by auto
  then show "guarded G (trace s') \<and> P (obj s') \<and> e \<in> set (trace s')"
    using validD [OF assms(1) [unfolded ends_def] s r] changesD [OF assms(2) r] assms(3) s by auto
qed

lemma keeps_known:
  assumes "ends G (\<lambda>s. e \<in> set (trace s)) m" "emits (\<lambda>_. True) m"
  shows "keeps G (\<lambda>s. e \<in> set (trace s)) m"
  using keeps_obj_known [where P = "\<lambda>_. True" and R = "\<lambda>_ _. True", of G e m] assms by (simp add: changes_def)

lemma ends_guarded:
  assumes "ends G I m" "guarded G (trace s)" "I s"
  shows "guarded G (trace (snd (run_state m s)))"
  using validD [OF assms(1) [unfolded ends_def], of s "fst (run_state m s)" "snd (run_state m s)"] assms(2,3) by simp

end
