(* ===== verification/Do_Resource_Identity.thy ===== *)
theory Do_Resource_Identity
  imports Do_Resource_Order Guards
begin

text \<open>
  When the DoResource controller may create an external resource for an object that already
  stands for one: only after the runner said that the recorded resource is gone, or that the
  change needs a replacement.
\<close>

section \<open>What the runner said\<close>

definition said_gone :: "env \<Rightarrow> string \<Rightarrow> string \<Rightarrow> string \<Rightarrow> event list \<Rightarrow> bool" where
  "said_gone E token pkg rid tr =
     (\<exists>ctx pre e post. tr = pre @ RunRead ctx token pkg rid (Inl e) # post \<and>
        runner_Read E pre ctx token pkg rid = Inl e \<and> errors_Is (Some e) ErrNotFound)"

definition said_replace :: "env \<Rightarrow> string \<Rightarrow> string \<Rightarrow> string \<Rightarrow> event list \<Rightarrow> bool" where
  "said_replace E token pkg rid tr =
     (\<exists>ctx props pre e post. tr = pre @ RunPatch ctx token pkg rid props (Inl e) # post \<and>
        runner_Patch E pre ctx token pkg rid props = Inl e \<and> IsReplacementRequired e)"

text \<open>The ground a create needs for an object with the id \<open>sid\<close> and the external name \<open>ext\<close>.\<close>

definition may_create :: "env \<Rightarrow> string \<Rightarrow> string \<Rightarrow> string \<Rightarrow> string \<Rightarrow> event list \<Rightarrow> bool" where
  "may_create E sid ext token pkg tr =
     (if sid = [] then said_gone E token pkg ext tr else said_replace E token pkg sid tr)"

lemma may_create_append: "may_create E sid ext token pkg tr \<Longrightarrow> may_create E sid ext token pkg (tr @ es)"
  unfolding may_create_def said_gone_def said_replace_def by (force split: if_splits)

fun create_of :: "event \<Rightarrow> (string \<times> string) option" where
  "create_of (RunCreate _ token pkg _ _) = Some (token, pkg)"
| "create_of _ = None"

definition create_justified :: "env \<Rightarrow> string \<Rightarrow> string \<Rightarrow> event list \<Rightarrow> event \<Rightarrow> bool" where
  "create_justified E sid ext tr e =
     (case create_of e of None \<Rightarrow> True | Some (token, pkg) \<Rightarrow> may_create E sid ext token pkg tr)"

definition tracks :: "string \<Rightarrow> string \<Rightarrow> DoResource \<Rightarrow> bool" where
  "tracks sid ext res = (st_ID (status res) = sid \<and> externalName res = ext)"

lemma tracks_same: "same_but_conditions a b \<Longrightarrow> tracks sid ext a \<Longrightarrow> tracks sid ext b"
  unfolding same_but_conditions_def tracks_def externalName_def
  by (metis DoResourceStatus.select_convs(1) DoResourceStatus.surjective DoResourceStatus.update_convs(6))

section \<open>The phases of a reconcile\<close>

lemma record_creates_none: "is_record e \<Longrightarrow> create_of e = None"
  by (cases e) auto

lemmas none_phases = emits_bookkeeping [where A = "\<lambda>e. create_of e = None", OF record_creates_none, simplified]

lemma none_calls:
  "emits (\<lambda>e. create_of e = None) (ret x)" "emits (\<lambda>e. create_of e = None) get_obj"
  "emits (\<lambda>e. create_of e = None) (modify_obj g)" "emits (\<lambda>e. create_of e = None) (Update_resource E r)"
  "emits (\<lambda>e. create_of e = None) (put_obj r)"
  "emits (\<lambda>e. create_of e = None) (Run_Patch E ctx token pkg rid props)"
  "emits (\<lambda>e. create_of e = None) (Run_Read E ctx token pkg rid)"
  "emits (\<lambda>e. create_of e = None) (Run_Delete E ctx token pkg rid st)"
  "emits (\<lambda>e. create_of e = None) (Run_DeleteComponent E ctx token pkg es)"
  "emits (\<lambda>e. create_of e = None) (Run_CreateComponent E ctx token pkg props)"
  "emits (\<lambda>e. create_of e = None) (Run_UpdateComponent E ctx token pkg props es)"
  "emits (\<lambda>e. create_of e = None) (set_condition E t cs reason msg)"
  by (intro emits_intros; simp)+

lemma none_persistExternalName: "emits (\<lambda>e. create_of e = None) (persistExternalName E name)"
proof (rule emits_mono [OF emits_persistExternalName])
  fix e show "is_read e \<or> is_update e \<Longrightarrow> create_of e = None" by (cases e) auto
qed

lemma none_operations:
  "emits (\<lambda>e. create_of e = None) (adoptExternal E ctx token pkg name h)"
  "emits (\<lambda>e. create_of e = None) (reconcileComponent E ctx token pkg props h)"
  "emits (\<lambda>e. create_of e = None) (reconcile_read E ctx token pkg h)"
  "emits (\<lambda>e. create_of e = None) (reconcileDelete E ctx pkg)"
  unfolding adoptExternal_def reconcileComponent_def reconcile_read_def reconcileDelete_def delete_external_def
  by (intro emits_intros none_phases none_calls; simp)+

lemmas creates_none = none_phases none_calls none_operations none_persistExternalName

lemma ends_none: "emits (\<lambda>e. create_of e = None) m \<Longrightarrow> ends (create_justified E sid ext) I m"
  by (erule ends_emits) (simp add: create_justified_def)

lemma keeps_tracks:
  assumes "emits (\<lambda>e. create_of e = None) m" "changes same_but_conditions m"
  shows "keeps (create_justified E sid ext) (\<lambda>s. tracks sid ext (obj s)) m"
  by (rule keeps_obj [OF ends_none [OF assms(1)] assms(2) tracks_same])

lemma ends_ground:
  assumes "emits (\<lambda>e. create_of e = None \<or> create_of e = Some (token, pkg)) m"
  shows "ends (create_justified E sid ext) (\<lambda>s. may_create E sid ext token pkg (trace s)) m"
  unfolding ends_def
  by (rule valid_post [OF valid_guarded [OF assms, where K = "may_create E sid ext token pkg"]])
     (auto simp: create_justified_def may_create_append)

lemma create_emits:
  "emits (\<lambda>e. create_of e = None \<or> create_of e = Some (token, pkg)) (reconcileReplacement E ctx token pkg props h e')"
  "emits (\<lambda>e. create_of e = None \<or> create_of e = Some (token, pkg)) (Run_Create E ctx token pkg props)"
  unfolding reconcileReplacement_def replace_create_def
  by (intro emits_intros emits_mono [OF creates_none(1)] emits_mono [OF creates_none(2)]
        emits_mono [OF none_persistExternalName]; simp)+

text \<open>Nothing to adopt means that the runner did not find the named resource.\<close>

lemma adoptExternal_none:
  "valid (\<lambda>s. True) (adoptExternal E ctx token pkg name h)
     (\<lambda>r s. r = None \<longrightarrow> said_gone E token pkg name (trace s))"
proof (rule validI, intro impI)
  fix s a s'
  assume r: "run_state (adoptExternal E ctx token pkg name h) s = (a, s')" and a: "a = None"
  let ?x = "runner_Read E (trace s) ctx token pkg name"
  obtain e where e: "?x = Inl e" "errors_Is (Some e) ErrNotFound"
    using r a by (auto simp: adoptExternal_def Run_Read_def split: sum.splits if_splits prod.splits)
  then have "trace s' = trace s @ [RunRead ctx token pkg name (Inl e)]"
    using r by (auto simp: adoptExternal_def Run_Read_def)
  with e show "said_gone E token pkg name (trace s')" unfolding said_gone_def by blast
qed

lemma ends_adopt:
  assumes "\<And>x. ends (create_justified E [] ext) (\<lambda>s. x = None \<longrightarrow> may_create E [] ext token pkg (trace s)) (f x)"
  shows "ends (create_justified E [] ext) I (adoptExternal E ctx token pkg ext h \<bind> f)"
  unfolding ends_def
proof (rule valid_bind [OF assms [unfolded ends_def]], rule validI)
  fix s a s'
  assume s: "guarded (create_justified E [] ext) (trace s) \<and> I s"
    and r: "run_state (adoptExternal E ctx token pkg ext h) s = (a, s')"
  have "valid (\<lambda>s. guarded (create_justified E [] ext) (trace s) \<and> I s) (adoptExternal E ctx token pkg ext h)
      (\<lambda>_ s. guarded (create_justified E [] ext) (trace s))"
    using ends_none [OF none_operations(1)] unfolding ends_def .
  from validD [OF this s r] show "guarded (create_justified E [] ext) (trace s') \<and> (a = None \<longrightarrow> may_create E [] ext token pkg (trace s'))"
    using validD [OF adoptExternal_none TrueI r] by (simp add: may_create_def)
qed

lemma ends_get_when:
  "(\<And>x. P x \<Longrightarrow> ends G (\<lambda>s. P (obj s)) (f x)) \<Longrightarrow> ends G (\<lambda>s. P (obj s)) (get_obj \<bind> f)"
  unfolding ends_def valid_def by (fastforce split: prod.splits)

lemma create_emits_rest:
  "emits (\<lambda>e. create_of e = None) m \<Longrightarrow> emits (\<lambda>e. create_of e = None \<or> create_of e = Some (token, pkg)) m"
  by (erule emits_mono) simp

lemma ends_reconcileCreate:
  assumes "ext \<noteq> []"
  shows "ends (create_justified E [] ext) (\<lambda>s. tracks [] ext (obj s)) (reconcileCreate E ctx token pkg props h)"
  unfolding reconcileCreate_def
proof (rule ends_get_when, goal_cases)
  case (1 res0)
  then have ext: "externalName res0 = ext" by (simp add: tracks_def)
  show ?case
    unfolding ext if_P [OF assms]
  proof (rule ends_adopt, goal_cases)
    case (1 handled)
    show ?case
    proof (cases handled)
      case None
      show ?thesis
        unfolding None option.case simp_thms
        by (rule ends_ground, intro emits_intros create_emits create_emits_rest [OF creates_none(1)]
              create_emits_rest [OF creates_none(2)] create_emits_rest [OF none_persistExternalName]) simp
    qed (simp add: ends_return)
  qed
qed

lemma ends_reconcile_patch:
  assumes "sid \<noteq> []"
  shows "ends (create_justified E sid ext) (\<lambda>s. tracks sid ext (obj s)) (reconcile_patch E ctx token pkg props h)"
  unfolding reconcile_patch_def
proof (rule ends_get_when, goal_cases)
  case (1 res)
  then have sid: "st_ID (status res) = sid" by (simp add: tracks_def)
  show ?case
    unfolding sid Run_Patch_def
  proof (rule ends_ask [where J = "\<lambda>r s. \<forall>e. r = Inl e \<longrightarrow> IsReplacementRequired e \<longrightarrow> may_create E sid ext token pkg (trace s)"],
      goal_cases)
    case (2 s r)
    then show ?case using assms by (simp add: may_create_def said_replace_def) metis
  next
    case (3 r)
    show ?case
    proof (cases "\<exists>e. r = Inl e \<and> IsReplacementRequired e")
      case True
      then show ?thesis by (auto intro!: ends_weaken [OF ends_ground [OF create_emits(1)]])
    next
      case False
      then show ?thesis
        by (cases r) (auto intro!: ends_none creates_none emits_bind)
    qed
  qed (simp add: create_justified_def)
qed

lemma ends_reconcile_external:
  assumes "sid \<noteq> [] \<or> ext \<noteq> []"
  shows "ends (create_justified E sid ext) (\<lambda>s. tracks sid ext (obj s)) (reconcile_external E ctx token pkg schema props)"
  unfolding reconcile_external_def Let_def
proof (rule ends_bind [OF keeps_tracks [OF none_phases(7) changes_reads_same(3)]], rule ends_get_when, goal_cases)
  case (1 hs res)
  then have sid: "st_ID (status res) = sid" by (simp add: tracks_def)
  have create: "sid = [] \<Longrightarrow> ends (create_justified E sid ext) (\<lambda>s. tracks sid ext (obj s)) (reconcileCreate E c token pkg props h)" for c h
    using ends_reconcileCreate assms by simp
  show ?case
    unfolding sid
    by (intro ends_cases; (rule ends_none, rule creates_none | erule create | rule ends_reconcile_patch, assumption))
qed

lemma ends_reconcile_live:
  assumes "sid \<noteq> [] \<or> ext \<noteq> []"
  shows "ends (create_justified E sid ext) (\<lambda>s. tracks sid ext (obj s)) (reconcile_live E ctx pkg token)"
  unfolding reconcile_live_def
  by (intro ends_bind ends_get_when ends_cases keeps_tracks ends_reconcile_external [OF assms]
        ends_none creates_none emits_if changes_cases changes_applyReferences changes_stageSecretInputs
        changes_calls changes_still same_but_conditions_refl)

lemma ends_reconcile_object:
  assumes "sid \<noteq> [] \<or> ext \<noteq> []" "ContainsFinalizer E (meta res) doResourceFinalizer"
  shows "ends (create_justified E sid ext) (\<lambda>s. tracks sid ext (obj s)) (reconcile_object E ctx res)"
  unfolding reconcile_object_def if_P [OF assms(2)]
  by (intro ends_bind ends_cases keeps_tracks ends_reconcile_live [OF assms(1)] ends_none creates_none
        changes_resolveProvider changes_set_condition changes_reads_same)

text \<open>
  An external resource that is on record is created again only on the runner's word: when the
  object has an external name but no id, after a read of that name answered with
  \<open>ErrNotFound\<close>; when it has an id, after a patch of that id answered with a required
  replacement.
\<close>

lemma Reconcile_create_justified:
  assumes "get_resource E [] (reader E) ns name = Inr res" "ContainsFinalizer E (meta res) doResourceFinalizer"
    "st_ID (status res) \<noteq> [] \<or> externalName res \<noteq> []"
    "trace (snd (run_state (Reconcile E ns name) \<lparr>obj = x, trace = []\<rparr>)) = pre @ RunCreate ctx token pkg props r # post"
  shows "may_create E (st_ID (status res)) (externalName res) token pkg pre"
proof -
  let ?G = "create_justified E (st_ID (status res)) (externalName res)"
  have "guarded ?G (trace (snd (run_state (reconcile_object E (reconcile_ctx ns name) res)
      \<lparr>obj = res, trace = [ApiGetResource (reader E) ns name (Inr res)]\<rparr>)))"
    by (rule ends_guarded [OF ends_reconcile_object [OF assms(3,2)]])
       (simp_all add: tracks_def guarded_def create_justified_def)
  then have "?G pre (RunCreate ctx token pkg props r)"
    using assms(4) unfolding run_Reconcile [OF assms(1)] by (rule guarded_split)
  then show ?thesis by (simp add: create_justified_def)
qed

section \<open>Releasing the finalizer\<close>

text \<open>The delete of a teardown, and that it was answered with the resource gone.\<close>

definition delete_call :: "op_ctx \<Rightarrow> string \<Rightarrow> DoResource \<Rightarrow> error option \<Rightarrow> event" where
  "delete_call ctx pkg res =
     (case st_EngineState (status res) of
        Some engine \<Rightarrow> RunDeleteComponent ctx (spec_Type (spec res)) pkg engine
      | None \<Rightarrow> RunDelete ctx (spec_Type (spec res)) pkg (st_ID (status res)) (deleteState res))"

definition said_deleted :: "env \<Rightarrow> DoResource \<Rightarrow> event list \<Rightarrow> bool" where
  "said_deleted E res tr =
     (\<exists>ctx pkg pre post. tr = pre @ delete_call ctx pkg res (delete_reply E ctx pkg res pre) # post \<and>
        gone (delete_reply E ctx pkg res pre))"

definition may_release :: "env \<Rightarrow> DoResource \<Rightarrow> event list \<Rightarrow> bool" where
  "may_release E res tr =
     (spec_DeletionPolicy (spec res) = DeletionOrphan \<or> st_ID (status res) = [] \<or> said_deleted E res tr)"

definition release_justified :: "env \<Rightarrow> DoResource \<Rightarrow> event list \<Rightarrow> event \<Rightarrow> bool" where
  "release_justified E res tr e = (is_update e \<longrightarrow> may_release E res tr)"

lemma same_fields:
  assumes "same_but_conditions res r"
  shows "spec r = spec res" "st_ID (status r) = st_ID (status res)" "st_EngineState (status r) = st_EngineState (status res)"
    "st_Outputs (status r) = st_Outputs (status res)"
  using assms unfolding same_but_conditions_def
  by (metis DoResourceStatus.select_convs DoResourceStatus.surjective DoResourceStatus.update_convs(6))+

lemma same_delete:
  assumes "same_but_conditions res r"
  shows "delete_reply E ctx pkg r = delete_reply E ctx pkg res" "delete_call ctx pkg r = delete_call ctx pkg res"
  unfolding fun_eq_iff delete_reply_def delete_call_def deleteState_def same_fields [OF assms] by simp_all

lemma run_delete_event:
  "run_state (case st_EngineState (status r) of
      Some engine \<Rightarrow> Run_DeleteComponent E ctx (spec_Type (spec r)) pkg engine
    | None \<Rightarrow> Run_Delete E ctx (spec_Type (spec r)) pkg (st_ID (status r)) (deleteState r)) s =
   (delete_reply E ctx pkg r (trace s), s\<lparr>trace := trace s @ [delete_call ctx pkg r (delete_reply E ctx pkg r (trace s))]\<rparr>)"
  by (cases "st_EngineState (status r)") (auto simp: call_defs delete_reply_def delete_call_def)

lemma delete_external_word:
  "valid (\<lambda>s. same_but_conditions res (obj s)) (delete_external E ctx pkg) (\<lambda>r s. r = None \<longrightarrow> may_release E res (trace s))"
proof (rule validI, intro impI)
  fix s a s'
  assume same: "same_but_conditions res (obj s)" and r: "run_state (delete_external E ctx pkg) s = (a, s')" and a: "a = None"
  note eqs = same_fields [OF same] same_delete [OF same]
  define reply where "reply = delete_reply E ctx pkg res (trace s)"
  show "may_release E res (trace s')"
  proof (cases "spec_DeletionPolicy (spec res) \<noteq> DeletionOrphan \<and> st_ID (status res) \<noteq> []")
    case True
    have "gone reply \<and> (\<exists>post. trace s' = trace s @ delete_call ctx pkg res reply # post)"
      using r a True run_delete_event [where r = "obj s" and s = s] eqs
      by (cases reply) (auto simp: delete_external_def Let_def Eventf_def gone_def reply_def split: if_splits)
    then show ?thesis unfolding may_release_def said_deleted_def reply_def by blast
  qed (auto simp: may_release_def)
qed

lemma may_release_append: "may_release E res tr \<Longrightarrow> may_release E res (tr @ es)"
  unfolding may_release_def said_deleted_def by force

lemma record_updates_none: "is_record e \<Longrightarrow> \<not> is_update e"
  by (cases e) auto

lemmas update_free = emits_bookkeeping [where A = "\<lambda>e. \<not> is_update e", OF record_updates_none, simplified]

lemma ends_update_free: "emits (\<lambda>e. \<not> is_update e) m \<Longrightarrow> ends (release_justified E res) I m"
  by (erule ends_emits) (simp add: release_justified_def)

lemma keeps_same:
  assumes "emits (\<lambda>e. \<not> is_update e) m" "changes same_but_conditions m"
  shows "keeps (release_justified E res) (\<lambda>s. same_but_conditions res (obj s)) m"
  by (rule keeps_obj [OF ends_update_free [OF assms(1)] assms(2)]) (rule transpD [OF same_but_conditions_trans])

lemma ends_released:
  assumes "emits (\<lambda>_. True) m"
  shows "ends (release_justified E res) (\<lambda>s. may_release E res (trace s)) m"
  unfolding ends_def
  by (rule valid_post [OF valid_guarded [OF assms, where K = "may_release E res"]])
     (auto simp: release_justified_def may_release_append)

lemma delete_external_update_free: "emits (\<lambda>e. \<not> is_update e) (delete_external E ctx pkg)"
  unfolding delete_external_def by (intro emits_intros; simp)

lemma ends_delete_external:
  assumes "\<And>x. ends (release_justified E res) (\<lambda>s. x = None \<longrightarrow> may_release E res (trace s)) (f x)"
  shows "ends (release_justified E res) (\<lambda>s. same_but_conditions res (obj s)) (delete_external E ctx pkg \<bind> f)"
  unfolding ends_def
proof (rule valid_bind [OF assms [unfolded ends_def]], rule validI)
  fix s a s'
  assume s: "guarded (release_justified E res) (trace s) \<and> same_but_conditions res (obj s)"
    and r: "run_state (delete_external E ctx pkg) s = (a, s')"
  have "valid (\<lambda>s. guarded (release_justified E res) (trace s) \<and> same_but_conditions res (obj s)) (delete_external E ctx pkg)
      (\<lambda>_ s. guarded (release_justified E res) (trace s))"
    using ends_update_free [OF delete_external_update_free] unfolding ends_def .
  from validD [OF this s r] show "guarded (release_justified E res) (trace s') \<and> (a = None \<longrightarrow> may_release E res (trace s'))"
    using validD [OF delete_external_word conjunct2 [OF s] r] by simp
qed

lemma ends_reconcileDelete:
  "ends (release_justified E res) (\<lambda>s. same_but_conditions res (obj s)) (reconcileDelete E ctx pkg)"
  unfolding reconcileDelete_def Let_def
proof (rule ends_get_when, rule ends_cases(1), rule ends_return,
    rule ends_bind [OF keeps_same [OF update_free(12) changes_eq_refl [OF same_but_conditions_refl changes_blockingDependents]]],
    rule ends_cases(3), rule ends_return, rule ends_cases(1), goal_cases)
  case (1 r br deps)
  show ?case
    by (rule ends_update_free, intro emits_bind emits_option emits_return emits_set_condition update_free)
next
  case (2 r br deps)
  show ?case
  proof (rule ends_delete_external, goal_cases)
    case (1 x)
    show ?case
      by (cases x) (auto intro!: ends_return ends_released [OF emits_bind] emits_intros)
  qed
qed

lemma ends_dying_object:
  assumes "om_Deleting (meta res)"
  shows "ends (release_justified E res) (\<lambda>s. same_but_conditions res (obj s)) (reconcile_object E ctx res)"
  unfolding reconcile_object_def if_P [OF assms]
  by (intro ends_bind ends_cases keeps_same ends_reconcileDelete ends_return update_free emits_set_condition
        changes_resolveProvider changes_set_condition changes_reads_same)

text \<open>
  A dying object is updated, and so loses its finalizer, only when its external resource is
  orphaned by policy, was never provisioned, or was deleted in this reconcile with an answer
  that says so.
\<close>

lemma Reconcile_release_justified:
  assumes "get_resource E [] (reader E) ns name = Inr res" "om_Deleting (meta res)"
    "trace (snd (run_state (Reconcile E ns name) \<lparr>obj = x, trace = []\<rparr>)) = pre @ ApiUpdate u r # post"
  shows "may_release E res pre"
proof -
  have "guarded (release_justified E res) (trace (snd (run_state (reconcile_object E (reconcile_ctx ns name) res)
      \<lparr>obj = res, trace = [ApiGetResource (reader E) ns name (Inr res)]\<rparr>)))"
    by (rule ends_guarded [OF ends_dying_object [OF assms(2)]])
       (simp_all add: reflpD [OF same_but_conditions_refl] guarded_def release_justified_def)
  then have "release_justified E res pre (ApiUpdate u r)"
    using assms(3) unfolding run_Reconcile [OF assms(1)] by (rule guarded_split)
  then show ?thesis by (simp add: release_justified_def)
qed

end
