(* ===== verification/Operator_Runs.thy ===== *)
theory Operator_Runs
  imports Runner_Refinement Do_Resource_Identity
begin

text \<open>
  The DoResource controller on top of a runner. The controller model takes the replies of the
  \<open>Runner\<close> interface from its environment; here they come from a runner of
  \<open>internal/pulumido\<close>. What the controller may conclude from a reply is stated as an interface,
  and both runners provide it.
\<close>

section \<open>The interface\<close>

text \<open>The operation that tears down the external resource of \<open>res\<close>.\<close>

definition teardown_op :: "DoResource \<Rightarrow> string \<Rightarrow> Op result" where
  "teardown_op res pkg =
     (case st_EngineState (status res) of
        None \<Rightarrow> Inr (Delete_op (spec_Type (spec res)) pkg (st_ID (status res)) (deleteState res))
      | Some engine \<Rightarrow>
          and_then (engineStateJSON engine) (\<lambda>state. Inr (engine_op VerbEngineDestroy (spec_Type (spec res)) pkg [] state)))"

text \<open>\<open>verdict tr ctx op res\<close>: the operation \<open>op\<close>, asked for after \<open>tr\<close>, was executed with result \<open>res\<close>.\<close>

locale answering_runner =
  fixes E :: env and trusted :: bool and verdict :: "event list \<Rightarrow> op_ctx \<Rightarrow> Op \<Rightarrow> Result \<Rightarrow> bool"
  assumes read_gone: "trusted \<Longrightarrow> runner_Read E tr ctx token pkg rid = Inl e \<Longrightarrow> errors_Is (Some e) ErrNotFound \<Longrightarrow>
      \<exists>res. verdict tr ctx (Read_op token pkg rid) res \<and> \<not> OK res \<and> res_Code res = CodeNotFound"
    and patch_replace: "trusted \<Longrightarrow> runner_Patch E tr ctx token pkg rid props = Inl e \<Longrightarrow> IsReplacementRequired e \<Longrightarrow>
      \<exists>res. verdict tr ctx (Patch_op token pkg rid props) res \<and> \<not> OK res \<and> res_Code res = CodeReplacementRequired"
    and delete_gone: "trusted \<Longrightarrow> gone (runner_Delete E tr ctx token pkg rid st) \<Longrightarrow>
      \<exists>res. verdict tr ctx (Delete_op token pkg rid st) res \<and> (OK res \<or> res_Code res = CodeNotFound)"
    and component_gone: "trusted \<Longrightarrow> gone (runner_DeleteComponent E tr ctx token pkg engine) \<Longrightarrow>
      \<exists>state res. engineStateJSON engine = Inr state \<and> verdict tr ctx (engine_op VerbEngineDestroy token pkg [] state) res \<and>
        (OK res \<or> res_Code res = CodeNotFound)"
begin

lemma recreates:
  assumes "trusted" "get_resource E [] (reader E) ns name = Inr res" "ContainsFinalizer E (meta res) doResourceFinalizer"
    "st_ID (status res) \<noteq> [] \<or> externalName res \<noteq> []"
    "trace (snd (run_state (Reconcile E ns name) \<lparr>obj = x, trace = []\<rparr>)) = pre @ RunCreate ctx token pkg props r # post"
  shows "\<exists>tr es ctx' op out. pre = tr @ es \<and> verdict tr ctx' op out \<and> \<not> OK out \<and>
     (if st_ID (status res) = [] then op = Read_op token pkg (externalName res) \<and> res_Code out = CodeNotFound
      else (\<exists>props'. op = Patch_op token pkg (st_ID (status res)) props') \<and> res_Code out = CodeReplacementRequired)"
proof -
  have "may_create E (st_ID (status res)) (externalName res) token pkg pre"
    by (rule Reconcile_create_justified [OF assms(2-5)])
  then consider (read) "st_ID (status res) = []" "said_gone E token pkg (externalName res) pre"
    | (patch) "st_ID (status res) \<noteq> []" "said_replace E token pkg (st_ID (status res)) pre"
    by (auto simp: may_create_def split: if_splits)
  then show ?thesis
  proof cases
    case read
    then show ?thesis using read_gone [OF assms(1)] unfolding said_gone_def by auto metis
  next
    case patch
    then show ?thesis using patch_replace [OF assms(1)] unfolding said_replace_def by auto metis
  qed
qed

lemma delete_verdict:
  assumes "trusted" "gone (delete_reply E ctx pkg res tr)"
  shows "\<exists>op out. teardown_op res pkg = Inr op \<and> verdict tr ctx op out \<and> (OK out \<or> res_Code out = CodeNotFound)"
  using assms(2) delete_gone [OF assms(1)] component_gone [OF assms(1)]
  by (fastforce simp: delete_reply_def teardown_op_def split: option.splits)

lemma releases:
  assumes "trusted" "get_resource E [] (reader E) ns name = Inr res" "om_Deleting (meta res)"
    "trace (snd (run_state (Reconcile E ns name) \<lparr>obj = x, trace = []\<rparr>)) = pre @ ApiUpdate u r # post"
  shows "spec_DeletionPolicy (spec res) = DeletionOrphan \<or> st_ID (status res) = [] \<or>
     (\<exists>tr es ctx pkg op out. pre = tr @ es \<and> teardown_op res pkg = Inr op \<and> verdict tr ctx op out \<and>
        (OK out \<or> res_Code out = CodeNotFound))"
proof -
  have "said_deleted E res pre \<Longrightarrow> \<exists>tr es ctx pkg op out. pre = tr @ es \<and> teardown_op res pkg = Inr op \<and>
      verdict tr ctx op out \<and> (OK out \<or> res_Code out = CodeNotFound)"
    unfolding said_deleted_def by (elim exE conjE, drule delete_verdict [OF assms(1)]) metis
  then show ?thesis using Reconcile_release_justified [OF assms(2-4)] unfolding may_release_def by blast
qed

end

section \<open>Runners that execute operations\<close>

text \<open>
  Both runners build an operation, execute it and pass on its error. \<open>exec tr ctx op\<close> is the
  outcome of executing; an error is \<open>blind\<close> when it says neither that the resource is gone nor
  that it must be replaced.
\<close>

definition blind :: "error \<Rightarrow> bool" where
  "blind e = (\<not> errors_Is (Some e) ErrNotFound \<and> \<not> IsReplacementRequired e)"

text \<open>A nil map and an empty one are the same to the envelope.\<close>

definition nil_or :: "jobj \<Rightarrow> jobj option \<Rightarrow> bool" where
  "nil_or m x = (x = Some m \<or> m = [] \<and> x = None)"

definition answers :: "('a \<Rightarrow> 'b \<Rightarrow> bool) \<Rightarrow> 'a result option \<Rightarrow> 'b result \<Rightarrow> bool" where
  "answers R out reply = (\<exists>y. out = Some y \<and> rel_sum (=) R y reply)"

lemma outcome_error: "answers R (map_option (op_outcome f) out) (Inl e) \<Longrightarrow> \<exists>res. out = Some (res, Some e)"
  by (auto simp: answers_def op_outcome_def split: option.splits)

lemma gone_result: "gone (resultErr res) \<longleftrightarrow> OK res \<or> res_Code res = CodeNotFound"
  by (auto simp: gone_def resultErr_None resultErr_not_found)

lemma replace_result:
  "resultErr res = Some e \<Longrightarrow> IsReplacementRequired e \<Longrightarrow> \<not> OK res \<and> res_Code res = CodeReplacementRequired"
  by (auto simp: resultErr_def Let_def IsReplacementRequired_def split: if_splits)

locale executing_runner =
  fixes E :: env and trusted :: bool and verdict :: "event list \<Rightarrow> op_ctx \<Rightarrow> Op \<Rightarrow> Result \<Rightarrow> bool"
    and exec :: "event list \<Rightarrow> op_ctx \<Rightarrow> Op \<Rightarrow> (Result \<times> error option) option"
  assumes word: "trusted \<Longrightarrow> exec tr ctx op = Some (res, err) \<Longrightarrow>
      (\<exists>e. err = Some e \<and> blind e) \<or> verdict tr ctx op res \<and> err = resultErr res"
    and read: "trusted \<Longrightarrow> answers nil_or (map_option (op_outcome res_State) (exec tr ctx (Read_op token pkg rid)))
      (runner_Read E tr ctx token pkg rid)"
    and patch: "trusted \<Longrightarrow> answers nil_or (map_option (op_outcome res_State) (exec tr ctx (Patch_op token pkg rid props)))
      (runner_Patch E tr ctx token pkg rid props)"
    and delete: "trusted \<Longrightarrow> map_option snd (exec tr ctx (Delete_op token pkg rid st)) = Some (runner_Delete E tr ctx token pkg rid st)"
    and destroy: "trusted \<Longrightarrow> (case engineStateJSON engine of
        Inl e \<Rightarrow> runner_DeleteComponent E tr ctx token pkg engine = Some e
      | Inr state \<Rightarrow> map_option snd (exec tr ctx (engine_op VerbEngineDestroy token pkg [] state)) =
                     Some (runner_DeleteComponent E tr ctx token pkg engine))"
begin

lemma told:
  assumes "trusted" "map_option snd (exec tr ctx op) = Some err" "\<forall>e. err = Some e \<longrightarrow> \<not> blind e"
  shows "\<exists>res. verdict tr ctx op res \<and> resultErr res = err"
  using word [OF assms(1), of tr ctx op] assms(2,3) by fastforce

lemma deleted:
  assumes "trusted" "map_option snd (exec tr ctx op) = Some err" "gone err"
  shows "\<exists>res. verdict tr ctx op res \<and> (OK res \<or> res_Code res = CodeNotFound)"
  using told [OF assms(1,2)] assms(3) gone_result by (auto simp: gone_def blind_def)

end

sublocale executing_runner \<subseteq> answering_runner E trusted verdict
proof
  fix tr ctx token pkg rid e
  assume t: "trusted" and r: "runner_Read E tr ctx token pkg rid = Inl e" and g: "errors_Is (Some e) ErrNotFound"
  have "map_option snd (exec tr ctx (Read_op token pkg rid)) = Some (Some e)"
    using outcome_error [OF read [OF t, of tr ctx token pkg rid, unfolded r]] by auto
  from told [OF t this] show "\<exists>res. verdict tr ctx (Read_op token pkg rid) res \<and> \<not> OK res \<and> res_Code res = CodeNotFound"
    using g by (auto simp: blind_def) (metis resultErr_not_found)
next
  fix tr ctx token pkg rid props e
  assume t: "trusted" and r: "runner_Patch E tr ctx token pkg rid props = Inl e" and g: "IsReplacementRequired e"
  have "map_option snd (exec tr ctx (Patch_op token pkg rid props)) = Some (Some e)"
    using outcome_error [OF patch [OF t, of tr ctx token pkg rid props, unfolded r]] by auto
  from told [OF t this] show "\<exists>res. verdict tr ctx (Patch_op token pkg rid props) res \<and> \<not> OK res \<and> res_Code res = CodeReplacementRequired"
    using g replace_result by (auto simp: blind_def)
next
  fix tr ctx token pkg rid st
  assume "trusted" "gone (runner_Delete E tr ctx token pkg rid st)"
  then show "\<exists>res. verdict tr ctx (Delete_op token pkg rid st) res \<and> (OK res \<or> res_Code res = CodeNotFound)"
    using deleted delete by blast
next
  fix tr ctx token pkg engine
  assume t: "trusted" and g: "gone (runner_DeleteComponent E tr ctx token pkg engine)"
  show "\<exists>state res. engineStateJSON engine = Inr state \<and>
      verdict tr ctx (engine_op VerbEngineDestroy token pkg [] state) res \<and> (OK res \<or> res_Code res = CodeNotFound)"
  proof (cases "engineStateJSON engine")
    case (Inl e)
    then have "\<not> gone (Some e)" by (auto simp: engineStateJSON_def gone_def split: if_splits)
    then show ?thesis using destroy [OF t, where engine = engine and tr = tr and ctx = ctx and token = token and pkg = pkg] g Inl by simp
  next
    case (Inr state)
    then show ?thesis using deleted [OF t _ g] destroy [OF t, where engine = engine and tr = tr and ctx = ctx and token = token and pkg = pkg] by simp
  qed
qed

lemma fst_run_map: "fst (run_state (m \<bind> (\<lambda>x. ret (f x))) s) = f (fst (run_state m s))"
  by (simp split: prod.split)

section \<open>Jobs\<close>

text \<open>
  \<open>job_reported\<close>: the Job of an operation was seen complete, and the envelope in its log is
  \<open>res\<close>. \<open>jobs_behind\<close>: every reply of the environment's runner is that of a Job runner, on a
  cluster that behaves as \<open>K\<close> says after each trace.
\<close>

type_synonym job_world = "(tenantCaches, job_event) world"

definition job_reported :: "nat \<Rightarrow> job_env \<Rightarrow> JobRunner \<Rightarrow> job_world \<Rightarrow> op_ctx \<Rightarrow> Op \<Rightarrow> Result \<Rightarrow> bool" where
  "job_reported n K J s ctx op res =
     (\<exists>es ns name conds pod logs. trace (snd (run_state (executeOp n K J ctx op) s)) = trace s @ es \<and>
        GetJob ns name (Inr conds) \<in> set es \<and> job_verdict conds = Some JobComplete \<and>
        GetLogs ns pod (Inr logs) \<in> set es \<and> decodeEnvelope (job_float64 K) logs = Inr res)"

definition jobs_behind ::
  "nat \<Rightarrow> (event list \<Rightarrow> job_env) \<Rightarrow> JobRunner \<Rightarrow> (event list \<Rightarrow> job_world) \<Rightarrow> env \<Rightarrow> bool" where
  "jobs_behind n K J w E = (\<forall>tr. plain_errors (K tr) \<and> (\<forall>ctx token pkg rid props st.
     answers (rel_prod (=) nil_or) (fst (run_state (Job_Create n (K tr) J ctx token pkg props) (w tr)))
       (runner_Create E tr ctx token pkg props) \<and>
     answers nil_or (fst (run_state (Job_Patch n (K tr) J ctx token pkg rid props) (w tr))) (runner_Patch E tr ctx token pkg rid props) \<and>
     answers nil_or (fst (run_state (Job_Read n (K tr) J ctx token pkg rid) (w tr))) (runner_Read E tr ctx token pkg rid) \<and>
     fst (run_state (Job_Delete n (K tr) J ctx token pkg rid props) (w tr)) = Some (runner_Delete E tr ctx token pkg rid props) \<and>
     answers (rel_prod (=) (rel_prod nil_or (=))) (fst (run_state (Job_CreateComponent n (K tr) J ctx token pkg props) (w tr)))
       (runner_CreateComponent E tr ctx token pkg props) \<and>
     answers (rel_prod nil_or (=)) (fst (run_state (Job_UpdateComponent n (K tr) J ctx token pkg props st) (w tr)))
       (runner_UpdateComponent E tr ctx token pkg props st) \<and>
     fst (run_state (Job_DeleteComponent n (K tr) J ctx token pkg st) (w tr)) = Some (runner_DeleteComponent E tr ctx token pkg st)))"

lemma jobs_behindD:
  assumes "jobs_behind n K J w E"
  shows "plain_errors (K tr)"
    "answers nil_or (fst (run_state (Job_Patch n (K tr) J ctx token pkg rid props) (w tr))) (runner_Patch E tr ctx token pkg rid props)"
    "answers nil_or (fst (run_state (Job_Read n (K tr) J ctx token pkg rid) (w tr))) (runner_Read E tr ctx token pkg rid)"
    "fst (run_state (Job_Delete n (K tr) J ctx token pkg rid props) (w tr)) = Some (runner_Delete E tr ctx token pkg rid props)"
    "fst (run_state (Job_DeleteComponent n (K tr) J ctx token pkg st) (w tr)) = Some (runner_DeleteComponent E tr ctx token pkg st)"
  using assms unfolding jobs_behind_def by blast+

lemma infra_blind: "infra_error e \<Longrightarrow> blind e"
  by (simp add: infra_error_def blind_def IsReplacementRequired_def)

lemma job_word:
  assumes "plain_errors K" "fst (run_state (executeOp n K J ctx op) s) = Some (res, err)"
  shows "(\<exists>e. err = Some e \<and> blind e) \<or> job_reported n K J s ctx op res \<and> err = resultErr res"
proof -
  obtain s' where r: "run_state (executeOp n K J ctx op) s = (Some (res, err), s')"
    using assms(2) by (metis prod.collapse)
  then obtain es where es: "trace s' = trace s @ es" "op_post K (res, err) es"
    using doesD [OF executeOp_does r] by auto
  then consider "reported K (res, err) es" | e where "err = Some e" "infra_error e" using assms(1) by (auto simp: op_post_def)
  then show ?thesis
  proof cases
    case 1
    then show ?thesis using es(1) r unfolding reported_def saw_def read_log_def job_reported_def fst_conv snd_conv by fastforce
  qed (use infra_blind in blast)
qed

lemma job_destroy:
  assumes "jobs_behind n K J w E"
  shows "case engineStateJSON engine of
      Inl e \<Rightarrow> runner_DeleteComponent E tr ctx token pkg engine = Some e
    | Inr state \<Rightarrow> map_option snd (fst (run_state (executeOp n (K tr) J ctx (engine_op VerbEngineDestroy token pkg [] state)) (w tr))) =
                   Some (runner_DeleteComponent E tr ctx token pkg engine)"
  using jobs_behindD(5) [OF assms, of tr ctx token pkg engine] unfolding Job_DeleteComponent_def
  by (cases "engineStateJSON engine") (simp, simp only: sum.case fst_run_map)

interpretation ja: executing_runner E "jobs_behind n K J w E" "\<lambda>tr. job_reported n (K tr) J (w tr)"
    "\<lambda>tr ctx op. fst (run_state (executeOp n (K tr) J ctx op) (w tr))" for n K J w E
proof (unfold_locales, goal_cases)
  case (1 tr ctx op res err)
  then show ?case by (rule job_word [OF jobs_behindD(1)])
next
  case (2 tr ctx token pkg rid)
  then show ?case using jobs_behindD(3) by (metis Job_Read_def fst_run_map)
next
  case (3 tr ctx token pkg rid props)
  then show ?case using jobs_behindD(2) by (metis Job_Patch_def fst_run_map)
next
  case (4 tr ctx token pkg rid st)
  then show ?case using jobs_behindD(4) by (metis Job_Delete_def fst_run_map)
next
  case 5
  then show ?case by (rule job_destroy)
qed

section \<open>The operator's own process\<close>

type_synonym exec_world = "(unit, runner_event) world"

definition exec_reported :: "nat \<Rightarrow> runner_env \<Rightarrow> ExecRunner \<Rightarrow> exec_world \<Rightarrow> op_ctx \<Rightarrow> Op \<Rightarrow> Result \<Rightarrow> bool" where
  "exec_reported n K X s ctx op res =
     (\<exists>lookup. exec_lookup X ctx (Verb op) = Inr lookup \<and>
        fst (run_state (Execute n K \<lparr>PulumiBin = er_PulumiBin X, BakedPlugins = [], PluginCache = [],
                                     LookupEnv = lookup, redactSecrets = []\<rparr> (job_op ctx op)) s) = Some res)"

definition process_behind ::
  "nat \<Rightarrow> (event list \<Rightarrow> runner_env) \<Rightarrow> ExecRunner \<Rightarrow> (event list \<Rightarrow> exec_world) \<Rightarrow> env \<Rightarrow> bool" where
  "process_behind n K X w E = (\<forall>tr ctx token pkg rid props st.
     answers (rel_prod (=) nil_or) (fst (run_state (Exec_Create n (K tr) X ctx token pkg props) (w tr)))
       (runner_Create E tr ctx token pkg props) \<and>
     answers nil_or (fst (run_state (Exec_Patch n (K tr) X ctx token pkg rid props) (w tr))) (runner_Patch E tr ctx token pkg rid props) \<and>
     answers nil_or (fst (run_state (Exec_Read n (K tr) X ctx token pkg rid) (w tr))) (runner_Read E tr ctx token pkg rid) \<and>
     fst (run_state (Exec_Delete n (K tr) X ctx token pkg rid props) (w tr)) = Some (runner_Delete E tr ctx token pkg rid props) \<and>
     answers (rel_prod (=) (rel_prod nil_or (=))) (fst (run_state (Exec_CreateComponent n (K tr) X ctx token pkg props) (w tr)))
       (runner_CreateComponent E tr ctx token pkg props) \<and>
     answers (rel_prod nil_or (=)) (fst (run_state (Exec_UpdateComponent n (K tr) X ctx token pkg props st) (w tr)))
       (runner_UpdateComponent E tr ctx token pkg props st) \<and>
     fst (run_state (Exec_DeleteComponent n (K tr) X ctx token pkg st) (w tr)) = Some (runner_DeleteComponent E tr ctx token pkg st))"

lemma process_behindD:
  assumes "process_behind n K X w E"
  shows "answers nil_or (fst (run_state (Exec_Patch n (K tr) X ctx token pkg rid props) (w tr))) (runner_Patch E tr ctx token pkg rid props)"
    "answers nil_or (fst (run_state (Exec_Read n (K tr) X ctx token pkg rid) (w tr))) (runner_Read E tr ctx token pkg rid)"
    "fst (run_state (Exec_Delete n (K tr) X ctx token pkg rid props) (w tr)) = Some (runner_Delete E tr ctx token pkg rid props)"
    "fst (run_state (Exec_DeleteComponent n (K tr) X ctx token pkg st) (w tr)) = Some (runner_DeleteComponent E tr ctx token pkg st)"
  using assms unfolding process_behind_def by blast+

lemma input_missing_blind: "input_missing e \<Longrightarrow> blind e"
  by (auto simp: input_missing_def blind_def IsReplacementRequired_def code_defs)

lemma exec_word:
  assumes "fst (run_state (execute n K X ctx op) s) = Some (res, err)"
  shows "(\<exists>e. err = Some e \<and> blind e) \<or> exec_reported n K X s ctx op res \<and> err = resultErr res"
proof (cases "exec_lookup X ctx (Verb op)")
  case (Inl e)
  then show ?thesis using assms exec_lookup_error [OF Inl] input_missing_blind by (auto simp: execute_def)
next
  case (Inr lookup)
  then show ?thesis using assms unfolding execute_def Inr sum.case fst_run_map exec_reported_def by auto
qed

lemma exec_destroy:
  assumes "process_behind n K X w E"
  shows "case engineStateJSON engine of
      Inl e \<Rightarrow> runner_DeleteComponent E tr ctx token pkg engine = Some e
    | Inr state \<Rightarrow> map_option snd (fst (run_state (execute n (K tr) X ctx (engine_op VerbEngineDestroy token pkg [] state)) (w tr))) =
                   Some (runner_DeleteComponent E tr ctx token pkg engine)"
  using process_behindD(4) [OF assms, of tr ctx token pkg engine] unfolding Exec_DeleteComponent_def
  by (cases "engineStateJSON engine") (simp, simp only: sum.case fst_run_map)

interpretation xa: executing_runner E "process_behind n K X w E" "\<lambda>tr. exec_reported n (K tr) X (w tr)"
    "\<lambda>tr ctx op. fst (run_state (execute n (K tr) X ctx op) (w tr))" for n K X w E
proof (unfold_locales, goal_cases)
  case (1 tr ctx op res err)
  then show ?case by (intro exec_word)
next
  case (2 tr ctx token pkg rid)
  then show ?case using process_behindD(2) by (metis Exec_Read_def fst_run_map)
next
  case (3 tr ctx token pkg rid props)
  then show ?case using process_behindD(1) by (metis Exec_Patch_def fst_run_map)
next
  case (4 tr ctx token pkg rid st)
  then show ?case using process_behindD(3) by (metis Exec_Delete_def fst_run_map)
next
  case 5
  then show ?case by (rule exec_destroy)
qed

section \<open>A concrete operator\<close>

text \<open>An environment whose runner is the Job runner, where every Job returns.\<close>

definition reply_map :: "('a \<Rightarrow> 'b) \<Rightarrow> 'a result option \<Rightarrow> 'b result" where
  "reply_map f out = (case out of None \<Rightarrow> Inl (Errorf ''no reply'') | Some (Inl e) \<Rightarrow> Inl e | Some (Inr x) \<Rightarrow> Inr (f x))"

definition reply_error :: "error option option \<Rightarrow> error option" where
  "reply_error out = (case out of None \<Rightarrow> Some (Errorf ''no reply'') | Some r \<Rightarrow> r)"

definition job_backed :: "nat \<Rightarrow> job_env \<Rightarrow> JobRunner \<Rightarrow> job_world \<Rightarrow> env \<Rightarrow> env" where
  "job_backed n K J s E = E\<lparr>
     runner_Create := \<lambda>_ ctx token pkg props. reply_map (map_prod id Some) (fst (run_state (Job_Create n K J ctx token pkg props) s)),
     runner_Patch := \<lambda>_ ctx token pkg rid props. reply_map Some (fst (run_state (Job_Patch n K J ctx token pkg rid props) s)),
     runner_Read := \<lambda>_ ctx token pkg rid. reply_map Some (fst (run_state (Job_Read n K J ctx token pkg rid) s)),
     runner_Delete := \<lambda>_ ctx token pkg rid st.
       reply_error (fst (run_state (Job_Delete n K J ctx token pkg rid st) s)),
     runner_CreateComponent := \<lambda>_ ctx token pkg props.
       reply_map (map_prod id (map_prod Some id)) (fst (run_state (Job_CreateComponent n K J ctx token pkg props) s)),
     runner_UpdateComponent := \<lambda>_ ctx token pkg props st.
       reply_map (map_prod Some id) (fst (run_state (Job_UpdateComponent n K J ctx token pkg props st) s)),
     runner_DeleteComponent := \<lambda>_ ctx token pkg st.
       reply_error (fst (run_state (Job_DeleteComponent n K J ctx token pkg st) s))\<rparr>"

lemma answers_reply_map:
  "out \<noteq> None \<Longrightarrow> (\<And>x. R x (f x)) \<Longrightarrow> answers R out (reply_map f out)"
  by (auto simp: answers_def reply_map_def split: option.splits sum.splits)

lemma reply_error_Some: "out \<noteq> None \<Longrightarrow> out = Some (reply_error out)"
  by (auto simp: reply_error_def)

lemma job_backed_behind:
  assumes "plain_errors K" "\<And>ctx op. fst (run_state (executeOp n K J ctx op) s) \<noteq> None"
  shows "jobs_behind n (\<lambda>_. K) J (\<lambda>_. s) (job_backed n K J s E)"
proof -
  have run: "fst (run_state (Job_Create n K J ctx token pkg props) s) \<noteq> None"
    "fst (run_state (Job_Patch n K J ctx token pkg rid props) s) \<noteq> None"
    "fst (run_state (Job_Read n K J ctx token pkg rid) s) \<noteq> None"
    "fst (run_state (Job_Delete n K J ctx token pkg rid props) s) \<noteq> None"
    "fst (run_state (Job_CreateComponent n K J ctx token pkg props) s) \<noteq> None"
    "fst (run_state (Job_UpdateComponent n K J ctx token pkg props st) s) \<noteq> None"
    "fst (run_state (Job_DeleteComponent n K J ctx token pkg st) s) \<noteq> None" for ctx token pkg rid props st
    unfolding Job_Create_def Job_Patch_def Job_Read_def Job_Delete_def Job_CreateComponent_def Job_UpdateComponent_def
      Job_DeleteComponent_def
    by (auto simp only: fst_run_map assms option.map_disc_iff split: sum.split) simp_all
  show ?thesis
    unfolding jobs_behind_def job_backed_def
    by (intro allI conjI assms(1)) (use run in \<open>auto intro!: answers_reply_map reply_error_Some simp: nil_or_def\<close>)
qed

definition gone_cluster :: job_env where
  "gone_cluster = job_demo_env complete_conds gone_log"

abbreviation gone_operator :: "env \<Rightarrow> env" where
  "gone_operator \<equiv> job_backed (Suc 0) gone_cluster job_demo_runner \<lparr>obj = [], trace = []\<rparr>"

definition gone_error :: error where
  "gone_error = sentinel_wrap ErrNotFound '': '' (coded_error \<lparr>Code = CodeNotFound, Message = []\<rparr>)"

lemma gone_cluster_runs:
  assumes "op_EngineState op = []"
  shows "fst (run_state (executeOp (Suc 0) gone_cluster J ctx op) s) = Some (failure CodeNotFound [], Some gone_error)"
proof -
  have "completes gone_cluster gone_log" by (simp add: completes_def gone_cluster_def job_demo_env_def complete_conds_def)
  moreover have "\<exists>t. encode_op (job_op ctx op) = Inr t" using assms by (simp add: encode_op_def raw_error_def job_op_def)
  moreover have "decoded_job gone_cluster gone_log = (failure CodeNotFound [], Some gone_error)"
    using gone_decodes
    by (simp add: decoded_job_def gone_cluster_def job_demo_env_def resultErr_def failure_def gone_error_def Let_def)
  ultimately show ?thesis using executeOp_completes by metis
qed


lemma gone_cluster_returns: "fst (run_state (executeOp (Suc 0) gone_cluster J ctx op) s) \<noteq> None"
proof (cases "encode_op (job_op ctx op)")
  case (Inl e)
  then show ?thesis by (simp add: executeOp_def)
next
  case (Inr t)
  have "completes gone_cluster gone_log" by (simp add: completes_def gone_cluster_def job_demo_env_def complete_conds_def)
  then show ?thesis using executeOp_completes Inr by blast
qed

lemma gone_operator_behind:
  "jobs_behind (Suc 0) (\<lambda>_. gone_cluster) job_demo_runner (\<lambda>_. \<lparr>obj = [], trace = []\<rparr>) (gone_operator E)"
  by (rule job_backed_behind [OF _ gone_cluster_returns]) (simp add: plain_errors_def gone_cluster_def job_demo_env_def)

lemma gone_operator_replies [simp]:
  "runner_Read (gone_operator E) tr ctx token pkg rid = Inl gone_error"
  "runner_Create (gone_operator E) tr ctx token pkg props = Inl gone_error"
  "runner_Delete (gone_operator E) tr ctx token pkg rid st = Some gone_error"
  by (simp_all add: job_backed_def reply_map_def reply_error_def op_outcome_def fst_run_map gone_cluster_runs
      Job_Read_def Job_Create_def Job_Delete_def Read_op_def Create_op_def Delete_op_def bare_op_def
      del: run_state_bind)


lemma gone_operator_fields [simp]:
  "get_resource (gone_operator E) = get_resource E" "has_live (gone_operator E) = has_live E"
  "schemas_get (gone_operator E) = schemas_get E" "update_resource (gone_operator E) = update_resource E"
  "update_status (gone_operator E) = update_status E" "ContainsFinalizer (gone_operator E) = ContainsFinalizer E"
  "retry_steps (gone_operator E) = retry_steps E" "FindStatusCondition (gone_operator E) = FindStatusCondition E"
  "list_resources (gone_operator E) = list_resources E" "list_usages (gone_operator E) = list_usages E"
  "RemoveFinalizer (gone_operator E) = RemoveFinalizer E"
  by (simp_all add: job_backed_def)

lemma gone_error_simps [simp]:
  "errors_Is (Some gone_error) ErrNotFound" "\<not> IsSecretInputInID gone_error"
  by (simp_all add: gone_error_def IsSecretInputInID_def code_defs)

text \<open>An object whose external resource is only known by its annotation, and a dying one.\<close>

definition named_resource :: DoResource where
  "named_resource = set_annotation annExternalName ''i-1'' live_resource"

definition adopting_env :: env where
  "adopting_env = gone_operator (create_env\<lparr>get_resource := (\<lambda>_ _ _ _. Inr named_resource)\<rparr>)"

definition dying_env :: env where
  "dying_env = gone_operator (teardown_env\<lparr>get_resource := (\<lambda>_ _ _ _. Inr dying_resource)\<rparr>)"

lemma adopting_env_simps [simp]:
  "get_resource adopting_env tr rd ns n = Inr named_resource" "schemas_get adopting_env tr c p t = Inr demo_schema"
  "runner_Read adopting_env tr c t p rid = Inl gone_error" "runner_Create adopting_env tr c t p props = Inl gone_error"
  "update_resource adopting_env tr r = Inr r" "update_status adopting_env tr r = None"
  "ContainsFinalizer adopting_env m f = (f \<in> set (om_Finalizers m))" "retry_steps adopting_env = 0"
  "FindStatusCondition adopting_env = std_FindStatusCondition"
  by (simp_all add: adopting_env_def)

lemma named_resource_simps [simp]:
  "spec named_resource = blank_spec" "status named_resource = blank_status" "externalName named_resource = ''i-1''"
  "om_Name (meta named_resource) = ''r''" "om_Namespace (meta named_resource) = ''ns''"
  "om_Finalizers (meta named_resource) = [doResourceFinalizer]" "\<not> om_Deleting (meta named_resource)" "\<not> paused named_resource"
  by (simp_all add: named_resource_def set_annotation_def live_resource_def live_meta_def blank_meta_def externalName_def
      annotation_def paused_def annPaused_def annExternalName_def)

lemma adopting_creates:
  "RunCreate (reconcile_ctx ''ns'' ''r'') ''p:m:T'' ''p@1'' [] (Inl gone_error)
     \<in> set (trace (snd (run_state (Reconcile adopting_env ''ns'' ''r'') \<lparr>obj = live_resource, trace = []\<rparr>)))"
  by (simp add: Reconcile_def reconcile_object_def reconcile_live_def reconcile_external_def reconcileCreate_def
      resolveProvider_def getProvider_def applyReferences_def stageSecretInputs_def mixSecretVersions_def
      persistStatus_def call_defs set_condition_def decodeProperties_def secretIDTerminal_def IgnoreNotFound_def
      reconcile_ctx_def Let_def pinned_demo std_FindStatusCondition_def adoptExternal_def markSyncFailed_def)

lemma dying_env_simps [simp]:
  "get_resource dying_env tr rd ns n = Inr dying_resource" "runner_Delete dying_env tr c t p rid st = Some gone_error"
  "update_resource dying_env tr r = Inr r" "ContainsFinalizer dying_env m f = (f \<in> set (om_Finalizers m))"
  "list_resources dying_env tr ns = Inr []" "list_usages dying_env tr ns = Inr []"
  by (simp_all add: dying_env_def teardown_env_def quiet_env_def)

lemma dying_updates:
  "\<exists>u r. ApiUpdate u r \<in> set (trace (snd (run_state (Reconcile dying_env ''ns'' ''r'') \<lparr>obj = live_resource, trace = []\<rparr>)))"
  by (simp add: Reconcile_def reconcile_object_def reconcileDelete_def delete_external_def resolveProvider_def getProvider_def
      blockingDependents_def dependentsOf_def blockingUsages_def call_defs Let_def pinned_demo dying_resource_def
      paused_def annotation_def live_meta_def blank_meta_def annPaused_def blank_status_def)

section \<open>Properties\<close>

text \<open>
  C4: With Jobs behind it, the operator creates an external resource that is already on
  record again only on the provider's word. Whatever the API server answers the controller
  and the runner, when a reconcile of an object with the finalizer and an id or an external
  name reaches a create, an operation asked for earlier in the same reconcile ran as a Job
  that was seen complete, and the envelope in its log says so: for an object without an id, a
  read of its external name with the code \<open>NotFound\<close>; for one with an id, a patch of that id
  with the code \<open>ReplacementRequired\<close>. A lost, failed, timed-out or unreadable Job never
  leads to a second external resource.
\<close>

theorem operator_recreates_on_verdict:
  assumes "jobs_behind n K J w E" "get_resource E [] (reader E) ns name = Inr res"
    "ContainsFinalizer E (meta res) doResourceFinalizer" "st_ID (status res) \<noteq> [] \<or> externalName res \<noteq> []"
    "trace (snd (run_state (Reconcile E ns name) \<lparr>obj = x, trace = []\<rparr>)) = pre @ RunCreate ctx token pkg props r # post"
  shows "\<exists>tr es ctx' op out. pre = tr @ es \<and> job_reported n (K tr) J (w tr) ctx' op out \<and> \<not> OK out \<and>
     (if st_ID (status res) = [] then op = Read_op token pkg (externalName res) \<and> res_Code out = CodeNotFound
      else (\<exists>props'. op = Patch_op token pkg (st_ID (status res)) props') \<and> res_Code out = CodeReplacementRequired)"
  by (rule ja.recreates [OF assms])

theorem operator_recreates_on_verdict_witness:
  "\<exists>ctx' op out. job_reported (Suc 0) gone_cluster job_demo_runner \<lparr>obj = [], trace = []\<rparr> ctx' op out \<and> \<not> OK out \<and>
     op = Read_op ''p:m:T'' ''p@1'' ''i-1'' \<and> res_Code out = CodeNotFound"
proof -
  obtain pre post where tr: "trace (snd (run_state (Reconcile adopting_env ''ns'' ''r'') \<lparr>obj = live_resource, trace = []\<rparr>)) =
      pre @ RunCreate (reconcile_ctx ''ns'' ''r'') ''p:m:T'' ''p@1'' [] (Inl gone_error) # post"
    using split_list [OF adopting_creates] by blast
  have behind: "jobs_behind (Suc 0) (\<lambda>_. gone_cluster) job_demo_runner (\<lambda>_. \<lparr>obj = [], trace = []\<rparr>) adopting_env"
    unfolding adopting_env_def by (rule gone_operator_behind)
  from operator_recreates_on_verdict [OF behind _ _ _ tr] show ?thesis by fastforce
qed

text \<open>
  C18: With Jobs behind it, the operator lets go of a dying object only on the provider's
  word. Whatever the API server answers, when a reconcile of an object that is being deleted
  updates it, which is how the finalizer goes, the deletion policy orphans the external
  resource, or none was provisioned, or the teardown operation of exactly this resource was
  asked for earlier in the same reconcile and ran as a Job that was seen complete, with an
  envelope in its log that reports success or \<open>NotFound\<close>.
\<close>

theorem operator_releases_on_verdict:
  assumes "jobs_behind n K J w E" "get_resource E [] (reader E) ns name = Inr res" "om_Deleting (meta res)"
    "trace (snd (run_state (Reconcile E ns name) \<lparr>obj = x, trace = []\<rparr>)) = pre @ ApiUpdate u r # post"
  shows "spec_DeletionPolicy (spec res) = DeletionOrphan \<or> st_ID (status res) = [] \<or>
     (\<exists>tr es ctx pkg op out. pre = tr @ es \<and> teardown_op res pkg = Inr op \<and> job_reported n (K tr) J (w tr) ctx op out \<and>
        (OK out \<or> res_Code out = CodeNotFound))"
  by (rule ja.releases [OF assms])

theorem operator_releases_on_verdict_witness:
  "\<exists>ctx pkg op out. teardown_op dying_resource pkg = Inr op \<and>
     job_reported (Suc 0) gone_cluster job_demo_runner \<lparr>obj = [], trace = []\<rparr> ctx op out \<and> (OK out \<or> res_Code out = CodeNotFound)"
proof -
  obtain u r pre post where tr: "trace (snd (run_state (Reconcile dying_env ''ns'' ''r'') \<lparr>obj = live_resource, trace = []\<rparr>)) =
      pre @ ApiUpdate u r # post"
    using dying_updates by (meson split_list)
  have behind: "jobs_behind (Suc 0) (\<lambda>_. gone_cluster) job_demo_runner (\<lambda>_. \<lparr>obj = [], trace = []\<rparr>) dying_env"
    unfolding dying_env_def by (rule gone_operator_behind)
  have "om_Deleting (meta dying_resource)" "spec_DeletionPolicy (spec dying_resource) \<noteq> DeletionOrphan"
    "st_ID (status dying_resource) \<noteq> []"
    by (simp_all add: dying_resource_def blank_spec_def)
  with operator_releases_on_verdict [OF behind _ _ tr] show ?thesis by fastforce
qed

text \<open>The same holds for the in-process runner of development mode.\<close>

theorem process_recreates_on_verdict:
  assumes "process_behind n K X w E" "get_resource E [] (reader E) ns name = Inr res"
    "ContainsFinalizer E (meta res) doResourceFinalizer" "st_ID (status res) \<noteq> [] \<or> externalName res \<noteq> []"
    "trace (snd (run_state (Reconcile E ns name) \<lparr>obj = x, trace = []\<rparr>)) = pre @ RunCreate ctx token pkg props r # post"
  shows "\<exists>tr es ctx' op out. pre = tr @ es \<and> exec_reported n (K tr) X (w tr) ctx' op out \<and> \<not> OK out \<and>
     (if st_ID (status res) = [] then op = Read_op token pkg (externalName res) \<and> res_Code out = CodeNotFound
      else (\<exists>props'. op = Patch_op token pkg (st_ID (status res)) props') \<and> res_Code out = CodeReplacementRequired)"
  by (rule xa.recreates [OF assms])

end
