(* ===== verification/Do_Resource_Settle.thy ===== *)
theory Do_Resource_Settle
  imports Do_Resource_Identity
begin

text \<open>
  The DoResource controller comes to rest: a successful pass records the hash of what it
  applied, and a pass that computes the recorded hash reads the external resource at most.
  And a waiting object is woken by what it waits for.
\<close>

section \<open>What a successful pass records\<close>

text \<open>The ids a runner hands out are not empty.\<close>

definition runner_ids :: "env \<Rightarrow> bool" where
  "runner_ids E =
     (\<forall>tr ctx token pkg props. (\<forall>rid st. runner_Create E tr ctx token pkg props = Inr (rid, st) \<longrightarrow> rid \<noteq> []) \<and>
        (\<forall>rid st en. runner_CreateComponent E tr ctx token pkg props = Inr (rid, st, en) \<longrightarrow> rid \<noteq> []))"

definition is_component :: "PackageSchema \<Rightarrow> string \<Rightarrow> bool" where
  "is_component schema token = (case gomap_get (Resources schema) token of None \<Rightarrow> False | Some r \<Rightarrow> IsComponent r)"

definition settled :: "bool \<Rightarrow> string \<Rightarrow> DoResourceStatus \<Rightarrow> bool" where
  "settled component hash st =
     (st_ID st \<noteq> [] \<and> st_AppliedHash st = hash \<and> (component \<longrightarrow> st_EngineState st \<noteq> None))"

text \<open>A pass that asks to be called again later has settled.\<close>

definition settles :: "bool \<Rightarrow> string \<Rightarrow> (DoResource \<Rightarrow> bool) \<Rightarrow> reconcile_result rec \<Rightarrow> bool" where
  "settles component hash P m =
     valid (\<lambda>s. P (obj s)) m (\<lambda>out s. RequeueAfter (fst out) \<noteq> 0 \<longrightarrow> settled component hash (status (obj s)))"

lemma settles_never: "yields (\<lambda>out. RequeueAfter (fst out) = 0) m \<Longrightarrow> settles c h P m"
  unfolding settles_def by (rule validI) (simp add: yields_def, metis fst_conv)

lemma no_requeue_after [simp]: "RequeueAfter no_requeue = 0"
  by (simp add: no_requeue_def)

lemma never_again [yields_intros]:
  "yields (\<lambda>out. RequeueAfter (fst out) = 0) (markSyncFailed E reason err b)"
  "yields (\<lambda>out. RequeueAfter (fst out) = 0) (forget_external E token)"
  unfolding markSyncFailed_def forget_external_def Let_def by (intro yields_intros; simp)+

lemma settled_same: "same_but_conditions a b \<Longrightarrow> settled c h (status a) \<Longrightarrow> settled c h (status b)"
  unfolding same_but_conditions_def settled_def
  by (metis DoResourceStatus.select_convs DoResourceStatus.surjective DoResourceStatus.update_convs(6))

lemma settles_same:
  "changes same_but_conditions m \<Longrightarrow> settles c h (\<lambda>r. settled c h (status r)) m"
  unfolding settles_def by (rule validI) (auto dest: changesD settled_same)

lemma settles_weaken: "settles c h Q m \<Longrightarrow> (\<And>r. P r \<Longrightarrow> Q r) \<Longrightarrow> settles c h P m"
  unfolding settles_def by (erule valid_weaken) blast

lemma settles_bind:
  "changes same_but_conditions m \<Longrightarrow> (\<And>a b. same_but_conditions a b \<Longrightarrow> P a \<Longrightarrow> P b) \<Longrightarrow> (\<And>x. settles c h P (f x)) \<Longrightarrow>
   settles c h P (m \<bind> f)"
  unfolding settles_def
  by (rule valid_bind, assumption, rule validI) (blast dest: changesD)

lemma settles_modify: "settles c h Q (f ()) \<Longrightarrow> (\<And>r. P r \<Longrightarrow> Q (g r)) \<Longrightarrow> settles c h P (modify_obj g \<bind> f)"
  unfolding settles_def by (fastforce simp: valid_def split: prod.splits)

lemma settles_markSynced:
  assumes "rid \<noteq> []" "\<And>r. P r \<Longrightarrow> c \<Longrightarrow> st_EngineState (status r) \<noteq> None"
  shows "settles c h P (markSynced E rid st h)"
  unfolding markSynced_def
proof (rule settles_modify [OF settles_same])
  show "P r \<Longrightarrow> settled c h (status (r\<lparr>status := (status r)
            \<lparr>st_ID := rid, st_Outputs := (case st of None \<Rightarrow> st_Outputs (status r) | Some m \<Rightarrow> Some (JObj m)),
             st_AppliedHash := h, st_ObservedGeneration := om_Generation (meta r)\<rparr>\<rparr>))" for r
    using assms by (simp add: settled_def)
qed (intro changes_intros changes_reads_same changes_eq_refl [OF same_but_conditions_refl changes_publishConnectionSecret]
    same_but_conditions_refl same_but_conditions_trans)

lemma settles_cases:
  "(b \<Longrightarrow> settles c h P m) \<Longrightarrow> (\<not> b \<Longrightarrow> settles c h P n) \<Longrightarrow> settles c h P (if b then m else n)"
  "(x = None \<Longrightarrow> settles c h P m) \<Longrightarrow> (\<And>a. x = Some a \<Longrightarrow> settles c h P (f a)) \<Longrightarrow> settles c h P (case x of None \<Rightarrow> m | Some a \<Rightarrow> f a)"
  "(\<And>e. y = Inl e \<Longrightarrow> settles c h P (g e)) \<Longrightarrow> (\<And>a. y = Inr a \<Longrightarrow> settles c h P (k a)) \<Longrightarrow> settles c h P (case y of Inl e \<Rightarrow> g e | Inr a \<Rightarrow> k a)"
  "(\<And>a b. z = (a, b) \<Longrightarrow> settles c h P (l a b)) \<Longrightarrow> settles c h P (case z of (a, b) \<Rightarrow> l a b)"
  by (auto split: option.split sum.split prod.split)

lemma settles_yields_bind:
  assumes "yields Q m" "\<And>x. Q x \<Longrightarrow> settles c h (\<lambda>_. True) (f x)"
  shows "settles c h P (m \<bind> f)"
  unfolding settles_def
proof (rule valid_bind [where R = "\<lambda>x _. Q x"])
  show "valid (\<lambda>s. P (obj s)) m (\<lambda>x _. Q x)"
    by (rule validI) (use assms(1) in \<open>simp add: yields_def, metis fst_conv\<close>)
qed (use assms(2) in \<open>auto simp: settles_def valid_def\<close>)

lemma settles_any: "(\<And>x. settles c h (\<lambda>_. True) (f x)) \<Longrightarrow> settles c h P (m \<bind> f)"
  by (rule settles_yields_bind [of "\<lambda>_. True"]) (simp_all add: yields_def)

lemma settles_get: "(\<And>x. P x \<Longrightarrow> settles c h (\<lambda>r. r = x) (f x)) \<Longrightarrow> settles c h P (get_obj \<bind> f)"
  by (fastforce simp: settles_def valid_def split: prod.splits)

lemmas settles_plain = settles_markSynced [where c = False and P = "\<lambda>_. True", simplified]

text \<open>The replies of a runner with proper ids.\<close>

lemma runner_idsD:
  assumes "runner_ids E"
  shows "yields (\<lambda>r. \<forall>x. r = Inr x \<longrightarrow> fst x \<noteq> []) (Run_Create E ctx token pkg props)"
    "yields (\<lambda>r. \<forall>x. r = Inr x \<longrightarrow> fst x \<noteq> []) (Run_CreateComponent E ctx token pkg props)"
  using assms by (auto simp: runner_ids_def yields_def Run_Create_def Run_CreateComponent_def)

lemma yields_replace_create:
  assumes "runner_ids E"
  shows "yields (\<lambda>cr. case cr of Inl out \<Rightarrow> RequeueAfter (fst out) = 0 | Inr (Inl e) \<Rightarrow> True | Inr (Inr x) \<Rightarrow> fst x \<noteq> [])
           (replace_create E ctx token pkg props i st)"
proof -
  note ids = runner_idsD(1) [OF assms, of ctx token pkg props]
  have again: "yields (\<lambda>cr. case cr of Inl out \<Rightarrow> RequeueAfter (fst out) = 0 | Inr (Inl e) \<Rightarrow> True | Inr (Inr x) \<Rightarrow> fst x \<noteq> [])
      (Run_Create E ctx token pkg props \<bind> (\<lambda>r2. ret (Inr r2)))"
    by (rule yields_bind [OF ids], rule yields_return) (simp split: sum.split)
  have failed: "yields (\<lambda>cr. case cr of Inl out \<Rightarrow> RequeueAfter (fst out) = 0 | Inr (Inl e) \<Rightarrow> True | Inr (Inr x) \<Rightarrow> fst x \<noteq> [])
      (markSyncFailed E reason e b \<bind> (\<lambda>res. ret (Inl res)))" for reason e b
    by (rule yields_bind [OF never_again(1)], rule yields_return) simp
  show ?thesis
    unfolding replace_create_def
  proof (rule yields_bind [OF ids], rule yields_cases(3), goal_cases)
    case (1 r e)
    show ?case
      by (rule yields_cases(1), rule yields_any, rule yields_cases(2), rule again, rule yields_cases(1), rule failed,
          rule again, rule yields_return, simp)
  qed (auto intro: yields_return)
qed

lemma settles_replacement:
  assumes "runner_ids E"
  shows "settles False h P (reconcileReplacement E ctx token pkg props h e)"
  unfolding reconcileReplacement_def
proof (rule settles_any, intro settles_cases settles_never [OF never_again(1)], goal_cases)
  case (2 res)
  show ?case
  proof (rule settles_yields_bind [OF yields_replace_create [OF assms]], goal_cases)
    case (1 cr)
    note cr = 1
    have synced: "fst x \<noteq> [] \<Longrightarrow> settles False h (\<lambda>_. True) (markSynced E (fst x) (snd x) h)" for x
      by (rule settles_plain)
    show ?case
    proof (rule settles_cases(3), goal_cases)
      case (1 out)
      then show ?case using cr by (auto intro!: settles_never yields_return)
    next
      case (2 y)
      then show ?case
        using cr
        by (intro settles_cases(3), intro settles_never yields_cases never_again)
           (rule settles_any, rule settles_cases(2), rule settles_any, rule settles_any, rule synced, simp,
            rule settles_never, rule yields_return, simp)
    qed
  qed
qed (rule settles_never, simp add: yields_return)

text \<open>The outcome of an adoption, if there is one, is that of a settled object.\<close>

lemma settles_Some:
  "settles c h P m \<Longrightarrow> valid (\<lambda>s. P (obj s)) (m \<bind> (\<lambda>x. ret (Some x)))
     (\<lambda>r s. \<forall>out. r = Some out \<longrightarrow> RequeueAfter (fst out) \<noteq> 0 \<longrightarrow> settled c h (status (obj s)))"
  unfolding settles_def by (erule valid_bind [rotated]) (auto simp: valid_def)

lemma adopt_settles:
  assumes "name \<noteq> []"
  shows "valid (\<lambda>s. True) (adoptExternal E ctx token pkg name h)
    (\<lambda>r s. \<forall>out. r = Some out \<longrightarrow> RequeueAfter (fst out) \<noteq> 0 \<longrightarrow> settled False h (status (obj s)))"
proof -
  note synced = settles_Some [OF settles_plain [OF assms]]
  note failed = settles_Some [OF settles_never [OF never_again(1)], where P = "\<lambda>_. True"]
  have any: "(\<And>x. valid (\<lambda>s. True) (f x) Q) \<Longrightarrow> valid (\<lambda>s. True) (m \<bind> f) Q" for m :: "'x rec" and f :: "'x \<Rightarrow> 'y rec" and Q
    by (rule valid_bind [where R = "\<lambda>_ _. True"]) (simp_all add: valid_def)
  show ?thesis
    unfolding adoptExternal_def
    by (rule any, intro valid_sum valid_if)
       (simp add: valid_def, rule any, rule synced, rule failed, rule any, rule synced)
qed

lemma settles_handled:
  assumes "settles False h (\<lambda>_. True) m"
  shows "settles False h P ((if name \<noteq> [] then adoptExternal E ctx token pkg name h else ret None) \<bind>
           (\<lambda>handled. case handled of Some result \<Rightarrow> ret result | None \<Rightarrow> m))"
  unfolding settles_def
proof (rule valid_bind [where R = "\<lambda>r s. \<forall>out. r = Some out \<longrightarrow> RequeueAfter (fst out) \<noteq> 0 \<longrightarrow> settled False h (status (obj s))"])
  show "valid (\<lambda>s. P (obj s)) (if name \<noteq> [] then adoptExternal E ctx token pkg name h else ret None)
      (\<lambda>r s. \<forall>out. r = Some out \<longrightarrow> RequeueAfter (fst out) \<noteq> 0 \<longrightarrow> settled False h (status (obj s)))"
    using adopt_settles by (cases "name = []") (auto intro: valid_weaken simp: valid_def)
next
  fix handled
  show "valid (\<lambda>s. \<forall>out. handled = Some out \<longrightarrow> RequeueAfter (fst out) \<noteq> 0 \<longrightarrow> settled False h (status (obj s)))
      (case handled of Some result \<Rightarrow> ret result | None \<Rightarrow> m)
      (\<lambda>out s. RequeueAfter (fst out) \<noteq> 0 \<longrightarrow> settled False h (status (obj s)))"
    using assms by (cases handled) (auto simp: settles_def valid_def)
qed

lemma settles_create:
  assumes "runner_ids E"
  shows "settles False h P (reconcileCreate E ctx token pkg props h)"
proof -
  have synced: "fst x \<noteq> [] \<Longrightarrow> settles False h (\<lambda>_. True) (markSynced E (fst x) (snd x) h)" for x
    by (rule settles_plain)
  show ?thesis
    unfolding reconcileCreate_def
  proof (rule settles_any, rule settles_handled, rule settles_any, rule settles_cases(1), goal_cases)
    case (2 res0 res)
    show ?case
      by (rule settles_yields_bind [OF runner_idsD(1) [OF assms]], rule settles_cases(3),
          intro settles_never yields_cases never_again)
         (rule settles_any, rule settles_cases(2), rule settles_any, rule synced, simp, rule settles_never, rule yields_return, simp)
  qed (rule settles_never, simp add: yields_return)
qed

lemma settles_patch:
  assumes "runner_ids E"
  shows "settles False h (\<lambda>r. st_ID (status r) \<noteq> []) (reconcile_patch E ctx token pkg props h)"
  unfolding reconcile_patch_def
proof (rule settles_get, rule settles_any, rule settles_cases(3), goal_cases)
  case (1 res r e)
  show ?case
    by (intro settles_cases settles_replacement [OF assms] settles_never never_again)
next
  case (2 res r state)
  then show ?case by (intro settles_any settles_plain)
qed

lemma settles_read: "settles False h (\<lambda>r. st_ID (status r) \<noteq> []) (reconcile_read E ctx token pkg h)"
  unfolding reconcile_read_def
proof (rule settles_get, rule settles_any, goal_cases)
  case (1 res r)
  then show ?case by (intro settles_cases settles_plain settles_never never_again)
qed

lemma settles_component:
  assumes "runner_ids E"
  shows "settles True h P (reconcileComponent E ctx token pkg props h)"
proof -
  have synced: "rid \<noteq> [] \<Longrightarrow> settles True h (\<lambda>_. True) (do { modify_obj (set_engine_state st); markSynced E rid out h })" for rid st out
    by (rule settles_modify [where Q = "\<lambda>r. st_EngineState (status r) \<noteq> None", OF settles_markSynced])
       (simp_all add: set_engine_state_def)
  show ?thesis
    unfolding reconcileComponent_def
  proof (rule settles_get, rule settles_cases(2), goal_cases)
    case (1 res)
    show ?case
      by (rule settles_yields_bind [OF runner_idsD(2) [OF assms]], rule settles_cases(3), rule settles_never, rule never_again,
          intro settles_cases(4), rule settles_any, rule synced, simp)
  next
    case (2 res engine)
    then have ok: "st_ID (status res) \<noteq> []" "st_EngineState (status res) = Some engine" by (auto split: if_splits)
    show ?case
    proof (rule settles_cases(1), goal_cases)
      case 1
      show ?case
        by (rule settles_any, rule settles_cases(3), rule settles_never, rule never_again, intro settles_cases(4),
            rule settles_any, rule synced, rule ok(1))
    next
      case 2
      show ?case using ok by (intro settles_markSynced) auto
    qed
  qed
qed

section \<open>Two passes\<close>

text \<open>The hash a pass computes: of the resolved properties and the versions of the Secrets used.\<close>

definition inputs_hash :: "env \<Rightarrow> jobj \<Rightarrow> (DoResource, event) world \<Rightarrow> string" where
  "inputs_hash E props s = fst (fst (run_state (mixSecretVersions E (hashProps E props)) s))"

lemma settles_after_hash:
  "(b \<Longrightarrow> settles c h (\<lambda>_. True) m) \<Longrightarrow>
   valid (\<lambda>s. b) m (\<lambda>out s. RequeueAfter (fst out) \<noteq> 0 \<longrightarrow> settled c h (status (obj s)))"
  by (auto simp: settles_def valid_def)

lemma external_settles:
  assumes "runner_ids E"
  shows "valid (\<lambda>s. inputs_hash E props s = h) (reconcile_external E ctx token pkg schema props)
    (\<lambda>out s. RequeueAfter (fst out) \<noteq> 0 \<longrightarrow> settled (is_component schema token) h (status (obj s)))"
  unfolding reconcile_external_def Let_def is_component_def [symmetric]
proof (rule valid_bind [where R = "\<lambda>hs _. fst hs = h"], rule settles_after_hash, rule settles_get, goal_cases)
  case (1 hs res)
  show ?case
    unfolding 1(1)
  proof (cases "is_component schema token", goal_cases)
    case 1
    show ?case
      by (simp only: 1 if_True, intro settles_cases settles_component [OF assms] settles_never never_again)
  next
    case 2
    note patch = settles_weaken [OF settles_patch [OF assms]]
    note read = settles_weaken [OF settles_read]
    show ?case
      by (simp only: 2 if_False, intro settles_cases settles_create [OF assms]) (rule patch, simp, rule read, simp)
  qed
next
  case 2
  show ?case by (rule validI) (simp add: inputs_hash_def)
qed

text \<open>Reads, bookkeeping and a read of the external resource: nothing that mutates it.\<close>

definition observes :: "event \<Rightarrow> bool" where
  "observes e = (is_record e \<or> (\<exists>ctx token pkg rid r. e = RunRead ctx token pkg rid r))"

lemma record_observes: "is_record e \<Longrightarrow> observes e"
  by (simp add: observes_def)

lemmas observing = emits_bookkeeping [where A = observes, OF record_observes]

lemma read_observes: "emits observes (reconcile_read E ctx token pkg h)"
  unfolding reconcile_read_def by (intro emits_intros observing) (simp add: observes_def)

lemma settled_observes:
  assumes "settled (is_component schema token) (inputs_hash E props s) (status (obj s))"
  shows "\<exists>es. trace (snd (run_state (reconcile_external E ctx token pkg schema props) s)) = trace s @ es \<and> list_all observes es"
proof -
  obtain hs s0 where mix: "run_state (mixSecretVersions E (hashProps E props)) s = (hs, s0)" by fastforce
  have h: "fst hs = inputs_hash E props s" by (simp add: inputs_hash_def mix)
  have same: "obj s0 = obj s" using changesD [OF changes_mixSecretVersions mix] by simp
  obtain es0 where es0: "trace s0 = trace s @ es0" "list_all observes es0"
    using emitsD [OF observing(7), of E "hashProps E props" s] mix by auto
  let ?ctx = "if snd hs \<noteq> [] then WithSecretVersionSalt ctx (snd hs) else ctx"
  have "\<exists>es1. trace (snd (run_state (reconcile_external E ctx token pkg schema props) s)) = trace s0 @ es1 \<and> list_all observes es1"
  proof (cases "is_component schema token")
    case True
    then obtain engine where en: "st_EngineState (status (obj s)) = Some engine" using assms by (auto simp: settled_def)
    show ?thesis
      using emitsD [OF observing(1), of E "st_ID (status (obj s))" None "fst hs" s0] emitsD [OF observing(2), of E _ _ _ s0] assms True mix same h en
      by (auto simp: reconcile_external_def Let_def is_component_def reconcileComponent_def settled_def)
  next
    case False
    then show ?thesis
      using emitsD [OF read_observes, of E ?ctx token pkg "fst hs" s0] assms mix same h
      by (simp add: reconcile_external_def Let_def is_component_def settled_def)
  qed
  then show ?thesis using es0 by auto
qed

text \<open>
  C13: The DoResource controller comes to rest. When one pass over the external resource
  succeeds (it asks to be called again at the poll interval), and a later pass, under any
  other behaviour of the cluster and the provider, starts from the status the first one
  recorded and computes the same hash of properties and Secret versions, the later pass
  creates, patches, replaces, updates or deletes nothing: it reads the external resource at
  most, and does its bookkeeping. The runner is only assumed to hand out ids that are not
  empty.
\<close>

theorem reconcile_external_settles:
  assumes "runner_ids E" "run_state (reconcile_external E ctx token pkg schema props) s = (out, s1)" "RequeueAfter (fst out) \<noteq> 0"
    and "status (obj s2) = status (obj s1)" "inputs_hash E' props' s2 = inputs_hash E props s"
    and "is_component schema' token = is_component schema token"
  shows "\<exists>es. trace (snd (run_state (reconcile_external E' ctx' token pkg' schema' props') s2)) = trace s2 @ es \<and> list_all observes es"
  using validD [OF external_settles [OF assms(1)] refl assms(2)] assms(3-) by (intro settled_observes) simp

lemma create_env_runner: "runner_ids create_env"
  by (simp add: runner_ids_def create_env_def quiet_env_def)

lemma create_env_succeeds:
  "RequeueAfter (fst (fst (run_state (reconcile_external create_env (reconcile_ctx ''ns'' ''r'') ''p:m:T'' ''p@1'' demo_schema [])
      \<lparr>obj = live_resource, trace = []\<rparr>))) \<noteq> 0"
  by (simp add: reconcile_defs Let_def std_FindStatusCondition_def resyncInterval_def)

theorem reconcile_external_settles_witness:
  "\<exists>s1 es. s1 = snd (run_state (reconcile_external create_env (reconcile_ctx ''ns'' ''r'') ''p:m:T'' ''p@1'' demo_schema [])
        \<lparr>obj = live_resource, trace = []\<rparr>) \<and>
     trace (snd (run_state (reconcile_external create_env (reconcile_ctx ''ns'' ''r'') ''p:m:T'' ''p@1'' demo_schema []) s1)) =
       trace s1 @ es \<and> list_all observes es"
proof -
  let ?pass = "reconcile_external create_env (reconcile_ctx ''ns'' ''r'') ''p:m:T'' ''p@1'' demo_schema []"
  let ?s = "\<lparr>obj = live_resource, trace = []\<rparr> :: (DoResource, event) world"
  obtain out s1 where r: "run_state ?pass ?s = (out, s1)" by fastforce
  have "inputs_hash create_env [] t = inputs_hash create_env [] ?s" if "spec (obj t) = blank_spec" for t
    using that by (simp add: inputs_hash_def mixSecretVersions_def)
  moreover have "spec (obj s1) = blank_spec"
    using r by (simp add: reconcile_defs Let_def std_FindStatusCondition_def) auto
  ultimately have hash: "inputs_hash create_env [] s1 = inputs_hash create_env [] ?s" by blast
  have "RequeueAfter (fst out) \<noteq> 0" using create_env_succeeds unfolding r fst_conv .
  from reconcile_external_settles [OF create_env_runner r this refl hash refl] show ?thesis unfolding r snd_conv by blast
qed

section \<open>Wake-ups\<close>

lemma blocking_loop_from: "yields (\<lambda>b. set b \<subseteq> set deps \<union> set bl) (blocking_loop E res deps bl)"
proof (induction deps arbitrary: bl)
  case (Cons d deps)
  have grown: "yields (\<lambda>b. set b \<subseteq> set (d # deps) \<union> set bl) (blocking_loop E res deps (bl @ [d]))"
    using Cons [of "bl @ [d]"] by (auto simp: yields_def)
  have kept: "yields (\<lambda>b. set b \<subseteq> set (d # deps) \<union> set bl) (blocking_loop E res deps bl)"
    using Cons [of bl] by (auto simp: yields_def)
  show ?case
    unfolding blocking_loop.simps
    by (rule yields_any, rule yields_cases(3), rule kept, rule yields_cases(1), rule yields_cases(1), rule kept,
        rule yields_any, rule yields_cases(1), rule kept, rule grown, rule grown)
qed (simp add: yields_return)

text \<open>What blocks a teardown: a listed resource that refers to the object, or a listed usage of it.\<close>

lemma blockers_listed:
  assumes "run_state (blockingDependents E) s = (Inr blockers, s')" "b \<in> set blockers"
  defines "ns \<equiv> om_Namespace (meta (obj s))" and "name \<equiv> om_Name (meta (obj s))"
  shows "(\<exists>items dep. list_resources E (trace s) ns = Inr items \<and> dep \<in> set items \<and> om_Name (meta dep) = b \<and>
            b \<noteq> name \<and> references_name dep name) \<or>
         (\<exists>tr items u. list_usages E tr ns = Inr items \<and> u \<in> set items \<and> b = usage_entry u \<and>
            ut_Name (us_Of (usage_spec u)) = name)"
proof -
  obtain items where items: "list_resources E (trace s) ns = Inr items"
    using assms(1) by (auto simp: blockingDependents_def dependentsOf_def List_resources_def ns_def split: sum.splits)
  let ?s = "s\<lparr>trace := trace s @ [ApiListResources ns (Inr items)]\<rparr>"
  let ?deps = "map (\<lambda>item. om_Name (meta item)) (filter (\<lambda>item. om_Name (meta item) \<noteq> name \<and> references_name item name) items)"
  obtain uses where uses: "list_usages E (trace ?s) ns = Inr uses"
    using assms(1) items
    by (auto simp: blockingDependents_def dependentsOf_def blockingUsages_def List_resources_def List_usages_def ns_def split: sum.splits)
  let ?us = "map usage_entry (filter (\<lambda>u. ut_Name (us_Of (usage_spec u)) = name \<and> \<not> om_Deleting (usage_meta u)) uses)"
  have "blockers = fst (run_state (blocking_loop E (obj s) ?deps ?us) (?s\<lparr>trace := trace ?s @ [ApiListUsages ns (Inr uses)]\<rparr>))"
    using assms(1) items uses
    by (auto simp: blockingDependents_def dependentsOf_def blockingUsages_def List_resources_def List_usages_def ns_def name_def
        split: prod.splits)
  then have "set blockers \<subseteq> set ?deps \<union> set ?us" using blocking_loop_from [of ?deps ?us E "obj s"] by (simp add: yields_def)
  with assms(2) consider "b \<in> set ?deps" | "b \<in> set ?us" by blast
  then show ?thesis using items uses by cases auto
qed

text \<open>
  C24: A blocked teardown does not sleep through the event it waits for. Whatever blocks the
  deletion of an object is either a usage, and every event on that usage enqueues the object
  again; or a resource that refers to the object, and every event on that resource, from the
  moment it is being deleted and whatever the API server answers then, enqueues the object
  again. Usages are listed with the namespace they were asked for.
\<close>

theorem blocked_teardown_woken:
  assumes "run_state (blockingDependents E) s = (Inr blockers, s')" "b \<in> set blockers" "om_Name (meta (obj s)) \<noteq> []"
    and "\<And>tr ns items u. list_usages E tr ns = Inr items \<Longrightarrow> u \<in> set items \<Longrightarrow> om_Namespace (usage_meta u) = ns"
  shows "(\<exists>tr items u. list_usages E tr (om_Namespace (meta (obj s))) = Inr items \<and> u \<in> set items \<and> b = usage_entry u \<and>
            (om_Namespace (meta (obj s)), om_Name (meta (obj s))) \<in> set (mapUsageTarget u)) \<or>
         (\<exists>items dep. list_resources E (trace s) (om_Namespace (meta (obj s))) = Inr items \<and> dep \<in> set items \<and> om_Name (meta dep) = b \<and>
            (\<forall>E' t m. om_Name m = b \<and> om_Namespace m = om_Namespace (meta (obj s)) \<and> om_Deleting m \<longrightarrow>
               (om_Namespace (meta (obj s)), om_Name (meta (obj s))) \<in>
                 set (fst (run_state (mapGraphNeighbors E' (dep\<lparr>meta := m\<rparr>)) t))))"
proof -
  from blockers_listed [OF assms(1,2)]
  consider (dep) items dep where "list_resources E (trace s) (om_Namespace (meta (obj s))) = Inr items" "dep \<in> set items"
        "om_Name (meta dep) = b" "b \<noteq> om_Name (meta (obj s))" "references_name dep (om_Name (meta (obj s)))"
    | (usage) tr items u where "list_usages E tr (om_Namespace (meta (obj s))) = Inr items" "u \<in> set items" "b = usage_entry u"
        "ut_Name (us_Of (usage_spec u)) = om_Name (meta (obj s))"
    by blast
  then show ?thesis
  proof cases
    case dep
    then have "(om_Namespace (meta (obj s)), om_Name (meta (obj s))) \<in> set (fst (run_state (mapGraphNeighbors E' (dep\<lparr>meta := m\<rparr>)) t))"
      if "om_Name m = b \<and> om_Namespace m = om_Namespace (meta (obj s)) \<and> om_Deleting m" for E' t m
      using that
      by (auto simp: mapGraphNeighbors_def ref_names_def references_name_def list_ex_iff Let_def image_iff split: prod.split) metis
    then show ?thesis using dep(1-3) by blast
  next
    case usage
    then have "(om_Namespace (meta (obj s)), om_Name (meta (obj s))) \<in> set (mapUsageTarget u)"
      using assms(3,4) by (simp add: mapUsageTarget_def)
    with usage show ?thesis by blast
  qed
qed

definition referring_resource :: DoResource where
  "referring_resource = \<lparr>meta = live_meta\<lparr>om_Name := ''d''\<rparr>,
     spec = blank_spec\<lparr>spec_References := [\<lparr>ref_ToPath = ''a'', ref_From = \<lparr>rs_Name = ''r'', rs_FieldPath = ''id''\<rparr>, ref_Template = []\<rparr>]\<rparr>,
     status = blank_status\<rparr>"

definition referred_env :: env where
  "referred_env = teardown_env\<lparr>list_resources := (\<lambda>_ _. Inr [referring_resource]), get_resource := (\<lambda>_ _ _ _. Inr referring_resource)\<rparr>"

lemma referred_blocked:
  "fst (run_state (blockingDependents referred_env) \<lparr>obj = dying_resource, trace = []\<rparr>) = Inr [''d'']"
  by (simp add: blockingDependents_def dependentsOf_def blockingUsages_def call_defs referred_env_def teardown_env_def quiet_env_def
      referring_resource_def references_name_def dying_resource_def)

theorem blocked_teardown_woken_witness:
  "(''ns'', ''r'') \<in> set (fst (run_state
     (mapGraphNeighbors quiet_env (referring_resource\<lparr>meta := live_meta\<lparr>om_Name := ''d'', om_Deleting := True\<rparr>\<rparr>))
       \<lparr>obj = dying_resource, trace = []\<rparr>))"
proof -
  let ?s = "\<lparr>obj = dying_resource, trace = []\<rparr> :: (DoResource, event) world"
  let ?m = "live_meta\<lparr>om_Name := ''d'', om_Deleting := True\<rparr>"
  obtain s' where "run_state (blockingDependents referred_env) ?s = (Inr [''d''], s')"
    using referred_blocked by (metis prod.collapse)
  from blocked_teardown_woken [OF this, of "''d''"]
  have "\<forall>E' t m. om_Name m = ''d'' \<and> om_Namespace m = ''ns'' \<and> om_Deleting m \<longrightarrow>
        (''ns'', ''r'') \<in> set (fst (run_state (mapGraphNeighbors E' (referring_resource\<lparr>meta := m\<rparr>)) t))"
    by (simp add: dying_resource_def referred_env_def teardown_env_def quiet_env_def usage_entry_def)
  moreover have "om_Name ?m = ''d'' \<and> om_Namespace ?m = ''ns'' \<and> om_Deleting ?m" by simp
  ultimately show ?thesis by blast
qed

end
