(* ===== verification/Plugin_Lock.thy ===== *)
theory Plugin_Lock
  imports Runner_Safety
begin

text \<open>
  The install lock of the shared plugin cache (\<open>internal/runnerops/plugincache.go\<close>,
  \<open>ensurePlugin\<close>): the loop of one runner, and the protocol of all runners on the lock
  directory, one system call per step.
\<close>

section \<open>The acquisition loop ends\<close>

text \<open>
  How often the loop has waited, and the two facts the loop relies on: the context is done
  after at most \<open>k\<close> waits, and a lock that was just removed is not there at the next
  \<open>Mkdir\<close>.
\<close>

definition waits :: "runner_event list \<Rightarrow> nat" where
  "waits tr = length (filter (\<lambda>e. case e of WaitLock _ \<Rightarrow> True | _ \<Rightarrow> False) tr)"

definition deadline :: "nat \<Rightarrow> runner_env \<Rightarrow> bool" where
  "deadline k E = (\<forall>tr. k \<le> waits tr \<longrightarrow> wait_lock E tr \<noteq> None)"

definition removable :: "runner_env \<Rightarrow> string \<Rightarrow> bool" where
  "removable E lock = (\<forall>tr. mkdir E (tr @ [Remove lock]) lock \<noteq> MkdirExists)"

lemma waits_snoc [simp]:
  "waits (tr @ [Mkdir p r]) = waits tr" "waits (tr @ [StatAge p a]) = waits tr" "waits (tr @ [Remove p]) = waits tr"
  "waits (tr @ [WaitLock e]) = Suc (waits tr)"
  by (simp_all add: waits_def)

lemma acquire_after_remove:
  "removable E lock \<Longrightarrow> trace s = tr @ [Remove lock] \<Longrightarrow> fst (run_state (acquire_lock (Suc n) E lock) s) \<noteq> None"
  by (simp add: io_defs removable_def split: mkdir_reply.splits)

text \<open>One round decides, breaks a stale lock, or waits.\<close>

lemma acquire_round:
  "(\<forall>n. fst (run_state (acquire_lock (Suc n) E lock) s) \<noteq> None) \<or>
   (\<exists>s'. (\<forall>n. run_state (acquire_lock (Suc n) E lock) s = run_state (acquire_lock n E lock) s') \<and>
     ((\<exists>tr. trace s' = tr @ [Remove lock] \<and> waits tr = waits (trace s)) \<or>
      (\<exists>tr. trace s' = tr @ [WaitLock None] \<and> wait_lock E tr = None \<and> waits tr = waits (trace s))))"
proof (cases "mkdir E (trace s) lock = MkdirExists")
  case False
  then show ?thesis by (auto simp: io_defs split: mkdir_reply.splits)
next
  case held: True
  let ?tr = "trace s @ [Mkdir lock MkdirExists]"
  let ?age = "stat_age E ?tr lock"
  let ?tr2 = "?tr @ [StatAge lock ?age]"
  show ?thesis
  proof (cases "case ?age of None \<Rightarrow> False | Some a \<Rightarrow> staleLockAge < a")
    case True
    then show ?thesis using held
      by (intro disjI2 exI [of _ "s\<lparr>trace := ?tr2 @ [Remove lock]\<rparr>"]) (auto simp: io_defs waits_def split: option.splits)
  next
    case False
    show ?thesis
    proof (cases "wait_lock E ?tr2")
      case None
      then show ?thesis using held False
        by (intro disjI2 exI [of _ "s\<lparr>trace := ?tr2 @ [WaitLock None]\<rparr>"]) (auto simp: io_defs waits_def split: option.splits)
    next
      case (Some e)
      then show ?thesis using held False by (intro disjI1) (auto simp: io_defs waits_def split: option.splits)
    qed
  qed
qed

lemma acquire_lock_decides:
  assumes "deadline k E" "removable E lock"
  shows "k \<le> waits (trace s) + n \<Longrightarrow> fst (run_state (acquire_lock (Suc (Suc n)) E lock) s) \<noteq> None"
proof (induction n arbitrary: s)
  case (Suc n)
  from acquire_round [of E lock s] show ?case
  proof (elim disjE exE conjE)
    fix s' tr
    assume "\<forall>n. run_state (acquire_lock (Suc n) E lock) s = run_state (acquire_lock n E lock) s'"
      "trace s' = tr @ [WaitLock None]" "waits tr = waits (trace s)"
    then show ?case using Suc by (simp del: acquire_lock.simps)
  next
    fix s' tr
    assume "\<forall>n. run_state (acquire_lock (Suc n) E lock) s = run_state (acquire_lock n E lock) s'" "trace s' = tr @ [Remove lock]"
    then show ?case using acquire_after_remove [OF assms(2)] by (simp del: acquire_lock.simps)
  qed blast
next
  case 0
  from acquire_round [of E lock s] show ?case
  proof (elim disjE exE conjE)
    fix s' tr
    assume "wait_lock E tr = None" "waits tr = waits (trace s)"
    then have False using assms(1) [unfolded deadline_def, rule_format, of tr] 0 by simp
    then show ?case ..
  next
    fix s' tr
    assume "\<forall>n. run_state (acquire_lock (Suc n) E lock) s = run_state (acquire_lock n E lock) s'" "trace s' = tr @ [Remove lock]"
    then show ?case using acquire_after_remove [OF assms(2)] by (simp del: acquire_lock.simps)
  qed blast
qed

lemma ensurePlugin_decides:
  assumes "deadline k E" "removable E (lock_path cache name version)"
  shows "yields (\<lambda>c. c \<noteq> None) (ensurePlugin (k + 2) E r cache name version)"
proof -
  have "yields (\<lambda>c. c \<noteq> None) (acquire_lock (k + 2) E (lock_path cache name version))"
    using acquire_lock_decides [OF assms, of _ k] by (simp add: yields_def del: acquire_lock.simps)
  note locked = yields_bind [OF this]
  show ?thesis
    unfolding ensurePlugin_def Let_def by (rule locked | rule yields_intros | simp)+
qed


text \<open>A runner that waits once for a held lock and is then cancelled.\<close>

definition held_lock :: runner_env where
  "held_lock = (failing_cli [])\<lparr>
     mkdir := (\<lambda>tr _. if tr \<noteq> [] \<and> (case last tr of Remove _ \<Rightarrow> True | _ \<Rightarrow> False) then MkdirOk else MkdirExists),
     wait_lock := (\<lambda>tr. if 1 \<le> waits tr then Some (Errorf ''context deadline exceeded'') else None)\<rparr>"


text \<open>
  The removal has to work: a stale lock that cannot be removed keeps the loop running without
  an end, and a context that is long done is never looked at.
\<close>

lemma acquire_lock_spins:
  assumes "\<And>tr. mkdir E tr lock = MkdirExists" "\<And>tr. stat_age E tr lock = Some (staleLockAge + 1)"
  shows "fst (run_state (acquire_lock n E lock) s) = None"
  using assms by (induction n arbitrary: s) (simp_all add: io_defs)

section \<open>All runners on one lock\<close>

text \<open>
  Where a runner is in \<open>ensurePlugin\<close>: about to call \<open>Mkdir\<close>, about to \<open>Stat\<close> after
  \<open>Mkdir\<close> reported the directory, about to \<open>Remove\<close> a lock it saw stale, waiting, inside
  the critical section (entered at the given time), or gone.
\<close>

datatype lock_pc = TryMkdir | TryStat | BreakLock | WaitTick | Installing nat | Left

record lock_world =
  clock :: nat
  lock_dir :: "nat option"
  runners :: "nat \<Rightarrow> lock_pc"

text \<open>The lock directory is \<open>None\<close> or its modification time. Times are in seconds.\<close>

definition stale_seconds :: nat where "stale_seconds = 15 * 60"

definition at :: "lock_world \<Rightarrow> nat \<Rightarrow> lock_pc \<Rightarrow> lock_world" where
  "at w i pc = w\<lparr>runners := (runners w)(i := pc)\<rparr>"

inductive lock_step :: "lock_world \<Rightarrow> lock_world \<Rightarrow> bool" where
  mkdir_ok: "runners w i = TryMkdir \<Longrightarrow> lock_dir w = None \<Longrightarrow>
    lock_step w (at (w\<lparr>lock_dir := Some (clock w)\<rparr>) i (Installing (clock w)))"
| mkdir_exists: "runners w i = TryMkdir \<Longrightarrow> lock_dir w = Some t \<Longrightarrow> lock_step w (at w i TryStat)"
| stat_stale: "runners w i = TryStat \<Longrightarrow> lock_dir w = Some t \<Longrightarrow> stale_seconds < clock w - t \<Longrightarrow>
    lock_step w (at w i BreakLock)"
| stat_fresh: "runners w i = TryStat \<Longrightarrow> lock_dir w = Some t \<Longrightarrow> clock w - t \<le> stale_seconds \<Longrightarrow>
    lock_step w (at w i WaitTick)"
| stat_gone: "runners w i = TryStat \<Longrightarrow> lock_dir w = None \<Longrightarrow> lock_step w (at w i WaitTick)"
| remove_stale: "runners w i = BreakLock \<Longrightarrow> lock_step w (at (w\<lparr>lock_dir := None\<rparr>) i TryMkdir)"
| wait_over: "runners w i = WaitTick \<Longrightarrow> lock_step w (at w i TryMkdir)"
| cancelled: "runners w i = WaitTick \<Longrightarrow> lock_step w (at w i Left)"
| unlock: "runners w i = Installing t \<Longrightarrow> lock_step w (at (w\<lparr>lock_dir := None\<rparr>) i Left)"
| killed: "lock_step w (at w i Left)"
| tick: "lock_step w (w\<lparr>clock := Suc (clock w)\<rparr>)"

text \<open>
  Runner Jobs have a deadline: nobody stays in the critical section for longer than
  \<open>d\<close> seconds.
\<close>

definition in_time :: "nat \<Rightarrow> lock_world \<Rightarrow> bool" where
  "in_time d w = (\<forall>i t. runners w i = Installing t \<longrightarrow> clock w - t \<le> d)"

definition lock_start :: lock_world where
  "lock_start = \<lparr>clock = 0, lock_dir = None, runners = \<lambda>_. TryMkdir\<rparr>"

text \<open>No runner is about to remove a lock that is younger than the one it looked at.\<close>

definition calm :: "lock_world \<Rightarrow> bool" where
  "calm w = (\<forall>i. runners w i = BreakLock \<longrightarrow> (case lock_dir w of None \<Rightarrow> True | Some t \<Rightarrow> stale_seconds < clock w - t))"

inductive lock_reach :: "nat \<Rightarrow> (lock_world \<Rightarrow> bool) \<Rightarrow> lock_world \<Rightarrow> bool" for d ok where
  reach_start: "lock_reach d ok lock_start"
| reach_step: "lock_reach d ok w \<Longrightarrow> lock_step w w' \<Longrightarrow> in_time d w' \<Longrightarrow> ok w' \<Longrightarrow> lock_reach d ok w'"

definition lock_inv :: "lock_world \<Rightarrow> bool" where
  "lock_inv w = (\<forall>i t. runners w i = Installing t \<longrightarrow> lock_dir w = Some t \<and> (\<forall>j u. runners w j = Installing u \<longrightarrow> j = i))"

inductive_cases lock_stepE: "lock_step w w'"

lemma lock_step_inv:
  assumes "lock_step w w'" "lock_inv w" "in_time d w" "calm w" "d \<le> stale_seconds"
  shows "lock_inv w'"
  using assms(1)
proof cases
  case (remove_stale i)
  have "runners w j \<noteq> Installing t" for j t
    using assms(2-5) remove_stale(2) by (fastforce simp: lock_inv_def in_time_def calm_def)
  then show ?thesis using remove_stale by (simp add: lock_inv_def at_def)
next
  case (unlock i t)
  then show ?thesis using assms(2) by (auto simp: lock_inv_def at_def)
qed (use assms(2) in \<open>auto simp: lock_inv_def at_def\<close>)

lemma lock_reach_inv: "lock_reach d calm w \<Longrightarrow> d \<le> stale_seconds \<Longrightarrow> lock_inv w \<and> in_time d w \<and> calm w"
proof (induction rule: lock_reach.induct)
  case reach_start
  then show ?case by (simp add: lock_inv_def in_time_def calm_def lock_start_def)
next
  case (reach_step w w')
  then show ?case using lock_step_inv [of w w' d] by blast
qed



section \<open>The race of two breakers\<close>

lemma reach_ticks:
  assumes "lock_reach d (\<lambda>_. True) w" "\<And>i t. runners w i \<noteq> Installing t"
  shows "lock_reach d (\<lambda>_. True) (w\<lparr>clock := clock w + n\<rparr>)"
proof (induction n)
  case (Suc n)
  have "lock_step (w\<lparr>clock := clock w + n\<rparr>) (w\<lparr>clock := clock w + Suc n\<rparr>)"
    using lock_step.tick [of "w\<lparr>clock := clock w + n\<rparr>"] by simp
  then show ?case using Suc assms(2) by (rule_tac lock_reach.reach_step) (auto simp: in_time_def)
qed (use assms(1) in simp)

lemmas reach_on = lock_reach.reach_step [where ok = "\<lambda>_. True", OF _ _ _ TrueI]

text \<open>
  C17: Breaking a stale lock is not safe against another breaker. Although every runner leaves
  the critical section within ten minutes, two runners can install the same plugin at the same
  time: both find the lock of a killed runner stale, the first removes it and takes the lock,
  and the second then removes the lock the first has just taken.
\<close>

theorem plugin_lock_race:
  "\<exists>w i j t u. lock_reach 600 (\<lambda>_. True) w \<and> i \<noteq> j \<and> runners w i = Installing t \<and> runners w j = Installing u"
proof -
  let ?R = "lock_reach 600 (\<lambda>_. True)"
  define w1 where "w1 = at (lock_start\<lparr>lock_dir := Some 0\<rparr>) 0 (Installing 0)"
  define w2 where "w2 = at w1 0 Left"
  define w3 where "w3 = w2\<lparr>clock := 901\<rparr>"
  define w4 where "w4 = at (at (at (at w3 1 TryStat) 1 BreakLock) 2 TryStat) 2 BreakLock"
  define w5 where "w5 = at (w4\<lparr>lock_dir := None\<rparr>) 1 TryMkdir"
  define w6 where "w6 = at (w5\<lparr>lock_dir := Some 901\<rparr>) 1 (Installing 901)"
  define w7 where "w7 = at (w6\<lparr>lock_dir := None\<rparr>) 2 TryMkdir"
  define w8 where "w8 = at (w7\<lparr>lock_dir := Some 901\<rparr>) 2 (Installing 901)"
  note defs = lock_start_def w1_def w2_def w3_def w4_def w5_def w6_def w7_def w8_def at_def
  have "lock_step lock_start w1" using lock_step.mkdir_ok [of lock_start 0] by (simp add: w1_def lock_start_def)
  then have "?R w1" by (rule reach_on [OF lock_reach.reach_start]) (simp add: in_time_def defs)
  then have "?R w2" unfolding w2_def by (rule reach_on [OF _ lock_step.killed]) (simp add: in_time_def defs)
  then have "?R w3" using reach_ticks [of 600 w2 901] by (simp add: defs)
  moreover have "lock_step w3 (at w3 1 TryStat)" by (rule lock_step.mkdir_exists [of _ _ 0]) (simp_all add: defs)
  ultimately have "?R (at w3 1 TryStat)" by (rule reach_on) (simp add: in_time_def defs)
  moreover have "lock_step (at w3 1 TryStat) (at (at w3 1 TryStat) 1 BreakLock)"
    by (rule lock_step.stat_stale [of _ _ 0]) (simp_all add: defs stale_seconds_def)
  ultimately have "?R (at (at w3 1 TryStat) 1 BreakLock)" by (rule reach_on) (simp add: in_time_def defs)
  moreover have "lock_step (at (at w3 1 TryStat) 1 BreakLock) (at (at (at w3 1 TryStat) 1 BreakLock) 2 TryStat)"
    by (rule lock_step.mkdir_exists [of _ _ 0]) (simp_all add: defs)
  ultimately have "?R (at (at (at w3 1 TryStat) 1 BreakLock) 2 TryStat)" by (rule reach_on) (simp add: in_time_def defs)
  moreover have "lock_step (at (at (at w3 1 TryStat) 1 BreakLock) 2 TryStat) w4"
    unfolding w4_def by (rule lock_step.stat_stale [of _ _ 0]) (simp_all add: defs stale_seconds_def)
  ultimately have "?R w4" by (rule reach_on) (simp add: in_time_def defs)
  moreover have "lock_step w4 w5" unfolding w5_def by (rule lock_step.remove_stale) (simp add: defs)
  ultimately have "?R w5" by (rule reach_on) (simp add: in_time_def defs)
  moreover have "lock_step w5 w6" using lock_step.mkdir_ok [of w5 1] by (simp add: defs)
  ultimately have "?R w6" by (rule reach_on) (simp add: in_time_def defs)
  moreover have "lock_step w6 w7" unfolding w7_def by (rule lock_step.remove_stale) (simp add: defs)
  ultimately have "?R w7" by (rule reach_on) (simp add: in_time_def defs)
  moreover have "lock_step w7 w8" using lock_step.mkdir_ok [of w7 2] by (simp add: defs)
  ultimately have "?R w8" by (rule reach_on) (simp add: in_time_def defs)
  then show ?thesis by (intro exI [of _ w8] exI [of _ 1] exI [of _ 2] exI [of _ 901]) (simp add: defs)
qed

end
