(* ===== verification/Composite_Render.thy ===== *)
theory Composite_Render
  imports Do_Resource
begin

text \<open>
  The composite renderer (\<open>internal/controller/composite_render.go\<close>,
  \<open>composite_params.go\<close>): a definition's resource templates, with their \<open>${...}\<close>
  expressions, become the child DoResources of one composite. An expression that reads a
  sibling resource is taken out of the properties and becomes a reference of the child, which
  the reference engine resolves later.

  The validators of the Kubernetes libraries, the schema compiler and SHA-256 are
  parameters (\<open>render_lib\<close>).
\<close>

section \<open>The libraries the renderer calls\<close>

record render_lib =
  IsDNS1123Label :: "string \<Rightarrow> string list"
  IsDNS1123Subdomain :: "string \<Rightarrow> string list"
  IsValidLabelValue :: "string \<Rightarrow> string list"
  Sha256Hex :: "string \<Rightarrow> string"
  ConvertSchema :: "JSONSchemaProps \<Rightarrow> JSONSchemaProps result"
  NewSchemaValidator :: "JSONSchemaProps \<Rightarrow> (jobj \<Rightarrow> string list) result"
  ToAggregate :: "string list \<Rightarrow> error"

section \<open>Expressions\<close>

definition escMarker :: string where
  "escMarker = [CHR 0x00] @ ''DOPLANE_ESC'' @ [CHR 0x00]"

definition valueMarker :: string where
  "valueMarker = [CHR 0x00] @ ''DOPLANE_VALUE'' @ [CHR 0x00]"

lemma Cut_shorter: "Cut (drop n s) sep = (a, b, True) \<Longrightarrow> length b < length s"
  using Cut_found [of "drop n s" sep a b] length_drop [of n s]
  by (metis add_Suc_right diff_le_self le_add2 le_imp_less_Suc length_Cons length_append order_less_le_trans)

text \<open>
  \<open>exprRe.FindAllStringSubmatchIndex\<close> for the pattern \<open>\${([^}]*)}\<close>: every match with the
  text between it and the one before (\<open>escaped[prev:m[0]]\<close>) and its group
  (\<open>escaped[m[2]:m[3]]\<close>), and the text after the last match (\<open>escaped[prev:]\<close>).
\<close>

function exprRe_matches :: "string \<Rightarrow> (string \<times> string) list \<times> string" where
  "exprRe_matches s =
     (case IndexOf s ''${'' of
        None \<Rightarrow> ([], s)
      | Some i \<Rightarrow>
          (case Cut (drop (i + 2) s) (CHR ''}'') of (inner, rest, found) \<Rightarrow>
             if \<not> found then ([], s)
             else (case exprRe_matches rest of (ms, tailText) \<Rightarrow> ((take i s, inner) # ms, tailText))))"
  by pat_completeness auto
termination
  by (relation "measure length") (auto dest!: sym [of _ "Cut _ _"] Cut_shorter)

declare exprRe_matches.simps [simp del]

text \<open>The spans of the matches (\<open>FindAllStringIndex\<close>).\<close>

primrec match_spans :: "nat \<Rightarrow> (string \<times> string) list \<Rightarrow> (nat \<times> nat) list" where
  "match_spans pos [] = []"
| "match_spans pos (m # ms) =
     (pos + length (fst m), pos + length (fst m) + length (snd m) + 3) #
     match_spans (pos + length (fst m) + length (snd m) + 3) ms"

definition truncateAt :: "string \<Rightarrow> nat \<Rightarrow> string" where
  "truncateAt s n = (if length s \<le> n then s else take n s @ ellipsis)"

text \<open>The position of the first \<open>${\<close> outside every span, searching from \<open>idx\<close>.\<close>

function unterminated :: "string \<Rightarrow> (nat \<times> nat) list \<Rightarrow> nat \<Rightarrow> nat option" where
  "unterminated escaped spans idx =
     (case IndexOf (drop idx escaped) ''${'' of
        None \<Rightarrow> None
      | Some p \<Rightarrow>
          (let pos = p + idx in
           case find (\<lambda>span. fst span \<le> pos \<and> pos < snd span) spans of
             None \<Rightarrow> Some pos
           | Some span \<Rightarrow> unterminated escaped spans (snd span)))"
  by pat_completeness auto
termination
proof (relation "measure (\<lambda>(escaped, spans, idx). length escaped - idx)", goal_cases)
  case (2 escaped spans idx p pos span)
  then have "HasPrefix (drop (p + idx) escaped) ''${''" using IndexOf_Some [of "drop idx escaped" "''${''" p] by simp
  then have "drop (p + idx) escaped \<noteq> []" by (metis HasPrefix.simps(2))
  moreover have "pos < snd span" using 2 by (metis (mono_tags, lifting) find_Some_iff)
  ultimately show ?case using 2 by simp
qed simp

declare unterminated.simps [simp del]

definition checkUnterminated :: "string \<Rightarrow> string \<Rightarrow> error option" where
  "checkUnterminated escaped path =
     (case unterminated escaped (match_spans 0 (fst (exprRe_matches escaped))) 0 of
        None \<Rightarrow> None
      | Some pos \<Rightarrow>
          Some (Errorf (''value at '' @ Quote path @ '' contains an unterminated expression starting at '' @
                  Quote (truncateAt (drop pos escaped) 20) @ '' (escape a literal with '' @ [CHR 0x22] @
                  ''$${'' @ [CHR 0x22] @ '')'')))"

section \<open>Names\<close>

definition childResourceName :: "render_lib \<Rightarrow> string \<Rightarrow> string \<Rightarrow> string" where
  "childResourceName lib composite resource =
     (let name = composite @ ''-'' @ resource in
      if length name \<le> 253 \<and> IsDNS1123Subdomain lib name = [] then name
      else
        let hash = take 8 (Sha256Hex lib name);
            maxPrefix = 253 - int (length resource) - int (length hash) - 2;
            prefix = (if maxPrefix < int (length composite)
                      then TrimRight (take (nat maxPrefix) composite) ''-.'' else composite)
        in prefix @ ''-'' @ hash @ ''-'' @ resource)"

definition compositeLabelValue :: "render_lib \<Rightarrow> string \<Rightarrow> string" where
  "compositeLabelValue lib name =
     (if IsValidLabelValue lib name = [] then name
      else
        let hash = take 8 (Sha256Hex lib name);
            prefix = TrimRight (take (min (length name) (63 - length hash - 1)) name) ''-._''
        in prefix @ ''-'' @ hash)"

definition labelComposite :: string where "labelComposite = ''do.pulumi.com/composite''"
definition labelCompositeItem :: string where "labelCompositeItem = ''do.pulumi.com/composite-resource''"
definition labelManagedByKey :: string where "labelManagedByKey = ''app.kubernetes.io/managed-by''"

section \<open>Rendering\<close>

record renderContext =
  rc_composite :: DoComposite
  rc_params :: jobj
  rc_childName :: "string gomap"

text \<open>\<open>removedValue\<close> marks an entry a reference replaces.\<close>

datatype rendered = Value json | Removed

definition parseResourceExpr :: "renderContext \<Rightarrow> string \<Rightarrow> (string \<times> string) result" where
  "parseResourceExpr rc expr =
     (let parts = SplitN 2 (TrimPrefix expr ''resources.'') (CHR ''.'');
          source = parts ! 0;
          field = parts ! 1
      in if gomap_get (rc_childName rc) source = None then
           Inl (Errorf (''expression ${'' @ expr @ ''}: unknown resource '' @ Quote source))
         else if length parts < 2 then
           Inl (Errorf (''expression ${'' @ expr @ ''}: missing field (use .id or .outputs.<path>)''))
         else if field = ''id'' then Inr (source, fieldPathID)
         else if field = ''outputs'' \<or> HasPrefix field ''outputs.'' then Inr (source, ''status.'' @ field)
         else Inl (Errorf (''expression ${'' @ expr @ ''}: field must be id or outputs.<path>'')))"

text \<open>
  The loop over the matches: it either returns the parameter that is the whole string, or
  leaves the assembled text and the one \<open>resources.*\<close> expression (empty when there is none).
\<close>

datatype loop_exit = Whole json | Assembled string string

primrec render_matches ::
  "renderContext \<Rightarrow> string \<Rightarrow> bool \<Rightarrow> (string \<times> string) list \<Rightarrow> string \<Rightarrow> string \<Rightarrow> loop_exit result"
where
  "render_matches rc path wholeString [] b resourceExpr = Inr (Assembled b resourceExpr)"
| "render_matches rc path wholeString (m # ms) b resourceExpr =
     (let b = b @ fst m;
          expr = TrimSpace (snd m)
      in if HasPrefix expr ''params.'' \<or> expr = ''params'' then
           (case GetPath (JObj [(''params'', JObj (rc_params rc))]) expr of
              None \<Rightarrow> Inl (Errorf (''expression ${'' @ expr @ ''}: parameter not found''))
            | Some val \<Rightarrow>
                if wholeString then Inr (Whole val)
                else render_matches rc path wholeString ms (b @ RenderScalar val) resourceExpr)
         else if expr = ''self.name'' then
           render_matches rc path wholeString ms (b @ om_Name (comp_meta (rc_composite rc))) resourceExpr
         else if expr = ''self.namespace'' then
           render_matches rc path wholeString ms (b @ om_Namespace (comp_meta (rc_composite rc))) resourceExpr
         else if HasPrefix expr ''resources.'' then
           (if resourceExpr \<noteq> [] \<and> resourceExpr \<noteq> expr then
              Inl (Errorf (''value at '' @ Quote path @ '' uses two different resources.* expressions; '' @
                           ''only one source is supported per value''))
            else render_matches rc path wholeString ms (b @ valueMarker) expr)
         else Inl (Errorf (''unsupported expression ${'' @ expr @
                           ''} (want params.*, self.name, self.namespace or resources.*)'')))"

definition renderString ::
  "renderContext \<Rightarrow> string \<Rightarrow> string \<Rightarrow> Reference list \<Rightarrow> (rendered \<times> Reference list) result" where
  "renderString rc s path refs =
     (let escaped = ReplaceAll s ''$${'' escMarker in
      case checkUnterminated escaped path of
        Some e \<Rightarrow> Inl e
      | None \<Rightarrow>
          (case exprRe_matches escaped of (ms, tailText) \<Rightarrow>
             if ms = [] then Inr (Value (JStr (ReplaceAll escaped escMarker ''${'')), refs)
             else
               (let wholeString = (length ms = 1 \<and> fst (hd ms) = [] \<and> tailText = []) in
                case render_matches rc path wholeString ms [] [] of
                  Inl e \<Rightarrow> Inl e
                | Inr (Whole val) \<Rightarrow> Inr (Value val, refs)
                | Inr (Assembled b resourceExpr) \<Rightarrow>
                    (let result = ReplaceAll (b @ tailText) escMarker ''${'' in
                     if resourceExpr = [] then
                       Inr (Value (JStr (ReplaceAll result valueMarker ''${value}'')), refs)
                     else
                       (let result = ReplaceAll result ''${value}'' ''$${value}'';
                            result = ReplaceAll result valueMarker ''${value}''
                        in case parseResourceExpr rc resourceExpr of
                             Inl e \<Rightarrow> Inl e
                           | Inr (source, fieldPath) \<Rightarrow>
                               Inr (Removed,
                                    refs @ [\<lparr>ref_ToPath = path,
                                             ref_From = \<lparr>rs_Name = (case gomap_get (rc_childName rc) source of
                                                                       Some n \<Rightarrow> n | None \<Rightarrow> []),
                                                         rs_FieldPath = fieldPath\<rparr>,
                                             ref_Template = (if result \<noteq> ''${value}'' then result else [])\<rparr>]))))))"

text \<open>
  \<open>renderValue\<close>: a removed map entry is dropped, a removed array element leaves an empty
  string behind.
\<close>

fun renderValue :: "renderContext \<Rightarrow> json \<Rightarrow> string \<Rightarrow> Reference list \<Rightarrow> (rendered \<times> Reference list) result"
  and render_entries :: "renderContext \<Rightarrow> json gomap \<Rightarrow> string \<Rightarrow> Reference list \<Rightarrow> (jobj \<times> Reference list) result"
  and render_elems :: "renderContext \<Rightarrow> json list \<Rightarrow> nat \<Rightarrow> string \<Rightarrow> Reference list \<Rightarrow> (json list \<times> Reference list) result"
where
  "renderValue rc (JStr s) path refs = renderString rc s path refs"
| "renderValue rc (JObj m) path refs =
     (case render_entries rc m path refs of
        Inl e \<Rightarrow> Inl e
      | Inr (out, refs') \<Rightarrow> Inr (Value (JObj out), refs'))"
| "renderValue rc (JArr xs) path refs =
     (case render_elems rc xs 0 path refs of
        Inl e \<Rightarrow> Inl e
      | Inr (out, refs') \<Rightarrow> Inr (Value (JArr out), refs'))"
| "renderValue rc JNull path refs = Inr (Value JNull, refs)"
| "renderValue rc (JBool b) path refs = Inr (Value (JBool b), refs)"
| "renderValue rc (JNum n) path refs = Inr (Value (JNum n), refs)"
| "render_entries rc [] path refs = Inr ([], refs)"
| "render_entries rc ((k, v) # m) path refs =
     (case renderValue rc v (AppendKeySegment path k) refs of
        Inl e \<Rightarrow> Inl e
      | Inr (rv, refs') \<Rightarrow>
          (case render_entries rc m path refs' of
             Inl e \<Rightarrow> Inl e
           | Inr (out, refs'') \<Rightarrow>
               Inr (case rv of Value j \<Rightarrow> (k, j) # out | Removed \<Rightarrow> out, refs'')))"
| "render_elems rc [] i path refs = Inr ([], refs)"
| "render_elems rc (x # xs) i path refs =
     (case renderValue rc x (AppendIndexSegment path i) refs of
        Inl e \<Rightarrow> Inl e
      | Inr (rv, refs') \<Rightarrow>
          (case render_elems rc xs (Suc i) path refs' of
             Inl e \<Rightarrow> Inl e
           | Inr (out, refs'') \<Rightarrow>
               Inr ((case rv of Value j \<Rightarrow> j | Removed \<Rightarrow> JStr []) # out, refs'')))"

definition renderExternalName :: "renderContext \<Rightarrow> string \<Rightarrow> string result" where
  "renderExternalName rc expr =
     (case renderString rc expr ''externalName'' [] of
        Inl e \<Rightarrow> Inl e
      | Inr (r, refs) \<Rightarrow>
          (case r of
             Value val \<Rightarrow>
               if refs \<noteq> [] then
                 Inl (Errorf ''externalName must not reference sibling resources (only params.* and self.*)'')
               else Inr (RenderScalar val)
           | Removed \<Rightarrow>
               Inl (Errorf ''externalName must not reference sibling resources (only params.* and self.*)'')))"

definition fresh_status :: DoResourceStatus where
  "fresh_status = \<lparr>st_ID = [], st_Outputs = None, st_ObservedGeneration = 0, st_AppliedHash = [],
                   st_EngineState = None, st_Conditions = []\<rparr>"

definition child_meta :: "render_lib \<Rightarrow> renderContext \<Rightarrow> CompositeResourceTemplate \<Rightarrow> ObjectMeta" where
  "child_meta lib rc tpl =
     blank_meta\<lparr>om_Name := (case gomap_get (rc_childName rc) (t_Name tpl) of Some n \<Rightarrow> n | None \<Rightarrow> []),
                om_Namespace := om_Namespace (comp_meta (rc_composite rc)),
                om_Labels := gomap_put labelComposite (compositeLabelValue lib (om_Name (comp_meta (rc_composite rc))))
                               (gomap_put labelCompositeItem (t_Name tpl)
                                 (gomap_put labelManagedByKey ''doplane'' []))\<rparr>"

definition child_spec :: "CompositeResourceTemplate \<Rightarrow> jobj \<Rightarrow> Reference list \<Rightarrow> DoResourceSpec" where
  "child_spec tpl props refs =
     \<lparr>spec_Type = t_Type tpl, spec_Package = t_Package tpl, spec_ProviderRef = t_ProviderRef tpl,
      spec_Properties = Some (JObj props), spec_DeletionPolicy = t_DeletionPolicy tpl, spec_Protect = None,
      spec_References = refs, spec_WriteConnectionSecretToRef = None, spec_ConnectionDetails = [],
      spec_ValuesFrom = []\<rparr>"

text \<open>
  The \<open>ToPath\<close>s of one child are distinct, so the unstable \<open>sort.Slice\<close> has one result.
\<close>

definition renderChild :: "render_lib \<Rightarrow> renderContext \<Rightarrow> CompositeResourceTemplate \<Rightarrow> DoResource result" where
  "renderChild lib rc tpl =
     (case decodeProperties (t_Properties tpl) of
        Inl e \<Rightarrow> Inl (wrap_error ''properties are not a JSON object: '' e)
      | Inr props \<Rightarrow>
          (case renderValue rc (JObj props) [] [] of
             Inl e \<Rightarrow> Inl e
           | Inr (Value (JObj renderedProps), refs) \<Rightarrow>
               (let child = \<lparr>meta = child_meta lib rc tpl,
                             spec = child_spec tpl renderedProps (sort_key ref_ToPath refs),
                             status = fresh_status\<rparr>
                in if t_ExternalName tpl \<noteq> [] then
                     (case renderExternalName rc (t_ExternalName tpl) of
                        Inl e \<Rightarrow> Inl e
                      | Inr name \<Rightarrow>
                          Inr (if name \<noteq> []
                               then child\<lparr>meta := (meta child)\<lparr>om_Annotations := [(annExternalName, name)]\<rparr>\<rparr>
                               else child))
                   else Inr child)
           | Inr _ \<Rightarrow> Inl (Errorf ''rendered properties are not an object'')))"

definition validateParameters :: "render_lib \<Rightarrow> JSONSchemaProps option \<Rightarrow> jobj \<Rightarrow> error option" where
  "validateParameters lib schema params =
     (case schema of
        None \<Rightarrow> None
      | Some s \<Rightarrow>
          (case ConvertSchema lib s of
             Inl e \<Rightarrow> Some (wrap_error ''converting parameters schema: '' e)
           | Inr internal \<Rightarrow>
               (case NewSchemaValidator lib internal of
                  Inl e \<Rightarrow> Some (wrap_error ''compiling parameters schema: '' e)
                | Inr validator \<Rightarrow>
                    if validator params \<noteq> [] then Some (ToAggregate lib (validator params)) else None)))"

primrec child_names ::
  "render_lib \<Rightarrow> string \<Rightarrow> CompositeResourceTemplate list \<Rightarrow> string gomap \<Rightarrow> string gomap result" where
  "child_names lib composite [] names = Inr names"
| "child_names lib composite (tpl # tpls) names =
     (if gomap_get names (t_Name tpl) \<noteq> None then
        Inl (Errorf (''duplicate resource name '' @ Quote (t_Name tpl) @ '' in definition''))
      else case IsDNS1123Label lib (t_Name tpl) of
          e # _ \<Rightarrow> Inl (Errorf (''resource name '' @ Quote (t_Name tpl) @ '' is not a valid DNS label: '' @ e))
        | [] \<Rightarrow> child_names lib composite tpls
                 (gomap_put (t_Name tpl) (childResourceName lib composite (t_Name tpl)) names))"

primrec render_children ::
  "render_lib \<Rightarrow> renderContext \<Rightarrow> CompositeResourceTemplate list \<Rightarrow> DoResource list result" where
  "render_children lib rc [] = Inr []"
| "render_children lib rc (tpl # tpls) =
     (case renderChild lib rc tpl of
        Inl e \<Rightarrow> Inl (wrap_error (''resource '' @ Quote (t_Name tpl) @ '': '') e)
      | Inr child \<Rightarrow>
          (case render_children lib rc tpls of
             Inl e \<Rightarrow> Inl e
           | Inr children \<Rightarrow> Inr (child # children)))"

definition renderComposite ::
  "render_lib \<Rightarrow> DoComposite \<Rightarrow> DoCompositeDefinition \<Rightarrow> DoResource list result" where
  "renderComposite lib cmp def =
     (case decodeProperties (comp_Parameters (comp_spec cmp)) of
        Inl e \<Rightarrow> Inl (wrap_error ''spec.parameters is not a JSON object: '' e)
      | Inr params \<Rightarrow>
          (case (case cds_API (def_spec def) of
                   None \<Rightarrow> None
                 | Some api \<Rightarrow> validateParameters lib (api_ParametersSchema api) params) of
             Some e \<Rightarrow> Inl e
           | None \<Rightarrow>
               (case child_names lib (om_Name (comp_meta cmp)) (cds_Resources (def_spec def)) [] of
                  Inl e \<Rightarrow> Inl e
                | Inr names \<Rightarrow>
                    render_children lib \<lparr>rc_composite = cmp, rc_params = params, rc_childName = names\<rparr>
                      (cds_Resources (def_spec def)))))"

end
