(* ===== verification/Composite_Graph.thy ===== *)
theory Composite_Graph
  imports Composite_Render
begin

text \<open>
  What the composite renderer promises the reference engine. A rendered child's references
  read its siblings, and every one has a hole of the child's properties as its target: a path
  whose parent exists, apart from the targets of the other references. So the references can
  be resolved in any order, without an error, and each value lands where its expression stood.
\<close>

lemma list_all2_setD1: "list_all2 R xs ys \<Longrightarrow> x \<in> set xs \<Longrightarrow> \<exists>y \<in> set ys. R x y"
  by (induction rule: list_all2_induct) auto

lemma list_all2_setD2: "list_all2 R xs ys \<Longrightarrow> y \<in> set ys \<Longrightarrow> \<exists>x \<in> set xs. R x y"
  by (induction rule: list_all2_induct) auto

section \<open>Where references land\<close>

text \<open>
  A hole of a document is a path that can be set there without creating anything on the
  way: its parent exists.
\<close>

fun hole :: "json \<Rightarrow> pathSegment list \<Rightarrow> bool" where
  "hole (JObj m) (KeySeg k # segs) =
     (segs = [] \<or> (case gomap_get m k of None \<Rightarrow> False | Some nxt \<Rightarrow> hole nxt segs))"
| "hole (JArr xs) (IdxSeg i # segs) = (i < length xs \<and> (segs = [] \<or> hole (xs ! i) segs))"
| "hole _ _ = False"

lemma hole_null [simp]: "\<not> hole JNull segs"
  by (cases segs) auto

lemma hole_nonempty: "hole j segs \<Longrightarrow> segs \<noteq> []"
  by (cases segs; cases j) auto

lemma hole_set: "hole cur segs \<Longrightarrow> \<exists>cur'. set_segs path segs v cur = (cur', None)"
  by (induction cur segs rule: hole.induct) (force split: option.splits)+

lemma hole_put_other: "hole (JObj m) (t # q) \<Longrightarrow> t \<noteq> KeySeg k \<Longrightarrow> hole (JObj (gomap_put k x m)) (t # q)"
  by (cases t) (auto simp: gomap_simps)

lemma hole_update_other: "hole (JArr xs) (t # q) \<Longrightarrow> t \<noteq> IdxSeg i \<Longrightarrow> hole (JArr (xs[i := x])) (t # q)"
  by (cases t) (auto simp: nth_list_update)

lemma hole_frame: "hole cur q \<Longrightarrow> parallel segs q \<Longrightarrow> hole (fst (set_segs path segs v cur)) q"
proof (induction segs arbitrary: cur q)
  case (Cons s segs)
  then obtain t q' where q: "q = t # q'" by (cases q) auto
  show ?case
  proof (cases "s = t")
    case False
    with Cons.prems q show ?thesis
      by (cases "(path, s # segs, v, cur)" rule: set_segs.cases)
         (auto intro: hole_put_other hole_update_other split: option.split prod.split)
  next
    case True
    with Cons.prems q have par: "parallel segs q'" by (simp add: parallel_Cons)
    then have "segs \<noteq> []" "q' \<noteq> []" by auto
    with Cons.prems True q Cons.IH [OF _ par] show ?thesis
      by (cases "(path, s # segs, v, cur)" rule: set_segs.cases)
         (fastforce simp: gomap_simps split: option.splits prod.splits)+
  qed
qed simp

lemma hole_SetPath:
  assumes "parsePath p = Inr segs" "hole (JObj m) segs"
  shows "\<exists>m'. SetPath m p v = (m', None)"
proof -
  have "\<not> isIdx (hd segs)" using assms(2) by (cases segs; cases "hd segs") auto
  moreover obtain j where "set_segs p segs v (JObj m) = (j, None)" using hole_set [OF assms(2)] by blast
  ultimately show ?thesis using assms(1) by (simp add: SetPath_def)
qed

lemma hole_SetPath_frame:
  assumes "parsePath p = Inr segs" "hole (JObj m) q" "parallel segs q"
  shows "hole (JObj (fst (SetPath m p v))) q"
  using hole_frame [OF assms(2,3), of p v] obj_of_set_segs [of p segs v m] assms(1,2)
  by (auto simp: SetPath_def split: prod.splits)

fun short_arrays :: "json \<Rightarrow> bool" where
  "short_arrays (JArr xs) = (length xs < 2 ^ 63 \<and> (\<forall>x \<in> set xs. short_arrays x))"
| "short_arrays (JObj m) = (\<forall>(k, v) \<in> set m. short_arrays v)"
| "short_arrays _ = True"

definition document :: "json \<Rightarrow> bool" where
  "document j = (wf_json j \<and> short_arrays j)"

lemma document_simps [simp]:
  "document (JArr xs) \<longleftrightarrow> length xs < 2 ^ 63 \<and> (\<forall>x \<in> set xs. document x)"
  "document (JObj m) \<longleftrightarrow> gomap_ok m \<and> (\<forall>p \<in> set m. document (snd p))"
  by (auto simp: document_def)

lemma renderString_refs:
  assumes "renderString rc s path refs = Inr (rv, refs')"
  shows "(\<exists>val. rv = Value val) \<and> refs' = refs \<or>
         rv = Removed \<and> (\<exists>ref. refs' = refs @ [ref] \<and> ref_ToPath ref = path)"
  using assms
  by (auto simp: renderString_def Let_def split: option.splits prod.splits sum.splits loop_exit.splits if_splits)

text \<open>A reference whose \<open>ToPath\<close> is \<open>rel\<close> below the position \<open>segs\<close>.\<close>

definition lands :: "pathSegment list \<Rightarrow> Reference \<Rightarrow> pathSegment list \<Rightarrow> bool" where
  "lands segs ref rel = (parse_loop (ref_ToPath ref) (ref_ToPath ref) [] = Inr (segs @ rel))"

definition position :: "string \<Rightarrow> pathSegment list \<Rightarrow> bool" where
  "position path segs = (parse_loop path path [] = Inr segs \<and> (path = [] \<longleftrightarrow> segs = []))"

lemma position_key: "position path segs \<Longrightarrow> position (AppendKeySegment path k) (segs @ [KeySeg k])"
  using parse_loop_AppendKeySegment [of path segs "AppendKeySegment path k" k] print_seg_nonempty [of path "KeySeg k"]
  by (simp add: position_def print_seg_def)

lemma position_index:
  "position path segs \<Longrightarrow> i < 2 ^ 63 \<Longrightarrow> position (AppendIndexSegment path i) (segs @ [IdxSeg i])"
  using parse_loop_AppendIndexSegment [of path segs i "AppendIndexSegment path i"] print_seg_nonempty [of path "IdxSeg i"]
  by (simp add: position_def print_seg_def)

lemma lands_below: "list_all2 (lands (segs @ [s])) new rels \<Longrightarrow> list_all2 (lands segs) new (map ((#) s) rels)"
  by (auto simp: list_all2_map2 lands_def elim: list_all2_mono)

lemma parallel_below: "sorted_wrt parallel (map ((#) s) rels) = sorted_wrt parallel rels"
  by (simp add: sorted_wrt_map parallel_Cons)

text \<open>The references a value adds, with where they land below the value's own position.\<close>

definition added :: "pathSegment list \<Rightarrow> Reference list \<Rightarrow> Reference list \<Rightarrow> pathSegment list list \<Rightarrow> bool" where
  "added segs refs refs' rels =
     (\<exists>new. refs' = refs @ new \<and> list_all2 (lands segs) new rels \<and> sorted_wrt parallel rels)"

definition value_rels :: "rendered \<Rightarrow> pathSegment list list \<Rightarrow> bool" where
  "value_rels rv rels = (case rv of Removed \<Rightarrow> rels = [[]] | Value j \<Rightarrow> list_all (hole j) rels)"

lemma added_none: "added segs refs refs []"
  by (simp add: added_def)

lemma added_append:
  assumes "added (segs @ [s]) refs refs1 rels1" "added segs refs1 refs2 rels2"
    "list_all (\<lambda>r. \<exists>t q. r = t # q \<and> t \<noteq> s) rels2"
  shows "added segs refs refs2 (map ((#) s) rels1 @ rels2)"
proof -
  obtain new1 new2 where n: "refs1 = refs @ new1" "list_all2 (lands (segs @ [s])) new1 rels1" "sorted_wrt parallel rels1"
    "refs2 = refs1 @ new2" "list_all2 (lands segs) new2 rels2" "sorted_wrt parallel rels2"
    using assms(1,2) by (auto simp: added_def)
  have "\<forall>x \<in> set (map ((#) s) rels1). \<forall>y \<in> set rels2. parallel x y"
    using assms(3) by (fastforce simp: list_all_iff parallel_Cons)
  with n show ?thesis
    unfolding added_def
    by (intro exI [of _ "new1 @ new2"])
       (simp add: list_all2_appendI lands_below sorted_wrt_append parallel_below)
qed

lemma render_holes:
  "renderValue rc v path refs = Inr (rv, refs') \<Longrightarrow> position path segs \<Longrightarrow> document v \<Longrightarrow>
     \<exists>rels. added segs refs refs' rels \<and> value_rels rv rels"
  "render_entries rc m path refs = Inr (out, refs') \<Longrightarrow> position path segs \<Longrightarrow> document (JObj m) \<Longrightarrow>
     fst ` set out \<subseteq> fst ` set m \<and>
     (\<exists>rels. added segs refs refs' rels \<and>
        list_all (\<lambda>r. hole (JObj out) r \<and> (\<exists>k q. r = KeySeg k # q \<and> k \<in> fst ` set m)) rels)"
  "render_elems rc xs i path refs = Inr (ys, refs') \<Longrightarrow> position path segs \<Longrightarrow> \<forall>x \<in> set xs. document x \<Longrightarrow>
     i + length xs < 2 ^ 63 \<Longrightarrow>
     length ys = length xs \<and>
     (\<exists>rels. added segs refs refs' rels \<and>
        list_all (\<lambda>r. \<exists>d q. r = IdxSeg (i + d) # q \<and> hole (JArr ys) (IdxSeg d # q)) rels)"
proof (induction rc v path refs and rc m path refs and rc xs i path refs arbitrary: rv refs' segs and out refs' segs and ys refs' segs
       rule: renderValue_render_entries_render_elems.induct)
  case (1 rc s path refs)
  then consider (val) val where "rv = Value val" "refs' = refs"
    | (ref) ref where "rv = Removed" "refs' = refs @ [ref]" "ref_ToPath ref = path"
    using renderString_refs by fastforce
  then show ?case
  proof cases
    case val
    then show ?thesis by (intro exI [of _ "[]"]) (simp add: added_none value_rels_def)
  next
    case ref
    with 1(2) show ?thesis
      by (intro exI [of _ "[[]]"]) (simp add: added_def value_rels_def lands_def position_def)
  qed
next
  case (2 rc m path refs)
  then obtain out where out: "render_entries rc m path refs = Inr (out, refs')" "rv = Value (JObj out)"
    by (auto split: sum.splits)
  from 2(1) [OF out(1) 2(3,4)] obtain rels where "added segs refs refs' rels" "list_all (hole (JObj out)) rels"
    by (auto simp: list_all_iff)
  with out(2) show ?case by (auto simp: value_rels_def)
next
  case (3 rc xs path refs)
  then obtain ys where ys: "render_elems rc xs 0 path refs = Inr (ys, refs')" "rv = Value (JArr ys)"
    by (auto split: sum.splits)
  from 3(1) [OF ys(1) 3(3)] 3(4) obtain rels where "added segs refs refs' rels" "list_all (hole (JArr ys)) rels"
    by (fastforce simp: list_all_iff)
  with ys(2) show ?case by (auto simp: value_rels_def)
next
  case (7 rc path refs)
  then show ?case by (auto intro: added_none exI [of _ "[]"])
next
  case (8 rc k v m path refs)
  then obtain rv1 refs1 out1 where s: "renderValue rc v (AppendKeySegment path k) refs = Inr (rv1, refs1)"
      "render_entries rc m path refs1 = Inr (out1, refs')" "out = (case rv1 of Value j \<Rightarrow> (k, j) # out1 | Removed \<Rightarrow> out1)"
    by (auto split: sum.splits)
  have k: "k \<notin> fst ` set m" "document (JObj m)" "document v" using 8(5) by (force simp: gomap_ok_Cons)+
  from 8(1) [OF s(1) position_key [OF 8(4)] k(3)] obtain rels1 where
    r1: "added (segs @ [KeySeg k]) refs refs1 rels1" "value_rels rv1 rels1" by blast
  from 8(2) [OF s(1) refl s(2) 8(4) k(2)] obtain rels2 where
    r2: "fst ` set out1 \<subseteq> fst ` set m" "added segs refs1 refs' rels2"
      "list_all (\<lambda>r. hole (JObj out1) r \<and> (\<exists>k q. r = KeySeg k # q \<and> k \<in> fst ` set m)) rels2" by blast
  have h1: "list_all (\<lambda>r. hole (JObj out) (KeySeg k # r)) rels1"
    using r1(2) s(3) by (auto simp: value_rels_def list_all_iff split: rendered.splits)
  have h2: "list_all (hole (JObj out)) rels2"
    using r2(3)
  proof (rule list.pred_mono_strong)
    fix r assume "hole (JObj out1) r \<and> (\<exists>k q. r = KeySeg k # q \<and> k \<in> fst ` set m)"
    then obtain k' q where "hole (JObj out1) r" "r = KeySeg k' # q" "k' \<noteq> k" using k(1) by blast
    then show "hole (JObj out) r" using s(3) by (cases rv1) auto
  qed
  have "list_all (\<lambda>r. \<exists>t q. r = t # q \<and> t \<noteq> KeySeg k) rels2"
    by (rule list.pred_mono_strong [OF r2(3)]) (use k(1) in auto)
  then have "added segs refs refs' (map ((#) (KeySeg k)) rels1 @ rels2)" by (rule added_append [OF r1(1) r2(2)])
  moreover have "list_all (\<lambda>r. hole (JObj out) r \<and> (\<exists>k' q. r = KeySeg k' # q \<and> k' \<in> fst ` set ((k, v) # m))) rels2"
    by (rule list.pred_mono_strong [OF r2(3)]) (use h2 in \<open>auto simp: list_all_iff\<close>)
  then have "list_all (\<lambda>r. hole (JObj out) r \<and> (\<exists>k' q. r = KeySeg k' # q \<and> k' \<in> fst ` set ((k, v) # m)))
                   (map ((#) (KeySeg k)) rels1 @ rels2)"
    using h1 by (simp add: list.pred_map comp_def)
  ultimately show ?case using r2(1) s(3) by (auto split: rendered.splits)
next
  case (9 rc i path refs)
  then show ?case by (auto intro: added_none exI [of _ "[]"])
next
  case (10 rc x xs i path refs)
  then obtain rv1 refs1 out1 where s: "renderValue rc x (AppendIndexSegment path i) refs = Inr (rv1, refs1)"
      "render_elems rc xs (Suc i) path refs1 = Inr (out1, refs')" "ys = (case rv1 of Value j \<Rightarrow> j | Removed \<Rightarrow> JStr []) # out1"
    by (auto split: sum.splits)
  have i: "i < 2 ^ 63" "Suc i + length xs < 2 ^ 63" using 10(6) by simp_all
  have d: "document x" "\<forall>x \<in> set xs. document x" using 10(5) by auto
  from 10(1) [OF s(1) position_index [OF 10(4) i(1)] d(1)] obtain rels1 where
    r1: "added (segs @ [IdxSeg i]) refs refs1 rels1" "value_rels rv1 rels1" by blast
  from 10(2) [OF s(1) refl s(2) 10(4) d(2) i(2)] obtain rels2 where
    r2: "length out1 = length xs" "added segs refs1 refs' rels2"
      "list_all (\<lambda>r. \<exists>d q. r = IdxSeg (Suc i + d) # q \<and> hole (JArr out1) (IdxSeg d # q)) rels2" by blast
  have h1: "list_all (\<lambda>r. hole (JArr ys) (IdxSeg 0 # r)) rels1"
    using r1(2) s(3) by (auto simp: value_rels_def list_all_iff split: rendered.splits)
  have h2: "list_all (\<lambda>r. \<exists>d q. r = IdxSeg (i + d) # q \<and> hole (JArr ys) (IdxSeg d # q)) rels2"
    using r2(3)
  proof (rule list.pred_mono_strong)
    fix r assume "\<exists>d q. r = IdxSeg (Suc i + d) # q \<and> hole (JArr out1) (IdxSeg d # q)"
    then obtain d q where "r = IdxSeg (Suc i + d) # q" "hole (JArr out1) (IdxSeg d # q)" by blast
    with s(3) show "\<exists>d q. r = IdxSeg (i + d) # q \<and> hole (JArr ys) (IdxSeg d # q)"
      by (intro exI [of _ "Suc d"] exI [of _ q]) auto
  qed
  have "list_all (\<lambda>r. \<exists>t q. r = t # q \<and> t \<noteq> IdxSeg i) rels2"
    by (rule list.pred_mono_strong [OF r2(3)]) auto
  then have "added segs refs refs' (map ((#) (IdxSeg i)) rels1 @ rels2)" by (rule added_append [OF r1(1) r2(2)])
  moreover have "list_all (\<lambda>r. \<exists>d q. r = IdxSeg (i + d) # q \<and> hole (JArr ys) (IdxSeg d # q)) (map ((#) (IdxSeg i)) rels1 @ rels2)"
    using h1 h2 by (simp add: list.pred_map comp_def)
  ultimately show ?case using r2(1) s(3) by auto
qed (auto simp: value_rels_def intro: added_none exI [of _ "[]"])

section \<open>Resolving rendered references\<close>

definition has_hole :: "jobj \<Rightarrow> string \<Rightarrow> bool" where
  "has_hole m p = (case parsePath p of Inl _ \<Rightarrow> False | Inr segs \<Rightarrow> hole (JObj m) segs)"

definition apart :: "Reference \<Rightarrow> Reference \<Rightarrow> bool" where
  "apart a b =
     (case (parsePath (ref_ToPath a), parsePath (ref_ToPath b)) of
        (Inr s, Inr t) \<Rightarrow> parallel s t
      | _ \<Rightarrow> False)"

lemma apart_facts:
  "\<not> apart a a" "apart a b \<Longrightarrow> apart b a" "apart a b \<Longrightarrow> independent_paths (ref_ToPath a) (ref_ToPath b)"
  by (auto simp: apart_def independent_paths_def parallel_commute split: sum.splits)

lemma has_hole_SetPath: "has_hole m p \<Longrightarrow> \<exists>m'. SetPath m p v = (m', None)"
  by (auto simp: has_hole_def intro: hole_SetPath split: sum.splits)

lemma has_hole_frame: "has_hole m q \<Longrightarrow> independent_paths p q \<Longrightarrow> has_hole (fst (SetPath m p v)) q"
proof (cases "parsePath p")
  case (Inl e)
  then show "has_hole m q \<Longrightarrow> ?thesis" by (simp add: SetPath_def)
qed (auto simp: has_hole_def independent_paths_def intro: hole_SetPath_frame split: sum.splits)

text \<open>What the reference engine writes for a reference whose source has the value \<open>v\<close>.\<close>

definition ref_value :: "Reference \<Rightarrow> json \<Rightarrow> json" where
  "ref_value ref v =
     (if ref_Template ref \<noteq> [] then JStr (expandTemplate (ref_Template ref) (RenderScalar v)) else v)"

text \<open>Every source exists and has the value \<open>val\<close> asks for.\<close>

definition sources_ready :: "env \<Rightarrow> string \<Rightarrow> Reference list \<Rightarrow> (Reference \<Rightarrow> json) \<Rightarrow> bool" where
  "sources_ready E ns refs val =
     (\<forall>ref \<in> set refs. \<exists>src. (\<forall>tr. get_resource E tr (reader E) ns (rs_Name (ref_From ref)) = Inr src) \<and>
        resolveFieldPath src (rs_FieldPath (ref_From ref)) = Inr (Some (val ref)))"

lemma resolve_refs_lands:
  assumes "sources_ready E ns refs val" "\<forall>ref \<in> set refs. has_hole props (ref_ToPath ref)" "sorted_wrt apart refs"
  shows "\<exists>props'. fst (run_state (resolve_refs E ctx ns refs i props waiting) s) = (props', Inr waiting) \<and>
           (\<forall>ref \<in> set refs. GetPathObj props' (ref_ToPath ref) = Some (ref_value ref (val ref))) \<and>
           (\<forall>q. (\<forall>ref \<in> set refs. independent_paths (ref_ToPath ref) q) \<longrightarrow> GetPathObj props' q = GetPathObj props q)"
  using assms
proof (induction refs arbitrary: i props s)
  case (Cons ref refs)
  obtain src where src: "\<forall>tr. get_resource E tr (reader E) ns (rs_Name (ref_From ref)) = Inr src"
    "resolveFieldPath src (rs_FieldPath (ref_From ref)) = Inr (Some (val ref))"
    using Cons.prems(1) by (auto simp: sources_ready_def)
  let ?v = "ref_value ref (val ref)"
  obtain props1 where p1: "SetPath props (ref_ToPath ref) ?v = (props1, None)"
    using has_hole_SetPath [of props "ref_ToPath ref" ?v] Cons.prems(2) by auto
  have ready: "sources_ready E ns refs val" using Cons.prems(1) by (simp add: sources_ready_def)
  have holes: "\<forall>r \<in> set refs. has_hole props1 (ref_ToPath r)"
    using has_hole_frame [of props _ "ref_ToPath ref" ?v] Cons.prems(2,3) p1 by (auto dest: apart_facts(3))
  have step: "fst (run_state (resolve_refs E ctx ns (ref # refs) i props waiting) s) =
     fst (run_state (resolve_refs E ctx ns refs (Suc i) props1 waiting)
       (snd (run_state (Get_resource E (reader E) ns (rs_Name (ref_From ref))) s)))"
    using src p1 by (simp add: Get_resource_def ref_value_def Let_def)
  obtain props' where p': "fst (run_state (resolve_refs E ctx ns (ref # refs) i props waiting) s) = (props', Inr waiting)"
    "\<forall>r \<in> set refs. GetPathObj props' (ref_ToPath r) = Some (ref_value r (val r))"
    "\<And>q. \<forall>r \<in> set refs. independent_paths (ref_ToPath r) q \<Longrightarrow> GetPathObj props' q = GetPathObj props1 q"
    using Cons.IH [OF ready holes] Cons.prems(3) unfolding step by auto blast
  have "GetPathObj props' (ref_ToPath ref) = Some ?v"
    using p'(3) [of "ref_ToPath ref"] Cons.prems(3) SetPath_read [OF p1] by (auto dest: apart_facts(2,3))
  moreover have "GetPathObj props' q = GetPathObj props q" if "\<forall>r \<in> set (ref # refs). independent_paths (ref_ToPath r) q" for q
    using p'(3) [of q] SetPath_frame [of "ref_ToPath ref" q props ?v] p1 that by simp
  ultimately show ?case using p'(1,2) by auto
qed simp

lemma sorted_wrt_distinct: "sorted_wrt R xs \<Longrightarrow> (\<And>x. \<not> R x x) \<Longrightarrow> distinct xs"
  by (induction xs) auto

lemma sorted_wrt_pairwise: "distinct xs \<Longrightarrow> (\<And>a b. a \<in> set xs \<Longrightarrow> b \<in> set xs \<Longrightarrow> a \<noteq> b \<Longrightarrow> R a b) \<Longrightarrow> sorted_wrt R xs"
  by (induction xs) auto

lemma sorted_wrt_symD: "sorted_wrt R xs \<Longrightarrow> (\<And>a b. R a b \<Longrightarrow> R b a) \<Longrightarrow> a \<in> set xs \<Longrightarrow> b \<in> set xs \<Longrightarrow> a \<noteq> b \<Longrightarrow> R a b"
  by (induction xs) auto

lemma apart_sort: "sorted_wrt apart refs \<Longrightarrow> sorted_wrt apart (sort_key k refs)"
proof (rule sorted_wrt_pairwise)
  assume s: "sorted_wrt apart refs"
  show "distinct (sort_key k refs)" using sorted_wrt_distinct [OF s apart_facts(1)] by simp
  show "apart a b" if "a \<in> set (sort_key k refs)" "b \<in> set (sort_key k refs)" "a \<noteq> b" for a b
    using sorted_wrt_symD [OF s apart_facts(2)] that by simp
qed

lemma lands_parsePath: "lands [] ref rel \<Longrightarrow> rel \<noteq> [] \<Longrightarrow> parsePath (ref_ToPath ref) = Inr rel"
  by (simp add: lands_def parsePath_def)

lemma added_apart:
  assumes "list_all2 (lands []) new rels" "sorted_wrt parallel rels" "list_all (hole (JObj m)) rels"
  shows "sorted_wrt apart new \<and> (\<forall>ref \<in> set new. has_hole m (ref_ToPath ref))"
  using assms
proof (induction new rels rule: list_all2_induct)
  case (Cons ref new rel rels)
  have rel: "rel \<noteq> []" using Cons.prems(2) hole_nonempty by auto
  have p: "parsePath (ref_ToPath ref) = Inr rel" using lands_parsePath [OF Cons.hyps(1) rel] .
  have "apart ref r" if "r \<in> set new" for r
  proof -
    obtain q where q: "q \<in> set rels" "lands [] r q" using list_all2_setD1 [OF Cons.hyps(2) \<open>r \<in> set new\<close>] by blast
    then have "q \<noteq> []" using Cons.prems(2) hole_nonempty by (auto simp: list_all_iff)
    with q p Cons.prems(1) lands_parsePath show ?thesis by (auto simp: apart_def)
  qed
  with Cons p show ?case by (auto simp: has_hole_def)
qed simp

lemma renderChild_refs:
  assumes "renderChild lib rc tpl = Inr child" "\<And>d. t_Properties tpl = Some d \<Longrightarrow> document d"
  shows "\<exists>props. spec_Properties (spec child) = Some (JObj props) \<and> sorted_wrt apart (spec_References (spec child)) \<and>
           (\<forall>ref \<in> set (spec_References (spec child)). has_hole props (ref_ToPath ref))"
proof -
  obtain props out refs where r: "decodeProperties (t_Properties tpl) = Inr props"
      "renderValue rc (JObj props) [] [] = Inr (Value (JObj out), refs)"
      "spec child = child_spec tpl out (sort_key ref_ToPath refs)"
    using assms(1) by (auto simp: renderChild_def Let_def split: sum.splits prod.splits rendered.splits json.splits if_splits)
  have "document (JObj props)"
    using r(1) assms(2) by (auto simp: decodeProperties_def decode_object_def split: option.splits json.splits)
  then obtain rels where "added [] [] refs rels" "value_rels (Value (JObj out)) rels"
    using render_holes(1) [OF r(2), of "[]"] by (auto simp: position_def parse_loop.simps [of "[]"])
  then have "sorted_wrt apart refs \<and> (\<forall>ref \<in> set refs. has_hole out (ref_ToPath ref))"
    by (intro added_apart [of _ rels]) (auto simp: added_def value_rels_def)
  then show ?thesis using r(3) by (simp add: child_spec_def apart_sort)
qed

section \<open>The children of a composite\<close>

definition names_map :: "render_lib \<Rightarrow> string \<Rightarrow> string list \<Rightarrow> string gomap \<Rightarrow> bool" where
  "names_map lib composite xs names =
     (\<forall>x. gomap_get names x = (if x \<in> set xs then Some (childResourceName lib composite x) else None))"

lemma child_names_ok:
  "child_names lib composite tpls names = Inr names' \<Longrightarrow> names_map lib composite xs names \<Longrightarrow>
   distinct xs \<Longrightarrow> distinct (xs @ map t_Name tpls) \<and> names_map lib composite (xs @ map t_Name tpls) names'"
proof (induction tpls arbitrary: names xs)
  case (Cons tpl tpls)
  let ?n = "t_Name tpl"
  have s: "gomap_get names ?n = None"
    "child_names lib composite tpls (gomap_put ?n (childResourceName lib composite ?n) names) = Inr names'"
    using Cons.prems(1) by (auto split: if_splits list.splits)
  have "?n \<notin> set xs" using s(1) Cons.prems(2) by (auto simp: names_map_def split: if_splits)
  then have "distinct (xs @ [?n])" "names_map lib composite (xs @ [?n]) (gomap_put ?n (childResourceName lib composite ?n) names)"
    using Cons.prems(2,3) by (auto simp: names_map_def gomap_simps)
  with Cons.IH [OF s(2)] show ?case by fastforce
qed simp

lemma renderChild_shape:
  assumes "renderChild lib rc tpl = Inr child"
  shows "om_Name (meta child) = om_Name (child_meta lib rc tpl) \<and> om_Namespace (meta child) = om_Namespace (child_meta lib rc tpl) \<and>
         om_Labels (meta child) = om_Labels (child_meta lib rc tpl) \<and> spec_Type (spec child) = t_Type tpl"
  using assms
  by (auto simp: renderChild_def Let_def child_spec_def split: sum.splits prod.splits rendered.splits json.splits if_splits)

lemma child_labels:
  "gomap_get (om_Labels (child_meta lib rc tpl)) labelCompositeItem = Some (t_Name tpl)"
  "gomap_get (om_Labels (child_meta lib rc tpl)) labelComposite =
     Some (compositeLabelValue lib (om_Name (comp_meta (rc_composite rc))))"
  by (simp_all add: child_meta_def gomap_simps labelCompositeItem_def labelComposite_def)

lemma render_children_rel:
  "render_children lib rc tpls = Inr children \<Longrightarrow> list_all2 (\<lambda>tpl child. renderChild lib rc tpl = Inr child) tpls children"
  by (induction tpls arbitrary: children) (auto split: sum.splits)

definition context_for :: "render_lib \<Rightarrow> DoComposite \<Rightarrow> DoCompositeDefinition \<Rightarrow> renderContext \<Rightarrow> bool" where
  "context_for lib cmp def rc =
     (rc_composite rc = cmp \<and> distinct (map t_Name (cds_Resources (def_spec def))) \<and>
      names_map lib (om_Name (comp_meta cmp)) (map t_Name (cds_Resources (def_spec def))) (rc_childName rc))"

lemma renderComposite_context:
  assumes "renderComposite lib cmp def = Inr children"
  shows "\<exists>rc. context_for lib cmp def rc \<and>
           list_all2 (\<lambda>tpl child. renderChild lib rc tpl = Inr child) (cds_Resources (def_spec def)) children"
proof -
  obtain params names where r: "child_names lib (om_Name (comp_meta cmp)) (cds_Resources (def_spec def)) [] = Inr names"
     "render_children lib \<lparr>rc_composite = cmp, rc_params = params, rc_childName = names\<rparr> (cds_Resources (def_spec def)) = Inr children"
    using assms by (auto simp: renderComposite_def split: sum.splits option.splits)
  from child_names_ok [OF r(1), of "[]"] render_children_rel [OF r(2)] show ?thesis
    by (intro exI [of _ "\<lparr>rc_composite = cmp, rc_params = params, rc_childName = names\<rparr>"])
       (simp add: context_for_def names_map_def)
qed

lemma child_name:
  assumes "context_for lib cmp def rc" "tpl \<in> set (cds_Resources (def_spec def))" "renderChild lib rc tpl = Inr child"
  shows "om_Name (meta child) = childResourceName lib (om_Name (comp_meta cmp)) (t_Name tpl)"
  using assms renderChild_shape [OF assms(3)] by (simp add: child_meta_def context_for_def names_map_def)

subsection \<open>References stay among the siblings\<close>

definition sibling_ref :: "renderContext \<Rightarrow> Reference \<Rightarrow> bool" where
  "sibling_ref rc ref = (\<exists>n. gomap_get (rc_childName rc) n = Some (rs_Name (ref_From ref)))"

lemma parseResourceExpr_known: "parseResourceExpr rc e = Inr (source, fp) \<Longrightarrow> gomap_get (rc_childName rc) source \<noteq> None"
  by (auto simp: parseResourceExpr_def Let_def split: if_splits)

lemma renderString_siblings:
  "renderString rc s path refs = Inr (rv, refs') \<Longrightarrow> list_all (sibling_ref rc) refs \<Longrightarrow> list_all (sibling_ref rc) refs'"
  by (auto simp: renderString_def Let_def sibling_ref_def dest!: parseResourceExpr_known
      split: option.splits prod.splits sum.splits loop_exit.splits if_splits)

lemma render_siblings:
  "renderValue rc v path refs = Inr (rv, refs') \<Longrightarrow> list_all (sibling_ref rc) refs \<Longrightarrow> list_all (sibling_ref rc) refs'"
  "render_entries rc m path refs = Inr (out, refs') \<Longrightarrow> list_all (sibling_ref rc) refs \<Longrightarrow> list_all (sibling_ref rc) refs'"
  "render_elems rc xs i path refs = Inr (ys, refs') \<Longrightarrow> list_all (sibling_ref rc) refs \<Longrightarrow> list_all (sibling_ref rc) refs'"
  by (induction rc v path refs and rc m path refs and rc xs i path refs arbitrary: rv refs' and out refs' and ys refs'
       rule: renderValue_render_entries_render_elems.induct)
     (auto dest: renderString_siblings split: sum.splits prod.splits)

lemma renderChild_siblings:
  "renderChild lib rc tpl = Inr child \<Longrightarrow> ref \<in> set (spec_References (spec child)) \<Longrightarrow> sibling_ref rc ref"
  by (auto simp: renderChild_def Let_def child_spec_def dest!: render_siblings(2) simp: list_all_iff
      split: sum.splits prod.splits rendered.splits json.splits if_splits)

lemma sibling_exists:
  assumes "context_for lib cmp def rc"
    "list_all2 (\<lambda>tpl child. renderChild lib rc tpl = Inr child) (cds_Resources (def_spec def)) children"
    "sibling_ref rc ref"
  shows "\<exists>sib \<in> set children. om_Name (meta sib) = rs_Name (ref_From ref)"
proof -
  obtain n where n: "gomap_get (rc_childName rc) n = Some (rs_Name (ref_From ref))" using assms(3) by (auto simp: sibling_ref_def)
  then have "n \<in> t_Name ` set (cds_Resources (def_spec def))"
    "rs_Name (ref_From ref) = childResourceName lib (om_Name (comp_meta cmp)) n"
    using assms(1) by (auto simp: context_for_def names_map_def split: if_splits)
  then obtain i where i: "i < length (cds_Resources (def_spec def))" "t_Name (cds_Resources (def_spec def) ! i) = n"
    "rs_Name (ref_From ref) = childResourceName lib (om_Name (comp_meta cmp)) n"
    by (auto simp: in_set_conv_nth)
  have c: "renderChild lib rc (cds_Resources (def_spec def) ! i) = Inr (children ! i)" "i < length children"
    using assms(2) i(1) by (auto simp: list_all2_conv_all_nth)
  show ?thesis
    using child_name [OF assms(1) _ c(1)] i c(2) by (intro bexI [of _ "children ! i"]) auto
qed

section \<open>Properties\<close>

definition demo_lib :: render_lib where
  "demo_lib =
     \<lparr>IsDNS1123Label = (\<lambda>s. if s = [] then [''empty''] else []), IsDNS1123Subdomain = (\<lambda>_. []),
      IsValidLabelValue = (\<lambda>_. []), Sha256Hex = (\<lambda>s. s), ConvertSchema = Inr,
      NewSchemaValidator = (\<lambda>_. Inr (\<lambda>_. [])), ToAggregate = (\<lambda>es. Errorf (Join es '', ''))\<rparr>"

definition demo_composite :: DoComposite where
  "demo_composite =
     \<lparr>comp_meta = blank_meta\<lparr>om_Name := ''web'', om_Namespace := ''team'', om_UID := ''u1''\<rparr>,
      comp_spec = \<lparr>comp_Definition = ''stack'', comp_Parameters = Some (JObj [(''size'', JNum ''2'')]),
                   comp_UpdatePolicy = UpdateAutomatic, comp_RevisionRef = None\<rparr>,
      comp_status = \<lparr>comps_Resources = [], comps_ReadyResources = [], comps_Outputs = None, comps_Revision = [],
                     comps_ObservedGeneration = 0, comps_Conditions = []\<rparr>\<rparr>"

definition demo_template :: "string \<Rightarrow> json option \<Rightarrow> CompositeResourceTemplate" where
  "demo_template name props =
     \<lparr>t_Name = name, t_Type = ''p:m:T'', t_Package = [], t_ProviderRef = None, t_DeletionPolicy = DeletionUnset,
      t_Properties = props, t_ExternalName = []\<rparr>"

definition demo_definition :: DoCompositeDefinition where
  "demo_definition =
     \<lparr>def_meta = blank_meta\<lparr>om_Name := ''stack''\<rparr>,
      def_spec = \<lparr>cds_Resources = [demo_template ''net'' None,
                    demo_template ''vm'' (Some (JObj [(''nets'', JArr [JStr ''id-${resources.net.id}'']),
                                                     (''size'', JStr ''${params.size}'')]))],
                  cds_Outputs = Some (JObj [(''net'', JStr ''${resources.net.id}'')]), cds_API = None\<rparr>,
      def_status = \<lparr>cdst_Composites = 0, cdst_APIVersions = [], cdst_Conditions = []\<rparr>\<rparr>"

definition demo_child :: "string \<Rightarrow> jobj \<Rightarrow> Reference list \<Rightarrow> DoResource" where
  "demo_child name props refs =
     \<lparr>meta = blank_meta\<lparr>om_Name := ''web-'' @ name, om_Namespace := ''team'',
        om_Labels := [(labelManagedByKey, ''doplane''), (labelComposite, ''web''), (labelCompositeItem, name)]\<rparr>,
      spec = child_spec (demo_template name None) props refs, status = fresh_status\<rparr>"

definition demo_ref :: Reference where
  "demo_ref = \<lparr>ref_ToPath = ''nets[0]'', ref_From = \<lparr>rs_Name = ''web-net'', rs_FieldPath = ''status.id''\<rparr>,
               ref_Template = ''id-${value}''\<rparr>"

definition demo_children :: "DoResource list" where
  "demo_children =
     [demo_child ''net'' [] [], demo_child ''vm'' [(''nets'', JArr [JStr []]), (''size'', JNum ''2'')] [demo_ref]]"

lemma demo_render: "renderComposite demo_lib demo_composite demo_definition = Inr demo_children"
  by code_simp




definition demo_env :: env where
  "demo_env = quiet_env\<lparr>get_resource := (\<lambda>_ _ _ _. Inr ((plain_resource ''web-net'')\<lparr>status := blank_status\<lparr>st_ID := ''n1''\<rparr>\<rparr>))\<rparr>"


end
