(* ===== verification/Composite_Text.thy ===== *)
theory Composite_Text
  imports Composite_Graph
begin

text \<open>
  What a template string of a composite means. The renderer works by global replacements
  through marker strings and leaves part of the work to the expansion of a reference template
  in the reference engine. Here the string is read once, as text, escapes and expressions
  (\<open>part\<close>), and the detour through markers, matches, template and expansion is shown to
  give exactly the interpolated text.
\<close>

section \<open>Templates as tokens\<close>

text \<open>The assembled text: characters, escaped openings and the place of the sibling's value.\<close>

datatype tok = Ch char | Esc | Val

fun tok_mark :: "tok \<Rightarrow> string" where
  "tok_mark (Ch c) = [c]"
| "tok_mark Esc = escMarker"
| "tok_mark Val = valueMarker"

fun tok_text :: "string \<Rightarrow> tok \<Rightarrow> string" where
  "tok_text v (Ch c) = [c]"
| "tok_text v Esc = ''${''"
| "tok_text v Val = v"

fun unescape :: "tok \<Rightarrow> tok list" where
  "unescape Esc = [Ch (CHR ''$''), Ch (CHR ''{'')]"
| "unescape t = [t]"

abbreviation marks :: "tok list \<Rightarrow> string" where "marks ts \<equiv> concat (map tok_mark ts)"
abbreviation texts :: "string \<Rightarrow> tok list \<Rightarrow> string" where "texts v ts \<equiv> concat (map (tok_text v) ts)"
abbreviation plain_toks :: "tok list \<Rightarrow> tok list" where "plain_toks ts \<equiv> concat (map unescape ts)"

definition no_nul :: "tok list \<Rightarrow> bool" where
  "no_nul ts = (Ch (CHR 0x00) \<notin> set ts)"

lemma texts_plain: "texts v (plain_toks ts) = texts v ts"
proof (induction ts)
  case (Cons t ts)
  then show ?case by (cases t) auto
qed simp

lemma marker_facts:
  "escMarker \<noteq> []" "hd escMarker = CHR 0x00" "valueMarker \<noteq> []" "hd valueMarker = CHR 0x00"
  "CHR ''$'' \<notin> set valueMarker" "CHR ''$'' \<notin> set escMarker" "CHR ''{'' \<notin> set escMarker"
  by (simp_all add: escMarker_def valueMarker_def)

text \<open>A value marker is not followed by text that would complete an escape marker.\<close>

fun quiet :: "tok list \<Rightarrow> bool" where
  "quiet [] = True"
| "quiet (Val # ts) = (\<not> HasPrefix (marks ts) ''DOPLANE_ESC'' \<and> quiet ts)"
| "quiet (t # ts) = quiet ts"

lemma HasPrefix_shorter: "HasPrefix s (p @ q) \<Longrightarrow> HasPrefix s p"
  by (auto simp: HasPrefix_iff)

lemma unescape_pass: "no_nul ts \<Longrightarrow> quiet ts \<Longrightarrow> replace_loop (marks ts) escMarker ''${'' = marks (plain_toks ts)"
proof (induction ts)
  case (Cons t ts)
  then have IH: "replace_loop (marks ts) escMarker ''${'' = marks (plain_toks ts)" by (cases t) (auto simp: no_nul_def)
  show ?case
  proof (cases t)
    case (Ch c)
    with Cons.prems have "c \<noteq> CHR 0x00" by (auto simp: no_nul_def)
    with Ch IH show ?thesis using replace_skip [of escMarker "[c]" "marks ts" "''${''"] marker_facts by simp
  next
    case Esc
    with IH show ?thesis using replace_hit [of escMarker "marks ts" "''${''"] marker_facts by simp
  next
    case Val
    have n: "\<not> HasPrefix (CHR 0x00 # marks ts) escMarker"
      using Cons.prems(2) Val HasPrefix_shorter [of "marks ts" "''DOPLANE_ESC''" "[CHR 0x00]"] by (auto simp: escMarker_def)
    have "replace_loop (''DOPLANE_VALUE'' @ CHR 0x00 # marks ts) escMarker ''${'' =
        ''DOPLANE_VALUE'' @ replace_loop (CHR 0x00 # marks ts) escMarker ''${''"
      by (rule replace_skip) (simp_all add: escMarker_def)
    with n IH Val show ?thesis by (simp add: valueMarker_def escMarker_def)
  qed
qed simp

section \<open>The template of a reference\<close>

function template_of :: "tok list \<Rightarrow> string" where
  "template_of [] = []"
| "template_of (t # ts) =
     (if HasPrefix (marks (t # ts)) ''${value}'' then ''$${value}'' @ template_of (drop 8 (t # ts))
      else case t of Ch c \<Rightarrow> c # template_of ts | Val \<Rightarrow> ''${value}'' @ template_of ts | Esc \<Rightarrow> template_of ts)"
  by pat_completeness auto
termination
  by (relation "measure length") auto

declare template_of.simps(2) [simp del]

definition unescaped :: "tok list \<Rightarrow> bool" where
  "unescaped ts = (Esc \<notin> set ts \<and> no_nul ts)"

lemma marks_prefix:
  "no_nul ts \<Longrightarrow> CHR 0x00 \<notin> set w \<Longrightarrow> HasPrefix (marks ts) w \<Longrightarrow>
   take (length w) ts = map Ch w \<and> marks ts = w @ marks (drop (length w) ts)"
proof (induction w arbitrary: ts)
  case (Cons c w)
  then obtain t ts' where ts: "ts = t # ts'" by (cases ts) auto
  have "t = Ch c" using Cons.prems ts marker_facts by (cases t) (auto simp: valueMarker_def escMarker_def)
  with Cons ts show ?case by (auto simp: no_nul_def)
qed simp

lemma place_prefix:
  assumes "unescaped ts" "HasPrefix (marks ts) ''${value}''"
  shows "take 8 ts = map Ch ''${value}''" "marks ts = ''${value}'' @ marks (drop 8 ts)"
proof -
  have len: "length ''${value}'' = 8" and nul: "CHR 0x00 \<notin> set ''${value}''" by simp_all
  note * = marks_prefix [OF _ nul assms(2), unfolded len]
  show "take 8 ts = map Ch ''${value}''" using * assms(1) by (simp only: unescaped_def)
  show "marks ts = ''${value}'' @ marks (drop 8 ts)" using * assms(1) by (simp only: unescaped_def)
qed

lemma template_passes:
  "unescaped ts \<Longrightarrow>
   replace_loop (replace_loop (marks ts) ''${value}'' ''$${value}'') valueMarker ''${value}'' = template_of ts"
proof (induction ts rule: template_of.induct)
  case (2 t ts)
  have skip: "replace_loop (a @ x) valueMarker ''${value}'' = a @ replace_loop x valueMarker ''${value}''"
    if "CHR 0x00 \<notin> set a" for a x
    using replace_skip [of valueMarker a x "''${value}''"] marker_facts that by auto
  show ?case
  proof (cases "HasPrefix (marks (t # ts)) ''${value}''")
    case True
    then have m: "marks (t # ts) = ''${value}'' @ marks (drop 8 (t # ts))"
      by (rule place_prefix(2) [OF 2(5)])
    have u: "unescaped (drop 8 (t # ts))" using 2(5) by (auto simp: unescaped_def no_nul_def dest: in_set_dropD)
    have "replace_loop (marks (t # ts)) ''${value}'' ''$${value}'' =
        ''$${value}'' @ replace_loop (marks (drop 8 (t # ts))) ''${value}'' ''$${value}''"
      unfolding m by (rule replace_hit) simp
    moreover have "template_of (t # ts) = ''$${value}'' @ template_of (drop 8 (t # ts))"
      by (simp only: template_of.simps(2) True if_True)
    moreover have nul: "CHR 0x00 \<notin> set ''$${value}''" by simp
    ultimately show ?thesis by (simp only: skip [OF nul] 2(1) [OF True u])
  next
    case False
    have u: "unescaped ts" using 2(5) by (auto simp: unescaped_def no_nul_def)
    show ?thesis
    proof (cases t)
      case (Ch c)
      with 2(5) have c: "c \<noteq> CHR 0x00" by (auto simp: unescaped_def no_nul_def)
      have "replace_loop (c # marks ts) ''${value}'' ''$${value}'' = c # replace_loop (marks ts) ''${value}'' ''$${value}''"
        using False Ch by auto
      with 2(2) [OF False Ch u] False Ch skip [of "[c]"] c show ?thesis by (auto simp: template_of.simps(2) simp del: replace_loop.simps)
    next
      case Val
      have "replace_loop (valueMarker @ marks ts) ''${value}'' ''$${value}'' = valueMarker @ replace_loop (marks ts) ''${value}'' ''$${value}''"
        by (rule replace_skip) (use marker_facts in auto)
      with 2(4) [OF False Val u] False Val replace_hit [of valueMarker] marker_facts show ?thesis
        by (simp add: template_of.simps(2) del: replace_loop.simps)
    qed (use 2(5) in \<open>simp add: unescaped_def\<close>)
  qed
qed simp

text \<open>The value of a sibling never directly follows a dollar sign.\<close>

fun no_dollar_value :: "tok list \<Rightarrow> bool" where
  "no_dollar_value (Ch c # Val # ts) = (c \<noteq> CHR ''$'' \<and> no_dollar_value (Val # ts))"
| "no_dollar_value (t # ts) = no_dollar_value ts"
| "no_dollar_value [] = True"

lemma no_dollar_value_tl: "no_dollar_value (t # ts) \<Longrightarrow> no_dollar_value ts"
  by (cases "t # ts" rule: no_dollar_value.cases) auto

lemma template_prefix:
  "unescaped ts \<Longrightarrow> CHR ''$'' \<notin> set w \<Longrightarrow> HasPrefix (template_of ts) w \<Longrightarrow> HasPrefix (marks ts) w"
proof (induction w arbitrary: ts)
  case (Cons c w)
  then obtain t ts' where ts: "ts = t # ts'" by (cases ts) auto
  have "t = Ch c \<and> HasPrefix (template_of ts') w"
    using Cons.prems ts by (cases t) (auto simp: unescaped_def template_of.simps(2) split: if_splits)
  with Cons ts show ?case by (auto simp: unescaped_def no_nul_def)
qed simp

lemma dollar_value_prefix:
  assumes "unescaped ts" "no_dollar_value (Ch (CHR ''$'') # ts)" "HasPrefix (template_of ts) ''${value}''"
  shows False
proof (cases ts)
  case (Cons t us)
  then have lit: "\<not> HasPrefix (marks ts) ''${value}''" using assms(3) by (auto simp: template_of.simps(2))
  have "t \<noteq> Val" using assms(2) Cons by auto
  with lit assms(1,3) Cons have "t = Ch (CHR ''$'')" "HasPrefix (template_of us) ''{value}''"
    by (cases t; auto simp: template_of.simps(2) unescaped_def)+
  moreover have "unescaped us" using assms(1) Cons by (auto simp: unescaped_def no_nul_def)
  ultimately have "HasPrefix (marks us) ''{value}''" using template_prefix [of us "''{value}''"] by simp
  with lit Cons \<open>t = _\<close> show False by simp
qed (use assms(3) in simp)

lemma expand_template:
  "unescaped ts \<Longrightarrow> no_dollar_value ts \<Longrightarrow> expand (template_of ts) v = texts v ts"
proof (induction ts rule: template_of.induct)
  case (2 t ts)
  show ?case
  proof (cases "HasPrefix (marks (t # ts)) ''${value}''")
    case True
    have tk: "take 8 (t # ts) = map Ch ''${value}''" by (rule place_prefix(1) [OF 2(5) True])
    have u: "unescaped (drop 8 (t # ts))" using 2(5) by (auto simp: unescaped_def no_nul_def dest: in_set_dropD)
    have split: "t # ts = map Ch ''${value}'' @ drop 8 (t # ts)" using append_take_drop_id [of 8 "t # ts"] unfolding tk by (rule sym)
    have nd: "no_dollar_value (drop 8 (t # ts))" using 2(6) by (subst (asm) split) (auto dest: no_dollar_value_tl)
    have "expand (template_of (t # ts)) v = ''${value}'' @ expand (template_of (drop 8 (t # ts))) v"
      using True by (simp add: template_of.simps(2))
    also have "\<dots> = texts v (map Ch ''${value}'' @ drop 8 (t # ts))" using 2(1) [OF True u nd] by simp
    finally show ?thesis unfolding split [symmetric] .
  next
    case False
    have u: "unescaped ts" using 2(5) by (auto simp: unescaped_def no_nul_def)
    have nd: "no_dollar_value ts" using 2(6) by (rule no_dollar_value_tl)
    show ?thesis
    proof (cases t)
      case (Ch c)
      have "\<not> HasPrefix (c # template_of ts) ''$${value}''" using dollar_value_prefix [OF u] 2(6) Ch by auto
      moreover have "\<not> HasPrefix (c # template_of ts) ''${value}''"
        using template_prefix [OF u, of "''{value}''"] False Ch by auto
      moreover have "template_of (t # ts) = c # template_of ts" using False Ch by (auto simp: template_of.simps(2))
      ultimately have "expand (template_of (t # ts)) v = c # expand (template_of ts) v" by auto
      with 2(2) [OF False Ch u nd] Ch show ?thesis by simp
    next
      case Val
      have "template_of (t # ts) = ''${value}'' @ template_of ts" using False Val by (simp add: template_of.simps(2))
      then have "expand (template_of (t # ts)) v = v @ expand (template_of ts) v" by simp
      with 2(4) [OF False Val u nd] Val show ?thesis by simp
    qed (use 2(5) in \<open>simp add: unescaped_def\<close>)
  qed
qed simp

lemma template_no_nul: "unescaped ts \<Longrightarrow> CHR 0x00 \<notin> set (template_of ts)"
proof (induction ts rule: template_of.induct)
  case (2 t ts)
  have u: "unescaped ts" "unescaped (drop 8 (t # ts))" "t \<noteq> Ch (CHR 0x00)"
    using 2(5) by (auto simp: unescaped_def no_nul_def dest: in_set_dropD)
  show ?case
  proof (cases "HasPrefix (marks (t # ts)) ''${value}''")
    case True
    with 2(1) [OF True u(2)] show ?thesis by (simp add: template_of.simps(2))
  next
    case False
    with 2(2) [OF False _ u(1)] 2(4) [OF False _ u(1)] u(3) 2(5) show ?thesis
      by (cases t) (auto simp: template_of.simps(2) unescaped_def)
  qed
qed simp

section \<open>What a template string says\<close>

text \<open>
  A template string read the way the documentation describes it: text, the escape
  \<open>$${\<close> and expressions.
\<close>

datatype part = Text char | Escape | Expr string

fun print_part :: "part \<Rightarrow> string" where
  "print_part (Text c) = [c]"
| "print_part Escape = ''$${''"
| "print_part (Expr e) = ''${'' @ e @ ''}''"

fun escaped_part :: "part \<Rightarrow> string" where
  "escaped_part Escape = escMarker"
| "escaped_part p = print_part p"

abbreviation print_parts :: "part list \<Rightarrow> string" where "print_parts ps \<equiv> concat (map print_part ps)"
abbreviation escaped_parts :: "part list \<Rightarrow> string" where "escaped_parts ps \<equiv> concat (map escaped_part ps)"

text \<open>A dollar sign of the text does not join up with what follows it.\<close>

fun wf_parts :: "part list \<Rightarrow> bool" where
  "wf_parts [] = True"
| "wf_parts (Text c # ps) =
     (c \<noteq> CHR 0x00 \<and> wf_parts ps \<and>
      (c = CHR ''$'' \<longrightarrow> (case ps of Text d # _ \<Rightarrow> d \<noteq> CHR ''{'' | Expr _ # _ \<Rightarrow> False | _ \<Rightarrow> True)))"
| "wf_parts (Escape # ps) = wf_parts ps"
| "wf_parts (Expr e # ps) = (CHR ''}'' \<notin> set e \<and> CHR ''$'' \<notin> set e \<and> wf_parts ps)"

lemma wf_parts_tl: "wf_parts (p # ps) \<Longrightarrow> wf_parts ps"
  by (cases p) auto

lemma brace_prefix: "wf_parts ps \<Longrightarrow> HasPrefix (print_parts ps) ''{'' \<Longrightarrow> \<exists>qs. ps = Text (CHR ''{'') # qs"
  by (cases ps rule: wf_parts.cases) auto

lemma escape_pass: "wf_parts ps \<Longrightarrow> replace_loop (print_parts ps) ''$${'' escMarker = escaped_parts ps"
proof (induction ps rule: wf_parts.induct)
  case (2 c ps)
  have "\<not> HasPrefix (c # print_parts ps) ''$${''"
  proof
    assume "HasPrefix (c # print_parts ps) ''$${''"
    then have c: "c = CHR ''$''" "HasPrefix (print_parts ps) ''${''" by auto
    with 2(2) obtain qs where qs: "ps = Text (CHR ''$'') # qs" "HasPrefix (print_parts qs) ''{''"
      by (cases ps rule: wf_parts.cases) auto
    moreover have "wf_parts qs" using 2(2) qs(1) by (auto dest: wf_parts_tl)
    ultimately show False using brace_prefix [of qs] 2(2) by auto
  qed
  then have "replace_loop (c # print_parts ps) ''$${'' escMarker = c # replace_loop (print_parts ps) ''$${'' escMarker" by auto
  with 2 show ?case by (simp del: replace_loop.simps)
next
  case (3 ps)
  then show ?case using replace_hit [of "''$${''" "print_parts ps" escMarker] by (simp del: replace_loop.simps)
next
  case (4 e ps)
  have "replace_loop ((''{'' @ e @ ''}'') @ print_parts ps) ''$${'' escMarker =
      (''{'' @ e @ ''}'') @ replace_loop (print_parts ps) ''$${'' escMarker"
    by (rule replace_skip) (use 4(2) in auto)
  then have "replace_loop (''${'' @ e @ ''}'' @ print_parts ps) ''$${'' escMarker = ''${'' @ e @ ''}'' @ escaped_parts ps"
    using 4 by simp
  then show ?case by (simp del: replace_loop.simps)
qed simp

text \<open>The matches of the expression pattern, with the text before each.\<close>

fun pieces :: "string \<Rightarrow> part list \<Rightarrow> (string \<times> string) list \<times> string" where
  "pieces acc [] = ([], acc)"
| "pieces acc (Expr e # ps) = (case pieces [] ps of (ms, tailText) \<Rightarrow> ((acc, e) # ms, tailText))"
| "pieces acc (p # ps) = pieces (acc @ escaped_part p) ps"

lemma IndexOf_first: "\<not> Contains a ''${'' \<Longrightarrow> IndexOf (a @ ''${'' @ x) ''${'' = Some (length a)"
proof (induction a)
  case (Cons c a)
  have "\<not> HasPrefix (c # a @ ''${'' @ x) ''${''" using Cons.prems by (cases a) auto
  with Cons show ?case by simp
qed simp

lemma Contains_open_append:
  "\<not> Contains a ''${'' \<Longrightarrow> \<not> Contains b ''${'' \<Longrightarrow> (a \<noteq> [] \<Longrightarrow> last a = CHR ''$'' \<Longrightarrow> \<not> HasPrefix b ''{'') \<Longrightarrow>
   \<not> Contains (a @ b) ''${''"
proof (induction a)
  case (Cons c a)
  then show ?case by (cases a) (auto split: if_splits)
qed simp

definition joint :: "string \<Rightarrow> part list \<Rightarrow> bool" where
  "joint acc ps = (\<not> Contains acc ''${'' \<and> (acc \<noteq> [] \<longrightarrow> last acc = CHR ''$'' \<longrightarrow> (\<forall>qs. ps \<noteq> Text (CHR ''{'') # qs)))"

lemma joint_text: "wf_parts (Text c # ps) \<Longrightarrow> joint acc (Text c # ps) \<Longrightarrow> joint (acc @ [c]) ps"
  using Contains_open_append [of acc "[c]"] by (auto simp: joint_def split: list.splits part.splits)

lemma joint_escape: "joint acc (Escape # ps) \<Longrightarrow> joint (acc @ escMarker) ps"
proof -
  have "\<not> Contains escMarker ''${''" "last escMarker \<noteq> CHR ''$''" "\<not> HasPrefix escMarker ''{''" by (simp_all add: escMarker_def)
  then show "joint acc (Escape # ps) \<Longrightarrow> joint (acc @ escMarker) ps"
    using Contains_open_append [of acc escMarker] marker_facts by (auto simp: joint_def)
qed

lemma exprRe_matches_pieces: "wf_parts ps \<Longrightarrow> joint acc ps \<Longrightarrow> exprRe_matches (acc @ escaped_parts ps) = pieces acc ps"
proof (induction acc ps rule: pieces.induct)
  case (1 acc)
  then show ?case by (simp add: exprRe_matches.simps [of acc] joint_def IndexOf_None [symmetric])
next
  case (2 acc e ps)
  define s where "s = acc @ ''${'' @ e @ CHR ''}'' # escaped_parts ps"
  have i: "IndexOf s ''${'' = Some (length acc)" using 2(3) IndexOf_first [of acc] by (simp add: joint_def s_def)
  have cut: "Cut (drop (Suc (Suc (length acc))) s) (CHR ''}'') = (e, escaped_parts ps, True)"
    using Cut_sep [of "CHR ''}''" e "escaped_parts ps"] 2(2) by (simp add: s_def)
  have tk: "take (length acc) s = acc" by (simp add: s_def)
  have "exprRe_matches (escaped_parts ps) = pieces [] ps" using 2(1) 2(2) by (simp add: joint_def)
  then have "exprRe_matches s = pieces acc (Expr e # ps)"
    by (subst exprRe_matches.simps) (simp add: i cut tk split: prod.split)
  then show ?case by (simp add: s_def)
qed (simp_all add: joint_text joint_escape wf_parts_tl)

lemma pieces_end: "wf_parts ps \<Longrightarrow> joint acc ps \<Longrightarrow> \<not> Contains (snd (pieces acc ps)) ''${''"
  by (induction acc ps rule: pieces.induct)
     (auto simp: joint_text joint_escape joint_def [of "[]"] wf_parts_tl split: prod.splits, simp add: joint_def)

section \<open>Unterminated expressions\<close>

lemma find_skip: "find P xs = None \<Longrightarrow> find P (xs @ ys) = find P ys"
  by (induction xs) (auto split: if_splits)

lemma unterminated_None:
  "exprRe_matches body = (ms, tailText) \<Longrightarrow> \<not> Contains tailText ''${'' \<Longrightarrow> \<forall>span \<in> set S0. snd span \<le> length pre \<Longrightarrow>
   unterminated (pre @ body) (S0 @ match_spans (length pre) ms) (length pre) = None"
proof (induction body arbitrary: ms pre S0 rule: exprRe_matches.induct)
  case (1 s)
  show ?case
  proof (cases "IndexOf s ''${''")
    case None
    then show ?thesis by (subst unterminated.simps) simp
  next
    case (Some i)
    obtain inner rest found where cut: "Cut (drop (i + 2) s) (CHR ''}'') = (inner, rest, found)" by (metis prod_cases3)
    have found: found
    proof (rule ccontr)
      assume "\<not> found"
      then have "tailText = s" using 1(2) Some cut by (simp add: exprRe_matches.simps [of s])
      with 1(3) Some show False using IndexOf_None [of s "''${''"] by simp
    qed
    obtain ms' where ms: "exprRe_matches rest = (ms', tailText)" "ms = (take i s, inner) # ms'"
      using 1(2) Some cut found by (auto simp: exprRe_matches.simps [of s] split: prod.splits)
    have d: "drop (i + 2) s = inner @ CHR ''}'' # rest" using Cut_found cut found by simp
    have p: "HasPrefix (drop i s) ''${''" using IndexOf_Some [OF Some] .
    then have i: "i + 2 \<le> length s" by (cases "drop i s") (auto dest: arg_cong [of _ _ length] simp: HasPrefix_iff)
    have "drop i s = ''${'' @ drop (i + 2) s" using HasPrefix_drop [OF p] by (simp add: add.commute)
    then have s: "s = take i s @ ''${'' @ inner @ CHR ''}'' # rest" using d append_take_drop_id [of i s] by metis
    let ?pre = "pre @ take i s @ ''${'' @ inner @ ''}''"
    let ?span = "(length pre + i, length pre + i + length inner + 3)"
    have lt: "length (take i s) = i" using i by simp
    have len: "length ?pre = length pre + i + length inner + 3" using i by simp
    have spans: "S0 @ match_spans (length pre) ms = (S0 @ [?span]) @ match_spans (length ?pre) ms'"
      unfolding len by (simp only: ms(2) match_spans.simps fst_conv snd_conv lt append_assoc append_Cons append_Nil)
    have body: "pre @ s = ?pre @ rest" using s by simp
    have find: "find (\<lambda>span. fst span \<le> i + length pre \<and> i + length pre < snd span) (S0 @ match_spans (length pre) ms) = Some ?span"
    proof -
      have "find (\<lambda>span. fst span \<le> i + length pre \<and> i + length pre < snd span) S0 = None"
        using 1(4) by (force simp: find_None_iff)
      then show ?thesis unfolding spans by (simp add: find_skip)
    qed
    have "unterminated (pre @ s) (S0 @ match_spans (length pre) ms) (length pre) =
        unterminated (pre @ s) (S0 @ match_spans (length pre) ms) (length ?pre)"
      unfolding len using find Some by (subst unterminated.simps) (simp add: Let_def)
    also have "\<dots> = None"
      unfolding body spans
      by (rule 1(1) [OF Some cut [symmetric] refl _ ms(1) 1(3)]) (use found 1(4) len in auto)
    finally show ?thesis .
  qed
qed

lemma checkUnterminated_None:
  "\<not> Contains (snd (exprRe_matches escaped)) ''${'' \<Longrightarrow> checkUnterminated escaped path = None"
  using unterminated_None [of escaped "fst (exprRe_matches escaped)" "snd (exprRe_matches escaped)" "[]" "[]"]
  by (simp add: checkUnterminated_def)

section \<open>What a template string means\<close>

text \<open>The value of one expression, given the text \<open>v\<close> of the sibling's value.\<close>

definition plain_expr :: "renderContext \<Rightarrow> string \<Rightarrow> string option" where
  "plain_expr rc expr =
     (if HasPrefix expr ''params.'' \<or> expr = ''params''
      then map_option RenderScalar (GetPath (JObj [(''params'', JObj (rc_params rc))]) expr)
      else if expr = ''self.name'' then Some (om_Name (comp_meta (rc_composite rc)))
      else if expr = ''self.namespace'' then Some (om_Namespace (comp_meta (rc_composite rc)))
      else None)"

definition is_resource :: "string \<Rightarrow> bool" where
  "is_resource expr = HasPrefix expr ''resources.''"

fun part_toks :: "renderContext \<Rightarrow> part \<Rightarrow> tok list option" where
  "part_toks rc (Text c) = Some [Ch c]"
| "part_toks rc Escape = Some [Esc]"
| "part_toks rc (Expr e) =
     (if is_resource (TrimSpace e) then Some [Val] else map_option (map Ch) (plain_expr rc (TrimSpace e)))"

fun part_text :: "renderContext \<Rightarrow> string \<Rightarrow> part \<Rightarrow> string option" where
  "part_text rc v (Text c) = Some [c]"
| "part_text rc v Escape = Some ''${''"
| "part_text rc v (Expr e) = (if is_resource (TrimSpace e) then Some v else plain_expr rc (TrimSpace e))"

definition interpolate :: "renderContext \<Rightarrow> string \<Rightarrow> part list \<Rightarrow> string option" where
  "interpolate rc v ps = map_option concat (those (map (part_text rc v) ps))"

lemma part_text_toks: "part_text rc v p = map_option (texts v) (part_toks rc p)"
proof (cases p)
  case (Expr e)
  have "texts v (map Ch t) = t" for t by (induction t) auto
  with Expr show ?thesis by (cases "plain_expr rc (TrimSpace e)") auto
qed auto

lemma interpolate_toks:
  "interpolate rc v ps = Some out \<Longrightarrow> \<exists>tss. those (map (part_toks rc) ps) = Some tss \<and> out = texts v (concat tss)"
proof (induction ps arbitrary: out)
  case (Cons p ps)
  then obtain t u where tu: "part_text rc v p = Some t" "interpolate rc v ps = Some u" "out = t @ u"
    by (auto simp: interpolate_def split: option.splits)
  then obtain ts tss where "part_toks rc p = Some ts" "t = texts v ts" "those (map (part_toks rc) ps) = Some tss" "u = texts v (concat tss)"
    using Cons.IH [OF tu(2)] by (auto simp: part_text_toks)
  with tu(3) show ?case by auto
qed (simp add: interpolate_def)

definition has_resource :: "part list \<Rightarrow> bool" where
  "has_resource ps = list_ex (\<lambda>p. case p of Expr e \<Rightarrow> is_resource (TrimSpace e) | _ \<Rightarrow> False) ps"

text \<open>Every sibling expression of the string is \<open>r\<close>.\<close>

definition one_source :: "string \<Rightarrow> part list \<Rightarrow> bool" where
  "one_source r ps = list_all (\<lambda>p. case p of Expr e \<Rightarrow> is_resource (TrimSpace e) \<longrightarrow> TrimSpace e = r | _ \<Rightarrow> True) ps"

lemma marks_Ch: "concat (map (tok_mark \<circ> Ch) t) = t"
  by (induction t) auto

lemma resource_not_plain:
  "is_resource x \<Longrightarrow> \<not> HasPrefix x ''params.'' \<and> x \<noteq> ''params'' \<and> x \<noteq> ''self.name'' \<and> x \<noteq> ''self.namespace'' \<and> x \<noteq> []"
  by (cases x) (auto simp: is_resource_def)

lemma render_matches_pieces:
  assumes "those (map (part_toks rc) ps) = Some tss" "one_source r ps" "r0 = [] \<or> r0 = r"
  shows "\<exists>b'. render_matches rc path False (fst (pieces acc ps)) b r0 = Inr (Assembled b' (if has_resource ps then r else r0)) \<and>
           b' @ snd (pieces acc ps) = b @ acc @ marks (concat tss)"
  using assms
proof (induction acc ps arbitrary: tss b r0 rule: pieces.induct)
  case (2 acc e ps)
  let ?x = "TrimSpace e"
  obtain ts tss' where t: "part_toks rc (Expr e) = Some ts" "those (map (part_toks rc) ps) = Some tss'" "tss = ts # tss'"
    using 2(2) by (auto split: option.splits)
  have os: "one_source r ps" using 2(3) by (simp add: one_source_def)
  show ?case
  proof (cases "is_resource ?x")
    case True
    then have x: "?x = r" using 2(3) by (simp add: one_source_def)
    have step: "render_matches rc path False (fst (pieces acc (Expr e # ps))) b r0 =
        render_matches rc path False (fst (pieces [] ps)) (b @ acc @ valueMarker) r"
      using resource_not_plain [OF True] True 2(4) x by (auto simp: Let_def is_resource_def split: prod.split)
    have "ts = [Val]" using t(1) True by simp
    then show ?thesis
      using 2(1) [OF t(2) os, of r "b @ acc @ valueMarker"] True t(3) unfolding step
      by (auto simp: has_resource_def split: prod.split)
  next
    case False
    then obtain u where u: "plain_expr rc ?x = Some u" "ts = map Ch u" using t(1) by auto
    have step: "render_matches rc path False (fst (pieces acc (Expr e # ps))) b r0 =
        render_matches rc path False (fst (pieces [] ps)) (b @ acc @ u) r0"
      using u(1) by (auto simp: plain_expr_def Let_def split: prod.split if_splits)
    show ?thesis
      using 2(1) [OF t(2) os 2(4), of "b @ acc @ u"] False t(3) u(2) unfolding step
      by (auto simp: has_resource_def marks_Ch split: prod.split)
  qed
qed (auto simp: one_source_def has_resource_def split: option.splits)

lemma pieces_nonempty: "fst (pieces acc ps) = [] \<Longrightarrow> snd (pieces acc ps) = [] \<Longrightarrow> acc = [] \<and> ps = []"
  by (induction acc ps rule: pieces.induct) (auto simp: marker_facts split: prod.splits)

lemma pieces_first: "fst (pieces acc ps) = m # ms \<Longrightarrow> \<exists>t. fst m = acc @ t"
  by (induction acc ps rule: pieces.induct) (auto split: prod.splits)

lemma pieces_whole:
  assumes "fst (pieces [] ps) = [([], e)]" "snd (pieces [] ps) = []"
  shows "ps = [Expr e]"
proof (cases "([] :: string, ps)" rule: pieces.cases)
  case (2 acc e' ps')
  then have "e' = e" "fst (pieces [] ps') = []" "snd (pieces [] ps') = []" using assms by (auto split: prod.splits)
  then show ?thesis using 2 pieces_nonempty [of "[]" ps'] by simp
qed (use assms pieces_first in \<open>fastforce simp: marker_facts\<close>)+

lemma pieces_none: "fst (pieces acc ps) = [] \<Longrightarrow> snd (pieces acc ps) = acc @ escaped_parts ps \<and> \<not> has_resource ps"
  by (induction acc ps rule: pieces.induct) (auto simp: has_resource_def split: prod.splits)

section \<open>The conditions on the tokens\<close>

text \<open>
  No text an expression stands for holds a NUL byte or ends in a dollar sign, which would
  turn a following placeholder into an escape.
\<close>

definition clean_texts :: "renderContext \<Rightarrow> part list \<Rightarrow> bool" where
  "clean_texts rc ps =
     list_all (\<lambda>p. case p of
         Expr e \<Rightarrow> (case plain_expr rc (TrimSpace e) of
                      None \<Rightarrow> True
                    | Some u \<Rightarrow> CHR 0x00 \<notin> set u \<and> (u \<noteq> [] \<longrightarrow> last u \<noteq> CHR ''$''))
       | _ \<Rightarrow> True) ps"

lemma those_Cons: "those (map f (p # ps)) = Some tss \<Longrightarrow> \<exists>ts tss'. f p = Some ts \<and> those (map f ps) = Some tss' \<and> tss = ts # tss'"
  by (auto split: option.splits)

lemma toks_no_nul: "those (map (part_toks rc) ps) = Some tss \<Longrightarrow> wf_parts ps \<Longrightarrow> clean_texts rc ps \<Longrightarrow> no_nul (concat tss)"
proof (induction ps arbitrary: tss)
  case (Cons p ps)
  obtain ts tss' where t: "part_toks rc p = Some ts" "those (map (part_toks rc) ps) = Some tss'" "tss = ts # tss'"
    using those_Cons [OF Cons.prems(1)] by blast
  have "no_nul (concat tss')" by (rule Cons.IH [OF t(2)]) (use Cons.prems wf_parts_tl in \<open>auto simp: clean_texts_def\<close>)
  moreover have "no_nul ts" using t(1) Cons.prems(2,3) by (cases p) (auto simp: no_nul_def clean_texts_def split: if_splits)
  ultimately show ?case using t(3) by (simp add: no_nul_def)
qed (simp add: no_nul_def)

lemma texts_prefix: "take (length w) ts = map Ch w \<Longrightarrow> HasPrefix (texts v ts) w"
proof (induction w arbitrary: ts)
  case (Cons c w)
  then show ?case by (cases ts) auto
qed simp

lemma HasPrefix_Contains: "HasPrefix s w \<Longrightarrow> Contains (a @ s) w"
  by (auto simp: HasPrefix_iff Contains_iff)

lemma Contains_append: "Contains s w \<Longrightarrow> Contains (a @ s) w"
  by (auto simp: Contains_sublist sublist_append)

lemma toks_quiet: "no_nul ts \<Longrightarrow> \<not> Contains (texts v ts) ''DOPLANE_ESC'' \<Longrightarrow> quiet ts"
proof (induction ts)
  case (Cons t ts)
  have n: "no_nul ts" using Cons.prems(1) by (simp add: no_nul_def)
  have c: "\<not> Contains (texts v ts) ''DOPLANE_ESC''"
    using Cons.prems(2) Contains_append [of "texts v ts" _ "tok_text v t"] by auto
  have "\<not> HasPrefix (marks ts) ''DOPLANE_ESC''"
  proof
    assume h: "HasPrefix (marks ts) ''DOPLANE_ESC''"
    have nul: "CHR 0x00 \<notin> set ''DOPLANE_ESC''" by simp
    have "HasPrefix (texts v ts) ''DOPLANE_ESC''" by (rule texts_prefix [OF conjunct1 [OF marks_prefix [OF n nul h]]])
    with c HasPrefix_Contains [of "texts v ts" _ "[]"] show False by simp
  qed
  with Cons.IH [OF n c] show ?case by (cases t) auto
qed simp

lemma plain_toks_unescaped: "no_nul ts \<Longrightarrow> unescaped (plain_toks ts)"
proof (induction ts)
  case (Cons t ts)
  then show ?case by (cases t) (auto simp: unescaped_def no_nul_def)
qed (simp add: unescaped_def no_nul_def)

lemma no_dollar_value_Cons:
  "no_dollar_value (t # ts) \<longleftrightarrow> \<not> (t = Ch (CHR ''$'') \<and> ts \<noteq> [] \<and> hd ts = Val) \<and> no_dollar_value ts"
  by (cases "t # ts" rule: no_dollar_value.cases) auto

lemma no_dollar_value_append:
  "no_dollar_value a \<Longrightarrow> no_dollar_value b \<Longrightarrow> (a \<noteq> [] \<Longrightarrow> last a = Ch (CHR ''$'') \<Longrightarrow> b = [] \<or> hd b \<noteq> Val) \<Longrightarrow>
   no_dollar_value (a @ b)"
proof (induction a)
  case (Cons t a)
  then show ?case by (cases a) (auto simp: no_dollar_value_Cons)
qed simp

lemma Ch_no_value: "no_dollar_value (map Ch u)"
  by (induction u rule: induct_list012) auto

lemma plain_map_Ch: "concat (map (unescape \<circ> Ch) u) = map Ch u"
  by (induction u) auto

lemma toks_no_dollar:
  "those (map (part_toks rc) ps) = Some tss \<Longrightarrow> wf_parts ps \<Longrightarrow> clean_texts rc ps \<Longrightarrow> no_dollar_value (plain_toks (concat tss))"
proof (induction ps arbitrary: tss)
  case (Cons p ps)
  obtain ts tss' where t: "part_toks rc p = Some ts" "those (map (part_toks rc) ps) = Some tss'" "tss = ts # tss'"
    using those_Cons [OF Cons.prems(1)] by blast
  have IH: "no_dollar_value (plain_toks (concat tss'))"
    by (rule Cons.IH [OF t(2)]) (use Cons.prems wf_parts_tl in \<open>auto simp: clean_texts_def\<close>)
  have own: "no_dollar_value (plain_toks ts)"
    using t(1) Ch_no_value by (cases p) (auto simp: plain_map_Ch split: if_splits)
  have join: "plain_toks (concat tss') = [] \<or> hd (plain_toks (concat tss')) \<noteq> Val"
    if "plain_toks ts \<noteq> []" "last (plain_toks ts) = Ch (CHR ''$'')"
  proof (cases p)
    case (Text c)
    with that t(1) have c: "c = CHR ''$''" by auto
    show ?thesis
    proof (cases ps rule: wf_parts.cases)
      case (2 d qs)
      with t(2) show ?thesis by (auto dest: those_Cons)
    next
      case (3 qs)
      with t(2) show ?thesis by (auto dest: those_Cons)
    qed (use t(2) Cons.prems(2) Text c in auto)
  next
    case Escape
    with that t(1) show ?thesis by auto
  next
    case (Expr e)
    with t(1) consider "ts = [Val]" | u where "ts = map Ch u" "plain_expr rc (TrimSpace e) = Some u" by (auto split: if_splits)
    then show ?thesis
    proof cases
      case (2 u)
      then have "u \<noteq> []" "last u = CHR ''$''" using that by (auto simp: plain_map_Ch last_map)
      with 2 Cons.prems(3) Expr show ?thesis by (simp add: clean_texts_def)
    qed (use that in simp)
  qed
  show ?case using no_dollar_value_append [OF own IH join] t(3) by simp
qed simp

lemma toks_resource: "those (map (part_toks rc) ps) = Some tss \<Longrightarrow> Val \<in> set (concat tss) \<longleftrightarrow> has_resource ps"
proof (induction ps arbitrary: tss)
  case (Cons p ps)
  obtain ts tss' where t: "part_toks rc p = Some ts" "those (map (part_toks rc) ps) = Some tss'" "tss = ts # tss'"
    using those_Cons [OF Cons.prems(1)] by blast
  with Cons.IH [OF t(2)] show ?case by (cases p) (auto simp: has_resource_def split: if_splits)
qed (simp add: has_resource_def)

lemma marks_texts: "unescaped ts \<Longrightarrow> Val \<notin> set ts \<Longrightarrow> marks ts = texts v ts"
proof (induction ts)
  case (Cons t ts)
  then show ?case by (cases t) (auto simp: unescaped_def no_nul_def)
qed simp

lemma plain_toks_Val: "Val \<in> set (plain_toks ts) \<longleftrightarrow> Val \<in> set ts"
proof (induction ts)
  case (Cons t ts)
  then show ?case by (cases t) auto
qed simp

lemma template_nonempty: "Val \<in> set ts \<Longrightarrow> unescaped ts \<Longrightarrow> template_of ts \<noteq> []"
  by (cases ts; cases "hd ts") (auto simp: template_of.simps(2) unescaped_def)

section \<open>Rendering a string\<close>

lemma render_whole:
  assumes "those (map (part_toks rc) [Expr e]) = Some tss"
  shows "(\<exists>val. render_matches rc path True [([], e)] [] [] = Inr (Whole val) \<and> RenderScalar val = marks (concat tss) \<and>
            \<not> has_resource [Expr e]) \<or>
         render_matches rc path True [([], e)] [] [] = render_matches rc path False [([], e)] [] []"
proof (cases "HasPrefix (TrimSpace e) ''params.'' \<or> TrimSpace e = ''params''")
  case True
  then have "\<not> is_resource (TrimSpace e)" using resource_not_plain by blast
  with True assms show ?thesis
    by (auto simp: plain_expr_def has_resource_def Let_def marks_Ch split: if_splits option.splits)
qed (auto simp: Let_def)

lemma ReplaceAll_no_nul: "CHR 0x00 \<notin> set s \<Longrightarrow> ReplaceAll s valueMarker new = s"
  by (rule ReplaceAll_absent) (auto simp: valueMarker_def Contains_iff)

lemma marks_no_nul: "unescaped ts \<Longrightarrow> Val \<notin> set ts \<Longrightarrow> CHR 0x00 \<notin> set (marks ts)"
proof (induction ts)
  case (Cons t ts)
  then show ?case by (cases t) (auto simp: unescaped_def no_nul_def)
qed simp

text \<open>The reference the renderer makes of the assembled tokens.\<close>

definition made_ref :: "renderContext \<Rightarrow> string \<Rightarrow> string \<Rightarrow> string \<Rightarrow> tok list \<Rightarrow> Reference" where
  "made_ref rc path source fieldPath ts =
     \<lparr>ref_ToPath = path,
      ref_From = \<lparr>rs_Name = (case gomap_get (rc_childName rc) source of Some n \<Rightarrow> n | None \<Rightarrow> []), rs_FieldPath = fieldPath\<rparr>,
      ref_Template = (if template_of ts \<noteq> ''${value}'' then template_of ts else [])\<rparr>"

lemma made_ref_value:
  assumes "unescaped ts" "no_dollar_value ts" "Val \<in> set ts" "CHR 0x00 \<notin> set (RenderScalar val)"
  shows "RenderScalar (ref_value (made_ref rc path source fp ts) val) = texts (RenderScalar val) ts"
proof (cases "template_of ts = ''${value}''")
  case True
  then have "texts (RenderScalar val) ts = expand ''${value}'' (RenderScalar val)"
    using expand_template [OF assms(1,2)] by metis
  with True show ?thesis by (simp add: ref_value_def made_ref_def)
next
  case False
  then show ?thesis
    using expandTemplate_eq [OF template_no_nul [OF assms(1)] assms(4)] expand_template [OF assms(1,2)]
      template_nonempty [OF assms(3,1)]
    by (simp add: ref_value_def made_ref_def)
qed

lemma renderString_whole:
  "checkUnterminated escaped path = None \<Longrightarrow> escaped = ReplaceAll s ''$${'' escMarker \<Longrightarrow>
   exprRe_matches escaped = ([([], e)], []) \<Longrightarrow> render_matches rc path True [([], e)] [] [] = Inr (Whole w) \<Longrightarrow>
   renderString rc s path refs = Inr (Value w, refs)"
  by (simp add: renderString_def del: render_matches.simps)

lemma renderString_assembled:
  assumes "checkUnterminated escaped path = None" "escaped = ReplaceAll s ''$${'' escMarker"
    "exprRe_matches escaped = (ms, tailText)" "ms \<noteq> []"
    "render_matches rc path (length ms = 1 \<and> fst (hd ms) = [] \<and> tailText = []) ms [] [] = Inr (Assembled b (if res then r else []))"
    "b @ tailText = marks ts" "no_nul ts" "quiet ts" "Val \<in> set ts \<longleftrightarrow> res" "r \<noteq> []"
    "res \<Longrightarrow> parseResourceExpr rc r = Inr (source, fp)"
  shows "renderString rc s path refs =
     Inr (if res then (Removed, refs @ [made_ref rc path source fp (plain_toks ts)])
          else (Value (JStr (texts v ts)), refs))"
proof -
  have u: "unescaped (plain_toks ts)" using plain_toks_unescaped [OF assms(7)] .
  have result: "ReplaceAll (b @ tailText) escMarker ''${'' = marks (plain_toks ts)"
    using unescape_pass [OF assms(7,8)] assms(6) marker_facts by (simp add: ReplaceAll_def)
  have tmpl: "ReplaceAll (ReplaceAll (marks (plain_toks ts)) ''${value}'' ''$${value}'') valueMarker ''${value}'' =
      template_of (plain_toks ts)"
    using template_passes [OF u] marker_facts by (simp add: ReplaceAll_def)
  show ?thesis
  proof (cases res)
    case True
    with assms result tmpl show ?thesis by (simp add: renderString_def Let_def made_ref_def)
  next
    case False
    then have "Val \<notin> set (plain_toks ts)" using assms(9) plain_toks_Val by blast
    then have "marks (plain_toks ts) = texts v ts" "CHR 0x00 \<notin> set (marks (plain_toks ts))"
      using marks_texts [OF u] texts_plain marks_no_nul [OF u] by simp_all
    with False assms result show ?thesis by (simp add: renderString_def Let_def ReplaceAll_no_nul)
  qed
qed

lemma pieces_single:
  assumes "length (fst (pieces [] ps)) = 1 \<and> fst (hd (fst (pieces [] ps))) = [] \<and> snd (pieces [] ps) = []"
  shows "\<exists>e. ps = [Expr e]"
proof -
  obtain a e where "fst (pieces [] ps) = [(a, e)]" using assms by (cases "fst (pieces [] ps)") auto
  with assms pieces_whole [of ps e] show ?thesis by simp
qed

text \<open>The tokens of a string whose interpolation is \<open>out\<close>, with what the passes need of them.\<close>

definition tokens_of :: "renderContext \<Rightarrow> part list \<Rightarrow> string \<Rightarrow> string \<Rightarrow> tok list \<Rightarrow> bool" where
  "tokens_of rc ps v out ts =
     ((\<exists>tss. those (map (part_toks rc) ps) = Some tss \<and> ts = concat tss) \<and> out = texts v ts \<and> no_nul ts \<and> quiet ts \<and>
      (Val \<in> set ts \<longleftrightarrow> has_resource ps) \<and> no_dollar_value (plain_toks ts))"

lemma tokens_exist:
  assumes "wf_parts ps" "clean_texts rc ps" "interpolate rc v ps = Some out" "\<not> Contains out ''DOPLANE_ESC''"
  shows "\<exists>ts. tokens_of rc ps v out ts"
proof -
  obtain tss where tss: "those (map (part_toks rc) ps) = Some tss" "out = texts v (concat tss)"
    using interpolate_toks [OF assms(3)] by blast
  have nul: "no_nul (concat tss)" by (rule toks_no_nul [OF tss(1) assms(1,2)])
  then have "quiet (concat tss)" by (rule toks_quiet) (use assms(4) tss(2) in simp)
  with nul tss toks_resource [OF tss(1)] toks_no_dollar [OF tss(1) assms(1,2)] show ?thesis
    unfolding tokens_of_def by blast
qed

text \<open>What the renderer owes for a string: the value now, or a reference that will give it.\<close>

definition reads_as ::
  "renderContext \<Rightarrow> string \<Rightarrow> bool \<Rightarrow> string \<Rightarrow> Reference list \<Rightarrow> string \<Rightarrow> json \<Rightarrow> string \<Rightarrow> bool" where
  "reads_as rc s res path refs fp val out =
     (\<exists>rv refs'. renderString rc s path refs = Inr (rv, refs') \<and>
        (if res
         then rv = Removed \<and> (\<exists>ref. refs' = refs @ [ref] \<and> ref_ToPath ref = path \<and> rs_FieldPath (ref_From ref) = fp \<and>
                RenderScalar (ref_value ref val) = out)
         else refs' = refs \<and> (\<exists>j. rv = Value j \<and> RenderScalar j = out)))"

text \<open>The front end: escapes, the check for unterminated expressions, and the matches.\<close>

lemma matches_of_parts:
  assumes "wf_parts ps"
  shows "escaped_parts ps = ReplaceAll (print_parts ps) ''$${'' escMarker"
    "exprRe_matches (escaped_parts ps) = (fst (pieces [] ps), snd (pieces [] ps))"
    "checkUnterminated (escaped_parts ps) path = None"
proof -
  have j: "joint [] ps" by (simp add: joint_def)
  show "escaped_parts ps = ReplaceAll (print_parts ps) ''$${'' escMarker"
    using escape_pass [OF assms] by (simp add: ReplaceAll_def)
  show re: "exprRe_matches (escaped_parts ps) = (fst (pieces [] ps), snd (pieces [] ps))"
    using exprRe_matches_pieces [OF assms j] by simp
  show "checkUnterminated (escaped_parts ps) path = None"
    using checkUnterminated_None pieces_end [OF assms j] re by simp
qed

lemma reads_assembled:
  assumes "wf_parts ps" "tokens_of rc ps (RenderScalar val) out ts" "r \<noteq> []"
    "has_resource ps \<longrightarrow> parseResourceExpr rc r = Inr (source, fp)" "CHR 0x00 \<notin> set (RenderScalar val)"
    "fst (pieces [] ps) \<noteq> []"
    "render_matches rc path (length (fst (pieces [] ps)) = 1 \<and> fst (hd (fst (pieces [] ps))) = [] \<and> snd (pieces [] ps) = [])
       (fst (pieces [] ps)) [] [] = Inr (Assembled b (if has_resource ps then r else []))"
    "b @ snd (pieces [] ps) = marks ts"
  shows "reads_as rc (print_parts ps) (has_resource ps) path refs fp val out"
proof -
  have T: "no_nul ts" "quiet ts" "Val \<in> set ts \<longleftrightarrow> has_resource ps" "no_dollar_value (plain_toks ts)"
    "out = texts (RenderScalar val) ts"
    using assms(2) by (auto simp: tokens_of_def)
  note m = matches_of_parts [OF assms(1)]
  note r = renderString_assembled [OF m(3) m(1,2) assms(6,7,8) T(1-3) assms(3) assms(4) [rule_format],
    where refs = refs and v = "RenderScalar val"]
  show ?thesis
    using r T(3,5) made_ref_value [OF plain_toks_unescaped [OF T(1)] T(4) _ assms(5), of rc path source fp]
      plain_toks_Val [of ts] texts_plain [of "RenderScalar val" ts]
    by (auto simp: made_ref_def reads_as_def)
qed

lemma reads_plain:
  assumes "wf_parts ps" "tokens_of rc ps v out ts" "fst (pieces [] ps) = []" "snd (pieces [] ps) = marks ts"
  shows "reads_as rc (print_parts ps) (has_resource ps) path refs fp val out"
proof -
  note m = matches_of_parts [OF assms(1)]
  have n: "snd (pieces [] ps) = escaped_parts ps" "\<not> has_resource ps" using pieces_none [OF assms(3)] by auto
  have T: "no_nul ts" "quiet ts" "Val \<notin> set (plain_toks ts)" "out = texts v ts"
    using assms(2) n(2) plain_toks_Val by (simp add: tokens_of_def, metis tokens_of_def)+
  have "ReplaceAll (escaped_parts ps) escMarker ''${'' = out"
    using unescape_pass [OF T(1,2)] assms(4) n(1) marker_facts marks_texts [OF plain_toks_unescaped [OF T(1)] T(3)]
      texts_plain T(4) by (simp add: ReplaceAll_def)
  with m assms(3) n(2) show ?thesis by (simp add: renderString_def reads_as_def Let_def)
qed

lemma reads_whole:
  assumes "wf_parts [Expr e]" "tokens_of rc [Expr e] v out ts" "render_matches rc path True [([], e)] [] [] = Inr (Whole w)"
    "RenderScalar w = marks ts" "\<not> has_resource [Expr e]"
  shows "reads_as rc (print_parts [Expr e]) (has_resource [Expr e]) path refs fp val out"
proof -
  have "unescaped ts" using assms(2) by (auto simp: tokens_of_def unescaped_def split: if_splits option.splits)
  then have "RenderScalar w = out" using assms(2,4,5) marks_texts by (metis tokens_of_def)
  moreover have "renderString rc (print_parts [Expr e]) path refs = Inr (Value w, refs)"
    by (rule renderString_whole [OF matches_of_parts(3,1) [OF assms(1)] _ assms(3)]) (use matches_of_parts(2) [OF assms(1)] in simp)
  ultimately show ?thesis using assms(5) by (auto simp: reads_as_def)
qed

text \<open>
  C20: Rendering a template string gives what the string says. For a string made of text,
  \<open>$${\<close> escapes and expressions, in which all sibling expressions are the same known one, the
  renderer succeeds; without a sibling expression the rendered value reads as the
  interpolated text, and with one the string becomes a single reference at its path whose
  resolved value, through the escaped template and its later expansion, reads as the
  interpolated text. Interpolated texts must be free of NUL bytes and not end in a dollar
  sign, and the result must not contain the renderer's marker word.
\<close>

theorem renderString_interpolates:
  assumes "wf_parts ps" "clean_texts rc ps" "one_source r ps" "r \<noteq> []"
    "has_resource ps \<Longrightarrow> parseResourceExpr rc r = Inr (source, fp)"
    "interpolate rc (RenderScalar val) ps = Some out" "\<not> Contains out ''DOPLANE_ESC''"
    "CHR 0x00 \<notin> set (RenderScalar val)"
  shows "\<exists>rv refs'. renderString rc (print_parts ps) path refs = Inr (rv, refs') \<and>
           (if has_resource ps
            then rv = Removed \<and> (\<exists>ref. refs' = refs @ [ref] \<and> ref_ToPath ref = path \<and> rs_FieldPath (ref_From ref) = fp \<and>
                   RenderScalar (ref_value ref val) = out)
            else refs' = refs \<and> (\<exists>j. rv = Value j \<and> RenderScalar j = out))"
proof -
  let ?ms = "fst (pieces [] ps)" and ?whole = "length (fst (pieces [] ps)) = 1 \<and> fst (hd (fst (pieces [] ps))) = [] \<and> snd (pieces [] ps) = []"
  obtain ts where ts: "tokens_of rc ps (RenderScalar val) out ts" using tokens_exist [OF assms(1,2,6,7)] by blast
  then obtain tss where tss: "those (map (part_toks rc) ps) = Some tss" "ts = concat tss" by (auto simp: tokens_of_def)
  obtain b where b: "render_matches rc path False ?ms [] [] = Inr (Assembled b (if has_resource ps then r else []))"
      "b @ snd (pieces [] ps) = marks ts"
    using render_matches_pieces [OF tss(1) assms(3), of "[]" path "[]" "[]"] tss(2) by auto
  have source: "has_resource ps \<longrightarrow> parseResourceExpr rc r = Inr (source, fp)" using assms(5) by blast
  note assembled = reads_assembled [OF assms(1) ts assms(4) source assms(8) _ _ b(2)]
  consider (none) "?ms = []" | (whole) e where "ps = [Expr e]" | (mixed) "?ms \<noteq> []" "\<not> ?whole"
    using pieces_single by blast
  then have "reads_as rc (print_parts ps) (has_resource ps) path refs fp val out"
  proof cases
    case none
    then show ?thesis using reads_plain [OF assms(1) ts none] b by simp
  next
    case mixed
    have "?whole = False" using mixed(2) by blast
    then show ?thesis using assembled [OF mixed(1)] b(1) by (simp only:)
  next
    case whole
    then have ms: "?ms = [([], e)]" "snd (pieces [] ps) = []" by simp_all
    from render_whole [OF tss(1) [unfolded whole], of path] show ?thesis
      using reads_whole [OF assms(1) [unfolded whole] ts [unfolded whole]] assembled b(1) ms tss(2) whole
      by (elim disjE exE conjE) (simp_all del: render_matches.simps)
  qed
  then show ?thesis by (simp add: reads_as_def)
qed

definition demo_context :: renderContext where
  "demo_context =
     \<lparr>rc_composite = demo_composite, rc_params = [(''price'', JStr ''5$''), (''size'', JNum ''2'')],
      rc_childName = [(''net'', ''web-net'')]\<rparr>"

definition demo_parts :: "part list" where
  "demo_parts = [Escape, Text (CHR ''x''), Expr ''params.size'', Text (CHR ''-''), Expr '' resources.net.id '']"

theorem renderString_interpolates_witness:
  "print_parts demo_parts = ''$${x${params.size}-${ resources.net.id }'' \<and>
   (\<exists>ref. renderString demo_context (print_parts demo_parts) ''a'' [] = Inr (Removed, [ref]) \<and>
          RenderScalar (ref_value ref (JStr ''n1'')) = ''${x2-n1'')"
proof -
  have p: "print_parts demo_parts = ''$${x${params.size}-${ resources.net.id }''"
    by (simp add: demo_parts_def)
  have "has_resource demo_parts" by code_simp
  moreover have "\<exists>rv refs'. renderString demo_context (print_parts demo_parts) ''a'' [] = Inr (rv, refs') \<and>
     (if has_resource demo_parts
      then rv = Removed \<and> (\<exists>ref. refs' = [] @ [ref] \<and> ref_ToPath ref = ''a'' \<and> rs_FieldPath (ref_From ref) = ''status.id'' \<and>
             RenderScalar (ref_value ref (JStr ''n1'')) = ''${x2-n1'')
      else refs' = [] \<and> (\<exists>j. rv = Value j \<and> RenderScalar j = ''${x2-n1''))"
    by (rule renderString_interpolates [where r = "''resources.net.id''" and source = "''net''"]; code_simp)
  ultimately show ?thesis using p by auto
qed

text \<open>
  The condition on dollar signs is needed: a parameter that ends in one, directly before a
  sibling expression, turns the placeholder into an escape, so the sibling's value is never
  substituted.
\<close>

theorem renderString_dollar_parameter:
  "\<exists>ref. renderString demo_context ''${params.price}${resources.net.id}'' ''a'' [] = Inr (Removed, [ref]) \<and>
         interpolate demo_context ''n1'' [Expr ''params.price'', Expr ''resources.net.id''] = Some ''5$n1'' \<and>
         ref_value ref (JStr ''n1'') = JStr ''5${value}''"
proof -
  have "renderString demo_context ''${params.price}${resources.net.id}'' ''a'' [] =
    Inr (Removed, [\<lparr>ref_ToPath = ''a'', ref_From = \<lparr>rs_Name = ''web-net'', rs_FieldPath = ''status.id''\<rparr>, ref_Template = ''5$${value}''\<rparr>])"
    by code_simp
  moreover have "interpolate demo_context ''n1'' [Expr ''params.price'', Expr ''resources.net.id''] = Some ''5$n1''" by code_simp
  moreover have "ref_value \<lparr>ref_ToPath = ''a'', ref_From = \<lparr>rs_Name = ''web-net'', rs_FieldPath = ''status.id''\<rparr>, ref_Template = ''5$${value}''\<rparr>
      (JStr ''n1'') = JStr ''5${value}''"
    by code_simp
  ultimately show ?thesis by blast
qed

end
