(* ===== verification/Composite_Outputs.thy ===== *)
theory Composite_Outputs
  imports Composite_Graph
begin

text \<open>
  The outputs a composite publishes (\<open>internal/controller/composite_outputs.go\<close>): the
  definition's \<open>spec.outputs\<close> rendered against the parameters and the children's observed
  status. A value that waits for a source says which one.
\<close>

section \<open>Rendering\<close>

text \<open>A non-empty wait text of the source is \<open>Waits\<close>.\<close>

datatype outval = Waits string | Resolved json

definition resolveOutputExpr ::
  "renderContext \<Rightarrow> DoResource gomap \<Rightarrow> string \<Rightarrow> string \<Rightarrow> outval result" where
  "resolveOutputExpr rc observed expr path =
     (if HasPrefix expr ''params.'' \<or> expr = ''params'' then
        (case GetPath (JObj [(''params'', JObj (rc_params rc))]) expr of
           None \<Rightarrow> Inl (Errorf (''value at '' @ Quote path @ '': expression ${'' @ expr @ ''}: parameter not found''))
         | Some val \<Rightarrow> Inr (Resolved val))
      else if expr = ''self.name'' then Inr (Resolved (JStr (om_Name (comp_meta (rc_composite rc)))))
      else if expr = ''self.namespace'' then Inr (Resolved (JStr (om_Namespace (comp_meta (rc_composite rc)))))
      else if HasPrefix expr ''resources.'' then
        (case parseResourceExpr rc expr of
           Inl e \<Rightarrow> Inl (wrap_error (''value at '' @ Quote path @ '': '') e)
         | Inr (source, fieldPath) \<Rightarrow>
             (case gomap_get observed source of
                None \<Rightarrow> Inr (Waits (source @ '' not yet applied''))
              | Some child \<Rightarrow>
                  (case resolveFieldPath child fieldPath of
                     Inl e \<Rightarrow> Inl (wrap_error (''value at '' @ Quote path @ '': expression ${'' @ expr @ ''}: '') e)
                   | Inr None \<Rightarrow> Inr (Waits (source @ '': '' @ fieldPath @ '' not yet available''))
                   | Inr (Some val) \<Rightarrow> Inr (Resolved val))))
      else Inl (Errorf (''value at '' @ Quote path @ '': unsupported expression ${'' @ expr @
                        ''} (want params.*, self.name, self.namespace or resources.*)'')))"

text \<open>The loop over the matches, as in \<open>renderString\<close>: it may leave early.\<close>

datatype output_exit = Leave outval | Built string

primrec output_matches ::
  "renderContext \<Rightarrow> DoResource gomap \<Rightarrow> string \<Rightarrow> bool \<Rightarrow> (string \<times> string) list \<Rightarrow> string \<Rightarrow> output_exit result"
where
  "output_matches rc observed path wholeString [] b = Inr (Built b)"
| "output_matches rc observed path wholeString (m # ms) b =
     (case resolveOutputExpr rc observed (TrimSpace (snd m)) path of
        Inl e \<Rightarrow> Inl e
      | Inr (Waits w) \<Rightarrow> Inr (Leave (Waits w))
      | Inr (Resolved val) \<Rightarrow>
          if wholeString then Inr (Leave (Resolved val))
          else output_matches rc observed path wholeString ms (b @ fst m @ RenderScalar val))"

definition renderOutputString ::
  "renderContext \<Rightarrow> DoResource gomap \<Rightarrow> string \<Rightarrow> string \<Rightarrow> outval result" where
  "renderOutputString rc observed s path =
     (let escaped = ReplaceAll s ''$${'' escMarker in
      case checkUnterminated escaped path of
        Some e \<Rightarrow> Inl e
      | None \<Rightarrow>
          (case exprRe_matches escaped of (ms, tailText) \<Rightarrow>
             if ms = [] then Inr (Resolved (JStr (ReplaceAll escaped escMarker ''${'')))
             else
               (case output_matches rc observed path (length ms = 1 \<and> fst (hd ms) = [] \<and> tailText = []) ms [] of
                  Inl e \<Rightarrow> Inl e
                | Inr (Leave out) \<Rightarrow> Inr out
                | Inr (Built b) \<Rightarrow> Inr (Resolved (JStr (ReplaceAll (b @ tailText) escMarker ''${''))))))"

datatype 'a waiting = WaitFor string | Got 'a

fun renderOutputValue :: "renderContext \<Rightarrow> DoResource gomap \<Rightarrow> json \<Rightarrow> string \<Rightarrow> outval result"
  and output_entries :: "renderContext \<Rightarrow> DoResource gomap \<Rightarrow> json gomap \<Rightarrow> string \<Rightarrow> jobj waiting result"
  and output_elems :: "renderContext \<Rightarrow> DoResource gomap \<Rightarrow> json list \<Rightarrow> nat \<Rightarrow> string \<Rightarrow> json list waiting result"
where
  "renderOutputValue rc observed (JStr s) path = renderOutputString rc observed s path"
| "renderOutputValue rc observed (JObj m) path =
     (case output_entries rc observed m path of
        Inl e \<Rightarrow> Inl e
      | Inr (WaitFor w) \<Rightarrow> Inr (Waits w)
      | Inr (Got out) \<Rightarrow> Inr (Resolved (JObj out)))"
| "renderOutputValue rc observed (JArr xs) path =
     (case output_elems rc observed xs 0 path of
        Inl e \<Rightarrow> Inl e
      | Inr (WaitFor w) \<Rightarrow> Inr (Waits w)
      | Inr (Got out) \<Rightarrow> Inr (Resolved (JArr out)))"
| "renderOutputValue rc observed JNull path = Inr (Resolved JNull)"
| "renderOutputValue rc observed (JBool b) path = Inr (Resolved (JBool b))"
| "renderOutputValue rc observed (JNum n) path = Inr (Resolved (JNum n))"
| "output_entries rc observed [] path = Inr (Got [])"
| "output_entries rc observed ((k, v) # m) path =
     (case renderOutputValue rc observed v (AppendKeySegment path k) of
        Inl e \<Rightarrow> Inl e
      | Inr (Waits w) \<Rightarrow> Inr (WaitFor w)
      | Inr (Resolved j) \<Rightarrow>
          (case output_entries rc observed m path of
             Inl e \<Rightarrow> Inl e
           | Inr (WaitFor w) \<Rightarrow> Inr (WaitFor w)
           | Inr (Got out) \<Rightarrow> Inr (Got ((k, j) # out))))"
| "output_elems rc observed [] i path = Inr (Got [])"
| "output_elems rc observed (x # xs) i path =
     (case renderOutputValue rc observed x (AppendIndexSegment path i) of
        Inl e \<Rightarrow> Inl e
      | Inr (Waits w) \<Rightarrow> Inr (WaitFor w)
      | Inr (Resolved j) \<Rightarrow>
          (case output_elems rc observed xs (Suc i) path of
             Inl e \<Rightarrow> Inl e
           | Inr (WaitFor w) \<Rightarrow> Inr (WaitFor w)
           | Inr (Got out) \<Rightarrow> Inr (Got (j # out))))"

text \<open>The loop over the sorted output names: resolved values and pending entries.\<close>

primrec output_keys ::
  "renderContext \<Rightarrow> DoResource gomap \<Rightarrow> json gomap \<Rightarrow> (jobj \<times> string list) result" where
  "output_keys rc observed [] = Inr ([], [])"
| "output_keys rc observed (kv # outputs) =
     (if fst kv = [] then Inl (Errorf ''spec.outputs contains an empty key'')
      else case renderOutputValue rc observed (snd kv) (''outputs.'' @ fst kv) of
          Inl e \<Rightarrow> Inl e
        | Inr out \<Rightarrow>
            (case output_keys rc observed outputs of
               Inl e \<Rightarrow> Inl e
             | Inr (resolved, pending) \<Rightarrow>
                 (case out of
                    Waits w \<Rightarrow> Inr (resolved, (fst kv @ '' ('' @ w @ '')'') # pending)
                  | Resolved j \<Rightarrow> Inr ((fst kv, j) # resolved, pending))))"

text \<open>The context of the expressions; the template names were checked when the children were rendered.\<close>

definition all_child_names :: "render_lib \<Rightarrow> string \<Rightarrow> CompositeResourceTemplate list \<Rightarrow> string gomap" where
  "all_child_names lib composite tpls =
     foldl (\<lambda>names tpl. gomap_put (t_Name tpl) (childResourceName lib composite (t_Name tpl)) names) [] tpls"

definition output_context :: "render_lib \<Rightarrow> DoComposite \<Rightarrow> DoCompositeDefinition \<Rightarrow> jobj \<Rightarrow> renderContext" where
  "output_context lib cmp def params =
     \<lparr>rc_composite = cmp, rc_params = params,
      rc_childName = all_child_names lib (om_Name (comp_meta cmp)) (cds_Resources (def_spec def))\<rparr>"

text \<open>No outputs at all is the empty map: the caller only tests the length.\<close>

definition renderOutputs ::
  "render_lib \<Rightarrow> DoComposite \<Rightarrow> DoCompositeDefinition \<Rightarrow> DoResource gomap \<Rightarrow> (jobj \<times> string list) result" where
  "renderOutputs lib cmp def observed =
     (case cds_Outputs (def_spec def) of
        None \<Rightarrow> Inr ([], [])
      | Some doc \<Rightarrow>
          (case decodeProperties (Some doc) of
             Inl e \<Rightarrow> Inl (wrap_error ''spec.outputs is not a JSON object: '' e)
           | Inr outputs \<Rightarrow>
               (case decodeProperties (comp_Parameters (comp_spec cmp)) of
                  Inl e \<Rightarrow> Inl (wrap_error ''spec.parameters is not a JSON object: '' e)
                | Inr params \<Rightarrow> output_keys (output_context lib cmp def params) observed outputs)))"

section \<open>Published whole or not at all\<close>

text \<open>The expressions an output mentions.\<close>

definition string_exprs :: "string \<Rightarrow> string list" where
  "string_exprs s = map (\<lambda>m. TrimSpace (snd m)) (fst (exprRe_matches (ReplaceAll s ''$${'' escMarker)))"

fun value_exprs :: "json \<Rightarrow> string list" where
  "value_exprs (JStr s) = string_exprs s"
| "value_exprs (JArr xs) = concat (map value_exprs xs)"
| "value_exprs (JObj m) = concat (map (\<lambda>kv. value_exprs (snd kv)) m)"
| "value_exprs _ = []"

text \<open>An expression that does not wait: a parameter, the composite itself, or a sibling with a value.\<close>

definition available :: "renderContext \<Rightarrow> DoResource gomap \<Rightarrow> string \<Rightarrow> bool" where
  "available rc observed expr =
     (if HasPrefix expr ''resources.'' then
        (case parseResourceExpr rc expr of
           Inl _ \<Rightarrow> False
         | Inr (source, fieldPath) \<Rightarrow>
             (case gomap_get observed source of
                None \<Rightarrow> False
              | Some child \<Rightarrow> (case resolveFieldPath child fieldPath of Inr (Some _) \<Rightarrow> True | _ \<Rightarrow> False)))
      else True)"

lemma resource_prefix: "HasPrefix e ''resources.'' \<Longrightarrow> \<not> HasPrefix e ''params.'' \<and> e \<noteq> ''params'' \<and> e \<noteq> ''self.name'' \<and> e \<noteq> ''self.namespace''"
  by (cases e) auto

lemma resolveOutputExpr_available:
  "resolveOutputExpr rc observed e path = Inr out \<Longrightarrow> available rc observed e \<longleftrightarrow> (\<exists>j. out = Resolved j)"
  using resource_prefix [of e]
  by (auto simp: resolveOutputExpr_def available_def split: if_splits sum.splits option.splits)

lemma output_matches_available:
  "output_matches rc observed path w ms b = Inr out \<Longrightarrow> (w \<Longrightarrow> length ms = 1) \<Longrightarrow>
   list_all (\<lambda>m. available rc observed (TrimSpace (snd m))) ms \<longleftrightarrow> (\<forall>t. out \<noteq> Leave (Waits t))"
proof (induction ms arbitrary: b)
  case (Cons m ms)
  then obtain o1 where o1: "resolveOutputExpr rc observed (TrimSpace (snd m)) path = Inr o1" by (auto split: sum.splits)
  note av = resolveOutputExpr_available [OF o1]
  show ?case
  proof (cases o1)
    case (Waits t)
    with Cons.prems(1) o1 av show ?thesis by auto
  next
    case (Resolved j)
    show ?thesis
    proof (cases w)
      case True
      with Cons.prems o1 Resolved av show ?thesis by auto
    next
      case False
      with Cons.prems(1) o1 Resolved have "output_matches rc observed path w ms (b @ fst m @ RenderScalar j) = Inr out" by simp
      from Cons.IH [OF this] False av Resolved show ?thesis by auto
    qed
  qed
qed auto

lemma renderOutputString_available:
  assumes "renderOutputString rc observed s path = Inr out"
  shows "list_all (available rc observed) (string_exprs s) \<longleftrightarrow> (\<exists>j. out = Resolved j)"
proof -
  obtain ms t where m: "exprRe_matches (ReplaceAll s ''$${'' escMarker) = (ms, t)" by fastforce
  show ?thesis
  proof (cases "ms = []")
    case True
    with assms m show ?thesis by (auto simp: renderOutputString_def string_exprs_def Let_def split: option.splits)
  next
    case False
    with assms m obtain ex where ex: "output_matches rc observed path (length ms = 1 \<and> fst (hd ms) = [] \<and> t = []) ms [] = Inr ex"
      "out = (case ex of Leave p \<Rightarrow> p | Built b \<Rightarrow> Resolved (JStr (ReplaceAll (b @ t) escMarker ''${'')))"
      by (auto simp: renderOutputString_def Let_def split: option.splits sum.splits output_exit.splits)
    have "list_all (available rc observed) (string_exprs s) \<longleftrightarrow> (\<forall>t. ex \<noteq> Leave (Waits t))"
      using output_matches_available [OF ex(1)] m by (simp add: string_exprs_def list.pred_map comp_def)
    with ex(2) show ?thesis by (auto split: output_exit.splits outval.splits) (metis outval.exhaust)
  qed
qed

lemma render_output_available:
  "renderOutputValue rc observed v path = Inr out \<Longrightarrow>
     list_all (available rc observed) (value_exprs v) \<longleftrightarrow> (\<exists>j. out = Resolved j)"
  "output_entries rc observed m path = Inr o2 \<Longrightarrow>
     list_all (\<lambda>kv. list_all (available rc observed) (value_exprs (snd kv))) m \<longleftrightarrow> (\<exists>j. o2 = Got j)"
  "output_elems rc observed xs i path = Inr o3 \<Longrightarrow>
     list_all (\<lambda>x. list_all (available rc observed) (value_exprs x)) xs \<longleftrightarrow> (\<exists>j. o3 = Got j)"
proof (induction rc observed v path and rc observed m path and rc observed xs i path
       arbitrary: out and o2 and o3 rule: renderOutputValue_output_entries_output_elems.induct)
  case (1 rc observed s path)
  then show ?case by (simp add: renderOutputString_available)
next
  case (2 rc observed m path)
  then obtain w where "output_entries rc observed m path = Inr w" by (auto split: sum.splits)
  with 2 show ?case by (auto simp: list_all_iff split: waiting.splits)
next
  case (3 rc observed xs path)
  then obtain w where "output_elems rc observed xs 0 path = Inr w" by (auto split: sum.splits)
  with 3 show ?case by (auto simp: list_all_iff split: waiting.splits)
next
  case (8 rc observed k v m path)
  then obtain w where w: "renderOutputValue rc observed v (AppendKeySegment path k) = Inr w" by (auto split: sum.splits)
  with 8 show ?case by (cases w) (auto split: sum.splits waiting.splits)
next
  case (10 rc observed x xs i path)
  then obtain w where w: "renderOutputValue rc observed x (AppendIndexSegment path i) = Inr w" by (auto split: sum.splits)
  with 10 show ?case by (cases w) (auto split: sum.splits waiting.splits)
qed auto

lemma output_keys_subset: "output_keys rc observed outputs = Inr (resolved, pending) \<Longrightarrow> fst ` set resolved \<subseteq> fst ` set outputs"
  by (induction outputs arbitrary: resolved pending) (auto split: if_splits sum.splits outval.splits, force+)

lemma output_keys_available:
  assumes "output_keys rc observed outputs = Inr (resolved, pending)" "distinct (map fst outputs)" "(k, v) \<in> set outputs"
  shows "(gomap_get resolved k \<noteq> None \<longleftrightarrow> list_all (available rc observed) (value_exprs v)) \<and>
         (gomap_get resolved k = None \<longrightarrow> (\<exists>w. (k @ '' ('' @ w @ '')'') \<in> set pending))"
  using assms
proof (induction outputs arbitrary: resolved pending)
  case (Cons kv outputs)
  obtain k1 v1 where kv: "kv = (k1, v1)" by (cases kv)
  obtain out res1 pend1 where r: "renderOutputValue rc observed v1 (''outputs.'' @ k1) = Inr out"
    "output_keys rc observed outputs = Inr (res1, pend1)"
    "(resolved, pending) = (case out of Waits w \<Rightarrow> (res1, (k1 @ '' ('' @ w @ '')'') # pend1) | Resolved j \<Rightarrow> ((k1, j) # res1, pend1))"
    using Cons.prems(1) kv by (auto split: if_splits sum.splits outval.splits)
  show ?case
  proof (cases "k = k1")
    case True
    have "v = v1" "k \<notin> fst ` set outputs" using Cons.prems(2,3) kv True by (auto, force)
    moreover from this(2) have "gomap_get res1 k = None"
      using output_keys_subset [OF r(2)] by (auto simp: map_of_eq_None_iff)
    ultimately show ?thesis
      using render_output_available(1) [OF r(1)] r(3) True by (auto split: outval.splits)
  next
    case False
    then have "(k, v) \<in> set outputs" using Cons.prems(3) kv by auto
    with Cons.IH [OF r(2)] Cons.prems(2) kv False r(3) show ?thesis by (auto split: outval.splits)
  qed
qed simp

text \<open>
  C26: A composite output is published whole or not at all: when the outputs render, an
  output is among the published ones exactly when every sibling value its expressions mention
  is available, and otherwise it is named in the pending list.
\<close>

theorem renderOutputs_whole:
  assumes "renderOutputs lib cmp def observed = Inr (resolved, pending)" "cds_Outputs (def_spec def) = Some (JObj outputs)"
    "gomap_ok outputs" "(k, v) \<in> set outputs" "decodeProperties (comp_Parameters (comp_spec cmp)) = Inr params"
  shows "(gomap_get resolved k \<noteq> None \<longleftrightarrow>
            list_all (available (output_context lib cmp def params) observed) (value_exprs v)) \<and>
         (gomap_get resolved k = None \<longrightarrow> (\<exists>w. (k @ '' ('' @ w @ '')'') \<in> set pending))"
proof -
  have "output_keys (output_context lib cmp def params) observed outputs = Inr (resolved, pending)"
    using assms(1,2,5) by (simp add: renderOutputs_def decodeProperties_def decode_object_def)
  then show ?thesis using output_keys_available gomap_ok_distinct [OF assms(3)] assms(4) by blast
qed

definition demo_net :: DoResource where
  "demo_net = (demo_child ''net'' [] [])\<lparr>status := fresh_status\<lparr>st_ID := ''n1''\<rparr>\<rparr>"

theorem renderOutputs_whole_witness:
  "renderOutputs demo_lib demo_composite demo_definition [(''net'', demo_net)] = Inr ([(''net'', JStr ''n1'')], []) \<and>
   list_all (available (output_context demo_lib demo_composite demo_definition [(''size'', JNum ''2'')]) [(''net'', demo_net)])
     (value_exprs (JStr ''${resources.net.id}''))"
proof -
  have r: "renderOutputs demo_lib demo_composite demo_definition [(''net'', demo_net)] = Inr ([(''net'', JStr ''n1'')], [])"
    by code_simp
  have "(gomap_get [(''net'', JStr ''n1'')] ''net'' \<noteq> None \<longleftrightarrow>
      list_all (available (output_context demo_lib demo_composite demo_definition [(''size'', JNum ''2'')]) [(''net'', demo_net)])
        (value_exprs (JStr ''${resources.net.id}''))) \<and>
      (gomap_get [(''net'', JStr ''n1'')] ''net'' = None \<longrightarrow> (\<exists>w. (''net'' @ '' ('' @ w @ '')'') \<in> set []))"
    by (rule renderOutputs_whole [OF r, where outputs = "[(''net'', JStr ''${resources.net.id}'')]"])
       (simp_all add: demo_definition_def demo_composite_def gomap_ok_Cons decodeProperties_def decode_object_def)
  with r show ?thesis by simp
qed

end
