(* ===== verification/Composite_Env.thy ===== *)
theory Composite_Env
  imports Composite_Outputs
begin

text \<open>
  The outside of the DoComposite controller: the API server behind the controller-runtime
  client and the event recorder. As for DoResources, the environment answers every call as a
  function of the trace so far, and a call and its reply become one \<open>comp_event\<close>.
  \<open>controllerutil.CreateOrUpdate\<close> is a library call that itself talks to the API server: the
  environment gives its interactions and its result, and \<open>create_or_update_contract\<close> is its
  documented behaviour.
\<close>

datatype comp_event =
    CGetComposite reader_kind string string "DoComposite result"
  | CGetDefinition reader_kind string "DoCompositeDefinition result"
  | CGetRevision reader_kind string "DoCompositeDefinitionRevision result"
  | CGetChild reader_kind string string "DoResource result"
  | CListRevisions "DoCompositeDefinitionRevision list result"
  | CListComposites reader_kind "DoComposite list result"
  | CListByDefinition string "DoComposite list result"
  | CListChildren string string "DoResource list result"
  | CCreateRevision DoCompositeDefinitionRevision "DoCompositeDefinitionRevision result"
  | CDeleteRevision DoCompositeDefinitionRevision string "error option"
  | CDeleteChild DoResource "string option" "error option"
  | CFetchChild string string "DoResource option result"
  | CWriteChild "DoResource option" DoResource "DoResource result"
  | CUpdateCompositeStatus DoComposite "error option"
  | CUpdateDefinitionStatus DoCompositeDefinition "DoCompositeDefinition result"
  | CRecorded string string string

record comp_env =
  c_lib :: render_lib
  c_has_live :: bool
  c_get_composite :: "comp_event list \<Rightarrow> reader_kind \<Rightarrow> string \<Rightarrow> string \<Rightarrow> DoComposite result"
  c_get_definition :: "comp_event list \<Rightarrow> reader_kind \<Rightarrow> string \<Rightarrow> DoCompositeDefinition result"
  c_get_revision :: "comp_event list \<Rightarrow> reader_kind \<Rightarrow> string \<Rightarrow> DoCompositeDefinitionRevision result"
  c_get_child :: "comp_event list \<Rightarrow> reader_kind \<Rightarrow> string \<Rightarrow> string \<Rightarrow> DoResource result"
  c_list_revisions :: "comp_event list \<Rightarrow> DoCompositeDefinitionRevision list result"
  c_list_composites :: "comp_event list \<Rightarrow> reader_kind \<Rightarrow> DoComposite list result"
  c_list_by_definition :: "comp_event list \<Rightarrow> string \<Rightarrow> DoComposite list result"
  c_list_children :: "comp_event list \<Rightarrow> string \<Rightarrow> string \<Rightarrow> DoResource list result"
  c_create_revision :: "comp_event list \<Rightarrow> DoCompositeDefinitionRevision \<Rightarrow> DoCompositeDefinitionRevision result"
  c_delete_revision :: "comp_event list \<Rightarrow> DoCompositeDefinitionRevision \<Rightarrow> string \<Rightarrow> error option"
  c_delete_child :: "comp_event list \<Rightarrow> DoResource \<Rightarrow> string option \<Rightarrow> error option"
  c_CreateOrUpdate ::
    "comp_event list \<Rightarrow> DoResource \<Rightarrow> (DoResource \<Rightarrow> DoResource result) \<Rightarrow> comp_event list \<times> DoResource result"
  c_update_composite_status :: "comp_event list \<Rightarrow> DoComposite \<Rightarrow> error option"
  c_update_definition_status :: "comp_event list \<Rightarrow> DoCompositeDefinition \<Rightarrow> DoCompositeDefinition result"
  c_retry_again :: "comp_event list \<Rightarrow> error \<Rightarrow> bool"
  c_retry_steps :: nat
  c_SetStatusCondition :: "Condition list \<Rightarrow> Condition \<Rightarrow> Condition list"
  c_IsStatusConditionTrue :: "Condition list \<Rightarrow> string \<Rightarrow> bool"
  c_IsControlledBy :: "ObjectMeta \<Rightarrow> ObjectMeta \<Rightarrow> bool"
  c_SetControllerReference :: "ObjectMeta \<Rightarrow> ObjectMeta \<Rightarrow> ObjectMeta result"
  c_DeepEqual :: "DoCompositeDefinitionSpec \<Rightarrow> DoCompositeDefinitionSpec \<Rightarrow> bool"

type_synonym 'a crec = "(DoComposite, comp_event, 'a) action"

definition comp_reader :: "comp_env \<Rightarrow> reader_kind" where
  "comp_reader E = (if c_has_live E then LiveReader else CachedReader)"

definition Get_composite :: "comp_env \<Rightarrow> string \<Rightarrow> string \<Rightarrow> DoComposite result crec" where
  "Get_composite E ns name =
     ask (\<lambda>tr. c_get_composite E tr (comp_reader E) ns name) (CGetComposite (comp_reader E) ns name)"

definition Get_definition :: "comp_env \<Rightarrow> string \<Rightarrow> DoCompositeDefinition result crec" where
  "Get_definition E name =
     ask (\<lambda>tr. c_get_definition E tr (comp_reader E) name) (CGetDefinition (comp_reader E) name)"

definition Get_revision :: "comp_env \<Rightarrow> string \<Rightarrow> DoCompositeDefinitionRevision result crec" where
  "Get_revision E name =
     ask (\<lambda>tr. c_get_revision E tr (comp_reader E) name) (CGetRevision (comp_reader E) name)"

definition Get_child :: "comp_env \<Rightarrow> string \<Rightarrow> string \<Rightarrow> DoResource result crec" where
  "Get_child E ns name =
     ask (\<lambda>tr. c_get_child E tr (comp_reader E) ns name) (CGetChild (comp_reader E) ns name)"

definition List_revisions :: "comp_env \<Rightarrow> DoCompositeDefinitionRevision list result crec" where
  "List_revisions E = ask (c_list_revisions E) CListRevisions"

definition List_composites :: "comp_env \<Rightarrow> DoComposite list result crec" where
  "List_composites E =
     ask (\<lambda>tr. c_list_composites E tr (comp_reader E)) (CListComposites (comp_reader E))"

definition List_by_definition :: "comp_env \<Rightarrow> string \<Rightarrow> DoComposite list result crec" where
  "List_by_definition E name = ask (\<lambda>tr. c_list_by_definition E tr name) (CListByDefinition name)"

definition List_children :: "comp_env \<Rightarrow> string \<Rightarrow> string \<Rightarrow> DoResource list result crec" where
  "List_children E ns labelValue = ask (\<lambda>tr. c_list_children E tr ns labelValue) (CListChildren ns labelValue)"

definition Create_revision :: "comp_env \<Rightarrow> DoCompositeDefinitionRevision \<Rightarrow> DoCompositeDefinitionRevision result crec" where
  "Create_revision E rvn = ask (\<lambda>tr. c_create_revision E tr rvn) (CCreateRevision rvn)"

text \<open>Deletes carry the UID precondition of the call, if it has one.\<close>

definition Delete_revision :: "comp_env \<Rightarrow> DoCompositeDefinitionRevision \<Rightarrow> string \<Rightarrow> error option crec" where
  "Delete_revision E rvn uid = ask (\<lambda>tr. c_delete_revision E tr rvn uid) (CDeleteRevision rvn uid)"

definition Delete_child :: "comp_env \<Rightarrow> DoResource \<Rightarrow> string option \<Rightarrow> error option crec" where
  "Delete_child E child uid = ask (\<lambda>tr. c_delete_child E tr child uid) (CDeleteChild child uid)"

definition Update_composite_status :: "comp_env \<Rightarrow> DoComposite \<Rightarrow> error option crec" where
  "Update_composite_status E cmp = ask (\<lambda>tr. c_update_composite_status E tr cmp) (CUpdateCompositeStatus cmp)"

definition Update_definition_status :: "comp_env \<Rightarrow> DoCompositeDefinition \<Rightarrow> DoCompositeDefinition result crec" where
  "Update_definition_status E def = ask (\<lambda>tr. c_update_definition_status E tr def) (CUpdateDefinitionStatus def)"

definition Comp_Eventf :: "string \<Rightarrow> string \<Rightarrow> string \<Rightarrow> unit crec" where
  "Comp_Eventf etype reason msg = emit (CRecorded etype reason msg)"

definition CreateOrUpdate ::
  "comp_env \<Rightarrow> DoResource \<Rightarrow> (DoResource \<Rightarrow> DoResource result) \<Rightarrow> DoResource result crec" where
  "CreateOrUpdate E child mutate = library_call (\<lambda>tr. c_CreateOrUpdate E tr child mutate)"

definition create_or_update_contract :: "comp_env \<Rightarrow> bool" where
  "create_or_update_contract E \<longleftrightarrow>
     (\<forall>tr child mutate. upsert_events (CFetchChild (om_Namespace (meta child)) (om_Name (meta child))) CWriteChild child mutate
        (fst (c_CreateOrUpdate E tr child mutate)))"

lemmas comp_call_defs = Get_composite_def Get_definition_def Get_revision_def Get_child_def List_revisions_def
  List_composites_def List_by_definition_def List_children_def Create_revision_def Delete_revision_def
  Delete_child_def Update_composite_status_def Update_definition_status_def Comp_Eventf_def

end
