(* ===== verification/Do_Composite.thy ===== *)
theory Do_Composite
  imports Composite_Env
begin

text \<open>
  The DoComposite controller: definition revisions
  (\<open>internal/controller/composite_revision.go\<close>) and the reconcile loop that renders a
  composite, applies and prunes its children and rolls up their status
  (\<open>docomposite_controller.go\<close>). The object of the world is the composite.
\<close>

section \<open>Status\<close>

definition setCompositeCondition ::
  "comp_env \<Rightarrow> string \<Rightarrow> ConditionStatus \<Rightarrow> string \<Rightarrow> string \<Rightarrow> DoComposite \<Rightarrow> DoComposite" where
  "setCompositeCondition E condType cstatus reason message cmp =
     cmp\<lparr>comp_status := (comp_status cmp)\<lparr>comps_Conditions :=
       c_SetStatusCondition E (comps_Conditions (comp_status cmp))
         \<lparr>c_Type = condType, c_Status = cstatus, c_Reason = reason, c_Message = message,
          c_ObservedGeneration = om_Generation (comp_meta cmp)\<rparr>\<rparr>\<rparr>"

definition persistCompositeStatus :: "comp_env \<Rightarrow> error option crec" where
  "persistCompositeStatus E =
     do { cmp \<leftarrow> get_obj;
          retry (c_retry_again E) (c_retry_steps E)
            (do { r \<leftarrow> Get_composite E (om_Namespace (comp_meta cmp)) (om_Name (comp_meta cmp));
                  case r of
                    Inl e \<Rightarrow> ret (IgnoreNotFound (Some e))
                  | Inr latest \<Rightarrow>
                      do { err \<leftarrow> Update_composite_status E (latest\<lparr>comp_status := comp_status cmp\<rparr>);
                           ret (IgnoreNotFound err) } }) }"

definition markCompositeFailed :: "comp_env \<Rightarrow> string \<Rightarrow> error \<Rightarrow> reconcile_result crec" where
  "markCompositeFailed E reason err =
     do { Comp_Eventf ''Warning'' reason (compact (e_msg err));
          modify_obj (setCompositeCondition E ConditionSynced ConditionFalse reason (compact (e_msg err)));
          modify_obj (setCompositeCondition E ConditionReady ConditionFalse reason
                        ''current generation failed to render or apply'');
          perr \<leftarrow> persistCompositeStatus E;
          case perr of
            Some e \<Rightarrow> ret (no_requeue, Some e)
          | None \<Rightarrow> ret (no_requeue\<lparr>RequeueAfter := 60 * 10 ^ 9\<rparr>, None) }"

definition setCompositeReadiness ::
  "comp_env \<Rightarrow> nat \<Rightarrow> nat \<Rightarrow> bool \<Rightarrow> string list \<Rightarrow> DoComposite \<Rightarrow> DoComposite" where
  "setCompositeReadiness E ready count replacing pendingOutputs =
     (if replacing then
        setCompositeCondition E ConditionReady ConditionFalse ''ReplacingChildren''
          ''waiting for replaced child resources to finish deleting''
      else if ready = count then
        setCompositeCondition E ConditionReady ConditionTrue ''Available''
          (''all child resources are ready'' @
           (if pendingOutputs \<noteq> [] then ''; outputs pending: '' @ Join pendingOutputs '', '' else []))
      else
        setCompositeCondition E ConditionReady ConditionFalse ''ChildrenNotReady''
          (show_nat ready @ '' of '' @ show_nat count @ '' child resources ready''))"

text \<open>
  \<open>updateDefinitionUsage\<close> writes through its pointer: the definition afterwards is the
  server's reply, or the local copy when the write failed.
\<close>

definition updateDefinitionUsage :: "comp_env \<Rightarrow> DoCompositeDefinition \<Rightarrow> DoCompositeDefinition crec" where
  "updateDefinitionUsage E def =
     do { r \<leftarrow> List_by_definition E (om_Name (def_meta def));
          case r of
            Inl _ \<Rightarrow> ret def
          | Inr comps \<Rightarrow>
              (let count = int32 (int (length comps)) in
               if cdst_Composites (def_status def) = count then ret def
               else let def' = def\<lparr>def_status := (def_status def)\<lparr>cdst_Composites := count\<rparr>\<rparr>
                    in do { u \<leftarrow> Update_definition_status E def';
                            ret (case u of Inl _ \<Rightarrow> def' | Inr d \<Rightarrow> d) }) }"

section \<open>Revisions\<close>

definition revisionHistoryLimit :: int where "revisionHistoryLimit = 10"

text \<open>The names the composites pin or record.\<close>

definition referenced_revisions :: "DoComposite list \<Rightarrow> string set" where
  "referenced_revisions comps =
     set (concat (map (\<lambda>c.
       (case comp_RevisionRef (comp_spec c) of None \<Rightarrow> [] | Some r \<Rightarrow> [rr_Name r]) @
       (if comps_Revision (comp_status c) \<noteq> [] then [comps_Revision (comp_status c)] else [])) comps))"

primrec prune_loop ::
  "comp_env \<Rightarrow> string \<Rightarrow> int \<Rightarrow> string set \<Rightarrow> DoCompositeDefinitionRevision list \<Rightarrow> unit crec" where
  "prune_loop E def newest referenced [] = ret ()"
| "prune_loop E def newest referenced (rvn # revs) =
     (if rev_DefinitionName (rev_spec rvn) \<noteq> def \<or> int64 (newest - revisionHistoryLimit) < rev_Revision (rev_spec rvn)
      then prune_loop E def newest referenced revs
      else if om_Name (rev_meta rvn) \<in> referenced then prune_loop E def newest referenced revs
      else do { _ \<leftarrow> Delete_revision E rvn (om_UID (rev_meta rvn));
                prune_loop E def newest referenced revs })"

definition pruneRevisions :: "comp_env \<Rightarrow> DoCompositeDefinition \<Rightarrow> int \<Rightarrow> unit crec" where
  "pruneRevisions E def newest =
     do { rr \<leftarrow> List_revisions E;
          case rr of
            Inl _ \<Rightarrow> ret ()
          | Inr revs \<Rightarrow>
              do { cr \<leftarrow> List_composites E;
                   case cr of
                     Inl _ \<Rightarrow> ret ()
                   | Inr comps \<Rightarrow>
                       prune_loop E (om_Name (def_meta def)) newest (referenced_revisions comps) revs } }"

definition latest_revision ::
  "string \<Rightarrow> DoCompositeDefinitionRevision list \<Rightarrow> DoCompositeDefinitionRevision option" where
  "latest_revision def revs =
     foldl (\<lambda>latest rvn.
       if rev_DefinitionName (rev_spec rvn) \<noteq> def then latest
       else case latest of
           None \<Rightarrow> Some rvn
         | Some l \<Rightarrow> if rev_Revision (rev_spec l) < rev_Revision (rev_spec rvn) then Some rvn else latest)
       None revs"

definition next_revision ::
  "DoCompositeDefinition \<Rightarrow> DoCompositeDefinitionRevision option \<Rightarrow> DoCompositeDefinitionRevision" where
  "next_revision def latest =
     (let next = (case latest of None \<Rightarrow> 1 | Some l \<Rightarrow> int64 (rev_Revision (rev_spec l) + 1)) in
      \<lparr>rev_meta = blank_meta\<lparr>om_Name := om_Name (def_meta def) @ ''-v'' @ show_int next\<rparr>,
       rev_spec = \<lparr>rev_DefinitionName = om_Name (def_meta def), rev_Revision = next, rev_Definition = def_spec def\<rparr>\<rparr>)"

definition ensureLatestRevision ::
  "comp_env \<Rightarrow> DoCompositeDefinition \<Rightarrow> DoCompositeDefinitionRevision result crec" where
  "ensureLatestRevision E def =
     do { lr \<leftarrow> List_revisions E;
          case lr of
            Inl e \<Rightarrow> ret (Inl e)
          | Inr items \<Rightarrow>
              (let latest = latest_revision (om_Name (def_meta def)) items in
               case (case latest of
                       None \<Rightarrow> None
                     | Some l \<Rightarrow> if c_DeepEqual E (rev_Definition (rev_spec l)) (def_spec def) then Some l else None) of
                 Some l \<Rightarrow> ret (Inr l)
               | None \<Rightarrow>
                   (let rvn = next_revision def latest in
                    case c_SetControllerReference E (def_meta def) (rev_meta rvn) of
                      Inl e \<Rightarrow> ret (Inl e)
                    | Inr m \<Rightarrow>
                        do { cr \<leftarrow> Create_revision E (rvn\<lparr>rev_meta := m\<rparr>);
                             made \<leftarrow> (case cr of
                                        Inr created \<Rightarrow> ret (Inr created)
                                      | Inl e \<Rightarrow>
                                          if \<not> IsAlreadyExistsApi e then ret (Inl e)
                                          else Get_revision E (om_Name (rev_meta rvn)));
                             case made of
                               Inl e \<Rightarrow> ret (Inl e)
                             | Inr r \<Rightarrow>
                                 do { pruneRevisions E def (rev_Revision (rev_spec r));
                                      ret (Inr r) } })) }"

definition pinned_revision :: "DoComposite \<Rightarrow> string option" where
  "pinned_revision cmp =
     (case comp_RevisionRef (comp_spec cmp) of
        Some r \<Rightarrow> Some (rr_Name r)
      | None \<Rightarrow>
          if comp_UpdatePolicy (comp_spec cmp) = UpdateManual \<and> comps_Revision (comp_status cmp) \<noteq> []
          then Some (comps_Revision (comp_status cmp)) else None)"

definition resolveRevision ::
  "comp_env \<Rightarrow> DoCompositeDefinition \<Rightarrow> DoCompositeDefinitionRevision result crec" where
  "resolveRevision E def =
     do { cmp \<leftarrow> get_obj;
          lr \<leftarrow> ensureLatestRevision E def;
          case lr of
            Inl e \<Rightarrow> ret (Inl e)
          | Inr latest \<Rightarrow>
              (case pinned_revision cmp of
                 None \<Rightarrow> ret (Inr latest)
               | Some pinned \<Rightarrow>
                   if pinned = om_Name (rev_meta latest) then ret (Inr latest)
                   else do {
                     gr \<leftarrow> Get_revision E pinned;
                     case gr of
                       Inl e \<Rightarrow> ret (Inl e)
                     | Inr rvn \<Rightarrow>
                         if rev_DefinitionName (rev_spec rvn) \<noteq> om_Name (def_meta def) then
                           ret (Inl (sentinel_wrap errRevisionMismatch '': ''
                             (Errorf (''revision '' @ Quote pinned @ '' snapshots definition '' @
                                Quote (rev_DefinitionName (rev_spec rvn)) @ '', not '' @ Quote (om_Name (def_meta def))))))
                         else ret (Inr rvn) }) }"

section \<open>Children\<close>

record childApplyResult =
  ca_status :: CompositeResourceStatus
  ca_replacing :: bool
  ca_observed :: "DoResource option"

definition label_item :: "DoResource \<Rightarrow> string" where
  "label_item r = (case gomap_get (om_Labels (meta r)) labelCompositeItem of Some v \<Rightarrow> v | None \<Rightarrow> [])"

definition merge_map :: "'v gomap \<Rightarrow> 'v gomap \<Rightarrow> 'v gomap" where
  "merge_map base new = foldl (\<lambda>m kv. gomap_put (fst kv) (snd kv) m) base new"

definition mutate_child :: "comp_env \<Rightarrow> DoComposite \<Rightarrow> DoResource \<Rightarrow> DoResource \<Rightarrow> DoResource result" where
  "mutate_child E cmp desired child =
     (let m = (meta child)\<lparr>om_Labels := merge_map (om_Labels (meta child)) (om_Labels (meta desired)),
                           om_Annotations := merge_map (om_Annotations (meta child)) (om_Annotations (meta desired))\<rparr>
      in case c_SetControllerReference E (comp_meta cmp) m of
           Inl e \<Rightarrow> Inl e
         | Inr m' \<Rightarrow> Inr (child\<lparr>meta := m', spec := spec desired\<rparr>))"

definition child_key :: "DoResource \<Rightarrow> DoResource" where
  "child_key desired =
     \<lparr>meta = blank_meta\<lparr>om_Name := om_Name (meta desired), om_Namespace := om_Namespace (meta desired)\<rparr>,
      spec = child_spec \<lparr>t_Name = [], t_Type = [], t_Package = [], t_ProviderRef = None, t_DeletionPolicy = DeletionUnset,
                         t_Properties = None, t_ExternalName = []\<rparr> [] [] \<lparr>spec_Properties := None\<rparr>,
      status = fresh_status\<rparr>"

text \<open>The second half of \<open>applyChild\<close>: create or update.\<close>

definition write_child :: "comp_env \<Rightarrow> DoComposite \<Rightarrow> DoResource \<Rightarrow> childApplyResult result crec" where
  "write_child E cmp desired =
     do { r \<leftarrow> CreateOrUpdate E (child_key desired) (mutate_child E cmp desired);
          case r of
            Inl e \<Rightarrow> ret (Inl (sentinel_wrap errApplyChild ('' '' @ Quote (om_Name (meta desired)) @ '': '') e))
          | Inr child \<Rightarrow>
              ret (Inr \<lparr>ca_status = \<lparr>crs_Name = label_item child, crs_ResourceName = om_Name (meta child),
                                     crs_Ready = c_IsStatusConditionTrue E (st_Conditions (status child)) ConditionReady,
                                     crs_ID = st_ID (status child)\<rparr>,
                        ca_replacing = False, ca_observed = Some child\<rparr>) }"

definition replacing_result :: "DoResource \<Rightarrow> DoResource \<Rightarrow> childApplyResult" where
  "replacing_result desired existing =
     \<lparr>ca_status = \<lparr>crs_Name = label_item desired, crs_ResourceName = om_Name (meta desired),
                   crs_Ready = False, crs_ID = st_ID (status existing)\<rparr>,
      ca_replacing = True, ca_observed = None\<rparr>"

definition applyChild :: "comp_env \<Rightarrow> DoResource \<Rightarrow> childApplyResult result crec" where
  "applyChild E desired =
     do { cmp \<leftarrow> get_obj;
          g \<leftarrow> Get_child E (om_Namespace (meta desired)) (om_Name (meta desired));
          case g of
            Inl e \<Rightarrow> if IsNotFound e then write_child E cmp desired else ret (Inl e)
          | Inr existing \<Rightarrow>
              if \<not> c_IsControlledBy E (meta existing) (comp_meta cmp) then
                ret (Inl (sentinel_wrap errApplyChild ('' '' @ Quote (om_Name (meta desired)) @ '': '')
                  (Errorf ''name collides with an existing DoResource not owned by this composite'')))
              else
                (let needsReplace = (spec_Type (spec existing) \<noteq> spec_Type (spec desired)) in
                 do { derr \<leftarrow> (if needsReplace \<and> \<not> om_Deleting (meta existing)
                              then do { Comp_Eventf ''Normal'' ''ReplacingChild''
                                          (''Recreating child DoResource '' @ Quote (om_Name (meta desired)) @
                                           '': type changed from '' @ spec_Type (spec existing) @ '' to '' @
                                           spec_Type (spec desired));
                                        err \<leftarrow> Delete_child E existing (Some (om_UID (meta existing)));
                                        ret (IgnoreNotFound err) }
                              else ret None);
                      case derr of
                        Some e \<Rightarrow> ret (Inl e)
                      | None \<Rightarrow>
                          if needsReplace \<or> om_Deleting (meta existing)
                          then ret (Inr (replacing_result desired existing))
                          else write_child E cmp desired }) }"

text \<open>What the loop over the children collects.\<close>

record applied =
  ap_statuses :: "CompositeResourceStatus list"
  ap_observed :: "DoResource gomap"
  ap_ready :: nat
  ap_replacing :: bool

definition collect :: "DoResource \<Rightarrow> childApplyResult \<Rightarrow> applied \<Rightarrow> applied" where
  "collect desired st acc =
     \<lparr>ap_statuses = ap_statuses acc @ [ca_status st],
      ap_observed = (case ca_observed st of
                       None \<Rightarrow> ap_observed acc | Some c \<Rightarrow> gomap_put (label_item desired) c (ap_observed acc)),
      ap_ready = (if crs_Ready (ca_status st) then Suc (ap_ready acc) else ap_ready acc),
      ap_replacing = (ap_replacing acc \<or> ca_replacing st)\<rparr>"

text \<open>\<open>Inl\<close> is an early return of the reconcile.\<close>

primrec apply_children :: "comp_env \<Rightarrow> DoResource list \<Rightarrow> applied \<Rightarrow> (reconcile_result + applied) crec" where
  "apply_children E [] acc = ret (Inr acc)"
| "apply_children E (desired # children) acc =
     do { r \<leftarrow> applyChild E desired;
          case r of
            Inl e \<Rightarrow>
              if IsConflict e then ret (Inl (no_requeue, Some e))
              else if errors_Is (Some e) errApplyChild then
                do { f \<leftarrow> markCompositeFailed E ''ApplyFailed'' e; ret (Inl f) }
              else ret (Inl (no_requeue, Some e))
          | Inr st \<Rightarrow> apply_children E children (collect desired st acc) }"

primrec prune_children :: "comp_env \<Rightarrow> string list \<Rightarrow> DoResource list \<Rightarrow> error option crec" where
  "prune_children E keep [] = ret None"
| "prune_children E keep (child # items) =
     do { cmp \<leftarrow> get_obj;
          if om_Name (meta child) \<in> set keep then prune_children E keep items
          else if \<not> c_IsControlledBy E (meta child) (comp_meta cmp) then prune_children E keep items
          else if om_Deleting (meta child) then prune_children E keep items
          else do {
            err \<leftarrow> Delete_child E child None;
            case IgnoreNotFound err of
              Some e \<Rightarrow> ret (Some e)
            | None \<Rightarrow>
                do { Comp_Eventf ''Normal'' ''Pruned''
                       (''Deleted child DoResource '' @ Quote (om_Name (meta child)) @ '' (removed from definition)'');
                     prune_children E keep items } } }"

definition publishOutputs ::
  "comp_env \<Rightarrow> DoCompositeDefinition \<Rightarrow> DoResource gomap \<Rightarrow> string list result crec" where
  "publishOutputs E def observed =
     do { cmp \<leftarrow> get_obj;
          case renderOutputs (c_lib E) cmp def observed of
            Inl e \<Rightarrow> ret (Inl e)
          | Inr (outputs, pending) \<Rightarrow>
              do { put_obj (cmp\<lparr>comp_status := (comp_status cmp)\<lparr>comps_Outputs :=
                              (if outputs \<noteq> [] then Some (JObj outputs) else None)\<rparr>\<rparr>);
                   ret (Inr pending) } }"

section \<open>Reconcile\<close>

definition finish_status :: "comp_env \<Rightarrow> applied \<Rightarrow> nat \<Rightarrow> string \<Rightarrow> string list \<Rightarrow> DoComposite \<Rightarrow> DoComposite" where
  "finish_status E acc count revision pending cmp =
     setCompositeReadiness E (ap_ready acc) count (ap_replacing acc) pending
       (setCompositeCondition E ConditionSynced ConditionTrue ''Synced'' ''definition rendered and children applied''
         (cmp\<lparr>comp_status := (comp_status cmp)
            \<lparr>comps_Resources := ap_statuses acc,
             comps_ReadyResources := show_nat (ap_ready acc) @ ''/'' @ show_nat count,
             comps_Revision := revision,
             comps_ObservedGeneration := om_Generation (comp_meta cmp)\<rparr>\<rparr>))"

definition reconcile_children ::
  "comp_env \<Rightarrow> DoCompositeDefinition \<Rightarrow> DoCompositeDefinitionRevision \<Rightarrow> DoResource list \<Rightarrow> reconcile_result crec" where
  "reconcile_children E effective revision children =
     do { ar \<leftarrow> apply_children E children \<lparr>ap_statuses = [], ap_observed = [], ap_ready = 0, ap_replacing = False\<rparr>;
          case ar of
            Inl halt \<Rightarrow> ret halt
          | Inr acc \<Rightarrow>
              do { po \<leftarrow> publishOutputs E effective (ap_observed acc);
                   case po of
                     Inl e \<Rightarrow> markCompositeFailed E ''RenderFailed'' e
                   | Inr pending \<Rightarrow>
                       do { cmp \<leftarrow> get_obj;
                            lr \<leftarrow> List_children E (om_Namespace (comp_meta cmp))
                                    (compositeLabelValue (c_lib E) (om_Name (comp_meta cmp)));
                            case lr of
                              Inl e \<Rightarrow> ret (no_requeue, Some e)
                            | Inr owned \<Rightarrow>
                                do { perr \<leftarrow> prune_children E (map (\<lambda>c. om_Name (meta c)) children) owned;
                                     case perr of
                                       Some e \<Rightarrow> ret (no_requeue, Some e)
                                     | None \<Rightarrow>
                                         do { modify_obj (finish_status E acc (length children)
                                                (om_Name (rev_meta revision)) pending);
                                              err \<leftarrow> persistCompositeStatus E;
                                              case err of
                                                Some e \<Rightarrow> ret (no_requeue, Some e)
                                              | None \<Rightarrow>
                                                  ret (if ap_replacing acc
                                                       then no_requeue\<lparr>RequeueAfter := 15 * 10 ^ 9\<rparr>
                                                       else no_requeue, None) } } } } }"

definition reconcile_revision :: "comp_env \<Rightarrow> DoCompositeDefinition \<Rightarrow> reconcile_result crec" where
  "reconcile_revision E def =
     do { rr \<leftarrow> resolveRevision E def;
          case rr of
            Inl e \<Rightarrow>
              if IsNotFound e then markCompositeFailed E ''RevisionNotFound'' e
              else if errors_Is (Some e) errRevisionMismatch then markCompositeFailed E ''RevisionInvalid'' e
              else ret (no_requeue, Some e)
          | Inr revision \<Rightarrow>
              do { cmp \<leftarrow> get_obj;
                   let effective = def\<lparr>def_spec := rev_Definition (rev_spec revision)\<rparr>;
                   case renderComposite (c_lib E) cmp effective of
                     Inl e \<Rightarrow> markCompositeFailed E ''RenderFailed'' e
                   | Inr children \<Rightarrow> reconcile_children E effective revision children } }"

definition Reconcile :: "comp_env \<Rightarrow> string \<Rightarrow> string \<Rightarrow> reconcile_result crec" where
  "Reconcile E ns name =
     do { gr \<leftarrow> Get_composite E ns name;
          case gr of
            Inl e \<Rightarrow> ret (no_requeue, IgnoreNotFound (Some e))
          | Inr cmp \<Rightarrow>
              do { put_obj cmp;
                   if om_Deleting (comp_meta cmp) then ret (no_requeue, None)
                   else do {
                     dr \<leftarrow> Get_definition E (comp_Definition (comp_spec cmp));
                     case dr of
                       Inl e \<Rightarrow>
                         if IsNotFound e then
                           markCompositeFailed E ''DefinitionNotFound''
                             (Errorf (''DoCompositeDefinition '' @ Quote (comp_Definition (comp_spec cmp)) @ '' not found''))
                         else ret (no_requeue, Some e)
                     | Inr def0 \<Rightarrow>
                         do { def \<leftarrow> updateDefinitionUsage E def0;
                              reconcile_revision E def } } } }"

text \<open>Wake-ups: the composites of a changed definition.\<close>

definition comp_index :: "DoComposite \<Rightarrow> string list" where
  "comp_index cmp = (if comp_Definition (comp_spec cmp) = [] then [] else [comp_Definition (comp_spec cmp)])"

definition mapDefinition :: "comp_env \<Rightarrow> string \<Rightarrow> (string \<times> string) list crec" where
  "mapDefinition E name =
     do { r \<leftarrow> List_by_definition E name;
          ret (case r of
                 Inl _ \<Rightarrow> []
               | Inr comps \<Rightarrow> map (\<lambda>c. (om_Namespace (comp_meta c), om_Name (comp_meta c))) comps) }"

end
