(* ===== verification/Composite_Examples.thy ===== *)
theory Composite_Examples
  imports Do_Composite
begin

text \<open>
  A concrete cluster for the witnesses of the DoComposite properties: the definition
  \<open>stack\<close> was edited after its eleventh revision, one composite records the second one, and
  no child exists yet.
\<close>

definition old_revision :: "int \<Rightarrow> DoCompositeDefinitionRevision" where
  "old_revision n =
     \<lparr>rev_meta = blank_meta\<lparr>om_Name := ''stack-v'' @ show_int n, om_UID := ''r'' @ show_int n\<rparr>,
      rev_spec = \<lparr>rev_DefinitionName = ''stack'', rev_Revision = n,
                  rev_Definition = \<lparr>cds_Resources = [], cds_Outputs = None, cds_API = None\<rparr>\<rparr>\<rparr>"

definition recording_composite :: "string \<Rightarrow> DoComposite" where
  "recording_composite name =
     demo_composite\<lparr>comp_status := (comp_status demo_composite)\<lparr>comps_Revision := name\<rparr>\<rparr>"

definition demo_comp_env :: comp_env where
  "demo_comp_env =
     \<lparr>c_lib = demo_lib, c_has_live = True,
      c_get_composite = (\<lambda>_ _ _ _. Inr demo_composite),
      c_get_definition = (\<lambda>_ _ n. Inr (demo_definition\<lparr>def_meta := (def_meta demo_definition)\<lparr>om_Name := n\<rparr>\<rparr>)),
      c_get_revision = (\<lambda>_ _ n. Inr ((old_revision 2)\<lparr>rev_meta := (rev_meta (old_revision 2))\<lparr>om_Name := n\<rparr>\<rparr>)),
      c_get_child = (\<lambda>_ _ _ _. Inl (api_error ApiNotFound ''not found'')),
      c_list_revisions = (\<lambda>_. Inr [old_revision 1, old_revision 2, old_revision 11]),
      c_list_composites = (\<lambda>_ _. Inr [demo_composite, recording_composite ''stack-v2'']),
      c_list_by_definition = (\<lambda>_ _. Inr [demo_composite]),
      c_list_children = (\<lambda>_ _ _. Inr []),
      c_create_revision = (\<lambda>_ rvn. Inr rvn), c_delete_revision = (\<lambda>_ _ _. None), c_delete_child = (\<lambda>_ _ _. None),
      c_CreateOrUpdate = (\<lambda>_ child mutate.
        (case mutate child of
           Inl e \<Rightarrow> ([CFetchChild (om_Namespace (meta child)) (om_Name (meta child)) (Inr None)], Inl e)
         | Inr new \<Rightarrow> ([CFetchChild (om_Namespace (meta child)) (om_Name (meta child)) (Inr None),
                       CWriteChild None new (Inr new)], Inr new))),
      c_update_composite_status = (\<lambda>_ _. None), c_update_definition_status = (\<lambda>_ d. Inr d),
      c_retry_again = (\<lambda>_ e. IsConflict e), c_retry_steps = 4,
      c_SetStatusCondition = std_SetStatusCondition,
      c_IsStatusConditionTrue = (\<lambda>cs t. list_ex (\<lambda>c. c_Type c = t \<and> c_Status c = ConditionTrue) cs),
      c_IsControlledBy = (\<lambda>m o'. list_ex (\<lambda>r. or_Controller r \<and> or_UID r = om_UID o') (om_Owners m)),
      c_SetControllerReference = (\<lambda>o' m. Inr (m\<lparr>om_Owners :=
         [\<lparr>or_Kind = ''DoComposite'', or_Name = om_Name o', or_UID = om_UID o', or_Controller = True\<rparr>]\<rparr>)),
      c_DeepEqual = (\<lambda>a b. a = b)\<rparr>"

lemma demo_names:
  "c_get_definition demo_comp_env tr rd n = Inr d \<Longrightarrow> om_Name (def_meta d) = n"
  "c_update_definition_status demo_comp_env tr d = Inr d' \<Longrightarrow> om_Name (def_meta d') = om_Name (def_meta d)"
  "c_get_revision demo_comp_env tr rd n = Inr r \<Longrightarrow> om_Name (rev_meta r) = n"
  "c_get_composite demo_comp_env tr rd ns n = Inr demo_composite"
  by (auto simp: demo_comp_env_def)

lemma demo_contract: "create_or_update_contract demo_comp_env"
  by (auto simp: create_or_update_contract_def upsert_events_def demo_comp_env_def split: sum.split)

end
