(* ===== verification/Composite_Safety.thy ===== *)
theory Composite_Safety
  imports Composite_Examples Guards
begin

text \<open>
  What the DoComposite controller never does, whatever the API server answers: touch a child
  it does not own. The calculus of theory \<open>Guards\<close> is applied to every operation of the
  controller in turn.
\<close>

section \<open>The composite's metadata stay put\<close>

definition same_comp_meta :: "DoComposite \<Rightarrow> DoComposite \<Rightarrow> bool" where
  "same_comp_meta a b = (comp_meta a = comp_meta b)"

lemma same_comp_meta_rel: "reflp same_comp_meta" "transp same_comp_meta"
  by (auto simp: reflp_def transp_def same_comp_meta_def)

lemma changes_comp_calls [changes_intros]:
  "reflp R \<Longrightarrow> changes R (Get_composite E ns name)" "reflp R \<Longrightarrow> changes R (Get_definition E name)"
  "reflp R \<Longrightarrow> changes R (Get_revision E name)" "reflp R \<Longrightarrow> changes R (Get_child E ns name)"
  "reflp R \<Longrightarrow> changes R (List_revisions E)" "reflp R \<Longrightarrow> changes R (List_composites E)"
  "reflp R \<Longrightarrow> changes R (List_by_definition E name)" "reflp R \<Longrightarrow> changes R (List_children E ns l)"
  "reflp R \<Longrightarrow> changes R (Create_revision E rvn)" "reflp R \<Longrightarrow> changes R (Delete_revision E rvn uid)"
  "reflp R \<Longrightarrow> changes R (Delete_child E child u)" "reflp R \<Longrightarrow> changes R (Update_composite_status E cmp)"
  "reflp R \<Longrightarrow> changes R (Update_definition_status E def)" "reflp R \<Longrightarrow> changes R (Comp_Eventf t reason msg)"
  by (auto simp: comp_call_defs intro!: changes_intros)

lemma emits_comp_calls [emits_intros]:
  "(\<And>r. A (CGetComposite (comp_reader E) ns name r)) \<Longrightarrow> emits A (Get_composite E ns name)"
  "(\<And>r. A (CGetDefinition (comp_reader E) name r)) \<Longrightarrow> emits A (Get_definition E name)"
  "(\<And>r. A (CGetRevision (comp_reader E) name r)) \<Longrightarrow> emits A (Get_revision E name)"
  "(\<And>r. A (CGetChild (comp_reader E) ns name r)) \<Longrightarrow> emits A (Get_child E ns name)"
  "(\<And>r. A (CListRevisions r)) \<Longrightarrow> emits A (List_revisions E)"
  "(\<And>r. A (CListComposites (comp_reader E) r)) \<Longrightarrow> emits A (List_composites E)"
  "(\<And>r. A (CListByDefinition name r)) \<Longrightarrow> emits A (List_by_definition E name)"
  "(\<And>r. A (CListChildren ns l r)) \<Longrightarrow> emits A (List_children E ns l)"
  "(\<And>r. A (CCreateRevision rvn r)) \<Longrightarrow> emits A (Create_revision E rvn)"
  "(\<And>r. A (CDeleteRevision rvn uid r)) \<Longrightarrow> emits A (Delete_revision E rvn uid)"
  "(\<And>r. A (CDeleteChild child u r)) \<Longrightarrow> emits A (Delete_child E child u)"
  "(\<And>r. A (CUpdateCompositeStatus cmp r)) \<Longrightarrow> emits A (Update_composite_status E cmp)"
  "(\<And>r. A (CUpdateDefinitionStatus def r)) \<Longrightarrow> emits A (Update_definition_status E def)"
  "A (CRecorded t reason msg) \<Longrightarrow> emits A (Comp_Eventf t reason msg)"
  by (auto simp: comp_call_defs intro!: emits_intros)

lemma changes_CreateOrUpdate [changes_intros]: "reflp R \<Longrightarrow> changes R (CreateOrUpdate E child mutate)"
  unfolding CreateOrUpdate_def by (rule changes_library_call)

lemma emits_CreateOrUpdate [emits_intros]:
  assumes "create_or_update_contract E" "\<And>ns nm r. A (CFetchChild ns nm r)" "\<And>cur new r. A (CWriteChild cur new r)"
  shows "emits A (CreateOrUpdate E child mutate)"
  unfolding CreateOrUpdate_def
  by (intro emits_library_call upsert_events_all) (use assms in \<open>auto simp: create_or_update_contract_def\<close>)

lemma set_condition_meta [simp]:
  "comp_meta (setCompositeCondition E ct cs reason msg cmp) = comp_meta cmp"
  "comp_meta (setCompositeReadiness E a b c ps cmp) = comp_meta cmp"
  "comp_meta (finish_status E acc n rv ps cmp) = comp_meta cmp"
  by (simp_all add: setCompositeCondition_def setCompositeReadiness_def finish_status_def)

lemma changes_persistCompositeStatus [changes_intros]: "reflp R \<Longrightarrow> transp R \<Longrightarrow> changes R (persistCompositeStatus E)"
  unfolding persistCompositeStatus_def by (intro changes_intros)

lemma changes_condition [changes_intros]:
  "changes same_comp_meta (modify_obj (setCompositeCondition E ct cs reason msg))"
  by (rule changes_modify) (simp add: same_comp_meta_def)

lemma changes_markCompositeFailed: "changes same_comp_meta (markCompositeFailed E reason err)"
  unfolding markCompositeFailed_def by (intro changes_intros same_comp_meta_rel)

lemma changes_updateDefinitionUsage: "changes same_comp_meta (updateDefinitionUsage E def)"
  unfolding updateDefinitionUsage_def by (intro changes_intros same_comp_meta_rel)

lemma changes_prune_loop: "changes same_comp_meta (prune_loop E def newest referenced revs)"
  by (induction revs) (auto intro!: changes_intros same_comp_meta_rel)

lemma changes_ensureLatestRevision: "changes same_comp_meta (ensureLatestRevision E def)"
  unfolding ensureLatestRevision_def pruneRevisions_def
  by (intro changes_intros changes_prune_loop same_comp_meta_rel)

lemma changes_resolveRevision: "changes same_comp_meta (resolveRevision E def)"
  unfolding resolveRevision_def by (intro changes_intros changes_ensureLatestRevision same_comp_meta_rel)

lemma changes_applyChild: "changes same_comp_meta (applyChild E desired)"
  unfolding applyChild_def write_child_def by (intro changes_intros same_comp_meta_rel)

lemma changes_apply_children: "changes same_comp_meta (apply_children E children acc)"
  by (induction children arbitrary: acc)
     (auto intro!: changes_intros changes_applyChild changes_markCompositeFailed same_comp_meta_rel)

lemma changes_publishOutputs: "changes same_comp_meta (publishOutputs E def observed)"
  unfolding changes_def publishOutputs_def by (auto simp: same_comp_meta_def split: sum.split prod.split)

lemma changes_prune_children: "changes same_comp_meta (prune_children E keep items)"
  by (induction items) (auto intro!: changes_intros same_comp_meta_rel)

section \<open>Children\<close>

text \<open>
  A child is deleted only when the composite controls it and it is not already being deleted,
  and it was just read: by name, with its UID as the precondition of the delete, or in the
  list of the composite's children. It is written only with the composite as its controller,
  and after a read under the same name found nothing, or an object the composite controls that
  is not being deleted and has the type the child is about to get.
\<close>

definition safe_read :: "comp_env \<Rightarrow> ObjectMeta \<Rightarrow> string \<Rightarrow> DoResource result \<Rightarrow> bool" where
  "safe_read E m ctype g =
     (case g of
        Inl e \<Rightarrow> IsNotFound e
      | Inr existing \<Rightarrow> c_IsControlledBy E (meta existing) m \<and> \<not> om_Deleting (meta existing) \<and> spec_Type (spec existing) = ctype)"

definition child_guard :: "comp_env \<Rightarrow> ObjectMeta \<Rightarrow> comp_event list \<Rightarrow> comp_event \<Rightarrow> bool" where
  "child_guard E m pre e =
     (case e of
        CDeleteChild child uid _ \<Rightarrow>
          c_IsControlledBy E (meta child) m \<and> \<not> om_Deleting (meta child) \<and>
          (case uid of
             Some u \<Rightarrow> u = om_UID (meta child) \<and> (\<exists>rd ns nm. CGetChild rd ns nm (Inr child) \<in> set pre)
           | None \<Rightarrow> (\<exists>ns l owned. CListChildren ns l (Inr owned) \<in> set pre \<and> child \<in> set owned))
      | CWriteChild cur new _ \<Rightarrow>
          (\<exists>om. c_SetControllerReference E m om = Inr (meta new)) \<and>
          (\<exists>ns nm rd g. CFetchChild ns nm (Inr cur) \<in> set pre \<and> CGetChild rd ns nm g \<in> set pre \<and>
             safe_read E m (spec_Type (spec new)) g)
      | _ \<Rightarrow> True)"

text \<open>Interactions that do not concern children.\<close>

fun no_child :: "comp_event \<Rightarrow> bool" where
  "no_child (CDeleteChild _ _ _) = False"
| "no_child (CWriteChild _ _ _) = False"
| "no_child _ = True"

lemma no_child_guard: "no_child e \<Longrightarrow> child_guard E m tr e"
  by (cases e) (auto simp: child_guard_def)

abbreviation own :: "ObjectMeta \<Rightarrow> (DoComposite, comp_event) world \<Rightarrow> bool" where
  "own m s \<equiv> comp_meta (obj s) = m"

abbreviation own_with :: "ObjectMeta \<Rightarrow> comp_event \<Rightarrow> (DoComposite, comp_event) world \<Rightarrow> bool" where
  "own_with m e s \<equiv> own m s \<and> e \<in> set (trace s)"

abbreviation keeps_own :: "comp_env \<Rightarrow> ObjectMeta \<Rightarrow> 'a crec \<Rightarrow> bool" where
  "keeps_own E m \<equiv> keeps (child_guard E m) (own m)"

abbreviation ends_own :: "comp_env \<Rightarrow> ObjectMeta \<Rightarrow> 'a crec \<Rightarrow> bool" where
  "ends_own E m \<equiv> ends (child_guard E m) (own m)"

abbreviation keeps_with :: "comp_env \<Rightarrow> ObjectMeta \<Rightarrow> comp_event \<Rightarrow> 'a crec \<Rightarrow> bool" where
  "keeps_with E m e \<equiv> keeps (child_guard E m) (own_with m e)"

abbreviation ends_with :: "comp_env \<Rightarrow> ObjectMeta \<Rightarrow> comp_event \<Rightarrow> 'a crec \<Rightarrow> bool" where
  "ends_with E m e \<equiv> ends (child_guard E m) (own_with m e)"

lemma ends_quiet: "emits no_child a \<Longrightarrow> ends (child_guard E m) I a"
  by (erule ends_emits) (rule no_child_guard)

lemma keeps_own_ends: "ends_own E m a \<Longrightarrow> changes same_comp_meta a \<Longrightarrow> keeps_own E m a"
  by (rule keeps_obj [where R = same_comp_meta]) (auto simp: same_comp_meta_def)

lemma keeps_own_quiet: "emits no_child a \<Longrightarrow> changes same_comp_meta a \<Longrightarrow> keeps_own E m a"
  by (intro keeps_own_ends ends_quiet)

lemma keeps_with_ends:
  "ends_with E m e a \<Longrightarrow> changes same_comp_meta a \<Longrightarrow> emits (\<lambda>_. True) a \<Longrightarrow> keeps_with E m e a"
  by (rule keeps_obj_known [where R = same_comp_meta]) (auto simp: same_comp_meta_def)

lemma keeps_with_quiet: "emits no_child a \<Longrightarrow> changes same_comp_meta a \<Longrightarrow> keeps_with E m e a"
  by (intro keeps_with_ends ends_quiet) (auto elim: emits_mono)

text \<open>The composite read from the world is the one whose children these are.\<close>

lemma ends_own_get:
  "(\<And>x. comp_meta x = m \<Longrightarrow> ends_own E m (f x)) \<Longrightarrow> ends_own E m (get_obj \<bind> f)"
  "(\<And>x. comp_meta x = m \<Longrightarrow> ends_with E m e (f x)) \<Longrightarrow> ends_with E m e (get_obj \<bind> f)"
  unfolding ends_def valid_def by (fastforce split: prod.splits)+

lemma ends_own_ask:
  assumes "\<And>r. no_child (ev r)" "\<And>r. ends_with E m (ev r) (f r)"
  shows "ends_own E m (ask reply ev \<bind> f)"
  by (rule ends_ask [where J = "\<lambda>r. own_with m (ev r)"]) (simp_all add: assms no_child_guard)

lemma emits_persistCompositeStatus: "emits no_child (persistCompositeStatus E)"
  unfolding persistCompositeStatus_def by (intro emits_intros; simp)

lemma emits_markCompositeFailed: "emits no_child (markCompositeFailed E reason err)"
  unfolding markCompositeFailed_def by (intro emits_intros emits_persistCompositeStatus; simp)

lemma emits_updateDefinitionUsage: "emits no_child (updateDefinitionUsage E def)"
  unfolding updateDefinitionUsage_def by (intro emits_intros; simp)

lemma emits_prune_loop: "emits no_child (prune_loop E def newest referenced revs)"
  by (induction revs) (auto intro!: emits_intros)

lemma emits_resolveRevision: "emits no_child (resolveRevision E def)"
  unfolding resolveRevision_def ensureLatestRevision_def pruneRevisions_def
  by (intro emits_intros emits_prune_loop; simp)

lemma emits_publishOutputs: "emits A (publishOutputs E def observed)"
  unfolding publishOutputs_def by (intro emits_intros)

lemma emits_prune_children_any: "emits (\<lambda>_. True) (prune_children E keep items)"
  by (induction items) (auto intro!: emits_intros)

text \<open>Writing: the read that allows it is in the trace.\<close>

lemma mutate_child_Inr:
  "mutate_child E cmp desired c = Inr new \<Longrightarrow>
     spec new = spec desired \<and> (\<exists>om. c_SetControllerReference E (comp_meta cmp) om = Inr (meta new))"
  by (auto simp: mutate_child_def Let_def split: sum.splits)

lemma ends_write_child:
  assumes "create_or_update_contract E" "safe_read E (comp_meta cmp) (spec_Type (spec desired)) g"
  shows "ends_with E (comp_meta cmp) (CGetChild rd (om_Namespace (meta desired)) (om_Name (meta desired)) g)
     (write_child E cmp desired)"
proof -
  let ?g = "CGetChild rd (om_Namespace (meta desired)) (om_Name (meta desired)) g"
  have key: "om_Namespace (meta (child_key desired)) = om_Namespace (meta desired)"
    "om_Name (meta (child_key desired)) = om_Name (meta desired)" by (simp_all add: child_key_def)
  have "ends_with E (comp_meta cmp) ?g (CreateOrUpdate E (child_key desired) (mutate_child E cmp desired))"
    unfolding CreateOrUpdate_def
  proof (rule ends_upsert)
    show "upsert_events (CFetchChild (om_Namespace (meta desired)) (om_Name (meta desired))) CWriteChild (child_key desired)
        (mutate_child E cmp desired) (fst (c_CreateOrUpdate E tr (child_key desired) (mutate_child E cmp desired)))" for tr
      using assms(1) [unfolded create_or_update_contract_def, rule_format, of "child_key desired"] by (simp add: key)
    show "child_guard E (comp_meta cmp)
        (trace s @ [CFetchChild (om_Namespace (meta desired)) (om_Name (meta desired)) (Inr cur)]) (CWriteChild cur new q)"
      if "own_with (comp_meta cmp) ?g s" "mutate_child E cmp desired (case cur of None \<Rightarrow> child_key desired | Some c \<Rightarrow> c) = Inr new"
      for s cur new q
      using that(1) mutate_child_Inr [OF that(2)] assms(2) by (auto simp: child_guard_def)
  qed (simp add: child_guard_def)
  then show ?thesis
    unfolding write_child_def by (rule ends_then) (auto intro!: emits_intros)
qed

lemma ends_owned_child:
  assumes "create_or_update_contract E" "c_IsControlledBy E (meta existing) (comp_meta cmp)"
    and "needs \<longleftrightarrow> spec_Type (spec existing) \<noteq> spec_Type (spec desired)"
  shows "ends_with E (comp_meta cmp) (CGetChild rd (om_Namespace (meta desired)) (om_Name (meta desired)) (Inr existing))
      (do { derr \<leftarrow> (if needs \<and> \<not> om_Deleting (meta existing)
                    then do { Comp_Eventf t rn msg; err \<leftarrow> Delete_child E existing (Some (om_UID (meta existing)));
                              ret (IgnoreNotFound err) }
                    else ret None);
            case derr of
              Some e \<Rightarrow> ret (Inl e)
            | None \<Rightarrow> if needs \<or> om_Deleting (meta existing) then ret (Inr (replacing_result desired existing))
                      else write_child E cmp desired })"
proof (cases "needs \<or> om_Deleting (meta existing)")
  case True
  let ?g = "CGetChild rd (om_Namespace (meta desired)) (om_Name (meta desired)) (Inr existing)"
  have ev: "keeps_with E (comp_meta cmp) ?g (Comp_Eventf t rn msg)"
    by (rule keeps_with_quiet) (auto simp: same_comp_meta_rel intro!: emits_intros changes_intros)
  have del: "ends_with E (comp_meta cmp) ?g (Delete_child E existing (Some (om_UID (meta existing))))"
    if "\<not> om_Deleting (meta existing)"
    unfolding Delete_child_def by (rule ends_ask_last) (use assms that in \<open>auto simp: child_guard_def\<close>)
  show ?thesis
    by (rule ends_then) (use True in \<open>auto intro!: ends_cases ends_return ends_bind [OF ev] ends_then [OF del] emits_intros\<close>)
next
  case False
  then have "safe_read E (comp_meta cmp) (spec_Type (spec desired)) (Inr existing)" using assms by (simp add: safe_read_def)
  with False show ?thesis by (simp add: ends_write_child assms(1))
qed

lemma ends_applyChild:
  assumes "create_or_update_contract E"
  shows "ends_own E m (applyChild E desired)"
  unfolding applyChild_def Get_child_def
  by (rule ends_own_get, rule ends_own_ask)
     (auto simp: Let_def safe_read_def intro!: ends_cases ends_return ends_write_child ends_owned_child assms)

lemma ends_apply_children:
  assumes "create_or_update_contract E"
  shows "ends_own E m (apply_children E children acc)"
proof (induction children arbitrary: acc)
  case (Cons desired children)
  have fail: "ends_own E m (do { f \<leftarrow> markCompositeFailed E reason e; ret (Inl f) })" for reason e
    by (rule ends_quiet, rule emits_bind, rule emits_markCompositeFailed, rule emits_return)
  show ?case
    unfolding apply_children.simps
    by (intro ends_intros fail Cons.IH keeps_own_ends ends_applyChild assms changes_applyChild)
qed (simp add: ends_return)

lemma ends_prune_children:
  assumes "set items \<subseteq> set owned"
  shows "ends_with E m (CListChildren ns l (Inr owned)) (prune_children E keep items)"
  using assms
proof (induction items)
  case (Cons child items)
  let ?l = "CListChildren ns l (Inr owned)"
  have del: "keeps_with E m ?l (Delete_child E child None)"
    if "c_IsControlledBy E (meta child) m" "\<not> om_Deleting (meta child)"
  proof (rule keeps_with_ends)
    show "ends_with E m ?l (Delete_child E child None)"
      unfolding Delete_child_def
      by (rule ends_ask_last) (use that Cons.prems in \<open>auto simp: child_guard_def\<close>)
  qed (auto simp: same_comp_meta_rel intro!: emits_intros changes_intros)
  have ev: "keeps_with E m ?l (Comp_Eventf t rn msg)" for t rn msg
    by (rule keeps_with_quiet) (auto simp: same_comp_meta_rel intro!: emits_intros changes_intros)
  have IH: "ends_with E m ?l (prune_children E keep items)" using Cons by simp
  show ?case
    unfolding prune_children.simps
    by (rule ends_own_get, intro ends_intros IH del ev) auto
qed (simp add: ends_return)

lemma ends_reconcile_children:
  assumes "create_or_update_contract E"
  shows "ends_own E m (reconcile_children E effective revision children)"
proof -
  have finish: "keeps_with E m e (modify_obj (finish_status E acc n rv ps))" for e acc n rv ps
    by (rule keeps_with_quiet) (auto simp: same_comp_meta_def intro!: emits_intros changes_modify)
  have quiet: "keeps_with E m e (persistCompositeStatus E)" "keeps_own E m (publishOutputs E effective obs)" for e obs
    by (intro keeps_own_quiet keeps_with_quiet emits_publishOutputs emits_persistCompositeStatus
        changes_publishOutputs changes_persistCompositeStatus same_comp_meta_rel)+
  have prune: "keeps_with E m (CListChildren ns l (Inr owned)) (prune_children E keep owned)" for ns l owned keep
    by (intro keeps_with_ends ends_prune_children changes_prune_children emits_prune_children_any subset_refl)
  have list: "ends_own E m (List_children E ns l \<bind> f)"
    if "\<And>e. ends_own E m (f (Inl e))" "\<And>owned. ends_with E m (CListChildren ns l (Inr owned)) (f (Inr owned))"
    for ns l and f :: "DoResource list result \<Rightarrow> reconcile_result crec"
    unfolding List_children_def
  proof (rule ends_own_ask)
    fix r
    show "ends_with E m (CListChildren ns l r) (f r)"
      by (cases r, simp, rule ends_weaken [OF that(1)], simp) (simp add: that(2))
  qed simp
  have finishing: "ends_with E m (CListChildren ns l (Inr owned))
      (do { perr \<leftarrow> prune_children E keep owned;
            case perr of
              Some e \<Rightarrow> ret (no_requeue, Some e)
            | None \<Rightarrow> do { modify_obj (finish_status E acc n rv ps); err \<leftarrow> persistCompositeStatus E;
                           case err of Some e \<Rightarrow> ret (no_requeue, Some e) | None \<Rightarrow> ret (res, None) } })"
    for ns l owned keep acc n rv ps res
    by (intro ends_intros prune finish quiet)
  show ?thesis
    unfolding reconcile_children_def
    by (rule ends_bind, intro keeps_own_ends ends_apply_children assms changes_apply_children, rule ends_cases, rule ends_return,
        rule ends_bind, rule quiet, rule ends_cases, intro ends_quiet emits_markCompositeFailed,
        rule ends_own_get, rule list) (simp_all only: sum.case ends_return finishing)
qed

lemma ends_reconcile_revision:
  assumes "create_or_update_contract E"
  shows "ends_own E m (reconcile_revision E def)"
  unfolding reconcile_revision_def
  by (intro ends_intros ends_own_get keeps_own_quiet emits_resolveRevision changes_resolveRevision
      ends_quiet emits_markCompositeFailed ends_reconcile_children assms)

lemma ends_Reconcile:
  assumes "create_or_update_contract E" "c_get_composite E [] (comp_reader E) ns name = Inr cmp"
  shows "ends (child_guard E (comp_meta cmp)) (\<lambda>s. trace s = []) (Reconcile E ns name)"
proof -
  have quiet: "keeps_own E m (Get_definition E n)" "keeps_own E m (updateDefinitionUsage E def)" for m n def
    by (intro keeps_own_quiet emits_updateDefinitionUsage changes_updateDefinitionUsage
        emits_intros changes_intros same_comp_meta_rel; simp)+
  have main: "ends_own E (comp_meta cmp) (do { dr \<leftarrow> Get_definition E n;
      case dr of
        Inl e \<Rightarrow> if IsNotFound e then markCompositeFailed E reason (err e) else ret (no_requeue, Some e)
      | Inr def0 \<Rightarrow> do { def \<leftarrow> updateDefinitionUsage E def0; reconcile_revision E def } })" for n reason err
    by (intro ends_intros quiet ends_quiet emits_markCompositeFailed ends_reconcile_revision assms(1))
  have rest: "ends (child_guard E (comp_meta cmp)) (\<lambda>s. True) (do { put_obj cmp;
      if om_Deleting (comp_meta cmp) then ret (no_requeue, None) else m })"
    if "ends_own E (comp_meta cmp) m" for m :: "reconcile_result crec"
    by (rule ends_put [where I = "own (comp_meta cmp)"]) (auto intro!: ends_cases ends_return that)
  show ?thesis
    unfolding Reconcile_def Get_composite_def
    by (rule ends_ask [where J = "\<lambda>r s. r = Inr cmp \<and> True"], simp add: child_guard_def, simp add: assms(2),
        rule ends_assume) (simp add: rest main)
qed

text \<open>
  C22: Whatever the API server answers, a reconcile of a DoComposite deletes a child only if
  the composite it read controls it, it is not already being deleted, and it was just read
  (by name, in which case its UID is the precondition of the delete, or in the list of the
  composite's children); and it writes a child only with the composite as controller and after
  a read under that name found nothing, or found a live child of the composite of the same type.
\<close>

theorem composite_children_owned:
  assumes "create_or_update_contract E" "c_get_composite E [] (comp_reader E) ns name = Inr cmp"
  shows "guarded (child_guard E (comp_meta cmp))
           (trace (snd (run_state (Do_Composite.Reconcile E ns name) \<lparr>obj = x, trace = []\<rparr>)))"
  by (rule ends_guarded [OF ends_Reconcile [OF assms]]) simp_all

theorem composite_children_owned_witness:
  "guarded (child_guard demo_comp_env (comp_meta demo_composite))
     (trace (snd (run_state (Do_Composite.Reconcile demo_comp_env ''team'' ''web'') \<lparr>obj = demo_composite, trace = []\<rparr>))) \<and>
   length (filter (\<lambda>e. \<not> no_child e)
     (trace (snd (run_state (applyChild demo_comp_env (hd demo_children)) \<lparr>obj = demo_composite, trace = []\<rparr>)))) = 1"
proof
  show "guarded (child_guard demo_comp_env (comp_meta demo_composite))
     (trace (snd (run_state (Do_Composite.Reconcile demo_comp_env ''team'' ''web'') \<lparr>obj = demo_composite, trace = []\<rparr>)))"
    by (rule composite_children_owned [OF demo_contract demo_names(4)])
qed code_simp

end
