(* ===== verification/Composite_Revisions.thy ===== *)
theory Composite_Revisions
  imports Composite_Safety
begin

text \<open>
  Definition revisions: which ones a reconcile may delete, and which one a composite renders
  from.
\<close>

section \<open>Pruning\<close>

text \<open>
  A revision is deleted only when it is a revision of the definition, at least ten revisions
  older than the newest, with its own UID as the precondition, and when a live list of the
  composites read before shows that none of them pins or records it.
\<close>

definition uses_revision :: "string \<Rightarrow> DoComposite \<Rightarrow> bool" where
  "uses_revision name c \<longleftrightarrow>
     (\<exists>r. comp_RevisionRef (comp_spec c) = Some r \<and> rr_Name r = name) \<or>
     (name \<noteq> [] \<and> comps_Revision (comp_status c) = name)"

lemma referenced_revisions_iff: "name \<in> referenced_revisions comps \<longleftrightarrow> (\<exists>c\<in>set comps. uses_revision name c)"
  by (auto simp: referenced_revisions_def uses_revision_def split: option.splits if_splits) (metis option.exhaust)+

text \<open>The newest revision is the one the reconcile just created or, having lost the race, read.\<close>

fun new_revision :: "comp_event \<Rightarrow> DoCompositeDefinitionRevision option" where
  "new_revision (CCreateRevision _ (Inr r)) = Some r"
| "new_revision (CGetRevision _ _ (Inr r)) = Some r"
| "new_revision _ = None"

definition revision_guard :: "string \<Rightarrow> comp_event list \<Rightarrow> comp_event \<Rightarrow> bool" where
  "revision_guard def pre e =
     (case e of
        CDeleteRevision rvn uid _ \<Rightarrow>
          uid = om_UID (rev_meta rvn) \<and> rev_DefinitionName (rev_spec rvn) = def \<and>
          (\<exists>ev newest. ev \<in> set pre \<and> new_revision ev = Some newest \<and>
             rev_Revision (rev_spec rvn) \<le> int64 (rev_Revision (rev_spec newest) - 10)) \<and>
          (\<exists>rd comps. CListComposites rd (Inr comps) \<in> set pre \<and> \<not> (\<exists>c\<in>set comps. uses_revision (om_Name (rev_meta rvn)) c))
      | _ \<Rightarrow> True)"

fun no_revision :: "comp_event \<Rightarrow> bool" where
  "no_revision (CDeleteRevision _ _ _) = False"
| "no_revision _ = True"

lemma no_revision_guard: "no_revision e \<Longrightarrow> revision_guard def tr e"
  by (cases e) (auto simp: revision_guard_def)

lemma ends_rev_quiet: "emits no_revision m \<Longrightarrow> ends (revision_guard def) I m"
  by (erule ends_emits) (rule no_revision_guard)

lemma ends_rev_ask:
  assumes "\<And>r. no_revision (ev r)" "\<And>r. ends (revision_guard def) (\<lambda>s. e \<in> set (trace s) \<and> ev r \<in> set (trace s)) (f r)"
  shows "ends (revision_guard def) (\<lambda>s. e \<in> set (trace s)) (ask reply ev \<bind> f)"
  by (rule ends_ask [where J = "\<lambda>r s. e \<in> set (trace s) \<and> ev r \<in> set (trace s)"]) (simp_all add: assms no_revision_guard)

lemma ends_prune_loop:
  assumes "new_revision ev = Some newest"
  shows "ends (revision_guard def) (\<lambda>s. ev \<in> set (trace s) \<and> CListComposites rd (Inr comps) \<in> set (trace s))
           (prune_loop E def (rev_Revision (rev_spec newest)) (referenced_revisions comps) revs)"
proof (induction revs)
  case (Cons rvn revs)
  let ?I = "\<lambda>s. ev \<in> set (trace s) \<and> CListComposites rd (Inr comps) \<in> set (trace s)"
  have del: "ends (revision_guard def) ?I (Delete_revision E rvn (om_UID (rev_meta rvn)) \<bind> (\<lambda>_. m))"
    if "ends (revision_guard def) ?I m" "rev_DefinitionName (rev_spec rvn) = def"
      "rev_Revision (rev_spec rvn) \<le> int64 (rev_Revision (rev_spec newest) - 10)"
      "om_Name (rev_meta rvn) \<notin> referenced_revisions comps" for m :: "unit crec"
    unfolding Delete_revision_def
  proof (rule ends_ask [where J = "\<lambda>_. ?I"])
    show "revision_guard def (trace s) (CDeleteRevision rvn (om_UID (rev_meta rvn)) r)"
      if "?I s" for s r
      using that \<open>rev_DefinitionName _ = _\<close> \<open>_ \<le> int64 _\<close> \<open>_ \<notin> _\<close> assms
      by (auto simp: revision_guard_def referenced_revisions_iff)
  qed (use that in auto)
  show ?case
    unfolding prune_loop.simps by (intro ends_cases Cons.IH del) (auto simp: revisionHistoryLimit_def)
qed (simp add: ends_return)

lemma ends_pruneRevisions:
  assumes "new_revision ev = Some newest"
  shows "ends (revision_guard (om_Name (def_meta def))) (\<lambda>s. ev \<in> set (trace s))
           (pruneRevisions E def (rev_Revision (rev_spec newest)))"
proof -
  let ?G = "revision_guard (om_Name (def_meta def))"
  have loop: "ends ?G (\<lambda>s. ev \<in> set (trace s) \<and> CListComposites (comp_reader E) r \<in> set (trace s))
      (case r of Inl _ \<Rightarrow> ret ()
       | Inr comps \<Rightarrow> prune_loop E (om_Name (def_meta def)) (rev_Revision (rev_spec newest)) (referenced_revisions comps) revs)"
    for r revs
    by (cases r) (simp_all add: ends_return ends_prune_loop [OF assms])
  have listed: "ends ?G (\<lambda>s. ev \<in> set (trace s)) (List_composites E \<bind> f)"
    if "\<And>r. ends ?G (\<lambda>s. ev \<in> set (trace s) \<and> CListComposites (comp_reader E) r \<in> set (trace s)) (f r)"
    for f :: "DoComposite list result \<Rightarrow> unit crec"
    unfolding List_composites_def by (rule ends_rev_ask) (simp_all add: that)
  have "keeps ?G (\<lambda>s. ev \<in> set (trace s)) (List_revisions E)"
    unfolding keeps_def List_revisions_def valid_def by (simp add: guarded_snoc revision_guard_def)
  then show ?thesis
    unfolding pruneRevisions_def by (rule ends_bind) (intro ends_cases ends_return listed loop)
qed

lemma ends_ensureLatestRevision: "ends (revision_guard (om_Name (def_meta def))) (\<lambda>s. True) (ensureLatestRevision E def)"
proof -
  let ?G = "revision_guard (om_Name (def_meta def))"
  have prune: "ends ?G I (do { pruneRevisions E def (rev_Revision (rev_spec r)); ret (Inr r) })"
    if "\<And>s. I s \<Longrightarrow> ev \<in> set (trace s)" "new_revision ev = Some r" for I ev and r :: DoCompositeDefinitionRevision
    by (rule ends_then [OF ends_weaken [OF ends_pruneRevisions [OF that(2)]]]) (auto intro: that emits_return)
  let ?fin = "\<lambda>made. case made of Inl e \<Rightarrow> ret (Inl e)
                          | Inr r \<Rightarrow> do { pruneRevisions E def (rev_Revision (rev_spec r)); ret (Inr r) }"
  have get: "ends ?G I (Get_revision E n \<bind> ?fin)" for I n
    unfolding Get_revision_def
  proof (rule ends_ask [where J = "\<lambda>r s. CGetRevision (comp_reader E) n r \<in> set (trace s)"])
    fix r
    show "ends ?G (\<lambda>s. CGetRevision (comp_reader E) n r \<in> set (trace s)) (?fin r)"
      by (cases r) (auto simp: ends_return intro!: prune)
  qed (simp_all add: no_revision_guard)
  have create: "ends ?G (\<lambda>s. True) (do { cr \<leftarrow> Create_revision E r0;
      made \<leftarrow> (case cr of Inr created \<Rightarrow> ret (Inr created)
               | Inl e \<Rightarrow> if \<not> IsAlreadyExistsApi e then ret (Inl e) else Get_revision E n);
      ?fin made })" for r0 n
    unfolding Create_revision_def
  proof (rule ends_ask [where J = "\<lambda>r s. CCreateRevision r0 r \<in> set (trace s)"])
    fix cr
    show "ends ?G (\<lambda>s. CCreateRevision r0 cr \<in> set (trace s))
        (do { made \<leftarrow> (case cr of Inr created \<Rightarrow> ret (Inr created)
               | Inl e \<Rightarrow> if \<not> IsAlreadyExistsApi e then ret (Inl e) else Get_revision E n); ?fin made })"
      by (cases cr) (auto simp: State_Monad.bind_left_identity ends_return get intro!: prune)
  qed (simp_all add: no_revision_guard)
  have list: "keeps ?G (\<lambda>s. True) (List_revisions E)"
    by (rule keeps_emits [OF _ no_revision_guard]) (auto intro!: emits_intros)
  show ?thesis
    unfolding ensureLatestRevision_def
    by (rule ends_bind [OF list]) (intro ends_cases ends_return create)
qed

lemma emits_true_ensureLatestRevision: "emits (\<lambda>_. True) (ensureLatestRevision E def)"
  unfolding ensureLatestRevision_def pruneRevisions_def
  by (intro emits_intros emits_mono [OF emits_prune_loop]; simp)

lemma keeps_ensureLatestRevision: "keeps (revision_guard (om_Name (def_meta def))) (\<lambda>s. True) (ensureLatestRevision E def)"
  using ends_ensureLatestRevision [of def E] by (simp add: keeps_def ends_def)

lemma emits_no_revision:
  "emits no_revision (markCompositeFailed E reason err)" "emits no_revision (persistCompositeStatus E)"
  "emits no_revision (updateDefinitionUsage E def)"
  unfolding markCompositeFailed_def persistCompositeStatus_def updateDefinitionUsage_def
  by (intro emits_intros; simp)+

lemma emits_no_revision_applyChild:
  assumes "create_or_update_contract E"
  shows "emits no_revision (applyChild E desired)"
  unfolding applyChild_def write_child_def by (intro emits_intros assms; simp)

lemma emits_no_revision_loops:
  "create_or_update_contract E \<Longrightarrow> emits no_revision (apply_children E children acc)" "emits no_revision (prune_children E keep items)"
  by (induction children arbitrary: acc, auto intro!: emits_intros emits_no_revision emits_no_revision_applyChild)
     (induction items, auto intro!: emits_intros)

lemma emits_no_revision_children:
  assumes "create_or_update_contract E"
  shows "emits no_revision (reconcile_children E effective revision children)"
  unfolding reconcile_children_def
  by (intro emits_intros emits_no_revision emits_no_revision_loops emits_publishOutputs assms; simp)

lemma ends_rev_reconcile_revision:
  assumes "create_or_update_contract E"
  shows "ends (revision_guard (om_Name (def_meta def))) (\<lambda>s. True) (reconcile_revision E def)"
proof -
  let ?G = "revision_guard (om_Name (def_meta def))"
  have keep: "keeps ?G (\<lambda>s. True) get_obj" "keeps ?G (\<lambda>s. True) (Get_revision E n)" for n
    by (rule keeps_emits [OF _ no_revision_guard]; auto intro!: emits_intros)+
  have "ends ?G (\<lambda>s. True) (resolveRevision E def)"
    unfolding resolveRevision_def by (intro ends_intros keep keeps_ensureLatestRevision)
  then have "keeps ?G (\<lambda>s. True) (resolveRevision E def)" by (simp add: keeps_def ends_def)
  then show ?thesis
    unfolding reconcile_revision_def
    by (rule ends_bind) (intro ends_intros keep ends_rev_quiet emits_no_revision emits_no_revision_children assms)
qed

lemma updateDefinitionUsage_name:
  assumes "\<And>tr d d'. c_update_definition_status E tr d = Inr d' \<Longrightarrow> om_Name (def_meta d') = om_Name (def_meta d)"
  shows "yields (\<lambda>d. om_Name (def_meta d) = om_Name (def_meta def)) (updateDefinitionUsage E def)"
  unfolding updateDefinitionUsage_def yields_def
  by (auto simp: Let_def comp_call_defs split: sum.split dest!: assms)

lemma ends_rev_usage:
  assumes "create_or_update_contract E"
    and "\<And>tr d d'. c_update_definition_status E tr d = Inr d' \<Longrightarrow> om_Name (def_meta d') = om_Name (def_meta d)"
  shows "ends (revision_guard (om_Name (def_meta def0))) (\<lambda>s. True)
           (do { def \<leftarrow> updateDefinitionUsage E def0; reconcile_revision E def })"
proof (rule ends_bind_yields)
  show "keeps (revision_guard (om_Name (def_meta def0))) (\<lambda>s. True) (updateDefinitionUsage E def0)"
    by (rule keeps_emits [OF emits_no_revision(3) no_revision_guard])
  show "yields (\<lambda>d. om_Name (def_meta d) = om_Name (def_meta def0)) (updateDefinitionUsage E def0)"
    by (rule updateDefinitionUsage_name [OF assms(2)])
  fix d :: DoCompositeDefinition
  assume "om_Name (def_meta d) = om_Name (def_meta def0)"
  then show "ends (revision_guard (om_Name (def_meta def0))) (\<lambda>s. True) (reconcile_revision E d)"
    using ends_rev_reconcile_revision [OF assms(1), of d] by simp
qed



section \<open>Pinning\<close>

text \<open>
  A composite that names a revision, or a Manual one that has recorded one, renders from
  the revision of that name or from none at all: a definition edit never moves it. The revision
  is the newest one of the definition, or it is a snapshot of the same definition.
\<close>

theorem resolveRevision_pins:
  assumes "\<And>tr rd n r. c_get_revision E tr rd n = Inr r \<Longrightarrow> om_Name (rev_meta r) = n"
    and "pinned_revision cmp = Some pinned"
    and "run_state (resolveRevision E def) \<lparr>obj = cmp, trace = tr\<rparr> = (Inr rvn, s)"
  shows "om_Name (rev_meta rvn) = pinned \<and>
    (rev_DefinitionName (rev_spec rvn) = om_Name (def_meta def) \<or>
     fst (run_state (ensureLatestRevision E def) \<lparr>obj = cmp, trace = tr\<rparr>) = Inr rvn)"
proof -
  obtain lr s1 where lr: "run_state (ensureLatestRevision E def) \<lparr>obj = cmp, trace = tr\<rparr> = (lr, s1)" by fastforce
  show ?thesis
    using assms(2,3) lr
    by (auto simp: resolveRevision_def Get_revision_def split: sum.splits if_splits dest: assms(1))
qed

theorem resolveRevision_pins_witness:
  "fst (run_state (resolveRevision demo_comp_env demo_definition)
     \<lparr>obj = (recording_composite ''stack-v2'')\<lparr>comp_spec := (comp_spec demo_composite)\<lparr>comp_UpdatePolicy := UpdateManual\<rparr>\<rparr>,
      trace = []\<rparr>) = Inr (old_revision 2) \<and> om_Name (rev_meta (old_revision 2)) = ''stack-v2''"
proof
  let ?c = "(recording_composite ''stack-v2'')\<lparr>comp_spec := (comp_spec demo_composite)\<lparr>comp_UpdatePolicy := UpdateManual\<rparr>\<rparr>"
  show r: "fst (run_state (resolveRevision demo_comp_env demo_definition) \<lparr>obj = ?c, trace = []\<rparr>) = Inr (old_revision 2)"
    by code_simp
  have p: "pinned_revision ?c = Some ''stack-v2''" by code_simp
  obtain s where "run_state (resolveRevision demo_comp_env demo_definition) \<lparr>obj = ?c, trace = []\<rparr> = (Inr (old_revision 2), s)"
    using r by (metis prod.collapse)
  then show "om_Name (rev_meta (old_revision 2)) = ''stack-v2''"
    using resolveRevision_pins [of demo_comp_env, OF _ p] demo_names(3) by blast
qed

section \<open>Readiness\<close>

lemma length_filter_all: "length (filter P xs) = length xs \<longleftrightarrow> list_all P xs"
proof (induction xs)
  case (Cons x xs)
  moreover have "length (filter P xs) \<noteq> Suc (length xs)" using length_filter_le [of P xs] by linarith
  ultimately show ?case by simp
qed simp

text \<open>What the loop over the children counts.\<close>

definition counted :: "nat \<Rightarrow> applied \<Rightarrow> bool" where
  "counted n acc \<longleftrightarrow> length (ap_statuses acc) = n \<and> ap_ready acc = length (filter crs_Ready (ap_statuses acc)) \<and>
     (ap_replacing acc \<longrightarrow> (\<exists>st \<in> set (ap_statuses acc). \<not> crs_Ready st))"

lemma counted_collect:
  "counted n acc \<Longrightarrow> (ca_replacing st \<longrightarrow> \<not> crs_Ready (ca_status st)) \<Longrightarrow> counted (Suc n) (collect desired st acc)"
  by (auto simp: counted_def collect_def)

lemma applyChild_replacing:
  "yields (\<lambda>r. \<forall>st. r = Inr st \<longrightarrow> ca_replacing st \<longrightarrow> \<not> crs_Ready (ca_status st)) (applyChild E desired)"
  unfolding applyChild_def write_child_def Let_def
  by (intro yields_intros) (auto simp: replacing_result_def)

lemma apply_children_counted:
  "counted n acc \<Longrightarrow> yields (\<lambda>r. \<forall>acc'. r = Inr acc' \<longrightarrow> counted (n + length children) acc') (apply_children E children acc)"
proof (induction children arbitrary: n acc)
  case (Cons desired children)
  have rec: "yields (\<lambda>r. \<forall>acc'. r = Inr acc' \<longrightarrow> counted (Suc (n + length children)) acc')
      (apply_children E children (collect desired st acc))" if "ca_replacing st \<longrightarrow> \<not> crs_Ready (ca_status st)" for st
    using Cons.IH [OF counted_collect [OF Cons.prems that]] by simp
  show ?case
    unfolding apply_children.simps
    by (rule yields_bind [OF applyChild_replacing]) (auto intro!: yields_intros simp: rec)
qed (auto intro: yields_return)



end
