(* ===== verification/Typed_Crd.thy ===== *)
theory Typed_Crd
  imports Composite_Render Provider_Schema
begin

text \<open>
  Generated CRDs (\<open>internal/controller/typed_crd.go\<close>): from a provider resource's input
  schema, and from a composite definition's platform API. A CRD is modelled with every field
  the code sets or reads.
\<close>

section \<open>Names\<close>

definition typedGroup :: string where "typedGroup = ''typed.do.pulumi.com''"
definition typedVersion :: string where "typedVersion = ''v1alpha1''"
definition annTypedOwner :: string where "annTypedOwner = ''do.pulumi.com/owner''"
definition doplaneReservedProperty :: string where "doplaneReservedProperty = ''doplane''"
definition schemaTypeObject :: string where "schemaTypeObject = ''object''"

definition kindFromToken :: "string \<Rightarrow> string" where
  "kindFromToken token = rev (takeWhile (\<lambda>c. c \<noteq> CHR '':'') (rev token))"

definition pluralize :: "string \<Rightarrow> string" where
  "pluralize kind =
     (let lower = ToLower kind in
      if HasSuffix lower ''s'' \<or> HasSuffix lower ''x'' \<or> HasSuffix lower ''ch'' then lower @ ''es''
      else if HasSuffix lower ''y'' \<and> 1 < length lower \<and> lower ! (length lower - 2) \<notin> set ''aeiou''
      then take (length lower - 1) lower @ ''ies''
      else lower @ ''s'')"

definition to_upper_char :: "char \<Rightarrow> char" where
  "to_upper_char c =
     (if 97 \<le> (of_char c :: nat) \<and> (of_char c :: nat) \<le> 122
      then char_of ((of_char c :: nat) - 32) else c)"

definition ToUpper :: "string \<Rightarrow> string" where
  "ToUpper s = map to_upper_char s"

section \<open>Schemas\<close>

text \<open>A schema node with only a type, and the node that accepts anything.\<close>

definition type_node :: "string \<Rightarrow> JSONSchemaProps" where
  "type_node t = JSONSchemaProps t [] None False None [] None False [] None []"

definition any_node :: JSONSchemaProps where
  "any_node = JSONSchemaProps [] [] None False None [] None True [] None []"

definition object_node :: "(string \<times> JSONSchemaProps) list \<Rightarrow> string list \<Rightarrow> string \<Rightarrow> JSONSchemaProps" where
  "object_node props required description =
     JSONSchemaProps schemaTypeObject props None False None required None False description None []"

definition open_object :: JSONSchemaProps where
  "open_object = JSONSchemaProps schemaTypeObject [] None False None [] None True [] None []"

definition enum_node :: "string \<Rightarrow> string list \<Rightarrow> JSONSchemaProps" where
  "enum_node description vals = JSONSchemaProps ''string'' [] None False None [] None False description None (map JStr vals)"

definition name_node :: JSONSchemaProps where
  "name_node = JSONSchemaProps ''string'' [] None False None [] None False [] (Some 1) []"

fun propsToJSONSchema :: "PropertySchema \<Rightarrow> JSONSchemaProps" where
  "propsToJSONSchema (PropertySchema ty ref items aps oneOf) =
     (if ty \<in> {''string'', ''boolean'', ''integer'', ''number''} then type_node ty
      else if ty = ''array'' then
        JSONSchemaProps ''array'' [] None False
          (Some (case items of None \<Rightarrow> any_node | Some i \<Rightarrow> propsToJSONSchema i)) [] None False [] None []
      else if ty = schemaTypeObject then
        (case aps of
           None \<Rightarrow> open_object
         | Some ap \<Rightarrow> JSONSchemaProps schemaTypeObject [] (Some (propsToJSONSchema ap)) False None [] None False [] None [])
      else any_node)"

section \<open>Custom resource definitions\<close>

record CRDVersion =
  v_Name :: string
  v_Served :: bool
  v_Storage :: bool
  v_Deprecated :: bool
  v_StatusSubresource :: bool
  v_Columns :: "PrinterColumn list"
  v_Schema :: JSONSchemaProps

record CRDSpec =
  crd_Group :: string
  crd_Namespaced :: bool
  crd_Kind :: string
  crd_ListKind :: string
  crd_Plural :: string
  crd_Singular :: string
  crd_Versions :: "CRDVersion list"

record CRD =
  crd_meta :: ObjectMeta
  crd_spec :: CRDSpec
  crd_StoredVersions :: "string list"

record crdVersion =
  cv_name :: string
  cv_storage :: bool
  cv_deprecated :: bool

text \<open>The author's columns sit between the conditions and the age.\<close>

definition typed_columns :: "PrinterColumn list \<Rightarrow> PrinterColumn list" where
  "typed_columns extra =
     [\<lparr>pc_Name = ''READY'', pc_Type = ''string'', pc_JSONPath = ''.status.conditions[?(@.type=='Ready')].status''\<rparr>,
      \<lparr>pc_Name = ''SYNCED'', pc_Type = ''string'', pc_JSONPath = ''.status.conditions[?(@.type=='Synced')].status''\<rparr>,
      \<lparr>pc_Name = ''REASON'', pc_Type = ''string'', pc_JSONPath = ''.status.conditions[?(@.type=='Synced')].reason''\<rparr>] @
     extra @
     [\<lparr>pc_Name = ''AGE'', pc_Type = ''date'', pc_JSONPath = ''.metadata.creationTimestamp''\<rparr>]"

definition served_version ::
  "JSONSchemaProps \<Rightarrow> PrinterColumn list \<Rightarrow> string \<Rightarrow> crdVersion \<Rightarrow> CRDVersion" where
  "served_version sch columns description v =
     \<lparr>v_Name = cv_name v, v_Served = True, v_Storage = cv_storage v, v_Deprecated = cv_deprecated v,
      v_StatusSubresource = True, v_Columns = columns,
      v_Schema = object_node [(''spec'', sch), (''status'', open_object)] [] description\<rparr>"

definition typedCRD ::
  "string \<Rightarrow> string \<Rightarrow> string \<Rightarrow> crdVersion list \<Rightarrow> JSONSchemaProps \<Rightarrow> PrinterColumn list \<Rightarrow> string \<Rightarrow> CRD" where
  "typedCRD grp kind plural versions sch extraColumns description =
     \<lparr>crd_meta = blank_meta\<lparr>om_Name := plural @ ''.'' @ grp, om_Labels := [(labelManagedByKey, ''doplane'')]\<rparr>,
      crd_spec = \<lparr>crd_Group = grp, crd_Namespaced = True, crd_Kind = kind, crd_ListKind = kind @ ''List'',
                  crd_Plural = plural, crd_Singular = ToLower kind,
                  crd_Versions = map (served_version sch (typed_columns extraColumns) description) versions\<rparr>,
      crd_StoredVersions = []\<rparr>"

definition with_owner :: "string \<Rightarrow> CRD \<Rightarrow> CRD" where
  "with_owner owner crd = crd\<lparr>crd_meta := (crd_meta crd)\<lparr>om_Annotations := [(annTypedOwner, owner)]\<rparr>\<rparr>"

definition for_provider :: "ResourceSchema \<Rightarrow> JSONSchemaProps" where
  "for_provider res =
     object_node (map (\<lambda>(name, prop). (name, propsToJSONSchema prop)) (InputProperties res)) (RequiredInputs res) []"

definition typed_resource_spec :: "ResourceSchema \<Rightarrow> JSONSchemaProps" where
  "typed_resource_spec res =
     object_node
       [(''deletionPolicy'', enum_node [] [''Delete'', ''Orphan'']),
        (''forProvider'', for_provider res),
        (''providerRef'', object_node [(''kind'', enum_node [] [''DoProvider'', ''DoProviderConfig'']), (''name'', name_node)]
                            [''name''] [])]
       [''forProvider''] []"

definition typedResourceCRD :: "string \<Rightarrow> PackageSchema \<Rightarrow> CRD result" where
  "typedResourceCRD token sch =
     (case gomap_get (Resources sch) token of
        None \<Rightarrow> Inl (Errorf (''resource type '' @ Quote token @ '' not found in schema of '' @ ps_Name sch @ ''@'' @ ps_Version sch))
      | Some res \<Rightarrow>
          (let kind = kindFromToken token; plural = pluralize kind;
               source = (if IsComponent res then ''component'' else ''resource'')
           in Inr (with_owner (''resource:'' @ token)
                (typedCRD typedGroup kind plural [\<lparr>cv_name = typedVersion, cv_storage = True, cv_deprecated = False\<rparr>]
                   (typed_resource_spec res) []
                   (''Generated by doplane from Pulumi '' @ source @ '' '' @ token @ '' ('' @ ps_Name sch @ ''@'' @
                    ps_Version sch @ '').'')))))"

definition compositeAPIGroup :: "CompositeAPI \<Rightarrow> string" where
  "compositeAPIGroup api = (if api_Group api \<noteq> [] then api_Group api else typedGroup)"

definition compositeAPIVersion :: "CompositeAPI \<Rightarrow> string" where
  "compositeAPIVersion api = (if api_Version api \<noteq> [] then api_Version api else typedVersion)"

definition compositeAPIPlural :: "CompositeAPI \<Rightarrow> string" where
  "compositeAPIPlural api = (if api_Plural api \<noteq> [] then api_Plural api else pluralize (api_Kind api))"

definition doplaneBlockSchema :: JSONSchemaProps where
  "doplaneBlockSchema =
     object_node
       [(''revisionRef'', object_node [(''name'', name_node)] [''name'']
                            ''Pins rendering to one DoCompositeDefinitionRevision.''),
        (''updatePolicy'', enum_node ''Automatic follows the definition's latest revision; Manual stays pinned.''
                             [''Automatic'', ''Manual''])]
       [] ''Reserved doplane lifecycle knobs (not platform parameters).''"

definition builtinPrinterColumns :: "string set" where
  "builtinPrinterColumns = {''READY'', ''SYNCED'', ''REASON'', ''AGE''}"

text \<open>The schema of the typed object's spec before the reserved block is added.\<close>

definition parameters_node :: "CompositeAPI \<Rightarrow> JSONSchemaProps result" where
  "parameters_node api =
     (case api_ParametersSchema api of
        None \<Rightarrow> Inr open_object
      | Some s \<Rightarrow>
          (case s of JSONSchemaProps ty props ap allows items required dflt preserve desc minlen enum \<Rightarrow>
             (let ty' = (if ty = [] then schemaTypeObject else ty) in
              if ty' \<noteq> schemaTypeObject then
                Inl (Errorf (''spec.api.parametersSchema must describe an object, not '' @ Quote ty'))
              else Inr (JSONSchemaProps ty' props ap allows items required dflt preserve desc minlen enum))))"

definition add_reserved :: "JSONSchemaProps \<Rightarrow> JSONSchemaProps" where
  "add_reserved s =
     (case s of JSONSchemaProps ty props ap allows items required dflt preserve desc minlen enum \<Rightarrow>
        JSONSchemaProps ty (gomap_put doplaneReservedProperty doplaneBlockSchema props)
          ap allows items required dflt preserve desc minlen enum)"

fun deprecated_versions :: "string \<Rightarrow> string list \<Rightarrow> crdVersion list result" where
  "deprecated_versions current [] = Inr []"
| "deprecated_versions current (v # vs) =
     (if v = current then
        Inl (Errorf (''spec.api.version '' @ Quote v @ '' cannot also be listed in deprecatedVersions''))
      else case deprecated_versions current vs of
          Inl e \<Rightarrow> Inl e
        | Inr cvs \<Rightarrow> Inr (\<lparr>cv_name = v, cv_storage = False, cv_deprecated = True\<rparr> # cvs))"

definition typedCompositeCRD :: "string \<Rightarrow> CompositeAPI \<Rightarrow> CRD result" where
  "typedCompositeCRD def api =
     (case parameters_node api of
        Inl e \<Rightarrow> Inl e
      | Inr s \<Rightarrow>
          if gomap_get (sp_Properties s) doplaneReservedProperty \<noteq> None then
            Inl (Errorf (''spec.api.parametersSchema declares a parameter named '' @ Quote doplaneReservedProperty @
                         ''; that name is reserved for doplane's lifecycle knobs''))
          else
            (case deprecated_versions (compositeAPIVersion api) (api_DeprecatedVersions api) of
               Inl e \<Rightarrow> Inl e
             | Inr dep \<Rightarrow>
                 (case find (\<lambda>col. ToUpper (pc_Name col) \<in> builtinPrinterColumns) (api_AdditionalPrinterColumns api) of
                    Some col \<Rightarrow>
                      Inl (Errorf (''spec.api.additionalPrinterColumns declares '' @ Quote (pc_Name col) @
                                   '', which is a built-in column''))
                  | None \<Rightarrow>
                      Inr (with_owner (''composite:'' @ def)
                        (typedCRD (compositeAPIGroup api) (api_Kind api) (compositeAPIPlural api)
                           (\<lparr>cv_name = compositeAPIVersion api, cv_storage = True, cv_deprecated = False\<rparr> # dep)
                           (add_reserved s) (api_AdditionalPrinterColumns api)
                           (''Generated by doplane from DoCompositeDefinition '' @ Quote def @ ''.''))))))"

section \<open>Admission and validation\<close>

text \<open>
  What the API server guarantees of an admitted value, as documented for structural CRD
  schemas: it has the node's type, its elements and members are admitted by their nodes,
  required members are there, and members the node does not declare have been pruned.
\<close>

definition structural :: "(JSONSchemaProps \<Rightarrow> json \<Rightarrow> bool) \<Rightarrow> bool" where
  "structural acc \<longleftrightarrow> (\<forall>s v. acc s v \<longrightarrow>
     (sp_Type s = ''string'' \<longrightarrow> (\<exists>x. v = JStr x)) \<and>
     (sp_Type s = ''boolean'' \<longrightarrow> (\<exists>x. v = JBool x)) \<and>
     (sp_Type s \<in> {''integer'', ''number''} \<longrightarrow> (\<exists>x. v = JNum x)) \<and>
     (sp_Type s = ''array'' \<longrightarrow> (\<exists>xs. v = JArr xs \<and> (\<forall>i. sp_Items s = Some i \<longrightarrow> list_all (acc i) xs))) \<and>
     (sp_Type s = ''object'' \<longrightarrow>
        (\<exists>m. v = JObj m \<and> (\<forall>r \<in> set (sp_Required s). gomap_get m r \<noteq> None) \<and>
           (\<forall>k x p. (k, x) \<in> set m \<longrightarrow> map_of (sp_Properties s) k = Some p \<longrightarrow> acc p x) \<and>
           (\<forall>k x a. (k, x) \<in> set m \<longrightarrow> map_of (sp_Properties s) k = None \<longrightarrow> sp_AdditionalProperties s = Some a \<longrightarrow> acc a x) \<and>
           (\<not> sp_PreserveUnknown s \<longrightarrow> \<not> sp_AllowsAdditional s \<longrightarrow> sp_AdditionalProperties s = None \<longrightarrow>
              (\<forall>k \<in> set (gomap_keys m). map_of (sp_Properties s) k \<noteq> None)))))"

lemma structuralD:
  assumes "structural acc" "acc s v"
  shows "sp_Type s = ''string'' \<Longrightarrow> \<exists>x. v = JStr x" "sp_Type s = ''boolean'' \<Longrightarrow> \<exists>x. v = JBool x"
    "sp_Type s \<in> {''integer'', ''number''} \<Longrightarrow> \<exists>x. v = JNum x"
    "sp_Type s = ''array'' \<Longrightarrow> \<exists>xs. v = JArr xs \<and> (\<forall>i. sp_Items s = Some i \<longrightarrow> list_all (acc i) xs)"
    "sp_Type s = ''object'' \<Longrightarrow>
       \<exists>m. v = JObj m \<and> (\<forall>r \<in> set (sp_Required s). gomap_get m r \<noteq> None) \<and>
           (\<forall>k x p. (k, x) \<in> set m \<longrightarrow> map_of (sp_Properties s) k = Some p \<longrightarrow> acc p x) \<and>
           (\<forall>k x a. (k, x) \<in> set m \<longrightarrow> map_of (sp_Properties s) k = None \<longrightarrow> sp_AdditionalProperties s = Some a \<longrightarrow> acc a x) \<and>
           (\<not> sp_PreserveUnknown s \<longrightarrow> \<not> sp_AllowsAdditional s \<longrightarrow> sp_AdditionalProperties s = None \<longrightarrow>
              (\<forall>k \<in> set (gomap_keys m). map_of (sp_Properties s) k \<noteq> None))"
  using assms unfolding structural_def by blast+

text \<open>An admitted value passes the operator's own type check, to any depth.\<close>

lemma propsToJSONSchema_sound:
  assumes "structural acc"
  shows "acc (propsToJSONSchema p) v \<Longrightarrow> admits n p v"
proof (induction n arbitrary: p v)
  case (Suc n)
  obtain ty ref items aps oneOf where p: "p = PropertySchema ty ref items aps oneOf" by (cases p)
  note law = structuralD [OF assms Suc.prems [unfolded p]]
  have scalar: "JSONKind v = ''string''" if "ty = ''string''"
    using law(1) that by (auto simp: type_node_def)
  have scalar2: "JSONKind v = ''boolean''" if "ty = ''boolean''"
    using law(2) that by (auto simp: type_node_def)
  have scalar3: "JSONKind v = ''number''" if "ty \<in> {''integer'', ''number''}"
    using law(3) that by (auto simp: type_node_def)
  have arr: "case v of JArr xs \<Rightarrow> (case items of None \<Rightarrow> True | Some it \<Rightarrow> list_all (admits n it) xs) | _ \<Rightarrow> False"
    if "ty = ''array''"
    using law(4) that Suc.IH by (fastforce simp: list_all_iff split: option.splits)
  have obj: "case v of JObj m \<Rightarrow> (case aps of None \<Rightarrow> True | Some it \<Rightarrow> list_all (\<lambda>(k, e). admits n it e) m) | _ \<Rightarrow> False"
    if "ty = ''object''"
    using law(5) that Suc.IH by (fastforce simp: schemaTypeObject_def open_object_def list_all_iff split: option.splits)
  show ?case
    unfolding p admits.simps PropertySchema.sel using scalar scalar2 scalar3 arr obj by blast
qed simp

lemma map_of_map_snd: "map_of (map (\<lambda>(k, v). (k, f v)) m) k = map_option f (map_of m k)"
  by (induction m) auto

lemma for_provider_valid:
  assumes "structural acc" "acc (for_provider res) (JObj props)"
    and "gomap_get (Resources sch) token = Some res"
  shows "Validate sch token props = Inr []"
proof -
  have law: "(\<forall>r \<in> set (RequiredInputs res). gomap_get props r \<noteq> None) \<and>
      (\<forall>k \<in> set (gomap_keys props). gomap_get (InputProperties res) k \<noteq> None) \<and>
      (\<forall>k x p. (k, x) \<in> set props \<longrightarrow> map_option propsToJSONSchema (gomap_get (InputProperties res) k) = Some p \<longrightarrow> acc p x)"
    using structuralD(5) [OF assms(1,2)] by (auto simp: for_provider_def object_node_def schemaTypeObject_def map_of_map_snd)
  have "\<exists>ps. gomap_get (InputProperties res) k = Some ps \<and> admits 17 ps v" if kv: "(k, v) \<in> set props" for k v
  proof -
    obtain ps where "gomap_get (InputProperties res) k = Some ps" using law kv by (force simp: gomap_keys_def)
    with law kv show ?thesis using propsToJSONSchema_sound [OF assms(1)] by fastforce
  qed
  with law assms(3) show ?thesis by (auto simp: Validate_valid_iff)
qed

lemma typed_resource_node:
  assumes "typedResourceCRD token sch = Inr crd" "v \<in> set (crd_Versions (crd_spec crd))"
  obtains res where "gomap_get (Resources sch) token = Some res"
    "map_of (sp_Properties (v_Schema v)) ''spec'' = Some (typed_resource_spec res)" "sp_Type (v_Schema v) = ''object''"
proof -
  obtain res where res: "gomap_get (Resources sch) token = Some res"
    using assms(1) by (cases "gomap_get (Resources sch) token") (auto simp: typedResourceCRD_def)
  with assms obtain cols desc cv where "v = served_version (typed_resource_spec res) cols desc cv"
    by (auto simp: typedResourceCRD_def Let_def with_owner_def typedCRD_def)
  with res show thesis by (intro that [of res]) (simp_all add: served_version_def object_node_def schemaTypeObject_def)
qed

text \<open>
  C30: What the API server admits under a generated resource CRD is valid for the provider: if
  the structural schema of a served version accepts a typed object with a spec, then the spec
  has a \<open>forProvider\<close> object, and the operator's own check of these inputs against the
  registry schema finds nothing to report.
\<close>

theorem typed_resource_admission:
  assumes "structural acc"
    and "typedResourceCRD token sch = Inr crd" "v \<in> set (crd_Versions (crd_spec crd))"
    and "acc (v_Schema v) (JObj typed)" "gomap_get typed ''spec'' = Some sp"
  shows "\<exists>attrs props. sp = JObj attrs \<and> gomap_get attrs ''forProvider'' = Some (JObj props) \<and>
           Validate sch token props = Inr []"
proof -
  obtain res where res: "gomap_get (Resources sch) token = Some res"
    "map_of (sp_Properties (v_Schema v)) ''spec'' = Some (typed_resource_spec res)" "sp_Type (v_Schema v) = ''object''"
    using typed_resource_node [OF assms(2,3)] .
  have "acc (typed_resource_spec res) sp"
    using structuralD(5) [OF assms(1,4) res(3)] res(2) map_of_SomeD [OF assms(5)] by blast
  then obtain attrs where attrs: "sp = JObj attrs" "gomap_get attrs ''forProvider'' \<noteq> None"
    "\<And>x. (''forProvider'', x) \<in> set attrs \<Longrightarrow> acc (for_provider res) x"
    using structuralD(5) [OF assms(1), of "typed_resource_spec res" sp]
    by (fastforce simp: typed_resource_spec_def object_node_def schemaTypeObject_def)
  then obtain x where x: "gomap_get attrs ''forProvider'' = Some x" "acc (for_provider res) x"
    by (auto dest: map_of_SomeD)
  then obtain props where "x = JObj props"
    using structuralD(5) [OF assms(1), of "for_provider res" x] by (auto simp: for_provider_def object_node_def schemaTypeObject_def)
  with attrs x show ?thesis using for_provider_valid [OF assms(1) _ res(1)] by blast
qed

text \<open>A reference implementation of structural validation, for the witness.\<close>

fun conforms :: "json \<Rightarrow> JSONSchemaProps \<Rightarrow> bool" where
  "conforms JNull s = (sp_Type s = [])"
| "conforms (JBool b) s = (sp_Type s \<in> {[], ''boolean''})"
| "conforms (JNum n) s = (sp_Type s \<in> {[], ''integer'', ''number''})"
| "conforms (JStr x) s = (sp_Type s \<in> {[], ''string''})"
| "conforms (JArr xs) s =
     (sp_Type s \<in> {[], ''array''} \<and> (case sp_Items s of None \<Rightarrow> True | Some i \<Rightarrow> (\<forall>x \<in> set xs. conforms x i)))"
| "conforms (JObj m) s =
     (sp_Type s \<in> {[], ''object''} \<and> (\<forall>r \<in> set (sp_Required s). gomap_get m r \<noteq> None) \<and>
      (\<forall>(k, x) \<in> set m. case map_of (sp_Properties s) k of
         Some p \<Rightarrow> conforms x p
       | None \<Rightarrow> (case sp_AdditionalProperties s of
                    Some a \<Rightarrow> conforms x a | None \<Rightarrow> sp_PreserveUnknown s \<or> sp_AllowsAdditional s)))"

lemma conforms_structural: "structural (\<lambda>s v. conforms v s)"
  unfolding structural_def
proof (intro allI impI)
  fix s v
  assume "conforms v s"
  then show "(sp_Type s = ''string'' \<longrightarrow> (\<exists>x. v = JStr x)) \<and>
     (sp_Type s = ''boolean'' \<longrightarrow> (\<exists>x. v = JBool x)) \<and>
     (sp_Type s \<in> {''integer'', ''number''} \<longrightarrow> (\<exists>x. v = JNum x)) \<and>
     (sp_Type s = ''array'' \<longrightarrow> (\<exists>xs. v = JArr xs \<and> (\<forall>i. sp_Items s = Some i \<longrightarrow> list_all (\<lambda>v. conforms v i) xs))) \<and>
     (sp_Type s = ''object'' \<longrightarrow>
        (\<exists>m. v = JObj m \<and> (\<forall>r \<in> set (sp_Required s). gomap_get m r \<noteq> None) \<and>
           (\<forall>k x p. (k, x) \<in> set m \<longrightarrow> map_of (sp_Properties s) k = Some p \<longrightarrow> conforms x p) \<and>
           (\<forall>k x a. (k, x) \<in> set m \<longrightarrow> map_of (sp_Properties s) k = None \<longrightarrow> sp_AdditionalProperties s = Some a \<longrightarrow> conforms x a) \<and>
           (\<not> sp_PreserveUnknown s \<longrightarrow> \<not> sp_AllowsAdditional s \<longrightarrow> sp_AdditionalProperties s = None \<longrightarrow>
              (\<forall>k \<in> set (gomap_keys m). map_of (sp_Properties s) k \<noteq> None))))"
  proof (cases v)
    case (JObj m)
    have mem: "case map_of (sp_Properties s) k of Some p \<Rightarrow> conforms x p
        | None \<Rightarrow> (case sp_AdditionalProperties s of
                     Some a \<Rightarrow> conforms x a | None \<Rightarrow> sp_PreserveUnknown s \<or> sp_AllowsAdditional s)"
      if "(k, x) \<in> set m" for k x
      using \<open>conforms v s\<close> that unfolding JObj conforms.simps by blast
    have "\<forall>k \<in> set (gomap_keys m). map_of (sp_Properties s) k \<noteq> None"
      if "\<not> sp_PreserveUnknown s" "\<not> sp_AllowsAdditional s" "sp_AdditionalProperties s = None"
    proof
      fix k
      assume "k \<in> set (gomap_keys m)"
      then obtain x where "(k, x) \<in> set m" by (auto simp: gomap_keys_def)
      from mem [OF this] that show "map_of (sp_Properties s) k \<noteq> None" by (auto split: option.splits)
    qed
    moreover have "conforms x p" if "(k, x) \<in> set m" "map_of (sp_Properties s) k = Some p" for k x p
      using mem [OF that(1)] that(2) by simp
    moreover have "conforms x a"
      if "(k, x) \<in> set m" "map_of (sp_Properties s) k = None" "sp_AdditionalProperties s = Some a" for k x a
      using mem [OF that(1)] that(2,3) by simp
    ultimately show ?thesis using \<open>conforms v s\<close> by (auto simp: JObj)
  qed (auto simp: list_all_iff)
qed

definition demo_schema :: PackageSchema where
  "demo_schema =
     \<lparr>ps_Name = ''aws'', ps_Version = ''7'',
      Resources = [(''aws:s3:Bucket'', \<lparr>InputProperties = [(''acl'', PropertySchema ''string'' [] None None [])],
                                       RequiredInputs = [''acl''], rs_Outputs = [], IsComponent = False\<rparr>)]\<rparr>"

definition demo_crd :: CRD where
  "demo_crd = (case typedResourceCRD ''aws:s3:Bucket'' demo_schema of Inr crd \<Rightarrow> crd)"

theorem typed_resource_admission_witness:
  "om_Name (crd_meta demo_crd) = ''buckets.typed.do.pulumi.com'' \<and>
   conforms (JObj [(''spec'', JObj [(''forProvider'', JObj [(''acl'', JStr ''private'')])])])
     (v_Schema (hd (crd_Versions (crd_spec demo_crd)))) \<and>
   Validate demo_schema ''aws:s3:Bucket'' [(''acl'', JStr ''private'')] = Inr []"
proof -
  have n: "om_Name (crd_meta demo_crd) = ''buckets.typed.do.pulumi.com''" by code_simp
  have c: "typedResourceCRD ''aws:s3:Bucket'' demo_schema = Inr demo_crd" by code_simp
  have v: "hd (crd_Versions (crd_spec demo_crd)) \<in> set (crd_Versions (crd_spec demo_crd))"
    by (rule hd_in_set) code_simp
  have a: "conforms (JObj [(''spec'', JObj [(''forProvider'', JObj [(''acl'', JStr ''private'')])])])
     (v_Schema (hd (crd_Versions (crd_spec demo_crd))))" by code_simp
  have "Validate demo_schema ''aws:s3:Bucket'' [(''acl'', JStr ''private'')] = Inr []"
    using typed_resource_admission [OF conforms_structural c v a] by simp
  with n a show ?thesis by blast
qed

section \<open>Composite APIs\<close>

lemma deprecated_versions_Inr:
  "deprecated_versions current vs = Inr cvs \<Longrightarrow>
     map cv_name cvs = vs \<and> current \<notin> set vs \<and> list_all (\<lambda>v. \<not> cv_storage v \<and> cv_deprecated v) cvs"
  by (induction current vs arbitrary: cvs rule: deprecated_versions.induct) (auto split: if_splits sum.splits)

lemma typedCompositeCRD_Inr:
  assumes "typedCompositeCRD def api = Inr crd"
  obtains s dep where "parameters_node api = Inr s" "gomap_get (sp_Properties s) doplaneReservedProperty = None"
    "deprecated_versions (compositeAPIVersion api) (api_DeprecatedVersions api) = Inr dep"
    "crd = with_owner (''composite:'' @ def)
             (typedCRD (compositeAPIGroup api) (api_Kind api) (compositeAPIPlural api)
                (\<lparr>cv_name = compositeAPIVersion api, cv_storage = True, cv_deprecated = False\<rparr> # dep)
                (add_reserved s) (api_AdditionalPrinterColumns api)
                (''Generated by doplane from DoCompositeDefinition '' @ Quote def @ ''.''))"
  using assms unfolding typedCompositeCRD_def by (auto split: sum.splits if_splits option.splits)

text \<open>
  The generated platform API: named by plural and group, owned by its definition, with exactly
  one storage version, the current one, every other version deprecated and served; all versions
  share one schema, in which the reserved block has its fixed place and every declared parameter
  keeps its schema.
\<close>

theorem typedCompositeCRD_shape:
  assumes "typedCompositeCRD def api = Inr crd"
  shows "om_Name (crd_meta crd) = compositeAPIPlural api @ ''.'' @ compositeAPIGroup api \<and>
    annotation (crd_meta crd) annTypedOwner = ''composite:'' @ def \<and>
    map v_Name (crd_Versions (crd_spec crd)) = compositeAPIVersion api # api_DeprecatedVersions api \<and>
    filter v_Storage (crd_Versions (crd_spec crd)) = [hd (crd_Versions (crd_spec crd))] \<and>
    compositeAPIVersion api \<notin> set (api_DeprecatedVersions api) \<and>
    (\<exists>s. map_of (sp_Properties s) doplaneReservedProperty = Some doplaneBlockSchema \<and>
         (\<forall>ps k. api_ParametersSchema api = Some ps \<longrightarrow> k \<noteq> doplaneReservedProperty \<longrightarrow>
            map_of (sp_Properties s) k = map_of (sp_Properties ps) k) \<and>
         list_all (\<lambda>v. v_Served v \<and> (v_Deprecated v \<longleftrightarrow> \<not> v_Storage v) \<and> map_of (sp_Properties (v_Schema v)) ''spec'' = Some s)
           (crd_Versions (crd_spec crd)))"
proof -
  obtain s dep where s: "parameters_node api = Inr s" "gomap_get (sp_Properties s) doplaneReservedProperty = None"
    and dep: "deprecated_versions (compositeAPIVersion api) (api_DeprecatedVersions api) = Inr dep"
    and crd: "crd = with_owner (''composite:'' @ def)
             (typedCRD (compositeAPIGroup api) (api_Kind api) (compositeAPIPlural api)
                (\<lparr>cv_name = compositeAPIVersion api, cv_storage = True, cv_deprecated = False\<rparr> # dep)
                (add_reserved s) (api_AdditionalPrinterColumns api)
                (''Generated by doplane from DoCompositeDefinition '' @ Quote def @ ''.''))"
    using typedCompositeCRD_Inr [OF assms] .
  note d = deprecated_versions_Inr [OF dep]
  have reserved: "sp_Properties (add_reserved s) = gomap_put doplaneReservedProperty doplaneBlockSchema (sp_Properties s)"
    by (cases s) (simp add: add_reserved_def)
  have props: "sp_Properties s = sp_Properties ps" if "api_ParametersSchema api = Some ps" for ps
    using s(1) that by (cases ps) (auto simp: parameters_node_def Let_def split: if_splits)
  show ?thesis
    using d
    by (intro conjI exI [of _ "add_reserved s"])
       (auto simp: crd with_owner_def typedCRD_def served_version_def object_node_def annotation_def reserved gomap_simps props
         list_all_iff comp_def filter_map intro!: filter_False)
qed

text \<open>
  The comment on \<open>propsToJSONSchema\<close> says that \<open>$ref\<close> and \<open>oneOf\<close> degrade to a node that
  accepts anything. They do only when the property carries no type of its own: with one, the
  generated schema insists on that type, while the registry check lets any value pass.
\<close>

theorem propsToJSONSchema_typed_ref:
  "propsToJSONSchema (PropertySchema ''string'' ''#/types/aws:s3/Acl:Acl'' None None []) = type_node ''string'' \<and>
   checkType ''acl'' (JObj []) (PropertySchema ''string'' ''#/types/aws:s3/Acl:Acl'' None None []) 0 = []"
  by (simp add: checkType.simps)

end
