(* ===== verification/Typed_Env.thy ===== *)
theory Typed_Env
  imports Typed_Crd Runner_Documents Resource_Env
begin

text \<open>
  The outside of the controllers that serve typed APIs and validate provider profiles: the API
  server, the controller manager, the event recorder, the schema cache, the clock, and the
  helpers of the Kubernetes libraries. The object of the world is the registrar, which the
  controllers share.
\<close>

section \<open>Data\<close>

record GroupVersionKind =
  gvk_Group :: string
  gvk_Version :: string
  gvk_Kind :: string

text \<open>An entry of \<open>metadata.managedFields\<close>; times are instants.\<close>

record ManagedField =
  mf_APIVersion :: string
  mf_Subresource :: string
  mf_Time :: "int option"

text \<open>An unstructured object: its metadata, its kind and its other top-level fields.\<close>

record typed_object =
  to_meta :: ObjectMeta
  to_Kind :: string
  to_Object :: jobj
  to_ManagedFields :: "ManagedField list"

text \<open>A dynamic reconciler. Its identity stands for the pointer the registrar compares.\<close>

datatype translation = ToResource string string | ToComposite string

record typed_reconciler =
  tr_id :: nat
  tr_Registrar :: bool
  tr_CRDName :: string
  tr_GVK :: GroupVersionKind
  tr_Translation :: translation

record typedRegistration =
  tg_owner :: string
  tg_gvk :: GroupVersionKind
  tg_rec :: typed_reconciler
  tg_gen :: nat

record TypedRegistrar =
  registrations :: "typedRegistration gomap"
  gens :: "nat gomap"
  allocated :: nat

section \<open>Interactions\<close>

datatype api_event =
    ACreateCRD CRD "CRD result"
  | AGetCRD string "CRD result"
  | AUpdateCRD CRD "error option"
  | AUpdateCRDStatus CRD "error option"
  | ADeleteCRD CRD string "error option"
  | AListTyped GroupVersionKind "typed_object list result"
  | ARemoveInformer GroupVersionKind
  | ANewController string typed_reconciler "error option"
  | AWatchTyped GroupVersionKind "error option"
  | AWatchOwned string GroupVersionKind "error option"
  | AGetTyped GroupVersionKind string string "typed_object result"
  | AFetchResource string string "DoResource option result"
  | AWriteResource "DoResource option" DoResource "DoResource result"
  | AFetchComposite string string "DoComposite option result"
  | AWriteComposite "DoComposite option" DoComposite "DoComposite result"
  | AUpdateTypedStatus typed_object "error option"
  | AGetDefinition string "DoCompositeDefinition result"
  | AUpdateDefinition DoCompositeDefinition "DoCompositeDefinition result"
  | AUpdateDefStatus DoCompositeDefinition "error option"
  | AGetProvider reader_kind string "DoProvider result"
  | AGetProviderConfig reader_kind string string "DoProviderConfig result"
  | AListResources string "DoResource list result"
  | AGetSecret reader_kind string string "Secret result"
  | ASchemaGet op_ctx string string "PackageSchema result"
  | AUpdateProviderStatus DoProvider "error option"
  | AUpdateConfigStatus DoProviderConfig "error option"
  | ANow nat
  | ARecorded string string string

record api_env =
  a_create_crd :: "api_event list \<Rightarrow> CRD \<Rightarrow> CRD result"
  a_get_crd :: "api_event list \<Rightarrow> string \<Rightarrow> CRD result"
  a_update_crd :: "api_event list \<Rightarrow> CRD \<Rightarrow> error option"
  a_update_crd_status :: "api_event list \<Rightarrow> CRD \<Rightarrow> error option"
  a_delete_crd :: "api_event list \<Rightarrow> CRD \<Rightarrow> string \<Rightarrow> error option"
  a_list_typed :: "api_event list \<Rightarrow> GroupVersionKind \<Rightarrow> typed_object list result"
  a_new_controller :: "api_event list \<Rightarrow> string \<Rightarrow> typed_reconciler \<Rightarrow> error option"
  a_watch_typed :: "api_event list \<Rightarrow> GroupVersionKind \<Rightarrow> error option"
  a_watch_owned :: "api_event list \<Rightarrow> string \<Rightarrow> GroupVersionKind \<Rightarrow> error option"
  a_get_typed :: "api_event list \<Rightarrow> GroupVersionKind \<Rightarrow> string \<Rightarrow> string \<Rightarrow> typed_object result"
  a_CreateOrUpdate_resource ::
    "api_event list \<Rightarrow> DoResource \<Rightarrow> (DoResource \<Rightarrow> DoResource result) \<Rightarrow> api_event list \<times> DoResource result"
  a_CreateOrUpdate_composite ::
    "api_event list \<Rightarrow> DoComposite \<Rightarrow> (DoComposite \<Rightarrow> DoComposite result) \<Rightarrow> api_event list \<times> DoComposite result"
  a_update_typed_status :: "api_event list \<Rightarrow> typed_object \<Rightarrow> error option"
  a_get_definition :: "api_event list \<Rightarrow> string \<Rightarrow> DoCompositeDefinition result"
  a_update_definition :: "api_event list \<Rightarrow> DoCompositeDefinition \<Rightarrow> DoCompositeDefinition result"
  a_update_def_status :: "api_event list \<Rightarrow> DoCompositeDefinition \<Rightarrow> error option"
  a_has_live :: bool
  a_get_provider :: "api_event list \<Rightarrow> reader_kind \<Rightarrow> string \<Rightarrow> DoProvider result"
  a_get_provider_config :: "api_event list \<Rightarrow> reader_kind \<Rightarrow> string \<Rightarrow> string \<Rightarrow> DoProviderConfig result"
  a_list_resources :: "api_event list \<Rightarrow> string \<Rightarrow> DoResource list result"
  a_get_secret :: "api_event list \<Rightarrow> reader_kind \<Rightarrow> string \<Rightarrow> string \<Rightarrow> Secret result"
  a_schema_get :: "api_event list \<Rightarrow> op_ctx \<Rightarrow> string \<Rightarrow> string \<Rightarrow> PackageSchema result"
  a_update_provider_status :: "api_event list \<Rightarrow> DoProvider \<Rightarrow> error option"
  a_update_config_status :: "api_event list \<Rightarrow> DoProviderConfig \<Rightarrow> error option"
  a_now :: "api_event list \<Rightarrow> nat"
  a_retry_again :: "api_event list \<Rightarrow> error \<Rightarrow> bool"
  a_retry_steps :: nat
  a_SetStatusCondition :: "Condition list \<Rightarrow> Condition \<Rightarrow> Condition list"
  a_IsControlledBy :: "ObjectMeta \<Rightarrow> ObjectMeta \<Rightarrow> bool"
  a_SetControllerReference :: "ObjectMeta \<Rightarrow> ObjectMeta \<Rightarrow> ObjectMeta result"
  a_ContainsFinalizer :: "ObjectMeta \<Rightarrow> string \<Rightarrow> bool"
  a_AddFinalizer :: "ObjectMeta \<Rightarrow> string \<Rightarrow> ObjectMeta"
  a_RemoveFinalizer :: "ObjectMeta \<Rightarrow> string \<Rightarrow> ObjectMeta"
  a_IsNoMatchError :: "error \<Rightarrow> bool"
  a_NestedMap :: "jobj \<Rightarrow> string list \<Rightarrow> jobj option result"
  a_NestedString :: "jobj \<Rightarrow> string list \<Rightarrow> string option result"
  a_conditions :: "Condition list \<Rightarrow> json"
  a_float64 :: "string \<Rightarrow> string"

type_synonym 'a arec = "(TypedRegistrar, api_event, 'a) action"

text \<open>The documented behaviour of \<open>CreateOrUpdate\<close> for the two kinds of mirror objects.\<close>

definition mirror_contract :: "api_env \<Rightarrow> bool" where
  "mirror_contract E \<longleftrightarrow>
     (\<forall>tr key mutate. upsert_events (AFetchResource (om_Namespace (meta key)) (om_Name (meta key))) AWriteResource key mutate
        (fst (a_CreateOrUpdate_resource E tr key mutate))) \<and>
     (\<forall>tr key mutate. upsert_events (AFetchComposite (om_Namespace (comp_meta key)) (om_Name (comp_meta key))) AWriteComposite
        key mutate (fst (a_CreateOrUpdate_composite E tr key mutate)))"

text \<open>The documented effect of \<open>meta.SetStatusCondition\<close>.\<close>

definition condition_law :: "api_env \<Rightarrow> bool" where
  "condition_law E \<longleftrightarrow>
     (\<forall>cs c. \<exists>d. find (\<lambda>d. c_Type d = c_Type c) (a_SetStatusCondition E cs c) = Some d \<and> c_Status d = c_Status c)"

section \<open>Calls\<close>

definition Create_crd :: "api_env \<Rightarrow> CRD \<Rightarrow> CRD result arec" where
  "Create_crd E crd = ask (\<lambda>tr. a_create_crd E tr crd) (ACreateCRD crd)"

definition Get_crd :: "api_env \<Rightarrow> string \<Rightarrow> CRD result arec" where
  "Get_crd E name = ask (\<lambda>tr. a_get_crd E tr name) (AGetCRD name)"

definition Update_crd :: "api_env \<Rightarrow> CRD \<Rightarrow> error option arec" where
  "Update_crd E crd = ask (\<lambda>tr. a_update_crd E tr crd) (AUpdateCRD crd)"

definition Update_crd_status :: "api_env \<Rightarrow> CRD \<Rightarrow> error option arec" where
  "Update_crd_status E crd = ask (\<lambda>tr. a_update_crd_status E tr crd) (AUpdateCRDStatus crd)"

definition Delete_crd :: "api_env \<Rightarrow> CRD \<Rightarrow> string \<Rightarrow> error option arec" where
  "Delete_crd E crd uid = ask (\<lambda>tr. a_delete_crd E tr crd uid) (ADeleteCRD crd uid)"

definition List_typed :: "api_env \<Rightarrow> GroupVersionKind \<Rightarrow> typed_object list result arec" where
  "List_typed E gvk = ask (\<lambda>tr. a_list_typed E tr gvk) (AListTyped gvk)"

definition New_controller :: "api_env \<Rightarrow> string \<Rightarrow> typed_reconciler \<Rightarrow> error option arec" where
  "New_controller E name r = ask (\<lambda>tr. a_new_controller E tr name r) (ANewController name r)"

definition Watch_typed :: "api_env \<Rightarrow> GroupVersionKind \<Rightarrow> error option arec" where
  "Watch_typed E gvk = ask (\<lambda>tr. a_watch_typed E tr gvk) (AWatchTyped gvk)"

definition Watch_owned :: "api_env \<Rightarrow> string \<Rightarrow> GroupVersionKind \<Rightarrow> error option arec" where
  "Watch_owned E owned gvk = ask (\<lambda>tr. a_watch_owned E tr owned gvk) (AWatchOwned owned gvk)"

definition Get_typed :: "api_env \<Rightarrow> GroupVersionKind \<Rightarrow> string \<Rightarrow> string \<Rightarrow> typed_object result arec" where
  "Get_typed E gvk ns name = ask (\<lambda>tr. a_get_typed E tr gvk ns name) (AGetTyped gvk ns name)"

definition CreateOrUpdate_resource ::
  "api_env \<Rightarrow> DoResource \<Rightarrow> (DoResource \<Rightarrow> DoResource result) \<Rightarrow> DoResource result arec" where
  "CreateOrUpdate_resource E key mutate = library_call (\<lambda>tr. a_CreateOrUpdate_resource E tr key mutate)"

definition CreateOrUpdate_composite ::
  "api_env \<Rightarrow> DoComposite \<Rightarrow> (DoComposite \<Rightarrow> DoComposite result) \<Rightarrow> DoComposite result arec" where
  "CreateOrUpdate_composite E key mutate = library_call (\<lambda>tr. a_CreateOrUpdate_composite E tr key mutate)"

definition Update_typed_status :: "api_env \<Rightarrow> typed_object \<Rightarrow> error option arec" where
  "Update_typed_status E x = ask (\<lambda>tr. a_update_typed_status E tr x) (AUpdateTypedStatus x)"

definition Get_def :: "api_env \<Rightarrow> string \<Rightarrow> DoCompositeDefinition result arec" where
  "Get_def E name = ask (\<lambda>tr. a_get_definition E tr name) (AGetDefinition name)"

definition Update_def :: "api_env \<Rightarrow> DoCompositeDefinition \<Rightarrow> DoCompositeDefinition result arec" where
  "Update_def E def = ask (\<lambda>tr. a_update_definition E tr def) (AUpdateDefinition def)"

definition Update_def_status :: "api_env \<Rightarrow> DoCompositeDefinition \<Rightarrow> error option arec" where
  "Update_def_status E def = ask (\<lambda>tr. a_update_def_status E tr def) (AUpdateDefStatus def)"

definition api_reader :: "api_env \<Rightarrow> reader_kind" where
  "api_reader E = (if a_has_live E then LiveReader else CachedReader)"

definition Get_prov :: "api_env \<Rightarrow> string \<Rightarrow> DoProvider result arec" where
  "Get_prov E name = ask (\<lambda>tr. a_get_provider E tr (api_reader E) name) (AGetProvider (api_reader E) name)"

definition Get_prov_config :: "api_env \<Rightarrow> string \<Rightarrow> string \<Rightarrow> DoProviderConfig result arec" where
  "Get_prov_config E ns name =
     ask (\<lambda>tr. a_get_provider_config E tr (api_reader E) ns name) (AGetProviderConfig (api_reader E) ns name)"

definition List_all_resources :: "api_env \<Rightarrow> string \<Rightarrow> DoResource list result arec" where
  "List_all_resources E ns = ask (\<lambda>tr. a_list_resources E tr ns) (AListResources ns)"

definition Get_creds :: "api_env \<Rightarrow> string \<Rightarrow> string \<Rightarrow> Secret result arec" where
  "Get_creds E ns name = ask (\<lambda>tr. a_get_secret E tr (api_reader E) ns name) (AGetSecret (api_reader E) ns name)"

definition Schema_get :: "api_env \<Rightarrow> op_ctx \<Rightarrow> string \<Rightarrow> string \<Rightarrow> PackageSchema result arec" where
  "Schema_get E ctx pkg token = ask (\<lambda>tr. a_schema_get E tr ctx pkg token) (ASchemaGet ctx pkg token)"

definition Update_prov_status :: "api_env \<Rightarrow> DoProvider \<Rightarrow> error option arec" where
  "Update_prov_status E p = ask (\<lambda>tr. a_update_provider_status E tr p) (AUpdateProviderStatus p)"

definition Update_config_status :: "api_env \<Rightarrow> DoProviderConfig \<Rightarrow> error option arec" where
  "Update_config_status E p = ask (\<lambda>tr. a_update_config_status E tr p) (AUpdateConfigStatus p)"

definition Now :: "api_env \<Rightarrow> nat arec" where
  "Now E = ask (a_now E) ANow"

definition Api_Eventf :: "string \<Rightarrow> string \<Rightarrow> string \<Rightarrow> unit arec" where
  "Api_Eventf etype reason msg = emit (ARecorded etype reason msg)"

lemmas api_call_defs = Create_crd_def Get_crd_def Update_crd_def Update_crd_status_def Delete_crd_def List_typed_def
  New_controller_def Watch_typed_def Watch_owned_def Get_typed_def Update_typed_status_def Get_def_def Update_def_def
  Update_def_status_def Get_prov_def Get_prov_config_def List_all_resources_def Get_creds_def Schema_get_def
  Update_prov_status_def Update_config_status_def Now_def Api_Eventf_def

end
