(* ===== verification/Typed_Api.thy ===== *)
theory Typed_Api
  imports Typed_Env
begin

text \<open>
  Serving typed APIs (\<open>internal/controller/typed_controllers.go\<close>): the registrar that
  applies generated CRDs and starts one controller per kind, and the reconcilers that mirror
  typed objects into DoResources and DoComposites and copy the status back.
\<close>

section \<open>Registrar\<close>

text \<open>\<open>reg\<close> tells whether the reconciler has a registrar at all.\<close>

definition isCurrent :: "bool \<Rightarrow> string \<Rightarrow> typed_reconciler \<Rightarrow> TypedRegistrar \<Rightarrow> bool" where
  "isCurrent has_reg crdName r reg =
     (\<not> has_reg \<or>
      (case gomap_get (registrations reg) crdName of None \<Rightarrow> False | Some entry \<Rightarrow> tr_id (tg_rec entry) = tr_id r))"

definition label_of :: "ObjectMeta \<Rightarrow> string \<Rightarrow> string" where
  "label_of m k = (case gomap_get (om_Labels m) k of None \<Rightarrow> [] | Some v \<Rightarrow> v)"

definition checkCRDOwnership :: "CRD \<Rightarrow> string \<Rightarrow> error option" where
  "checkCRDOwnership existing owner =
     (if label_of (crd_meta existing) labelManagedByKey \<noteq> ''doplane'' then
        Some (sentinel_wrap errCRDConflict '': ''
          (Errorf (''CRD '' @ om_Name (crd_meta existing) @ '' exists but is not managed by doplane; refusing to overwrite it'')))
      else
        let got = annotation (crd_meta existing) annTypedOwner in
        if got \<noteq> [] \<and> got \<noteq> owner then
          Some (sentinel_wrap errCRDConflict '': ''
            (Errorf (''typed API '' @ om_Name (crd_meta existing) @ '' is already served for '' @ got @
                     ''; rename the kind (or set spec.api.plural/group) to avoid the collision'')))
        else None)"

text \<open>\<open>Create\<close> decodes the server's reply into its argument, so the CRD afterwards is the reply.\<close>

definition applyCRD :: "api_env \<Rightarrow> CRD \<Rightarrow> CRD result arec" where
  "applyCRD E crd =
     do { let owner = annotation (crd_meta crd) annTypedOwner;
          cr \<leftarrow> Create_crd E crd;
          case cr of
            Inr created \<Rightarrow> ret (Inr created)
          | Inl e \<Rightarrow>
              if \<not> IsAlreadyExistsApi e then
                ret (Inl (wrap_error (''creating CRD '' @ om_Name (crd_meta crd) @ '': '') e))
              else do {
                gr \<leftarrow> Get_crd E (om_Name (crd_meta crd));
                case gr of
                  Inl e' \<Rightarrow> ret (Inl e')
                | Inr existing \<Rightarrow>
                    (case checkCRDOwnership existing owner of
                       Some e' \<Rightarrow> ret (Inl e')
                     | None \<Rightarrow>
                         do { err \<leftarrow> Update_crd E (existing\<lparr>crd_spec := crd_spec crd,
                                crd_meta := (crd_meta existing)\<lparr>om_Annotations :=
                                  gomap_put annTypedOwner owner (om_Annotations (crd_meta existing))\<rparr>\<rparr>);
                              case err of
                                Some e' \<Rightarrow> ret (Inl (wrap_error (''updating CRD '' @ om_Name (crd_meta crd) @ '': '') e'))
                              | None \<Rightarrow> ret (Inr crd) }) } }"

text \<open>The code indexes the first version: a CRD without versions is a run-time panic.\<close>

definition index_panic :: error where
  "index_panic = Errorf ''runtime error: index out of range [0] with length 0''"

definition storageGVK :: "CRD \<Rightarrow> GroupVersionKind result" where
  "storageGVK crd =
     (case crd_Versions (crd_spec crd) of
        [] \<Rightarrow> Inl index_panic
      | v # vs \<Rightarrow>
          Inr \<lparr>gvk_Group = crd_Group (crd_spec crd),
               gvk_Version = foldl (\<lambda>name w. if v_Storage w then v_Name w else name) (v_Name v) (v # vs),
               gvk_Kind = crd_Kind (crd_spec crd)\<rparr>)"

text \<open>\<open>%v\<close> of a string slice.\<close>

definition show_strings :: "string list \<Rightarrow> string" where
  "show_strings xs = ''['' @ Join xs '' '' @ '']''"

definition prepareVersionDrop :: "api_env \<Rightarrow> CRD \<Rightarrow> error option arec" where
  "prepareVersionDrop E desired =
     do { gr \<leftarrow> Get_crd E (om_Name (crd_meta desired));
          case gr of
            Inl e \<Rightarrow> ret (IgnoreNotFound (Some e))
          | Inr existing \<Rightarrow>
              (let kept = map v_Name (crd_Versions (crd_spec desired));
                   remaining = filter (\<lambda>v. v \<in> set kept) (crd_StoredVersions existing);
                   dropped = filter (\<lambda>v. v \<notin> set kept) (crd_StoredVersions existing)
               in if dropped = [] then ret None
                  else case storageGVK existing of
                      Inl e \<Rightarrow> ret (Some e)
                    | Inr gvk \<Rightarrow>
                        do { lr \<leftarrow> List_typed E (gvk\<lparr>gvk_Kind := crd_ListKind (crd_spec existing)\<rparr>);
                             case lr of
                               Inl e \<Rightarrow>
                                 ret (Some (wrap_error (''listing '' @ crd_Kind (crd_spec existing) @
                                   '' objects before dropping versions '' @ show_strings dropped @ '': '') e))
                             | Inr items \<Rightarrow>
                                 if 0 < length items then
                                   ret (Some (sentinel_wrap errStoredVersionInUse '': ''
                                     (Errorf (''cannot drop version(s) '' @ show_strings dropped @ '' of '' @
                                        om_Name (crd_meta existing) @ '' while '' @ show_nat (length items) @
                                        '' objects exist; keep them in deprecatedVersions until the status reports zero''))))
                                 else do {
                                   err \<leftarrow> Update_crd_status E (existing\<lparr>crd_StoredVersions := remaining\<rparr>);
                                   ret (case err of
                                          None \<Rightarrow> None
                                        | Some e \<Rightarrow> Some (wrap_error (''pruning storedVersions of '' @
                                            om_Name (crd_meta existing) @ '': '') e)) } }) }"

definition removeInformer :: "GroupVersionKind \<Rightarrow> unit arec" where
  "removeInformer gvk = emit (ARemoveInformer gvk)"

definition controller_name :: "string \<Rightarrow> nat \<Rightarrow> string" where
  "controller_name crdName gen =
     ''typed-'' @ crdName @ (if 1 < gen then ''-r'' @ show_nat gen else [])"

definition startController ::
  "api_env \<Rightarrow> string \<Rightarrow> string \<Rightarrow> GroupVersionKind \<Rightarrow> typed_reconciler \<Rightarrow> string \<Rightarrow> error option arec" where
  "startController E crdName owner gvk r owned =
     do { reg \<leftarrow> get_obj;
          let existing = gomap_get (registrations reg) crdName;
          if (case existing of None \<Rightarrow> False | Some x \<Rightarrow> tg_owner x = owner \<and> tg_gvk x = gvk) then ret None
          else do {
            (case existing of None \<Rightarrow> ret () | Some x \<Rightarrow> removeInformer (tg_gvk x));
            let gen = (case gomap_get (gens reg) crdName of None \<Rightarrow> 1 | Some n \<Rightarrow> Suc n);
            put_obj (reg\<lparr>gens := gomap_put crdName gen (gens reg)\<rparr>);
            cerr \<leftarrow> New_controller E (controller_name crdName gen) r;
            case cerr of
              Some e \<Rightarrow> ret (Some e)
            | None \<Rightarrow>
                do { werr \<leftarrow> Watch_typed E gvk;
                     case werr of
                       Some e \<Rightarrow> ret (Some e)
                     | None \<Rightarrow>
                         do { oerr \<leftarrow> Watch_owned E owned gvk;
                              case oerr of
                                Some e \<Rightarrow> ret (Some e)
                              | None \<Rightarrow>
                                  do { modify_obj (\<lambda>reg. reg\<lparr>registrations :=
                                         gomap_put crdName \<lparr>tg_owner = owner, tg_gvk = gvk, tg_rec = r, tg_gen = gen\<rparr>
                                           (registrations reg)\<rparr>);
                                       ret None } } } } }"

text \<open>A fresh reconciler: the allocation gives it its identity.\<close>

definition new_reconciler :: "string \<Rightarrow> GroupVersionKind \<Rightarrow> translation \<Rightarrow> typed_reconciler arec" where
  "new_reconciler crdName gvk t =
     do { reg \<leftarrow> get_obj;
          put_obj (reg\<lparr>allocated := Suc (allocated reg)\<rparr>);
          ret \<lparr>tr_id = allocated reg, tr_Registrar = True, tr_CRDName = crdName, tr_GVK = gvk, tr_Translation = t\<rparr> }"

text \<open>What \<open>EnsureResourceAPI\<close> and \<open>EnsureCompositeAPI\<close> do after preparing the CRD.\<close>

definition serve_crd :: "api_env \<Rightarrow> CRD \<Rightarrow> translation \<Rightarrow> string \<Rightarrow> error option arec" where
  "serve_crd E crd0 t owned =
     do { ar \<leftarrow> applyCRD E crd0;
          case ar of
            Inl e \<Rightarrow> ret (Some e)
          | Inr crd \<Rightarrow>
              (case storageGVK crd of
                 Inl e \<Rightarrow> ret (Some e)
               | Inr gvk \<Rightarrow>
                   do { r \<leftarrow> new_reconciler (om_Name (crd_meta crd)) gvk t;
                        startController E (om_Name (crd_meta crd)) (annotation (crd_meta crd) annTypedOwner) gvk r owned }) }"

definition EnsureResourceAPI :: "api_env \<Rightarrow> CRD \<Rightarrow> string \<Rightarrow> string \<Rightarrow> error option arec" where
  "EnsureResourceAPI E crd token providerName = serve_crd E crd (ToResource token providerName) ''DoResource''"

definition EnsureCompositeAPI :: "api_env \<Rightarrow> CRD \<Rightarrow> string \<Rightarrow> error option arec" where
  "EnsureCompositeAPI E crd definition_name =
     do { perr \<leftarrow> prepareVersionDrop E crd;
          case perr of
            Some e \<Rightarrow> ret (Some e)
          | None \<Rightarrow> serve_crd E crd (ToComposite definition_name) ''DoComposite'' }"

definition Forget :: "string \<Rightarrow> unit arec" where
  "Forget crdName =
     do { reg \<leftarrow> get_obj;
          case gomap_get (registrations reg) crdName of
            None \<Rightarrow> ret ()
          | Some entry \<Rightarrow>
              do { put_obj (reg\<lparr>registrations := gomap_delete crdName (registrations reg)\<rparr>);
                   removeInformer (tg_gvk entry) } }"

section \<open>Mirroring\<close>

definition ensureControlled :: "api_env \<Rightarrow> typed_object \<Rightarrow> ObjectMeta \<Rightarrow> string \<Rightarrow> error option" where
  "ensureControlled E x mirror mirrorKind =
     (if om_ResourceVersion mirror = [] \<or> a_IsControlledBy E mirror (to_meta x) then None
      else Some (Errorf (mirrorKind @ '' '' @ om_Namespace mirror @ ''/'' @ om_Name mirror @
             '' already exists and is not controlled by '' @ to_Kind x @ '' '' @ Quote (om_Name (to_meta x)) @
             ''; rename the '' @ to_Kind x @ '' object or remove the conflicting '' @ mirrorKind)))"

text \<open>A status value as it comes back from \<open>json.Unmarshal\<close> into \<open>any\<close>.\<close>

definition toUnstructuredValue :: "api_env \<Rightarrow> jobj \<Rightarrow> jobj" where
  "toUnstructuredValue E v = floats_obj (a_float64 E) v"

definition stripNilValues :: "jobj \<Rightarrow> jobj" where
  "stripNilValues m = filter (\<lambda>kv. snd kv \<noteq> JNull) m"

text \<open>A nil map marshals as \<open>null\<close>.\<close>

definition sameJSON :: "jobj option \<Rightarrow> jobj option \<Rightarrow> bool" where
  "sameJSON a b =
     ((case a of None \<Rightarrow> ''null'' | Some m \<Rightarrow> marshal (JObj m)) = (case b of None \<Rightarrow> ''null'' | Some m \<Rightarrow> marshal (JObj m)))"

definition current_status :: "api_env \<Rightarrow> typed_object \<Rightarrow> jobj option" where
  "current_status E x =
     (case a_NestedMap E (to_Object x) [''status''] of Inl _ \<Rightarrow> None | Inr c \<Rightarrow> map_option stripNilValues c)"

definition mirrorStatusBack :: "api_env \<Rightarrow> typed_object \<Rightarrow> jobj \<Rightarrow> error option arec" where
  "mirrorStatusBack E x st =
     (let desired = stripNilValues (toUnstructuredValue E st) in
      if sameJSON (current_status E x) (Some desired) then ret None
      else do { err \<leftarrow> Update_typed_status E (x\<lparr>to_Object := gomap_put ''status'' (JObj desired) (to_Object x)\<rparr>);
                ret (IgnoreNotFound err) })"

definition nested_string :: "api_env \<Rightarrow> jobj \<Rightarrow> string list \<Rightarrow> string" where
  "nested_string E m path =
     (case a_NestedString E m path of Inr (Some s) \<Rightarrow> s | _ \<Rightarrow> [])"

definition to_DeletionPolicy :: "string \<Rightarrow> DeletionPolicy" where
  "to_DeletionPolicy s =
     (if s = [] then DeletionUnset else if s = ''Delete'' then DeletionDelete
      else if s = ''Orphan'' then DeletionOrphan else DeletionOther s)"

definition to_UpdatePolicy :: "string \<Rightarrow> UpdatePolicy" where
  "to_UpdatePolicy s =
     (if s = [] then UpdateUnset else if s = ''Automatic'' then UpdateAutomatic
      else if s = ''Manual'' then UpdateManual else UpdateOther s)"

record mirror_spec =
  ms_Properties :: json
  ms_ProviderRef :: "ProviderReference option"
  ms_DeletionPolicy :: DeletionPolicy

definition mirrorSpec :: "api_env \<Rightarrow> string \<Rightarrow> typed_object \<Rightarrow> mirror_spec result" where
  "mirrorSpec E providerName x =
     (case a_NestedMap E (to_Object x) [''spec'', ''forProvider''] of
        Inl e \<Rightarrow> Inl (wrap_error ''spec.forProvider: '' e)
      | Inr forProvider \<Rightarrow>
          (let name = nested_string E (to_Object x) [''spec'', ''providerRef'', ''name''];
               kind = nested_string E (to_Object x) [''spec'', ''providerRef'', ''kind'']
           in Inr \<lparr>ms_Properties = (case forProvider of None \<Rightarrow> JNull | Some m \<Rightarrow> JObj m),
                   ms_ProviderRef =
                     (if name \<noteq> [] then Some \<lparr>pr_Name = name, pr_Kind = kind\<rparr>
                      else if providerName \<noteq> [] then Some \<lparr>pr_Name = providerName, pr_Kind = []\<rparr> else None),
                   ms_DeletionPolicy = to_DeletionPolicy (nested_string E (to_Object x) [''spec'', ''deletionPolicy''])\<rparr>))"

definition mutate_resource_mirror ::
  "api_env \<Rightarrow> typed_object \<Rightarrow> string \<Rightarrow> mirror_spec \<Rightarrow> DoResource \<Rightarrow> DoResource result" where
  "mutate_resource_mirror E x token ms mirror =
     (case ensureControlled E x (meta mirror) ''DoResource'' of
        Some e \<Rightarrow> Inl e
      | None \<Rightarrow>
          (let sp = (spec mirror)
                 \<lparr>spec_Type := (if spec_Type (spec mirror) = [] then token else spec_Type (spec mirror)),
                  spec_Package := [], spec_ProviderRef := ms_ProviderRef ms,
                  spec_DeletionPolicy := ms_DeletionPolicy ms, spec_Properties := Some (ms_Properties ms)\<rparr>
           in case a_SetControllerReference E (to_meta x) (meta mirror) of
                Inl e \<Rightarrow> Inl e
              | Inr m \<Rightarrow> Inr (mirror\<lparr>meta := m, spec := sp\<rparr>)))"

definition resource_key :: "typed_object \<Rightarrow> DoResource" where
  "resource_key x =
     \<lparr>meta = blank_meta\<lparr>om_Namespace := om_Namespace (to_meta x), om_Name := om_Name (to_meta x)\<rparr>,
      spec = \<lparr>spec_Type = [], spec_Package = [], spec_ProviderRef = None, spec_Properties = None,
              spec_DeletionPolicy = DeletionUnset, spec_Protect = None, spec_References = [],
              spec_WriteConnectionSecretToRef = None, spec_ConnectionDetails = [], spec_ValuesFrom = []\<rparr>,
      status = fresh_status\<rparr>"

definition json_or_null :: "json option \<Rightarrow> json" where
  "json_or_null j = (case j of None \<Rightarrow> JNull | Some v \<Rightarrow> v)"

definition resource_status :: "api_env \<Rightarrow> DoResource \<Rightarrow> jobj" where
  "resource_status E mirror =
     [(''conditions'', a_conditions E (st_Conditions (status mirror))),
      (''id'', JStr (st_ID (status mirror))),
      (''outputs'', json_or_null (st_Outputs (status mirror)))]"

definition TypedResource_Reconcile ::
  "api_env \<Rightarrow> typed_reconciler \<Rightarrow> string \<Rightarrow> string \<Rightarrow> string \<Rightarrow> string \<Rightarrow> reconcile_result arec" where
  "TypedResource_Reconcile E r token providerName ns name =
     do { reg \<leftarrow> get_obj;
          if \<not> isCurrent (tr_Registrar r) (tr_CRDName r) r reg then ret (no_requeue, None)
          else do {
            gr \<leftarrow> Get_typed E (tr_GVK r) ns name;
            case gr of
              Inl e \<Rightarrow> ret (no_requeue, IgnoreNotFound (Some e))
            | Inr x \<Rightarrow>
                if om_Deleting (to_meta x) then ret (no_requeue, None)
                else (case mirrorSpec E providerName x of
                    Inl e \<Rightarrow> ret (no_requeue, Some e)
                  | Inr ms \<Rightarrow>
                      do { cr \<leftarrow> CreateOrUpdate_resource E (resource_key x) (mutate_resource_mirror E x token ms);
                           case cr of
                             Inl e \<Rightarrow> ret (no_requeue, Some e)
                           | Inr mirror \<Rightarrow>
                               do { err \<leftarrow> mirrorStatusBack E x (resource_status E mirror);
                                    ret (no_requeue, err) } }) } }"

text \<open>The lifecycle knobs and the parameters without them; a value of another type is ignored.\<close>

definition object_entry :: "jobj \<Rightarrow> string \<Rightarrow> jobj option" where
  "object_entry m k = (case gomap_get m k of Some (JObj b) \<Rightarrow> Some b | _ \<Rightarrow> None)"

definition string_entry :: "jobj \<Rightarrow> string \<Rightarrow> string" where
  "string_entry m k = (case gomap_get m k of Some (JStr s) \<Rightarrow> s | _ \<Rightarrow> [])"

definition popDoplaneBlock :: "jobj \<Rightarrow> UpdatePolicy \<times> RevisionReference option \<times> jobj" where
  "popDoplaneBlock params =
     (let block = (case object_entry params doplaneReservedProperty of None \<Rightarrow> [] | Some b \<Rightarrow> b);
          rname = (case object_entry block ''revisionRef'' of None \<Rightarrow> [] | Some ref \<Rightarrow> string_entry ref ''name'')
      in (to_UpdatePolicy (string_entry block ''updatePolicy''),
          if rname \<noteq> [] then Some \<lparr>rr_Name = rname\<rparr> else None,
          gomap_delete doplaneReservedProperty params))"

definition mutate_composite_mirror ::
  "api_env \<Rightarrow> typed_object \<Rightarrow> string \<Rightarrow> UpdatePolicy \<Rightarrow> RevisionReference option \<Rightarrow> json \<Rightarrow> DoComposite \<Rightarrow> DoComposite result" where
  "mutate_composite_mirror E x defn policy revisionRef raw mirror =
     (case ensureControlled E x (comp_meta mirror) ''DoComposite'' of
        Some e \<Rightarrow> Inl e
      | None \<Rightarrow>
          (case a_SetControllerReference E (to_meta x) (comp_meta mirror) of
             Inl e \<Rightarrow> Inl e
           | Inr m \<Rightarrow>
               Inr (mirror\<lparr>comp_meta := m,
                 comp_spec := \<lparr>comp_Definition = defn, comp_Parameters = Some raw,
                               comp_UpdatePolicy = policy, comp_RevisionRef = revisionRef\<rparr>\<rparr>)))"

definition composite_key :: "typed_object \<Rightarrow> DoComposite" where
  "composite_key x =
     \<lparr>comp_meta = blank_meta\<lparr>om_Namespace := om_Namespace (to_meta x), om_Name := om_Name (to_meta x)\<rparr>,
      comp_spec = \<lparr>comp_Definition = [], comp_Parameters = None, comp_UpdatePolicy = UpdateUnset, comp_RevisionRef = None\<rparr>,
      comp_status = \<lparr>comps_Resources = [], comps_ReadyResources = [], comps_Outputs = None, comps_Revision = [],
                     comps_ObservedGeneration = 0, comps_Conditions = []\<rparr>\<rparr>"

definition child_status_json :: "CompositeResourceStatus \<Rightarrow> json" where
  "child_status_json c =
     JObj ((if crs_ID c \<noteq> [] then [(''id'', JStr (crs_ID c))] else []) @
           [(''name'', JStr (crs_Name c)), (''ready'', JBool (crs_Ready c)), (''resourceName'', JStr (crs_ResourceName c))])"

definition composite_status :: "api_env \<Rightarrow> DoComposite \<Rightarrow> jobj" where
  "composite_status E mirror =
     [(''conditions'', a_conditions E (comps_Conditions (comp_status mirror))),
      (''outputs'', json_or_null (comps_Outputs (comp_status mirror))),
      (''readyResources'', JStr (comps_ReadyResources (comp_status mirror))),
      (''resources'', (case comps_Resources (comp_status mirror) of
                         [] \<Rightarrow> JNull | rs \<Rightarrow> JArr (map child_status_json rs))),
      (''revision'', JStr (comps_Revision (comp_status mirror)))]"

text \<open>\<open>NestedMap\<close> gives a nil map for a missing spec, which marshals as \<open>null\<close>.\<close>

definition TypedComposite_Reconcile ::
  "api_env \<Rightarrow> typed_reconciler \<Rightarrow> string \<Rightarrow> string \<Rightarrow> string \<Rightarrow> reconcile_result arec" where
  "TypedComposite_Reconcile E r defn ns name =
     do { reg \<leftarrow> get_obj;
          if \<not> isCurrent (tr_Registrar r) (tr_CRDName r) r reg then ret (no_requeue, None)
          else do {
            gr \<leftarrow> Get_typed E (tr_GVK r) ns name;
            case gr of
              Inl e \<Rightarrow> ret (no_requeue, IgnoreNotFound (Some e))
            | Inr x \<Rightarrow>
                if om_Deleting (to_meta x) then ret (no_requeue, None)
                else (case a_NestedMap E (to_Object x) [''spec''] of
                    Inl e \<Rightarrow> ret (no_requeue, Some (wrap_error ''spec: '' e))
                  | Inr params \<Rightarrow>
                      (case popDoplaneBlock (case params of None \<Rightarrow> [] | Some m \<Rightarrow> m) of
                         (policy, revisionRef, rest) \<Rightarrow>
                           do { cr \<leftarrow> CreateOrUpdate_composite E (composite_key x)
                                  (mutate_composite_mirror E x defn policy revisionRef
                                     (case params of None \<Rightarrow> JNull | Some _ \<Rightarrow> JObj rest));
                                case cr of
                                  Inl e \<Rightarrow> ret (no_requeue, Some e)
                                | Inr mirror \<Rightarrow>
                                    do { err \<leftarrow> mirrorStatusBack E x (composite_status E mirror);
                                         ret (no_requeue, err) } })) } }"

end
