(* ===== verification/Definition_Controller.thy ===== *)
theory Definition_Controller
  imports Typed_Api Resource_Status
begin

text \<open>
  The composite definition controller
  (\<open>internal/controller/docompositedefinition_controller.go\<close>): it serves the typed platform
  API of a definition, counts its objects per version, and on deletion takes the API down only
  when no typed object is left.
\<close>

definition condAPIServed :: string where "condAPIServed = ''APIServed''"
definition typedAPIFinalizer :: string where "typedAPIFinalizer = ''do.pulumi.com/typed-api''"
definition countRefreshInterval :: int where "countRefreshInterval = 60 * 10 ^ 9"

record DoCompositeDefinitionReconciler =
  dr_Typed :: bool
  dr_AllowedGroups :: "string list"

section \<open>Status\<close>

definition setDefinitionCondition ::
  "api_env \<Rightarrow> ConditionStatus \<Rightarrow> string \<Rightarrow> string \<Rightarrow> DoCompositeDefinition \<Rightarrow> DoCompositeDefinition" where
  "setDefinitionCondition E cstatus reason message def =
     def\<lparr>def_status := (def_status def)\<lparr>cdst_Conditions :=
       a_SetStatusCondition E (cdst_Conditions (def_status def))
         \<lparr>c_Type = condAPIServed, c_Status = cstatus, c_Reason = reason, c_Message = message,
          c_ObservedGeneration = om_Generation (def_meta def)\<rparr>\<rparr>\<rparr>"

definition persistDefinitionStatus :: "api_env \<Rightarrow> DoCompositeDefinition \<Rightarrow> error option arec" where
  "persistDefinitionStatus E def =
     retry (a_retry_again E) (a_retry_steps E)
       (do { r \<leftarrow> Get_def E (om_Name (def_meta def));
             case r of
               Inl e \<Rightarrow> ret (IgnoreNotFound (Some e))
             | Inr latest \<Rightarrow>
                 do { err \<leftarrow> Update_def_status E (latest\<lparr>def_status := (def_status latest)
                               \<lparr>cdst_Conditions := cdst_Conditions (def_status def),
                                cdst_APIVersions := cdst_APIVersions (def_status def)\<rparr>\<rparr>);
                      ret (IgnoreNotFound err) } })"

definition markAPIFailed :: "api_env \<Rightarrow> DoCompositeDefinition \<Rightarrow> string \<Rightarrow> error \<Rightarrow> reconcile_result arec" where
  "markAPIFailed E def reason err =
     do { Api_Eventf ''Warning'' ''TypedAPIFailed'' (compact (e_msg err));
          perr \<leftarrow> persistDefinitionStatus E (setDefinitionCondition E ConditionFalse reason (compact (e_msg err)) def);
          ret (no_requeue, perr) }"

section \<open>Checking templates\<close>

definition name_char :: "char \<Rightarrow> bool" where
  "name_char c =
     (let n = (of_char c :: nat) in
      48 \<le> n \<and> n \<le> 57 \<or> 65 \<le> n \<and> n \<le> 90 \<or> 97 \<le> n \<and> n \<le> 122 \<or> c = CHR ''_'' \<or> c = CHR ''-'')"

definition re_space :: "char \<Rightarrow> bool" where
  "re_space c = (c \<in> {CHR '' '', CHR 0x09, CHR 0x0A, CHR 0x0C, CHR 0x0D})"

text \<open>
  \<open>paramsRootRe\<close> and \<open>resourcesRootRe\<close> at the start of a text: an opening \<open>${\<close>, space, the
  keyword with its dot, and a name. The second component is the text after the match.
\<close>

definition match_root :: "string \<Rightarrow> string \<Rightarrow> (string \<times> string) option" where
  "match_root kw s =
     (if HasPrefix s ''${'' then
        (let s1 = dropWhile re_space (drop 2 s) in
         if HasPrefix s1 kw then
           (let s2 = drop (length kw) s1 in
            if takeWhile name_char s2 = [] then None else Some (takeWhile name_char s2, dropWhile name_char s2))
         else None)
      else None)"

lemma match_root_shorter: "match_root kw s = Some (n, r) \<Longrightarrow> length r < length s"
proof -
  assume m: "match_root kw s = Some (n, r)"
  then obtain s0 where s0: "s = ''${'' @ s0" by (auto simp: match_root_def HasPrefix_iff split: if_splits)
  have "length r \<le> length (drop (length kw) (dropWhile re_space s0))"
    using m length_dropWhile_le [of name_char "drop (length kw) (dropWhile re_space s0)"]
    unfolding s0 by (auto simp: match_root_def Let_def split: if_splits)
  also have "\<dots> \<le> length s0" using length_dropWhile_le [of re_space s0] by simp
  finally show ?thesis by (simp add: s0)
qed

function root_matches :: "string \<Rightarrow> string \<Rightarrow> string list" where
  "root_matches kw [] = []"
| "root_matches kw (c # s) =
     (case match_root kw (c # s) of
        Some (name, rest) \<Rightarrow> name # root_matches kw rest
      | None \<Rightarrow> root_matches kw s)"
  by pat_completeness auto
termination
  by (relation "measure (\<lambda>(kw, s). length s)") (auto dest: match_root_shorter)

definition unescaped :: "string \<Rightarrow> string" where
  "unescaped s = ReplaceAll s ''$${'' []"

definition raw_doc :: "json option \<Rightarrow> string" where
  "raw_doc j = (case j of None \<Rightarrow> [] | Some d \<Rightarrow> marshal d)"

definition checkOutputSources :: "DoCompositeDefinitionSpec \<Rightarrow> error option" where
  "checkOutputSources ds =
     (case cds_Outputs ds of
        None \<Rightarrow> None
      | Some out \<Rightarrow>
          (case find (\<lambda>n. n \<notin> t_Name ` set (cds_Resources ds)) (root_matches ''resources.'' (unescaped (marshal out))) of
             None \<Rightarrow> None
           | Some n \<Rightarrow> Some (Errorf (''outputs reference ${resources.'' @ n @
                         ''}, but the definition declares no resource named '' @ Quote n))))"

definition pruning_schema :: "JSONSchemaProps option \<Rightarrow> bool" where
  "pruning_schema params =
     (case params of
        None \<Rightarrow> False
      | Some p \<Rightarrow> sp_Properties p \<noteq> [] \<and> \<not> sp_PreserveUnknown p \<and>
                  \<not> (sp_AllowsAdditional p \<or> sp_AdditionalProperties p \<noteq> None))"

fun check_template_roots :: "JSONSchemaProps \<Rightarrow> CompositeResourceTemplate list \<Rightarrow> error option" where
  "check_template_roots p [] = None"
| "check_template_roots p (tpl # tpls) =
     (case find (\<lambda>n. map_of (sp_Properties p) n = None)
              (root_matches ''params.'' (unescaped (raw_doc (t_Properties tpl) @ '' '' @ t_ExternalName tpl))) of
        Some n \<Rightarrow> Some (Errorf (''resource '' @ Quote (t_Name tpl) @ '' references ${params.'' @ n @
                    ''}, but the parameters schema declares no property '' @ Quote n @
                    '' (it would be pruned at admission)''))
      | None \<Rightarrow> check_template_roots p tpls)"

definition checkTemplateParams :: "DoCompositeDefinitionSpec \<Rightarrow> CompositeAPI \<Rightarrow> error option" where
  "checkTemplateParams ds api =
     (case checkOutputSources ds of
        Some e \<Rightarrow> Some e
      | None \<Rightarrow>
          if \<not> pruning_schema (api_ParametersSchema api) then None
          else (let p = the (api_ParametersSchema api) in
            case check_template_roots p (cds_Resources ds) of
              Some e \<Rightarrow> Some e
            | None \<Rightarrow>
                (case cds_Outputs ds of
                   None \<Rightarrow> None
                 | Some out \<Rightarrow>
                     (case find (\<lambda>n. map_of (sp_Properties p) n = None) (root_matches ''params.'' (unescaped (marshal out))) of
                        None \<Rightarrow> None
                      | Some n \<Rightarrow> Some (Errorf (''outputs reference ${params.'' @ n @
                                    ''}, but the parameters schema declares no property '' @ Quote n @
                                    '' (it would be pruned at admission)''))))))"

section \<open>Counting typed objects\<close>

definition written_step :: "string \<Rightarrow> string \<times> int option \<Rightarrow> ManagedField \<Rightarrow> string \<times> int option" where
  "written_step grp acc mf =
     (if mf_Subresource mf \<noteq> [] \<or> \<not> HasPrefix (mf_APIVersion mf) (grp @ ''/'') then acc
      else case mf_Time mf of
          None \<Rightarrow> acc
        | Some t \<Rightarrow>
            if (case snd acc of None \<Rightarrow> False | Some newest \<Rightarrow> \<not> newest < t) then acc
            else (TrimPrefix (mf_APIVersion mf) (grp @ ''/''), Some t))"

definition writtenVersion :: "typed_object \<Rightarrow> string \<Rightarrow> string \<Rightarrow> string" where
  "writtenVersion x grp fallback = fst (foldl (written_step grp) (fallback, None) (to_ManagedFields x))"

definition typedObjectList :: "api_env \<Rightarrow> CompositeAPI \<Rightarrow> typed_object list result arec" where
  "typedObjectList E api =
     List_typed E \<lparr>gvk_Group = compositeAPIGroup api, gvk_Version = compositeAPIVersion api,
                   gvk_Kind = api_Kind api @ ''List''\<rparr>"

definition totalTypedObjects :: "api_env \<Rightarrow> CompositeAPI \<Rightarrow> nat arec" where
  "totalTypedObjects E api =
     do { r \<leftarrow> typedObjectList E api;
          ret (case r of
                 Inr items \<Rightarrow> length items
               | Inl e \<Rightarrow> if IsNotFound e \<or> a_IsNoMatchError E e then 0 else 1) }"

definition bump :: "int gomap \<Rightarrow> string \<Rightarrow> int gomap" where
  "bump counts v = gomap_put v (int32 ((case gomap_get counts v of None \<Rightarrow> 0 | Some n \<Rightarrow> n) + 1)) counts"

definition count_versions :: "CompositeAPI \<Rightarrow> typed_object list \<Rightarrow> int gomap" where
  "count_versions api items =
     foldl bump
       (foldl (\<lambda>m v. gomap_put v 0 m) (gomap_put (compositeAPIVersion api) 0 []) (api_DeprecatedVersions api))
       (map (\<lambda>x. writtenVersion x (compositeAPIGroup api) (compositeAPIVersion api)) items)"

definition version_statuses :: "CompositeAPI \<Rightarrow> int gomap \<Rightarrow> TypedAPIVersionStatus list" where
  "version_statuses api counts =
     (let storage = compositeAPIVersion api in
      \<lparr>tav_Name = storage, tav_Deprecated = False,
       tav_Objects = (case gomap_get counts storage of None \<Rightarrow> 0 | Some n \<Rightarrow> n)\<rparr> #
      map (\<lambda>(v, n). \<lparr>tav_Name = v, tav_Deprecated = (v \<in> set (api_DeprecatedVersions api)), tav_Objects = n\<rparr>)
        (gomap_delete storage counts))"

definition countTypedObjects :: "api_env \<Rightarrow> CompositeAPI \<Rightarrow> TypedAPIVersionStatus list arec" where
  "countTypedObjects E api =
     do { r \<leftarrow> typedObjectList E api;
          ret (version_statuses api (count_versions api (case r of Inl _ \<Rightarrow> [] | Inr items \<Rightarrow> items))) }"

section \<open>Reconcile\<close>

definition deleteServedCRD ::
  "api_env \<Rightarrow> DoCompositeDefinitionReconciler \<Rightarrow> DoCompositeDefinition \<Rightarrow> CompositeAPI \<Rightarrow> error option arec" where
  "deleteServedCRD E R def api =
     do { let name = compositeAPIPlural api @ ''.'' @ compositeAPIGroup api;
          gr \<leftarrow> Get_crd E name;
          case gr of
            Inl e \<Rightarrow> ret (IgnoreNotFound (Some e))
          | Inr crd \<Rightarrow>
              if label_of (crd_meta crd) labelManagedByKey \<noteq> ''doplane'' \<or>
                 annotation (crd_meta crd) annTypedOwner \<noteq> ''composite:'' @ om_Name (def_meta def)
              then ret None
              else do {
                derr \<leftarrow> Delete_crd E crd (om_UID (crd_meta crd));
                case IgnoreNotFound derr of
                  Some e \<Rightarrow> ret (Some e)
                | None \<Rightarrow>
                    do { (if dr_Typed R then Forget name else ret ());
                         Api_Eventf ''Normal'' ''TypedAPIRemoved'' (''deleted generated CRD '' @ name);
                         ret None } } }"

text \<open>The finalizer is dropped and the definition written back.\<close>

definition release_finalizer :: "api_env \<Rightarrow> DoCompositeDefinition \<Rightarrow> reconcile_result arec" where
  "release_finalizer E def =
     do { ur \<leftarrow> Update_def E (def\<lparr>def_meta := a_RemoveFinalizer E (def_meta def) typedAPIFinalizer\<rparr>);
          ret (no_requeue, case ur of Inl e \<Rightarrow> Some e | Inr _ \<Rightarrow> None) }"

definition finalizeDefinition ::
  "api_env \<Rightarrow> DoCompositeDefinitionReconciler \<Rightarrow> DoCompositeDefinition \<Rightarrow> reconcile_result arec" where
  "finalizeDefinition E R def =
     (if \<not> a_ContainsFinalizer E (def_meta def) typedAPIFinalizer then ret (no_requeue, None)
      else case cds_API (def_spec def) of
          None \<Rightarrow> release_finalizer E def
        | Some api \<Rightarrow>
            do { n \<leftarrow> totalTypedObjects E api;
                 if 0 < n then
                   (let msg = ''deletion blocked: '' @ show_nat n @ '' '' @ api_Kind api @
                              '' object(s) still exist; delete them first''
                    in do { Api_Eventf ''Warning'' ''DeletionBlocked'' msg;
                            perr \<leftarrow> persistDefinitionStatus E (setDefinitionCondition E ConditionFalse ''DeletionBlocked'' msg def);
                            case perr of
                              Some e \<Rightarrow> ret (no_requeue, Some e)
                            | None \<Rightarrow> ret (no_requeue\<lparr>RequeueAfter := 30 * 10 ^ 9\<rparr>, None) })
                 else do {
                   derr \<leftarrow> deleteServedCRD E R def api;
                   case derr of
                     Some e \<Rightarrow> ret (no_requeue, Some e)
                   | None \<Rightarrow> release_finalizer E def } })"

text \<open>What an error of \<open>EnsureCompositeAPI\<close> leads to.\<close>

definition serve_failed :: "api_env \<Rightarrow> DoCompositeDefinition \<Rightarrow> error \<Rightarrow> reconcile_result arec" where
  "serve_failed E def err =
     (if errors_Is (Some err) errCRDConflict then markAPIFailed E def ''CRDConflict'' err
      else if errors_Is (Some err) errStoredVersionInUse then
        do { res \<leftarrow> markAPIFailed E def ''StoredVersionInUse'' err;
             ret (case snd res of
                    None \<Rightarrow> (no_requeue\<lparr>RequeueAfter := countRefreshInterval\<rparr>, None)
                  | Some e \<Rightarrow> res) }
      else if e_api err = Some ApiInvalid then markAPIFailed E def ''InvalidSchema'' err
      else do { Api_Eventf ''Warning'' ''TypedAPIFailed'' (compact (e_msg err));
                ret (no_requeue, Some err) })"

definition serve_definition ::
  "api_env \<Rightarrow> CompositeAPI \<Rightarrow> CRD \<Rightarrow> DoCompositeDefinition \<Rightarrow> reconcile_result arec" where
  "serve_definition E api crd def =
     do { serr \<leftarrow> EnsureCompositeAPI E crd (om_Name (def_meta def));
          case serr of
            Some e \<Rightarrow> serve_failed E def e
          | None \<Rightarrow>
              do { vs \<leftarrow> countTypedObjects E api;
                   perr \<leftarrow> persistDefinitionStatus E
                     (setDefinitionCondition E ConditionTrue ''Served'' (''typed API '' @ om_Name (crd_meta crd) @ '' served'')
                       (def\<lparr>def_status := (def_status def)\<lparr>cdst_APIVersions := vs\<rparr>\<rparr>));
                   case perr of
                     Some e \<Rightarrow> ret (no_requeue, Some e)
                   | None \<Rightarrow> ret (no_requeue\<lparr>RequeueAfter := countRefreshInterval\<rparr>, None) } }"

definition reconcile_definition ::
  "api_env \<Rightarrow> DoCompositeDefinitionReconciler \<Rightarrow> DoCompositeDefinition \<Rightarrow> CompositeAPI \<Rightarrow> reconcile_result arec" where
  "reconcile_definition E R def api =
     (let grp = compositeAPIGroup api in
      if grp \<noteq> typedGroup \<and> grp \<notin> set (dr_AllowedGroups R) then
        markAPIFailed E def ''GroupNotAllowed''
          (Errorf (''group '' @ Quote grp @ '' is not on the install-time allowlist; add it to the compositeApiGroups Helm value (which also renders the manager RBAC for it)''))
      else case typedCompositeCRD (om_Name (def_meta def)) api of
          Inl e \<Rightarrow> markAPIFailed E def ''InvalidSchema'' e
        | Inr crd \<Rightarrow>
            (case checkTemplateParams (def_spec def) api of
               Some e \<Rightarrow> markAPIFailed E def ''InvalidSchema'' e
             | None \<Rightarrow>
                 if a_ContainsFinalizer E (def_meta def) typedAPIFinalizer then serve_definition E api crd def
                 else do {
                   ur \<leftarrow> Update_def E (def\<lparr>def_meta := a_AddFinalizer E (def_meta def) typedAPIFinalizer\<rparr>);
                   case ur of
                     Inl e \<Rightarrow> ret (no_requeue, Some e)
                   | Inr def' \<Rightarrow> serve_definition E api crd def' }))"

definition Definition_Reconcile ::
  "api_env \<Rightarrow> DoCompositeDefinitionReconciler \<Rightarrow> string \<Rightarrow> reconcile_result arec" where
  "Definition_Reconcile E R name =
     do { gr \<leftarrow> Get_def E name;
          case gr of
            Inl e \<Rightarrow> ret (no_requeue, IgnoreNotFound (Some e))
          | Inr def \<Rightarrow>
              if om_Deleting (def_meta def) then finalizeDefinition E R def
              else (case cds_API (def_spec def) of
                  None \<Rightarrow> ret (no_requeue, None)
                | Some api \<Rightarrow> if \<not> dr_Typed R then ret (no_requeue, None) else reconcile_definition E R def api) }"

end
