(* ===== verification/Provider_Controllers.thy ===== *)
theory Provider_Controllers
  imports Typed_Api Do_Resource
begin

text \<open>
  Provider profiles: the cluster-scoped DoProvider
  (\<open>internal/controller/doprovider_controller.go\<close>) and the namespaced DoProviderConfig
  (\<open>doproviderconfig_controller.go\<close>), which share the checks of schema, plugin and
  credentials and the roll-up into the Ready condition.
\<close>

definition providerResyncInterval :: int where "providerResyncInterval = 600 * 10 ^ 9"

definition ConditionSchemaFetched :: string where "ConditionSchemaFetched = ''SchemaFetched''"
definition ConditionPluginReady :: string where "ConditionPluginReady = ''PluginReady''"
definition ConditionCredentialsReady :: string where "ConditionCredentialsReady = ''CredentialsReady''"

record DoProviderReconciler =
  pv_RunnerNamespace :: string
  pv_PluginCachePath :: string
  pv_Typed :: bool

record DoProviderConfigReconciler =
  pc_Profile :: DoProviderReconciler
  pc_PerResourceNamespace :: bool

definition setProfileCondition ::
  "api_env \<Rightarrow> int \<Rightarrow> string \<Rightarrow> ConditionStatus \<Rightarrow> string \<Rightarrow> string \<Rightarrow> DoProviderStatus \<Rightarrow> DoProviderStatus" where
  "setProfileCondition E generation condType cstatus reason message st =
     st\<lparr>dps_Conditions := a_SetStatusCondition E (dps_Conditions st)
         \<lparr>c_Type = condType, c_Status = cstatus, c_Reason = reason, c_Message = message, c_ObservedGeneration = generation\<rparr>\<rparr>"

definition pluginReadyMessage :: "string \<Rightarrow> string" where
  "pluginReadyMessage cachePath =
     (if cachePath = [] then ''plugin served from baked image plugins or on-demand download''
      else ''plugin available via the shared cache at '' @ cachePath)"

definition schemaFailureReason :: "error \<Rightarrow> string" where
  "schemaFailureReason err =
     (case errors_As_Coded (Some err) of
        Some coded \<Rightarrow> if Code coded \<noteq> [] then Code coded else ''SchemaUnavailable''
      | None \<Rightarrow> ''SchemaUnavailable'')"

definition schemaFetchContext :: "op_ctx \<Rightarrow> string \<Rightarrow> DoProviderSpec \<Rightarrow> string \<Rightarrow> op_ctx" where
  "schemaFetchContext ctx owner ps secretNamespace =
     (let ctx1 = WithOwner ctx owner in
      case dp_CredentialsSecretRef ps of
        None \<Rightarrow> ctx1
      | Some ref \<Rightarrow>
          (let ctx2 = WithCredentialsSecret ctx1 (lsr_Name ref) in
           if secretNamespace \<noteq> [] then WithNamespace ctx2 secretNamespace else ctx2))"

text \<open>The outcome of the check is part of the value; the status is threaded through.\<close>

definition checkCredentials ::
  "api_env \<Rightarrow> DoProviderSpec \<Rightarrow> int \<Rightarrow> string \<Rightarrow> DoProviderStatus \<Rightarrow> (bool \<times> DoProviderStatus) result arec" where
  "checkCredentials E ps generation secretNamespace st =
     (case dp_CredentialsSecretRef ps of
        None \<Rightarrow>
          ret (Inr (True, setProfileCondition E generation ConditionCredentialsReady ConditionTrue ''NotRequired''
            ''no credentials Secret configured; the deployment-wide default applies'' st))
      | Some ref \<Rightarrow>
          if secretNamespace = [] then
            ret (Inr (True, setProfileCondition E generation ConditionCredentialsReady ConditionTrue ''CheckSkipped''
              ''no runner namespace configured (dev mode); Secret not verified'' st))
          else do {
            r \<leftarrow> Get_creds E secretNamespace (lsr_Name ref);
            ret (case r of
              Inr secret \<Rightarrow>
                (let missing = filter (\<lambda>key. gomap_get (sec_data secret) key = None) (dp_CredentialKeys ps) in
                 if 0 < length missing then
                   Inr (False, setProfileCondition E generation ConditionCredentialsReady ConditionFalse ''KeysMissing''
                     (''secret '' @ secretNamespace @ ''/'' @ lsr_Name ref @ '' is missing keys: '' @ Join (sort missing) '', '') st)
                 else
                   Inr (True, setProfileCondition E generation ConditionCredentialsReady ConditionTrue ''CredentialsReady''
                     (''secret '' @ secretNamespace @ ''/'' @ lsr_Name ref @ '' holds all required keys'') st))
            | Inl e \<Rightarrow>
                if IgnoreNotFound (Some e) = None then
                  Inr (False, setProfileCondition E generation ConditionCredentialsReady ConditionFalse ''SecretNotFound''
                    (''secret '' @ secretNamespace @ ''/'' @ lsr_Name ref @ '' not found'') st)
                else Inl e) })"

definition schema_failed :: "api_env \<Rightarrow> DoProviderReconciler \<Rightarrow> int \<Rightarrow> error \<Rightarrow> DoProviderStatus \<Rightarrow> DoProviderStatus" where
  "schema_failed E R generation err st =
     (let reason = schemaFailureReason err in
      (setProfileCondition E generation ConditionPluginReady ConditionFalse reason
         ''plugin availability unknown while the schema cannot be fetched''
        (setProfileCondition E generation ConditionSchemaFetched ConditionFalse reason (compact (e_msg err)) st))
      \<lparr>dps_Plugin := Some \<lparr>pls_Ready = False, pls_CachePath = pv_PluginCachePath R\<rparr>\<rparr>)"

definition schema_fetched ::
  "api_env \<Rightarrow> DoProviderReconciler \<Rightarrow> int \<Rightarrow> PackageSchema \<Rightarrow> nat \<Rightarrow> DoProviderStatus \<Rightarrow> DoProviderStatus" where
  "schema_fetched E R generation sch now st =
     (setProfileCondition E generation ConditionPluginReady ConditionTrue ''PluginAvailable''
        (pluginReadyMessage (pv_PluginCachePath R))
       (setProfileCondition E generation ConditionSchemaFetched ConditionTrue ''SchemaFetched''
          (''schema for '' @ ps_Name sch @ ''@'' @ ps_Version sch @ '' fetched'') st))
     \<lparr>dps_Package := Some \<lparr>pps_Name = ps_Name sch, pps_Version = ps_Version sch\<rparr>,
      dps_Plugin := Some \<lparr>pls_Ready = True, pls_CachePath = pv_PluginCachePath R\<rparr>,
      dps_LastSchemaFetchTime := Some now\<rparr>"

definition roll_up :: "api_env \<Rightarrow> int \<Rightarrow> bool \<Rightarrow> bool \<Rightarrow> DoProviderStatus \<Rightarrow> DoProviderStatus" where
  "roll_up E generation schemaOK credsOK st =
     (if schemaOK \<and> credsOK
      then setProfileCondition E generation ConditionReady ConditionTrue ''Ready'' ''provider profile validated'' st
      else setProfileCondition E generation ConditionReady ConditionFalse
             (if schemaOK then ''CredentialsNotReady'' else ''SchemaUnavailable'')
             ''one or more provider checks failed; see the other conditions'' st)
     \<lparr>dps_ObservedGeneration := generation\<rparr>"

definition validateProfile ::
  "api_env \<Rightarrow> DoProviderReconciler \<Rightarrow> string \<Rightarrow> DoProviderSpec \<Rightarrow> DoProviderStatus \<Rightarrow> int \<Rightarrow> string \<Rightarrow>
   DoProviderStatus result arec" where
  "validateProfile E R owner ps st generation secretNamespace =
     do { (if \<not> PackagePinned (dp_Package ps)
           then Api_Eventf ''Warning'' ''ProviderNotPinned''
                  (''spec.package '' @ Quote (dp_Package ps) @ '' has no pinned version; operations are not reproducible'')
           else ret ());
          sr \<leftarrow> Schema_get E (schemaFetchContext background owner ps secretNamespace) (dp_Package ps) [];
          st1 \<leftarrow> (case sr of
                   Inl e \<Rightarrow> ret (schema_failed E R generation e st)
                 | Inr sch \<Rightarrow> do { now \<leftarrow> Now E; ret (schema_fetched E R generation sch now st) });
          cr \<leftarrow> checkCredentials E ps generation secretNamespace st1;
          ret (case cr of
                 Inl e \<Rightarrow> Inl e
               | Inr (credsOK, st2) \<Rightarrow>
                   Inr (roll_up E generation (case sr of Inl _ \<Rightarrow> False | Inr _ \<Rightarrow> True) credsOK st2)) }"

definition countDependents :: "api_env \<Rightarrow> string \<Rightarrow> string \<Rightarrow> string \<Rightarrow> int result arec" where
  "countDependents E kind name ns =
     do { r \<leftarrow> List_all_resources E ns;
          ret (case r of
                 Inl e \<Rightarrow> Inl e
               | Inr items \<Rightarrow>
                   Inr (int32 (int (length (filter (\<lambda>res. case spec_ProviderRef (spec res) of
                          None \<Rightarrow> False | Some ref \<Rightarrow> pr_Name ref = name \<and> refKind (Some ref) = kind) items))))) }"

primrec ensure_typed :: "api_env \<Rightarrow> DoProviderReconciler \<Rightarrow> DoProvider \<Rightarrow> string list \<Rightarrow> error option arec" where
  "ensure_typed E R provider [] = ret None"
| "ensure_typed E R provider (token # tokens) =
     do { sr \<leftarrow> Schema_get E (schemaFetchContext background (''doprovider/'' @ om_Name (prov_meta provider))
                               (prov_spec provider) (pv_RunnerNamespace R))
                  (dp_Package (prov_spec provider)) token;
          case sr of
            Inl e \<Rightarrow> ret (Some (wrap_error (''schema for '' @ token @ '': '') e))
          | Inr sch \<Rightarrow>
              (case typedResourceCRD token sch of
                 Inl e \<Rightarrow> ret (Some e)
               | Inr crd \<Rightarrow>
                   do { err \<leftarrow> EnsureResourceAPI E crd token (om_Name (prov_meta provider));
                        case err of
                          Some e \<Rightarrow> ret (Some e)
                        | None \<Rightarrow> ensure_typed E R provider tokens }) }"

definition ensureTypedResources :: "api_env \<Rightarrow> DoProviderReconciler \<Rightarrow> DoProvider \<Rightarrow> error option arec" where
  "ensureTypedResources E R provider = ensure_typed E R provider (dp_TypedResources (prov_spec provider))"

definition persist_provider :: "api_env \<Rightarrow> DoProvider \<Rightarrow> error option arec" where
  "persist_provider E provider =
     retry (a_retry_again E) (a_retry_steps E)
       (do { r \<leftarrow> Get_prov E (om_Name (prov_meta provider));
             case r of
               Inl e \<Rightarrow> ret (IgnoreNotFound (Some e))
             | Inr latest \<Rightarrow>
                 do { err \<leftarrow> Update_prov_status E (latest\<lparr>prov_status := prov_status provider\<rparr>);
                      ret (IgnoreNotFound err) } })"

definition persist_config :: "api_env \<Rightarrow> DoProviderConfig \<Rightarrow> error option arec" where
  "persist_config E config =
     retry (a_retry_again E) (a_retry_steps E)
       (do { r \<leftarrow> Get_prov_config E (om_Namespace (prov_meta config)) (om_Name (prov_meta config));
             case r of
               Inl e \<Rightarrow> ret (IgnoreNotFound (Some e))
             | Inr latest \<Rightarrow>
                 do { err \<leftarrow> Update_config_status E (latest\<lparr>prov_status := prov_status config\<rparr>);
                      ret (IgnoreNotFound err) } })"

definition with_dependents :: "int result \<Rightarrow> DoProviderStatus \<Rightarrow> DoProviderStatus" where
  "with_dependents n st = (case n of Inl _ \<Rightarrow> st | Inr k \<Rightarrow> st\<lparr>dps_Dependents := k\<rparr>)"

text \<open>The typed APIs of a provider, and the condition that reports on them.\<close>

definition typed_condition :: "api_env \<Rightarrow> DoProviderReconciler \<Rightarrow> DoProvider \<Rightarrow> DoProviderStatus \<Rightarrow> DoProviderStatus arec" where
  "typed_condition E R provider st =
     (if pv_Typed R \<and> 0 < length (dp_TypedResources (prov_spec provider)) then
        do { err \<leftarrow> ensureTypedResources E R provider;
             case err of
               Some e \<Rightarrow>
                 do { Api_Eventf ''Warning'' ''TypedAPIFailed'' (compact (e_msg e));
                      ret (setProfileCondition E (om_Generation (prov_meta provider)) ''TypedAPIsReady'' ConditionFalse
                             ''TypedAPIFailed'' (compact (e_msg e)) st) }
             | None \<Rightarrow>
                 ret (setProfileCondition E (om_Generation (prov_meta provider)) ''TypedAPIsReady'' ConditionTrue
                        ''TypedAPIsReady'' (show_nat (length (dp_TypedResources (prov_spec provider))) @
                          '' typed APIs served in '' @ typedGroup) st) }
      else ret st)"

definition Provider_Reconcile :: "api_env \<Rightarrow> DoProviderReconciler \<Rightarrow> string \<Rightarrow> reconcile_result arec" where
  "Provider_Reconcile E R name =
     do { gr \<leftarrow> Get_prov E name;
          case gr of
            Inl e \<Rightarrow> ret (no_requeue, IgnoreNotFound (Some e))
          | Inr provider \<Rightarrow>
              do { vr \<leftarrow> validateProfile E R (''doprovider/'' @ om_Name (prov_meta provider)) (prov_spec provider)
                          (prov_status provider) (om_Generation (prov_meta provider)) (pv_RunnerNamespace R);
                   case vr of
                     Inl e \<Rightarrow> ret (no_requeue, Some e)
                   | Inr st \<Rightarrow>
                       do { n \<leftarrow> countDependents E ProviderKindCluster (om_Name (prov_meta provider)) [];
                            st' \<leftarrow> typed_condition E R provider (with_dependents n st);
                            perr \<leftarrow> persist_provider E (provider\<lparr>prov_status := st'\<rparr>);
                            case perr of
                              Some e \<Rightarrow> ret (no_requeue, Some e)
                            | None \<Rightarrow> ret (no_requeue\<lparr>RequeueAfter := providerResyncInterval\<rparr>, None) } } }"

definition ProviderConfig_Reconcile ::
  "api_env \<Rightarrow> DoProviderConfigReconciler \<Rightarrow> string \<Rightarrow> string \<Rightarrow> reconcile_result arec" where
  "ProviderConfig_Reconcile E R ns name =
     do { gr \<leftarrow> Get_prov_config E ns name;
          case gr of
            Inl e \<Rightarrow> ret (no_requeue, IgnoreNotFound (Some e))
          | Inr config \<Rightarrow>
              do { let secretNamespace = (if pc_PerResourceNamespace R then om_Namespace (prov_meta config)
                                          else pv_RunnerNamespace (pc_Profile R));
                   vr \<leftarrow> validateProfile E (pc_Profile R)
                          (''doproviderconfig/'' @ om_Namespace (prov_meta config) @ ''/'' @ om_Name (prov_meta config))
                          (prov_spec config) (prov_status config) (om_Generation (prov_meta config)) secretNamespace;
                   case vr of
                     Inl e \<Rightarrow> ret (no_requeue, Some e)
                   | Inr st \<Rightarrow>
                       do { n \<leftarrow> countDependents E ProviderKindConfig (om_Name (prov_meta config)) (om_Namespace (prov_meta config));
                            perr \<leftarrow> persist_config E (config\<lparr>prov_status := with_dependents n st\<rparr>);
                            case perr of
                              Some e \<Rightarrow> ret (no_requeue, Some e)
                            | None \<Rightarrow> ret (no_requeue\<lparr>RequeueAfter := providerResyncInterval\<rparr>, None) } } }"

end
