(* ===== verification/Typed_Examples.thy ===== *)
theory Typed_Examples
  imports Definition_Controller Provider_Controllers Resource_Examples Job_Types
begin

text \<open>
  A concrete cluster for the witnesses of the typed-API and provider properties: lookups find
  the demo objects, writes succeed, no typed object exists.
\<close>

definition demo_registrar :: TypedRegistrar where
  "demo_registrar = \<lparr>registrations = [], gens = [], allocated = 0\<rparr>"

definition demo_creds :: Secret where
  "demo_creds = \<lparr>sec_meta = blank_meta\<lparr>om_Name := ''creds'', om_Namespace := ''team''\<rparr>, sec_data = [(''TOKEN'', ''t'')]\<rparr>"

definition demo_provider :: "string \<Rightarrow> DoProvider" where
  "demo_provider ns =
     \<lparr>prov_meta = blank_meta\<lparr>om_Name := ''aws'', om_Namespace := ns\<rparr>,
      prov_spec = \<lparr>dp_Package = ''aws@7'', dp_CredentialsSecretRef = Some \<lparr>lsr_Name = ''creds''\<rparr>, dp_CredentialKeys = [''TOKEN''],
                   dp_AllowedResources = [], dp_TypedResources = [''aws:s3:Bucket'']\<rparr>,
      prov_status = \<lparr>dps_Package = None, dps_Plugin = None, dps_LastSchemaFetchTime = None, dps_Dependents = 0,
                     dps_ObservedGeneration = 0, dps_Conditions = []\<rparr>\<rparr>"

definition demo_profile :: DoProviderReconciler where
  "demo_profile = \<lparr>pv_RunnerNamespace = ''doplane'', pv_PluginCachePath = [], pv_Typed = True\<rparr>"

definition demo_runner :: JobRunner where
  "demo_runner =
     \<lparr>jr_Namespace = ''doplane'', PerResourceNamespace = True, Image = ''runner'', ImagePullPolicy = [],
      CredentialsSecret = [], PluginCachePVC = [], PluginCacheMountPath = [], jr_Timeout = 600\<rparr>"

definition website_api :: CompositeAPI where
  "website_api =
     \<lparr>api_Group = [], api_Kind = ''Website'', api_Plural = [], api_Version = [], api_DeprecatedVersions = [],
      api_ParametersSchema = None, api_AdditionalPrinterColumns = []\<rparr>"

definition website_definition :: DoCompositeDefinition where
  "website_definition =
     \<lparr>def_meta = blank_meta\<lparr>om_Name := ''website'', om_Deleting := True, om_Finalizers := [typedAPIFinalizer]\<rparr>,
      def_spec = \<lparr>cds_Resources = [], cds_Outputs = None, cds_API = Some website_api\<rparr>,
      def_status = \<lparr>cdst_Composites = 0, cdst_APIVersions = [], cdst_Conditions = []\<rparr>\<rparr>"

definition website_crd :: CRD where
  "website_crd = (case typedCompositeCRD ''website'' website_api of Inr crd \<Rightarrow> crd)"

definition website_object :: typed_object where
  "website_object =
     \<lparr>to_meta = blank_meta\<lparr>om_Name := ''home'', om_Namespace := ''team'', om_UID := ''w1''\<rparr>, to_Kind = ''Website'',
      to_Object = [(''spec'', JObj [])], to_ManagedFields = []\<rparr>"

definition upsert_blank :: "('a \<Rightarrow> 'e) \<Rightarrow> ('a \<Rightarrow> 'a \<Rightarrow> 'e) \<Rightarrow> 'a \<Rightarrow> ('a \<Rightarrow> 'a result) \<Rightarrow> 'e list \<times> 'a result" where
  "upsert_blank fetched wrote key mutate =
     (case mutate key of Inl e \<Rightarrow> ([fetched key], Inl e) | Inr new \<Rightarrow> ([fetched key, wrote key new], Inr new))"

definition demo_api :: api_env where
  "demo_api =
     \<lparr>a_create_crd = (\<lambda>_ crd. Inr crd), a_get_crd = (\<lambda>_ _. Inr website_crd), a_update_crd = (\<lambda>_ _. None),
      a_update_crd_status = (\<lambda>_ _. None), a_delete_crd = (\<lambda>_ _ _. None), a_list_typed = (\<lambda>_ _. Inr []),
      a_new_controller = (\<lambda>_ _ _. None), a_watch_typed = (\<lambda>_ _. None), a_watch_owned = (\<lambda>_ _ _. None),
      a_get_typed = (\<lambda>_ _ _ _. Inr website_object),
      a_CreateOrUpdate_resource = (\<lambda>_. upsert_blank
         (\<lambda>key. AFetchResource (om_Namespace (meta key)) (om_Name (meta key)) (Inr None)) (\<lambda>_ new. AWriteResource None new (Inr new))),
      a_CreateOrUpdate_composite = (\<lambda>_. upsert_blank
         (\<lambda>key. AFetchComposite (om_Namespace (comp_meta key)) (om_Name (comp_meta key)) (Inr None))
         (\<lambda>_ new. AWriteComposite None new (Inr new))),
      a_update_typed_status = (\<lambda>_ _. None), a_get_definition = (\<lambda>_ _. Inr website_definition),
      a_update_definition = (\<lambda>_ d. Inr d), a_update_def_status = (\<lambda>_ _. None), a_has_live = True,
      a_get_provider = (\<lambda>_ _ _. Inr (demo_provider [])), a_get_provider_config = (\<lambda>_ _ ns _. Inr (demo_provider ns)),
      a_list_resources = (\<lambda>_ _. Inr []), a_get_secret = (\<lambda>_ _ _ _. Inr demo_creds),
      a_schema_get = (\<lambda>_ _ _ _. Inr demo_schema), a_update_provider_status = (\<lambda>_ _. None),
      a_update_config_status = (\<lambda>_ _. None), a_now = (\<lambda>_. 0), a_retry_again = (\<lambda>_ _. False), a_retry_steps = 0,
      a_SetStatusCondition = std_SetStatusCondition,
      a_IsControlledBy = (\<lambda>m o'. list_ex (\<lambda>r. or_Controller r \<and> or_UID r = om_UID o') (om_Owners m)),
      a_SetControllerReference = (\<lambda>o' m. Inr (m\<lparr>om_Owners :=
         [\<lparr>or_Kind = ''Website'', or_Name = om_Name o', or_UID = om_UID o', or_Controller = True\<rparr>]\<rparr>)),
      a_ContainsFinalizer = (\<lambda>m f. f \<in> set (om_Finalizers m)), a_AddFinalizer = std_AddFinalizer,
      a_RemoveFinalizer = std_RemoveFinalizer, a_IsNoMatchError = (\<lambda>_. False),
      a_NestedMap = (\<lambda>m path. case path of
         [k] \<Rightarrow> (case gomap_get m k of None \<Rightarrow> Inr None | Some (JObj v) \<Rightarrow> Inr (Some v) | Some _ \<Rightarrow> Inl refused) | _ \<Rightarrow> Inr None),
      a_NestedString = (\<lambda>_ _. Inr None), a_conditions = (\<lambda>_. JNull), a_float64 = (\<lambda>n. n)\<rparr>"

lemma demo_condition_law: "condition_law demo_api"
proof -
  have "\<exists>d. find (\<lambda>d. c_Type d = c_Type c) (std_SetStatusCondition cs c) = Some d \<and> c_Status d = c_Status c" for cs c
    by (induction cs) (auto simp: std_SetStatusCondition_def)
  then show ?thesis by (simp add: condition_law_def demo_api_def)
qed

lemma demo_mirror_contract: "mirror_contract demo_api"
  by (auto simp: mirror_contract_def upsert_events_def upsert_blank_def demo_api_def split: sum.split)

end
