(* ===== verification/Typed_Safety.thy ===== *)
theory Typed_Safety
  imports Typed_Examples Guards
begin

text \<open>
  What the controllers of typed APIs never do, whatever the API server answers: overwrite a CRD
  that belongs to someone else, take an API down while it has objects, or write to a mirror
  object that is not theirs.
\<close>

lemma emits_api_calls [emits_intros]:
  "(\<And>r. A (ACreateCRD crd r)) \<Longrightarrow> emits A (Create_crd E crd)" "(\<And>r. A (AGetCRD n r)) \<Longrightarrow> emits A (Get_crd E n)"
  "(\<And>r. A (AUpdateCRD crd r)) \<Longrightarrow> emits A (Update_crd E crd)"
  "(\<And>r. A (AUpdateCRDStatus crd r)) \<Longrightarrow> emits A (Update_crd_status E crd)"
  "(\<And>r. A (ADeleteCRD crd uid r)) \<Longrightarrow> emits A (Delete_crd E crd uid)"
  "(\<And>r. A (AListTyped gvk r)) \<Longrightarrow> emits A (List_typed E gvk)"
  "(\<And>r. A (ANewController n rc r)) \<Longrightarrow> emits A (New_controller E n rc)"
  "(\<And>r. A (AWatchTyped gvk r)) \<Longrightarrow> emits A (Watch_typed E gvk)"
  "(\<And>r. A (AWatchOwned n gvk r)) \<Longrightarrow> emits A (Watch_owned E n gvk)"
  "(\<And>r. A (AGetTyped gvk ns n r)) \<Longrightarrow> emits A (Get_typed E gvk ns n)"
  "(\<And>r. A (AUpdateTypedStatus x r)) \<Longrightarrow> emits A (Update_typed_status E x)"
  "(\<And>r. A (AGetDefinition n r)) \<Longrightarrow> emits A (Get_def E n)"
  "(\<And>r. A (AUpdateDefinition def r)) \<Longrightarrow> emits A (Update_def E def)"
  "(\<And>r. A (AUpdateDefStatus def r)) \<Longrightarrow> emits A (Update_def_status E def)"
  "(\<And>r. A (AGetProvider (api_reader E) n r)) \<Longrightarrow> emits A (Get_prov E n)"
  "(\<And>r. A (AGetProviderConfig (api_reader E) ns n r)) \<Longrightarrow> emits A (Get_prov_config E ns n)"
  "(\<And>r. A (AListResources ns r)) \<Longrightarrow> emits A (List_all_resources E ns)"
  "(\<And>r. A (AGetSecret (api_reader E) ns n r)) \<Longrightarrow> emits A (Get_creds E ns n)"
  "(\<And>r. A (ASchemaGet ctx pkg token r)) \<Longrightarrow> emits A (Schema_get E ctx pkg token)"
  "(\<And>r. A (AUpdateProviderStatus p r)) \<Longrightarrow> emits A (Update_prov_status E p)"
  "(\<And>r. A (AUpdateConfigStatus p r)) \<Longrightarrow> emits A (Update_config_status E p)"
  "(\<And>t. A (ANow t)) \<Longrightarrow> emits A (Now E)"
  "A (ARecorded t reason msg) \<Longrightarrow> emits A (Api_Eventf t reason msg)"
  by (auto simp: api_call_defs intro!: emits_intros)

section \<open>Applying CRDs\<close>

text \<open>
  An existing CRD is overwritten only after it was read and found to be managed by doplane and
  either without a recorded owner or owned by the same source; its stored versions are pruned
  only after a list of its objects came back empty.
\<close>

definition crd_guard :: "api_event list \<Rightarrow> api_event \<Rightarrow> bool" where
  "crd_guard pre e =
     (case e of
        AUpdateCRD crd _ \<Rightarrow>
          (\<exists>name existing owner. AGetCRD name (Inr existing) \<in> set pre \<and>
             label_of (crd_meta existing) labelManagedByKey = ''doplane'' \<and>
             annotation (crd_meta existing) annTypedOwner \<in> {[], owner} \<and>
             crd_meta crd = (crd_meta existing)\<lparr>om_Annotations :=
               gomap_put annTypedOwner owner (om_Annotations (crd_meta existing))\<rparr>)
      | AUpdateCRDStatus crd _ \<Rightarrow>
          (\<exists>name existing gvk. AGetCRD name (Inr existing) \<in> set pre \<and> storageGVK existing = Inr gvk \<and>
             AListTyped (gvk\<lparr>gvk_Kind := crd_ListKind (crd_spec existing)\<rparr>) (Inr []) \<in> set pre \<and>
             crd = existing\<lparr>crd_StoredVersions := crd_StoredVersions crd\<rparr>)
      | _ \<Rightarrow> True)"

fun no_crd_write :: "api_event \<Rightarrow> bool" where
  "no_crd_write (AUpdateCRD _ _) = False"
| "no_crd_write (AUpdateCRDStatus _ _) = False"
| "no_crd_write _ = True"

lemma no_crd_write_guard: "no_crd_write e \<Longrightarrow> crd_guard tr e"
  by (cases e) (auto simp: crd_guard_def)

abbreviation ends_crd :: "'a arec \<Rightarrow> bool" where
  "ends_crd \<equiv> ends crd_guard (\<lambda>s. True)"

lemma ends_crd_quiet: "emits no_crd_write m \<Longrightarrow> ends crd_guard I m"
  by (erule ends_emits) (rule no_crd_write_guard)

lemma keeps_crd: "ends_crd m \<Longrightarrow> keeps crd_guard (\<lambda>s. True) m"
  by (simp add: keeps_def ends_def)

lemma checkCRDOwnership_None:
  "checkCRDOwnership existing owner = None \<Longrightarrow>
     label_of (crd_meta existing) labelManagedByKey = ''doplane'' \<and> annotation (crd_meta existing) annTypedOwner \<in> {[], owner}"
  by (auto simp: checkCRDOwnership_def Let_def split: if_splits)

lemma crd_guard_update:
  assumes "AGetCRD name (Inr existing) \<in> set tr" "label_of (crd_meta existing) labelManagedByKey = ''doplane''"
    "annotation (crd_meta existing) annTypedOwner \<in> {[], owner}"
    "crd_meta crd = (crd_meta existing)\<lparr>om_Annotations := gomap_put annTypedOwner owner (om_Annotations (crd_meta existing))\<rparr>"
  shows "crd_guard tr (AUpdateCRD crd r)"
  unfolding crd_guard_def api_event.case using assms by blast

lemma ends_crd_get:
  assumes "\<And>e. emits no_crd_write (f (Inl e))"
    and "\<And>existing. ends crd_guard (\<lambda>s. AGetCRD name (Inr existing) \<in> set (trace s)) (f (Inr existing))"
  shows "ends_crd (Get_crd E name \<bind> f)"
  unfolding Get_crd_def
proof (rule ends_ask [where J = "\<lambda>r s. AGetCRD name r \<in> set (trace s)"])
  show "ends crd_guard (\<lambda>s. AGetCRD name r \<in> set (trace s)) (f r)" for r
    by (cases r) (simp_all add: assms ends_crd_quiet)
qed (auto simp: no_crd_write_guard)

lemma ends_applyCRD: "ends_crd (applyCRD E crd)"
proof -
  let ?owner = "annotation (crd_meta crd) annTypedOwner"
  have upd: "ends crd_guard (\<lambda>s. AGetCRD name (Inr existing) \<in> set (trace s))
      (Update_crd E (existing\<lparr>crd_spec := sp, crd_meta := (crd_meta existing)\<lparr>om_Annotations :=
         gomap_put annTypedOwner ?owner (om_Annotations (crd_meta existing))\<rparr>\<rparr>) \<bind> f)"
    if "checkCRDOwnership existing ?owner = None" "\<And>r. emits no_crd_write (f r)" for name existing sp and f :: "_ \<Rightarrow> 'b arec"
    unfolding Update_crd_def
  proof (rule ends_ask [where J = "\<lambda>_ _. True"])
    show "crd_guard (trace s) (AUpdateCRD (existing\<lparr>crd_spec := sp, crd_meta := (crd_meta existing)\<lparr>om_Annotations :=
         gomap_put annTypedOwner ?owner (om_Annotations (crd_meta existing))\<rparr>\<rparr>) r)"
      if "AGetCRD name (Inr existing) \<in> set (trace s)" for s :: "(TypedRegistrar, api_event) world" and r
      using that checkCRDOwnership_None [OF \<open>checkCRDOwnership _ _ = None\<close>]
      by (intro crd_guard_update [of name existing _ ?owner]) auto
  qed (auto intro!: ends_crd_quiet that)
  have create: "keeps crd_guard (\<lambda>s. True) (Create_crd E crd)"
    by (rule keeps_crd, rule ends_crd_quiet) (auto intro!: emits_intros)
  show ?thesis
    unfolding applyCRD_def Let_def
    by (rule ends_bind [OF create]) (auto intro!: ends_cases ends_return ends_crd_get upd emits_intros split: option.split)
qed

lemma ends_prepareVersionDrop: "ends_crd (prepareVersionDrop E desired)"
proof -
  have prune: "ends crd_guard (\<lambda>s. AGetCRD name (Inr existing) \<in> set (trace s) \<and>
        AListTyped (gvk\<lparr>gvk_Kind := crd_ListKind (crd_spec existing)\<rparr>) (Inr []) \<in> set (trace s))
      (Update_crd_status E (existing\<lparr>crd_StoredVersions := vs\<rparr>) \<bind> f)"
    if "storageGVK existing = Inr gvk" "\<And>r. emits no_crd_write (f r)" for name existing gvk vs and f :: "_ \<Rightarrow> 'b arec"
    unfolding Update_crd_status_def
  proof (rule ends_ask [where J = "\<lambda>_ _. True"])
    show "crd_guard (trace s) (AUpdateCRDStatus (existing\<lparr>crd_StoredVersions := vs\<rparr>) r)"
      if "AGetCRD name (Inr existing) \<in> set (trace s) \<and>
        AListTyped (gvk\<lparr>gvk_Kind := crd_ListKind (crd_spec existing)\<rparr>) (Inr []) \<in> set (trace s)"
      for s :: "(TypedRegistrar, api_event) world" and r
      using that \<open>storageGVK existing = Inr gvk\<close>
      unfolding crd_guard_def by (auto intro!: exI [of _ name] exI [of _ existing] exI [of _ gvk])
  qed (auto intro!: ends_crd_quiet that)
  have listed: "ends crd_guard (\<lambda>s. AGetCRD name (Inr existing) \<in> set (trace s)) (List_typed E gvk \<bind> f)"
    if "\<And>r. r \<noteq> Inr [] \<Longrightarrow> emits no_crd_write (f r)"
      "ends crd_guard (\<lambda>s. AGetCRD name (Inr existing) \<in> set (trace s) \<and> AListTyped gvk (Inr []) \<in> set (trace s)) (f (Inr []))"
    for name existing gvk and f :: "_ \<Rightarrow> 'b arec"
    unfolding List_typed_def
  proof (rule ends_ask [where J = "\<lambda>r s. AGetCRD name (Inr existing) \<in> set (trace s) \<and> AListTyped gvk r \<in> set (trace s)"])
    show "ends crd_guard (\<lambda>s. AGetCRD name (Inr existing) \<in> set (trace s) \<and> AListTyped gvk r \<in> set (trace s)) (f r)" for r
      by (cases "r = Inr []") (use that in \<open>auto intro: ends_crd_quiet\<close>)
  qed (auto simp: no_crd_write_guard)
  show ?thesis
    unfolding prepareVersionDrop_def Let_def
    by (rule ends_crd_get)
       (auto intro!: ends_cases ends_return listed prune emits_intros split: sum.split option.split)
qed

lemma emits_startController: "emits no_crd_write (startController E crdName owner gvk r owned)"
  unfolding startController_def removeInformer_def by (intro emits_intros; simp)

lemma ends_serve_crd: "ends_crd (serve_crd E crd t owned)"
proof -
  have new: "keeps crd_guard (\<lambda>s. True) (new_reconciler n gvk t)" for n gvk
    unfolding new_reconciler_def by (rule keeps_crd, rule ends_crd_quiet) (intro emits_intros)
  show ?thesis
    unfolding serve_crd_def
    by (intro ends_intros keeps_crd [OF ends_applyCRD] new ends_crd_quiet emits_startController)
qed

lemma emits_persistDefinitionStatus: "emits no_crd_write (persistDefinitionStatus E def)"
  unfolding persistDefinitionStatus_def by (intro emits_intros; simp)

lemma emits_markAPIFailed: "emits no_crd_write (markAPIFailed E def reason err)"
  unfolding markAPIFailed_def by (intro emits_intros emits_persistDefinitionStatus; simp)

lemma emits_serve_failed: "emits no_crd_write (serve_failed E def err)"
  unfolding serve_failed_def by (intro emits_intros emits_markAPIFailed; simp)

lemma emits_finalizeDefinition: "emits no_crd_write (finalizeDefinition E R def)"
  unfolding finalizeDefinition_def release_finalizer_def deleteServedCRD_def totalTypedObjects_def typedObjectList_def
    Forget_def removeInformer_def Let_def
  by (intro emits_intros emits_persistDefinitionStatus; simp)

lemma ends_serve_definition: "ends_crd (serve_definition E api crd def)"
proof -
  have ensure: "ends_crd (EnsureCompositeAPI E crd n)" for n
    unfolding EnsureCompositeAPI_def by (intro ends_intros keeps_crd [OF ends_prepareVersionDrop] ends_serve_crd)
  have finish: "emits no_crd_write (do { vs \<leftarrow> countTypedObjects E api; perr \<leftarrow> persistDefinitionStatus E (g vs);
      case perr of Some e \<Rightarrow> ret (no_requeue, Some e) | None \<Rightarrow> ret (q, None) })" for g q
    unfolding countTypedObjects_def typedObjectList_def by (intro emits_intros emits_persistDefinitionStatus; simp)
  show ?thesis
    unfolding serve_definition_def
    by (intro ends_bind [OF keeps_crd [OF ensure]] ends_cases ends_crd_quiet emits_serve_failed finish)
qed

lemma ends_Definition_Reconcile: "ends_crd (Definition_Reconcile E R name)"
proof -
  have quiet: "keeps crd_guard (\<lambda>s. True) (Get_def E n)" "keeps crd_guard (\<lambda>s. True) (Update_def E d)" for n d
    by (rule keeps_crd, rule ends_crd_quiet, auto intro!: emits_intros)+
  show ?thesis
    unfolding Definition_Reconcile_def reconcile_definition_def Let_def
    by (intro ends_intros quiet ends_serve_definition ends_crd_quiet emits_markAPIFailed emits_finalizeDefinition)
qed

lemma ends_ensure_typed: "ends_crd (ensure_typed E R provider tokens)"
proof (induction tokens)
  case (Cons token tokens)
  have sch: "keeps crd_guard (\<lambda>s. True) (Schema_get E ctx pkg token)" for ctx pkg
    by (rule keeps_crd, rule ends_crd_quiet, auto intro!: emits_intros)
  show ?case
    unfolding ensure_typed.simps EnsureResourceAPI_def
    by (intro ends_intros sch keeps_crd [OF ends_serve_crd] Cons.IH)
qed (simp add: ends_return)

lemma emits_validateProfile: "emits no_crd_write (validateProfile E R owner ps st gn ns)"
  unfolding validateProfile_def checkCredentials_def by (intro emits_intros; simp)

lemma ends_Provider_Reconcile: "ends_crd (Provider_Reconcile E R name)"
proof -
  have quiet: "keeps crd_guard (\<lambda>s. True) (Get_prov E n)" "keeps crd_guard (\<lambda>s. True) (Api_Eventf t rn msg)"
    "keeps crd_guard (\<lambda>s. True) (countDependents E k n ns)" "keeps crd_guard (\<lambda>s. True) (persist_provider E p)"
    "keeps crd_guard (\<lambda>s. True) (validateProfile E R owner ps st gn ns)" for t rn msg n k ns p owner ps st gn
    unfolding countDependents_def persist_provider_def
    by (rule keeps_crd, rule ends_crd_quiet, intro emits_intros emits_validateProfile; simp)+
  have typed: "keeps crd_guard (\<lambda>s. True) (typed_condition E R provider st)" for provider st
    unfolding typed_condition_def ensureTypedResources_def
    by (rule keeps_crd) (intro ends_intros quiet keeps_crd [OF ends_ensure_typed])
  show ?thesis
    unfolding Provider_Reconcile_def by (intro ends_intros quiet typed)
qed


section \<open>Taking an API down\<close>

text \<open>A list reply that shows that no typed object is left: empty, or the kind is gone.\<close>

definition unused :: "api_env \<Rightarrow> typed_object list result \<Rightarrow> bool" where
  "unused E r = (case r of Inr items \<Rightarrow> items = [] | Inl e \<Rightarrow> IsNotFound e \<or> a_IsNoMatchError E e)"

definition api_gvk :: "CompositeAPI \<Rightarrow> GroupVersionKind" where
  "api_gvk api = \<lparr>gvk_Group = compositeAPIGroup api, gvk_Version = compositeAPIVersion api, gvk_Kind = api_Kind api @ ''List''\<rparr>"

definition teardown_guard :: "api_env \<Rightarrow> DoCompositeDefinition \<Rightarrow> CompositeAPI \<Rightarrow> api_event list \<Rightarrow> api_event \<Rightarrow> bool" where
  "teardown_guard E def api pre e =
     (case e of
        ADeleteCRD crd uid _ \<Rightarrow>
          uid = om_UID (crd_meta crd) \<and> (\<exists>n. AGetCRD n (Inr crd) \<in> set pre) \<and>
          label_of (crd_meta crd) labelManagedByKey = ''doplane'' \<and>
          annotation (crd_meta crd) annTypedOwner = ''composite:'' @ om_Name (def_meta def) \<and>
          (\<exists>r. AListTyped (api_gvk api) r \<in> set pre \<and> unused E r)
      | AUpdateDefinition _ _ \<Rightarrow> (\<exists>r. AListTyped (api_gvk api) r \<in> set pre \<and> unused E r)
      | _ \<Rightarrow> True)"

fun no_teardown :: "api_event \<Rightarrow> bool" where
  "no_teardown (ADeleteCRD _ _ _) = False"
| "no_teardown (AUpdateDefinition _ _) = False"
| "no_teardown _ = True"

lemma no_teardown_guard: "no_teardown e \<Longrightarrow> teardown_guard E def api tr e"
  by (cases e) (auto simp: teardown_guard_def)

lemma ends_td_quiet: "emits no_teardown m \<Longrightarrow> ends (teardown_guard E def api) I m"
  by (erule ends_emits) (rule no_teardown_guard)

abbreviation listed_unused :: "CompositeAPI \<Rightarrow> typed_object list result \<Rightarrow> (TypedRegistrar, api_event) world \<Rightarrow> bool" where
  "listed_unused api r s \<equiv> AListTyped (api_gvk api) r \<in> set (trace s)"

lemma ends_release:
  assumes "unused E r"
  shows "ends (teardown_guard E def api) (listed_unused api r) (release_finalizer E d)"
  unfolding release_finalizer_def Update_def_def
  by (rule ends_then, rule ends_ask_last) (use assms in \<open>auto simp: teardown_guard_def intro!: emits_intros\<close>)

lemma emits_Forget: "emits no_teardown (Forget name)"
  unfolding Forget_def removeInformer_def by (intro emits_intros; simp)

lemma ends_delete_crd:
  assumes "unused E r" "label_of (crd_meta crd) labelManagedByKey = ''doplane''"
    "annotation (crd_meta crd) annTypedOwner = ''composite:'' @ om_Name (def_meta def)" "\<And>x. emits no_teardown (f x)"
  shows "ends (teardown_guard E def api) (\<lambda>s. listed_unused api r s \<and> AGetCRD n (Inr crd) \<in> set (trace s))
           (Delete_crd E crd (om_UID (crd_meta crd)) \<bind> f)"
  unfolding Delete_crd_def
proof (rule ends_ask [where J = "\<lambda>_ _. True"])
  show "teardown_guard E def api (trace s) (ADeleteCRD crd (om_UID (crd_meta crd)) x)"
    if "listed_unused api r s \<and> AGetCRD n (Inr crd) \<in> set (trace s)" for s x
    unfolding teardown_guard_def api_event.case using that assms by blast
qed (auto intro!: ends_td_quiet assms)

lemma ends_deleteServedCRD:
  assumes "unused E r"
  shows "ends (teardown_guard E def api) (listed_unused api r) (deleteServedCRD E R def api)"
proof -
  let ?name = "compositeAPIPlural api @ ''.'' @ compositeAPIGroup api"
  have tail: "emits no_teardown (case IgnoreNotFound derr of Some e \<Rightarrow> ret (Some e)
      | None \<Rightarrow> do { (if dr_Typed R then Forget n else ret ()); Api_Eventf t rn msg; ret None })" for derr n t rn msg
    by (intro emits_intros emits_Forget; simp)
  show ?thesis
    unfolding deleteServedCRD_def Let_def Get_crd_def
  proof (rule ends_ask [where J = "\<lambda>g s. listed_unused api r s \<and> AGetCRD ?name g \<in> set (trace s)"])
    fix g
    show "ends (teardown_guard E def api) (\<lambda>s. listed_unused api r s \<and> AGetCRD ?name g \<in> set (trace s))
       (case g of Inl e \<Rightarrow> ret (IgnoreNotFound (Some e))
        | Inr crd \<Rightarrow>
            if label_of (crd_meta crd) labelManagedByKey \<noteq> ''doplane'' \<or>
               annotation (crd_meta crd) annTypedOwner \<noteq> ''composite:'' @ om_Name (def_meta def)
            then ret None
            else do { derr \<leftarrow> Delete_crd E crd (om_UID (crd_meta crd));
                      case IgnoreNotFound derr of Some e \<Rightarrow> ret (Some e)
                      | None \<Rightarrow> do { (if dr_Typed R then Forget ?name else ret ());
                                     Api_Eventf ''Normal'' ''TypedAPIRemoved'' (''deleted generated CRD '' @ ?name);
                                     ret None } })"
      by (cases g, simp add: ends_return, simp only: sum.case, rule ends_cases, rule ends_return,
          rule ends_delete_crd [OF assms _ _ tail]) simp_all
  qed (auto simp: no_teardown_guard)
qed

lemma emits_deleteServedCRD: "emits (\<lambda>_. True) (deleteServedCRD E R def api)"
  unfolding deleteServedCRD_def Forget_def removeInformer_def Let_def by (intro emits_intros; simp)

lemma keeps_deleteServedCRD:
  assumes "unused E r"
  shows "keeps (teardown_guard E def api) (listed_unused api r) (deleteServedCRD E R def api)"
  by (intro keeps_known ends_deleteServedCRD emits_deleteServedCRD assms)

lemma emits_td_persist: "emits no_teardown (persistDefinitionStatus E def)"
  unfolding persistDefinitionStatus_def by (intro emits_intros; simp)

lemma ends_finalizeDefinition:
  assumes "cds_API (def_spec def) = Some api"
  shows "ends (teardown_guard E def api) (\<lambda>s. True) (finalizeDefinition E R def)"
proof -
  have blocked: "emits no_teardown (do { Api_Eventf t rn msg; perr \<leftarrow> persistDefinitionStatus E d;
      case perr of Some e \<Rightarrow> ret (no_requeue, Some e) | None \<Rightarrow> ret (q, None) })" for t rn msg d q
    by (intro emits_intros emits_td_persist; simp)
  have free: "ends (teardown_guard E def api) (listed_unused api r)
      (do { derr \<leftarrow> deleteServedCRD E R def api;
            case derr of Some e \<Rightarrow> ret (no_requeue, Some e) | None \<Rightarrow> release_finalizer E def })" if "unused E r" for r
    by (intro ends_bind [OF keeps_deleteServedCRD [OF that]] ends_cases ends_return ends_release [OF that])
  let ?count = "\<lambda>r. case r of Inr items \<Rightarrow> length items | Inl e \<Rightarrow> if IsNotFound e \<or> a_IsNoMatchError E e then 0 else 1"
  have count: "unused E r" if "\<not> 0 < (?count r :: nat)" for r
    using that by (auto simp: unused_def split: sum.splits if_splits)
  have "ends (teardown_guard E def api) (\<lambda>s. True) (totalTypedObjects E api \<bind> f)"
    if "\<And>n. 0 < n \<Longrightarrow> emits no_teardown (f n)"
      "\<And>r. unused E r \<Longrightarrow> ends (teardown_guard E def api) (listed_unused api r) (f 0)" for f :: "nat \<Rightarrow> 'b arec"
    unfolding totalTypedObjects_def typedObjectList_def List_typed_def State_Monad.bind_assoc State_Monad.bind_left_identity
      api_gvk_def [symmetric]
  proof (rule ends_ask [where J = "listed_unused api"])
    fix r
    show "ends (teardown_guard E def api) (listed_unused api r) (f (?count r))"
    proof (cases "0 < ?count r")
      case False
      then have "?count r = 0" by simp
      with that(2) [OF count [OF False]] show ?thesis by simp
    qed (rule ends_td_quiet, rule that(1))
  qed (auto simp: no_teardown_guard)
  note total = this
  show ?thesis
    unfolding finalizeDefinition_def assms option.case
    by (rule ends_cases, rule ends_return, rule total) (simp_all add: Let_def blocked free)
qed

text \<open>
  C27: A definition's platform API is never taken down under live objects: when a definition is
  being deleted, its reconcile deletes the generated CRD only if it read that CRD as managed by
  doplane and owned by this very definition, under the precondition of its UID, and it deletes
  the CRD or lets the definition go only after a list of the API's objects, read from the API
  server, came back empty or showed that the kind no longer exists.
\<close>

theorem definition_teardown_safe:
  assumes "a_get_definition E [] name = Inr def" "om_Deleting (def_meta def)" "cds_API (def_spec def) = Some api"
  shows "guarded (teardown_guard E def api)
           (trace (snd (run_state (Definition_Reconcile E R name) \<lparr>obj = reg, trace = []\<rparr>)))"
proof -
  have "ends (teardown_guard E def api) (\<lambda>s. trace s = []) (Definition_Reconcile E R name)"
    unfolding Definition_Reconcile_def Get_def_def
    by (rule ends_ask [where J = "\<lambda>r s. r = Inr def \<and> True"], simp add: no_teardown_guard, simp add: assms(1), rule ends_assume)
       (simp add: assms(2) ends_finalizeDefinition [OF assms(3)])
  then show ?thesis by (rule ends_guarded) simp_all
qed

theorem definition_teardown_safe_witness:
  "guarded (teardown_guard demo_api website_definition website_api)
     (trace (snd (run_state (Definition_Reconcile demo_api \<lparr>dr_Typed = True, dr_AllowedGroups = []\<rparr> ''website'')
        \<lparr>obj = demo_registrar, trace = []\<rparr>))) \<and>
   filter (\<lambda>e. \<not> no_teardown e)
     (trace (snd (run_state (finalizeDefinition demo_api \<lparr>dr_Typed = True, dr_AllowedGroups = []\<rparr> website_definition)
        \<lparr>obj = demo_registrar, trace = []\<rparr>))) =
     [ADeleteCRD website_crd [] None,
      AUpdateDefinition (website_definition\<lparr>def_meta := (def_meta website_definition)\<lparr>om_Finalizers := []\<rparr>\<rparr>)
        (Inr (website_definition\<lparr>def_meta := (def_meta website_definition)\<lparr>om_Finalizers := []\<rparr>\<rparr>))]"
proof
  show "guarded (teardown_guard demo_api website_definition website_api)
     (trace (snd (run_state (Definition_Reconcile demo_api \<lparr>dr_Typed = True, dr_AllowedGroups = []\<rparr> ''website'')
        \<lparr>obj = demo_registrar, trace = []\<rparr>)))"
    by (rule definition_teardown_safe) (simp_all add: demo_api_def website_definition_def)
qed code_simp

end
