(* ===== verification/Typed_Mirror.thy ===== *)
theory Typed_Mirror
  imports Typed_Safety
begin

text \<open>
  Mirror objects: which ones a translation controller may write, how the lifecycle block of a
  typed composite comes out, and why copying the status back comes to rest.
\<close>

section \<open>Ownership\<close>

text \<open>
  A mirror is written only for the live typed object read under the request's name, with that
  object as its controller, and over an existing object only if the typed object controls it.
\<close>

definition may_write :: "api_env \<Rightarrow> typed_object \<Rightarrow> ObjectMeta option \<Rightarrow> ObjectMeta \<Rightarrow> bool" where
  "may_write E x cur new \<longleftrightarrow>
     \<not> om_Deleting (to_meta x) \<and>
     (case cur of None \<Rightarrow> True | Some m \<Rightarrow> om_ResourceVersion m = [] \<or> a_IsControlledBy E m (to_meta x)) \<and>
     (\<exists>m. a_SetControllerReference E (to_meta x) m = Inr new)"

definition mirror_guard :: "api_env \<Rightarrow> GroupVersionKind \<Rightarrow> string \<Rightarrow> string \<Rightarrow> api_event list \<Rightarrow> api_event \<Rightarrow> bool" where
  "mirror_guard E gvk ns name pre e =
     (case e of
        AWriteResource cur new _ \<Rightarrow>
          (\<exists>x. AGetTyped gvk ns name (Inr x) \<in> set pre \<and> may_write E x (map_option meta cur) (meta new))
      | AWriteComposite cur new _ \<Rightarrow>
          (\<exists>x. AGetTyped gvk ns name (Inr x) \<in> set pre \<and> may_write E x (map_option comp_meta cur) (comp_meta new))
      | _ \<Rightarrow> True)"

fun no_mirror :: "api_event \<Rightarrow> bool" where
  "no_mirror (AWriteResource _ _ _) = False"
| "no_mirror (AWriteComposite _ _ _) = False"
| "no_mirror _ = True"

lemma no_mirror_guard: "no_mirror e \<Longrightarrow> mirror_guard E gvk ns name tr e"
  by (cases e) (auto simp: mirror_guard_def)

lemma emits_mirrorStatusBack: "emits no_mirror (mirrorStatusBack E x st)"
  unfolding mirrorStatusBack_def Let_def by (intro emits_intros; simp)

lemma mutate_resource_writes:
  assumes "mutate_resource_mirror E x token ms (case cur of None \<Rightarrow> resource_key x | Some c \<Rightarrow> c) = Inr new" "\<not> om_Deleting (to_meta x)"
  shows "may_write E x (map_option meta cur) (meta new)"
  using assms
  by (cases cur) (auto simp: mutate_resource_mirror_def ensureControlled_def may_write_def Let_def split: if_splits sum.splits)

lemma mutate_composite_writes:
  assumes "mutate_composite_mirror E x defn pol rr raw (case cur of None \<Rightarrow> composite_key x | Some c \<Rightarrow> c) = Inr new"
    "\<not> om_Deleting (to_meta x)"
  shows "may_write E x (map_option comp_meta cur) (comp_meta new)"
  using assms
  by (cases cur) (auto simp: mutate_composite_mirror_def ensureControlled_def may_write_def split: if_splits sum.splits)

lemma ends_upsert_resource:
  assumes "mirror_contract E" "\<not> om_Deleting (to_meta x)" "\<And>r. emits no_mirror (f r)"
  shows "ends (mirror_guard E gvk ns name) (\<lambda>s. AGetTyped gvk ns name (Inr x) \<in> set (trace s))
           (CreateOrUpdate_resource E (resource_key x) (mutate_resource_mirror E x token ms) \<bind> f)"
proof -
  let ?I = "\<lambda>s. AGetTyped gvk ns name (Inr x) \<in> set (trace s)"
  let ?c = "CreateOrUpdate_resource E (resource_key x) (mutate_resource_mirror E x token ms)"
  have c: "ends (mirror_guard E gvk ns name) ?I ?c"
    unfolding CreateOrUpdate_resource_def
  proof (rule ends_upsert)
    show "upsert_events (AFetchResource (om_Namespace (meta (resource_key x))) (om_Name (meta (resource_key x)))) AWriteResource
        (resource_key x) (mutate_resource_mirror E x token ms)
        (fst (a_CreateOrUpdate_resource E tr (resource_key x) (mutate_resource_mirror E x token ms)))" for tr
      using assms(1) unfolding mirror_contract_def by blast
  qed (auto simp: mirror_guard_def dest!: mutate_resource_writes [OF _ assms(2)])
  have "keeps (mirror_guard E gvk ns name) ?I ?c"
    by (rule keeps_known [OF c]) (simp add: CreateOrUpdate_resource_def emits_library_call list_all_iff)
  then show ?thesis
    by (rule ends_bind) (rule ends_emits [OF assms(3) no_mirror_guard])
qed

lemma ends_upsert_composite:
  assumes "mirror_contract E" "\<not> om_Deleting (to_meta x)" "\<And>r. emits no_mirror (f r)"
  shows "ends (mirror_guard E gvk ns name) (\<lambda>s. AGetTyped gvk ns name (Inr x) \<in> set (trace s))
           (CreateOrUpdate_composite E (composite_key x) (mutate_composite_mirror E x defn pol rr raw) \<bind> f)"
proof -
  let ?I = "\<lambda>s. AGetTyped gvk ns name (Inr x) \<in> set (trace s)"
  let ?c = "CreateOrUpdate_composite E (composite_key x) (mutate_composite_mirror E x defn pol rr raw)"
  have c: "ends (mirror_guard E gvk ns name) ?I ?c"
    unfolding CreateOrUpdate_composite_def
  proof (rule ends_upsert)
    show "upsert_events (AFetchComposite (om_Namespace (comp_meta (composite_key x))) (om_Name (comp_meta (composite_key x))))
        AWriteComposite (composite_key x) (mutate_composite_mirror E x defn pol rr raw)
        (fst (a_CreateOrUpdate_composite E tr (composite_key x) (mutate_composite_mirror E x defn pol rr raw)))" for tr
      using assms(1) unfolding mirror_contract_def by blast
  qed (auto simp: mirror_guard_def dest!: mutate_composite_writes [OF _ assms(2)])
  have "keeps (mirror_guard E gvk ns name) ?I ?c"
    by (rule keeps_known [OF c]) (simp add: CreateOrUpdate_composite_def emits_library_call list_all_iff)
  then show ?thesis
    by (rule ends_bind) (rule ends_emits [OF assms(3) no_mirror_guard])
qed

text \<open>Reading the typed object.\<close>

lemma ends_get_typed:
  assumes "\<And>e. emits no_mirror (f (Inl e))"
    and "\<And>x. ends (mirror_guard E gvk ns name) (\<lambda>s. AGetTyped gvk ns name (Inr x) \<in> set (trace s)) (f (Inr x))"
  shows "ends (mirror_guard E gvk ns name) (\<lambda>s. True) (Get_typed E gvk ns name \<bind> f)"
  unfolding Get_typed_def
proof (rule ends_ask [where J = "\<lambda>r s. AGetTyped gvk ns name r \<in> set (trace s)"])
  show "ends (mirror_guard E gvk ns name) (\<lambda>s. AGetTyped gvk ns name r \<in> set (trace s)) (f r)" for r
    by (cases r) (simp_all add: assms(2) ends_emits [OF assms(1) no_mirror_guard])
qed (simp_all add: no_mirror_guard)

lemma ends_mirror_get: "(\<And>x. ends G (\<lambda>s. True) (f x)) \<Longrightarrow> ends G (\<lambda>s. True) (get_obj \<bind> f)"
  by (rule ends_bind) (simp_all add: keeps_def valid_def)

lemma ends_TypedResource:
  assumes "mirror_contract E"
  shows "ends (mirror_guard E (tr_GVK r) ns name) (\<lambda>s. True) (TypedResource_Reconcile E r token prov ns name)"
proof -
  have copies: "emits no_mirror (case cr of Inl e \<Rightarrow> ret (no_requeue, Some e)
      | Inr mirror \<Rightarrow> do { err \<leftarrow> mirrorStatusBack E x (resource_status E mirror); ret (no_requeue, err) })" for cr x
    by (intro emits_intros emits_mirrorStatusBack)
  show ?thesis
    unfolding TypedResource_Reconcile_def
    by (rule ends_mirror_get, rule ends_cases, rule ends_return, rule ends_get_typed)
       (simp add: emits_return, simp only: sum.case, rule ends_cases, rule ends_return, rule ends_cases, rule ends_return,
        rule ends_upsert_resource [OF assms _ copies], assumption)
qed

lemma ends_TypedComposite:
  assumes "mirror_contract E"
  shows "ends (mirror_guard E (tr_GVK r) ns name) (\<lambda>s. True) (TypedComposite_Reconcile E r defn ns name)"
proof -
  have copies: "emits no_mirror (case cr of Inl e \<Rightarrow> ret (no_requeue, Some e)
      | Inr mirror \<Rightarrow> do { err \<leftarrow> mirrorStatusBack E x (composite_status E mirror); ret (no_requeue, err) })" for cr x
    by (intro emits_intros emits_mirrorStatusBack)
  show ?thesis
    unfolding TypedComposite_Reconcile_def
    by (rule ends_mirror_get, rule ends_cases, rule ends_return, rule ends_get_typed)
       (simp add: emits_return, simp only: sum.case, rule ends_cases, rule ends_return, rule ends_cases, rule ends_return,
        rule ends_cases, rule ends_cases,
        rule ends_upsert_composite [OF assms _ copies], assumption)
qed

text \<open>A superseded reconciler does nothing at all.\<close>

lemma fenced_silent:
  assumes "tr_Registrar r" "\<not> isCurrent True (tr_CRDName r) r reg"
  shows "trace (snd (run_state (TypedResource_Reconcile E r token prov ns name) \<lparr>obj = reg, trace = tr\<rparr>)) = tr"
    "trace (snd (run_state (TypedComposite_Reconcile E r defn ns name) \<lparr>obj = reg, trace = tr\<rparr>)) = tr"
  using assms by (simp_all add: TypedResource_Reconcile_def TypedComposite_Reconcile_def)

text \<open>
  C29: A translation controller writes only its own mirrors: whatever the API server answers, a
  DoResource or DoComposite is written only for a live typed object read under the request's
  name, with that object as controller, and an existing one only if that object controls it;
  and a controller whose registration was superseded has no effect at all.
\<close>

theorem typed_mirror_owned:
  assumes "mirror_contract E"
  shows "guarded (mirror_guard E (tr_GVK r) ns name)
           (trace (snd (run_state (TypedResource_Reconcile E r token prov ns name) \<lparr>obj = reg, trace = []\<rparr>))) \<and>
         guarded (mirror_guard E (tr_GVK r) ns name)
           (trace (snd (run_state (TypedComposite_Reconcile E r defn ns name) \<lparr>obj = reg, trace = []\<rparr>))) \<and>
         (tr_Registrar r \<and> \<not> isCurrent True (tr_CRDName r) r reg \<longrightarrow>
            trace (snd (run_state (TypedResource_Reconcile E r token prov ns name) \<lparr>obj = reg, trace = []\<rparr>)) = [] \<and>
            trace (snd (run_state (TypedComposite_Reconcile E r defn ns name) \<lparr>obj = reg, trace = []\<rparr>)) = [])"
  by (simp add: ends_guarded [OF ends_TypedResource [OF assms]] ends_guarded [OF ends_TypedComposite [OF assms]] fenced_silent)

definition demo_reconciler :: typed_reconciler where
  "demo_reconciler =
     \<lparr>tr_id = 0, tr_Registrar = False, tr_CRDName = ''websites.typed.do.pulumi.com'',
      tr_GVK = \<lparr>gvk_Group = typedGroup, gvk_Version = typedVersion, gvk_Kind = ''Website''\<rparr>, tr_Translation = ToComposite ''website''\<rparr>"

theorem typed_mirror_owned_witness:
  "guarded (mirror_guard demo_api (tr_GVK demo_reconciler) ''team'' ''home'')
     (trace (snd (run_state (TypedComposite_Reconcile demo_api demo_reconciler ''website'' ''team'' ''home'')
        \<lparr>obj = demo_registrar, trace = []\<rparr>))) \<and>
   length (filter (\<lambda>e. \<not> no_mirror e)
     (trace (snd (run_state (TypedComposite_Reconcile demo_api demo_reconciler ''website'' ''team'' ''home'')
        \<lparr>obj = demo_registrar, trace = []\<rparr>)))) = 1"
proof
  show "guarded (mirror_guard demo_api (tr_GVK demo_reconciler) ''team'' ''home'')
     (trace (snd (run_state (TypedComposite_Reconcile demo_api demo_reconciler ''website'' ''team'' ''home'')
        \<lparr>obj = demo_registrar, trace = []\<rparr>)))"
    using typed_mirror_owned [OF demo_mirror_contract] by blast
qed code_simp

section \<open>The lifecycle block\<close>

definition policy_text :: "UpdatePolicy \<Rightarrow> string" where
  "policy_text p = (case p of UpdateAutomatic \<Rightarrow> ''Automatic'' | UpdateManual \<Rightarrow> ''Manual'' | UpdateUnset \<Rightarrow> [] | UpdateOther s \<Rightarrow> s)"

definition doplane_block :: "UpdatePolicy \<Rightarrow> RevisionReference option \<Rightarrow> jobj" where
  "doplane_block p ref =
     (case ref of None \<Rightarrow> [] | Some r \<Rightarrow> [(''revisionRef'', JObj [(''name'', JStr (rr_Name r))])]) @
     [(''updatePolicy'', JStr (policy_text p))]"

text \<open>
  A typed composite's spec splits into its lifecycle knobs and its parameters without loss: with
  the reserved block written next to parameters that do not use its name, the translation reads
  back exactly these knobs and exactly these parameters.
\<close>

theorem popDoplaneBlock_roundtrip:
  assumes "gomap_ok params" "gomap_get params doplaneReservedProperty = None"
    "p \<in> {UpdateUnset, UpdateAutomatic, UpdateManual}" "\<forall>r. ref = Some r \<longrightarrow> rr_Name r \<noteq> []"
  shows "popDoplaneBlock (gomap_put doplaneReservedProperty (JObj (doplane_block p ref)) params) = (p, ref, params)"
  using assms gomap.del_put_absent [OF assms(1,2)]
  by (auto simp: popDoplaneBlock_def Let_def object_entry_def string_entry_def gomap_simps doplane_block_def policy_text_def
      to_UpdatePolicy_def split: option.splits)

section \<open>Copying the status back comes to rest\<close>

text \<open>
  Whatever status the mirror has, the typed object that a pass writes, or leaves alone, is one on
  which a further pass with the same mirror writes nothing: the watch on the typed kind cannot
  turn the copy into a loop. The hypothesis is the documented behaviour of \<open>NestedMap\<close>.
\<close>

lemma stripNilValues_idem: "stripNilValues (stripNilValues m) = stripNilValues m"
  by (simp add: stripNilValues_def)

theorem mirrorStatusBack_settles:
  assumes "\<And>m d. a_NestedMap E (gomap_put ''status'' (JObj d) m) [''status''] = Inr (Some d)"
  shows "\<exists>x'. (trace (snd (run_state (mirrorStatusBack E x st) s)) = trace s \<and> x' = x \<or>
               (\<exists>err. trace (snd (run_state (mirrorStatusBack E x st) s)) = trace s @ [AUpdateTypedStatus x' err])) \<and>
              run_state (mirrorStatusBack E x' st) s' = (None, s')"
proof (cases "sameJSON (current_status E x) (Some (stripNilValues (toUnstructuredValue E st)))")
  case False
  let ?x = "x\<lparr>to_Object := gomap_put ''status'' (JObj (stripNilValues (toUnstructuredValue E st))) (to_Object x)\<rparr>"
  have "sameJSON (current_status E ?x) (Some (stripNilValues (toUnstructuredValue E st)))"
    by (simp add: current_status_def assms stripNilValues_idem sameJSON_def)
  with False show ?thesis
    by (intro exI [of _ ?x]) (simp add: mirrorStatusBack_def Let_def Update_typed_status_def)
qed (auto simp: mirrorStatusBack_def Let_def intro!: exI [of _ x])

end
