(* ===== verification/Provider_Safety.thy ===== *)
theory Provider_Safety
  imports Typed_Mirror Do_Resource_Safety Job_Runner
begin

text \<open>
  Provider profiles: what Ready means, and that credentials are checked where the operations
  that use them run.
\<close>

section \<open>Where credentials are checked\<close>

text \<open>An interaction looks for credentials only in \<open>sn\<close>, and a fetch with credentials runs there.\<close>

definition looks_in :: "JobRunner \<Rightarrow> string \<Rightarrow> api_event \<Rightarrow> bool" where
  "looks_in J sn e \<longleftrightarrow>
     (\<forall>rd ns n r. e = AGetSecret rd ns n r \<longrightarrow> ns = sn) \<and>
     (\<forall>ctx pkg token r. e = ASchemaGet ctx pkg token r \<longrightarrow> ctx_credentials ctx \<noteq> [] \<longrightarrow> jobNamespace J ctx = sn)"

lemma schemaFetchContext_namespace:
  assumes "ctx_credentials (schemaFetchContext background owner ps sn) \<noteq> []" "sn = jr_Namespace J \<or> PerResourceNamespace J \<and> sn \<noteq> []"
  shows "jobNamespace J (schemaFetchContext background owner ps sn) = sn"
  using assms
  by (auto simp: schemaFetchContext_def jobNamespace_def Let_def ctx_defs background_def split: option.splits if_splits)

lemma emits_validateProfile_looks:
  assumes "sn = jr_Namespace J \<or> PerResourceNamespace J \<and> sn \<noteq> []"
  shows "emits (looks_in J sn) (validateProfile E R owner ps st gn sn)"
  unfolding validateProfile_def checkCredentials_def
  by (intro emits_intros; auto simp: looks_in_def schemaFetchContext_namespace [OF _ assms])

lemma emits_config_looks:
  "emits (looks_in J sn) (countDependents E k n ns)" "emits (looks_in J sn) (persist_config E c)"
  unfolding countDependents_def persist_config_def by (intro emits_intros; simp add: looks_in_def)+

lemma guarded_all: "guarded (\<lambda>_. A) tr \<Longrightarrow> e \<in> set tr \<Longrightarrow> A e"
  by (auto simp: guarded_def in_set_conv_nth)

text \<open>With the controller and the Job runner in the same namespace mode, both look in the same place.\<close>

lemma config_looks_where_jobs_run:
  assumes "PerResourceNamespace J = pc_PerResourceNamespace R" "jr_Namespace J = pv_RunnerNamespace (pc_Profile R)" "ns \<noteq> []"
    and "\<And>tr rd n m c. a_get_provider_config E tr rd n m = Inr c \<Longrightarrow> om_Namespace (prov_meta c) = n"
    and "e \<in> set (trace (snd (run_state (ProviderConfig_Reconcile E R ns name) \<lparr>obj = reg, trace = []\<rparr>)))"
  shows "looks_in J (jobNamespace J (reconcile_ctx ns resource)) e"
proof -
  let ?sn = "jobNamespace J (reconcile_ctx ns resource)"
  have sn: "?sn = (if pc_PerResourceNamespace R then ns else pv_RunnerNamespace (pc_Profile R))"
    using assms(1-3) by (simp add: jobNamespace_def reconcile_ctx_def ctx_defs)
  have side: "?sn = jr_Namespace J \<or> PerResourceNamespace J \<and> ?sn \<noteq> []" unfolding sn using assms(1-3) by simp
  have main: "emits (looks_in J ?sn) (do {
      vr \<leftarrow> validateProfile E P owner ps st gn ?sn;
      case vr of Inl e \<Rightarrow> ret (no_requeue, Some e)
      | Inr st \<Rightarrow> do { n \<leftarrow> countDependents E k nm cns; perr \<leftarrow> persist_config E (g n st);
                       case perr of Some e \<Rightarrow> ret (no_requeue, Some e) | None \<Rightarrow> ret (q, None) } })"
    for P owner ps st gn k nm cns g q
    by (intro emits_intros emits_validateProfile_looks [OF side] emits_config_looks)
  have "ends (\<lambda>_. looks_in J ?sn) (\<lambda>s. True) (ProviderConfig_Reconcile E R ns name)"
    unfolding ProviderConfig_Reconcile_def Get_prov_config_def
  proof (rule ends_ask [where J = "\<lambda>r s. (\<forall>c. r = Inr c \<longrightarrow> om_Namespace (prov_meta c) = ns) \<and> True"], goal_cases)
    case (3 r)
    have e: "(if pc_PerResourceNamespace R then om_Namespace (prov_meta c) else pv_RunnerNamespace (pc_Profile R)) = ?sn"
      if "om_Namespace (prov_meta c) = ns" for c :: DoProvider
      by (simp add: that sn)
    show ?case
      apply (rule ends_assume, cases r)
       apply (simp add: ends_return)
      subgoal premises p for c
        unfolding p(2) sum.case Let_def e [OF p(1) [rule_format, OF p(2)]] by (rule ends_emits [OF main])
      done
  qed (auto simp: looks_in_def intro: assms(4) sym)
  then have "guarded (\<lambda>_. looks_in J ?sn) (trace (snd (run_state (ProviderConfig_Reconcile E R ns name) \<lparr>obj = reg, trace = []\<rparr>)))"
    by (rule ends_guarded) simp_all
  then show ?thesis by (rule guarded_all) (rule assms(5))
qed

section \<open>What Ready means\<close>

definition schema_ok :: "DoProviderSpec \<Rightarrow> api_event list \<Rightarrow> bool" where
  "schema_ok ps es \<longleftrightarrow> (\<exists>ctx sch. ASchemaGet ctx (dp_Package ps) [] (Inr sch) \<in> set es)"

definition creds_ok :: "DoProviderSpec \<Rightarrow> string \<Rightarrow> api_event list \<Rightarrow> bool" where
  "creds_ok ps ns es \<longleftrightarrow>
     (case dp_CredentialsSecretRef ps of
        None \<Rightarrow> True
      | Some ref \<Rightarrow> ns = [] \<or>
          (\<exists>rd secret. AGetSecret rd ns (lsr_Name ref) (Inr secret) \<in> set es \<and>
             (\<forall>k \<in> set (dp_CredentialKeys ps). gomap_get (sec_data secret) k \<noteq> None)))"

fun no_secret :: "api_event \<Rightarrow> bool" where
  "no_secret (AGetSecret _ _ _ _) = False"
| "no_secret _ = True"

fun no_schema :: "api_event \<Rightarrow> bool" where
  "no_schema (ASchemaGet _ _ _ _) = False"
| "no_schema _ = True"

lemma schema_ok_append: "list_all no_schema fs \<Longrightarrow> schema_ok ps (es @ fs) = schema_ok ps es"
  by (force simp: schema_ok_def list_all_iff)

lemma creds_ok_append: "list_all no_secret es \<Longrightarrow> creds_ok ps ns (es @ fs) = creds_ok ps ns fs"
  by (force simp: creds_ok_def list_all_iff split: option.splits)

lemma does_checkCredentials:
  "does (checkCredentials E ps gn ns st) (\<lambda>r es. list_all no_schema es \<and> (\<forall>ok st'. r = Inr (ok, st') \<longrightarrow> ok = creds_ok ps ns es))"
  unfolding does_def checkCredentials_def Get_creds_def
  by (auto simp: creds_ok_def Let_def filter_empty_conv IgnoreNotFound_def split: option.split sum.split)

lemma does_schema_step:
  "does (do { (if p then Api_Eventf t rn msg else ret ()); sr \<leftarrow> Schema_get E ctx (dp_Package ps) [];
              st1 \<leftarrow> (case sr of Inl e \<Rightarrow> ret (f e) | Inr sch \<Rightarrow> do { now \<leftarrow> Now E; ret (g sch now) });
              ret (sr, st1) })
     (\<lambda>r es. list_all no_secret es \<and> (case fst r of Inl _ \<Rightarrow> False | Inr _ \<Rightarrow> True) = schema_ok ps es)"
  unfolding does_def Schema_get_def Now_def Api_Eventf_def
  by (auto simp: schema_ok_def split: sum.split)

lemma does_validateProfile:
  "does (validateProfile E R owner ps st gn ns)
     (\<lambda>r es. \<forall>st'. r = Inr st' \<longrightarrow> (\<exists>st2. st' = roll_up E gn (schema_ok ps es) (creds_ok ps ns es) st2))"
proof -
  have split: "validateProfile E R owner ps st gn ns =
      do { r \<leftarrow> do { (if \<not> PackagePinned (dp_Package ps)
                     then Api_Eventf ''Warning'' ''ProviderNotPinned''
                       (''spec.package '' @ Quote (dp_Package ps) @ '' has no pinned version; operations are not reproducible'')
                     else ret ());
                    sr \<leftarrow> Schema_get E (schemaFetchContext background owner ps ns) (dp_Package ps) [];
                    st1 \<leftarrow> (case sr of Inl e \<Rightarrow> ret (schema_failed E R gn e st)
                            | Inr sch \<Rightarrow> do { now \<leftarrow> Now E; ret (schema_fetched E R gn sch now st) });
                    ret (sr, st1) };
           cr \<leftarrow> checkCredentials E ps gn ns (snd r);
           ret (case cr of Inl e \<Rightarrow> Inl e
                | Inr (credsOK, st2) \<Rightarrow> Inr (roll_up E gn (case fst r of Inl _ \<Rightarrow> False | Inr _ \<Rightarrow> True) credsOK st2)) }"
    unfolding validateProfile_def State_Monad.bind_assoc State_Monad.bind_left_identity fst_conv snd_conv by (rule refl)
  show ?thesis
    unfolding split
    by (rule does_bind [OF does_schema_step], rule does_bind [OF does_checkCredentials], rule does_return)
       (auto simp: schema_ok_append creds_ok_append split: sum.splits)
qed

lemma roll_up_conditions:
  "\<exists>rn msg. dps_Conditions (roll_up E gn a b st) = a_SetStatusCondition E (dps_Conditions st)
     \<lparr>c_Type = ConditionReady, c_Status = (if a \<and> b then ConditionTrue else ConditionFalse), c_Reason = rn, c_Message = msg,
      c_ObservedGeneration = gn\<rparr>"
  by (cases a; cases b) (auto simp: roll_up_def setProfileCondition_def)

text \<open>
  C39: A provider profile is reported Ready exactly when its schema could be fetched and its
  credentials are there: none configured, no namespace to check in (development mode), or a
  Secret that was read and holds every required key.
\<close>

theorem provider_ready_iff:
  assumes "condition_law E"
    and "run_state (validateProfile E R owner ps st gn ns) \<lparr>obj = reg, trace = tr\<rparr> = (Inr st', s')"
  shows "\<exists>es c. trace s' = tr @ es \<and> find (\<lambda>d. c_Type d = ConditionReady) (dps_Conditions st') = Some c \<and>
           (c_Status c = ConditionTrue \<longleftrightarrow> schema_ok ps es \<and> creds_ok ps ns es)"
proof -
  obtain es st2 where es: "trace s' = tr @ es" "st' = roll_up E gn (schema_ok ps es) (creds_ok ps ns es) st2"
    using doesD [OF does_validateProfile assms(2)] by auto
  have law: "\<exists>d. find (\<lambda>d. c_Type d = ConditionReady) (a_SetStatusCondition E cs
      \<lparr>c_Type = ConditionReady, c_Status = b, c_Reason = rn, c_Message = msg, c_ObservedGeneration = gn\<rparr>) = Some d \<and> c_Status d = b"
    for cs b rn msg
    using assms(1) [unfolded condition_law_def, rule_format,
        of "\<lparr>c_Type = ConditionReady, c_Status = b, c_Reason = rn, c_Message = msg, c_ObservedGeneration = gn\<rparr>" cs] by simp
  let ?b = "if schema_ok ps es \<and> creds_ok ps ns es then ConditionTrue else ConditionFalse"
  obtain rn msg where c: "dps_Conditions st' = a_SetStatusCondition E (dps_Conditions st2)
      \<lparr>c_Type = ConditionReady, c_Status = ?b, c_Reason = rn, c_Message = msg, c_ObservedGeneration = gn\<rparr>"
    using roll_up_conditions [of E gn "schema_ok ps es" "creds_ok ps ns es" st2] es(2) by auto
  show ?thesis
    using law [of "dps_Conditions st2" ?b rn msg] es(1) unfolding c by (auto split: if_splits)
qed

theorem provider_ready_iff_witness:
  "\<exists>st' s' es c. run_state (validateProfile demo_api demo_profile ''o'' (prov_spec (demo_provider ''team'')) (prov_status (demo_provider ''team''))
       1 ''team'') \<lparr>obj = demo_registrar, trace = []\<rparr> = (Inr st', s') \<and> trace s' = es \<and>
     find (\<lambda>d. c_Type d = ConditionReady) (dps_Conditions st') = Some c \<and>
     (c_Status c = ConditionTrue \<longleftrightarrow> schema_ok (prov_spec (demo_provider ''team'')) es \<and> creds_ok (prov_spec (demo_provider ''team'')) ''team'' es)"
proof -
  let ?p = "demo_provider ''team''"
  have "\<exists>st' s'. run_state (validateProfile demo_api demo_profile ''o'' (prov_spec ?p) (prov_status ?p) 1 ''team'')
      \<lparr>obj = demo_registrar, trace = []\<rparr> = (Inr st', s')"
    by (simp add: validateProfile_def checkCredentials_def api_call_defs api_reader_def demo_api_def demo_provider_def demo_creds_def)
  then obtain st' s' where r: "run_state (validateProfile demo_api demo_profile ''o'' (prov_spec ?p) (prov_status ?p) 1 ''team'')
      \<lparr>obj = demo_registrar, trace = []\<rparr> = (Inr st', s')" by blast
  from provider_ready_iff [OF demo_condition_law r] r show ?thesis by fastforce
qed

end
