(* ===== verification/Operator_Config.thy ===== *)
theory Operator_Config
  imports Provider_Safety Exec_Runner
begin

text \<open>
  The operator process (\<open>cmd/main.go\<close>): how its flags and environment become a runner and the
  reconcilers, as far as the controllers' behaviour depends on it. \<open>getenv\<close> is the process
  environment, \<open>clientset\<close> the outcome of building a Kubernetes client, \<open>secret\<close> what that client
  answers.
\<close>

definition defaultRunnerMode :: "(string \<Rightarrow> string) \<Rightarrow> string" where
  "defaultRunnerMode getenv = (if getenv ''POD_NAMESPACE'' \<noteq> [] then ''job'' else ''exec'')"

definition envOr :: "(string \<Rightarrow> string) \<Rightarrow> string \<Rightarrow> string \<Rightarrow> string" where
  "envOr getenv key fallback = (if getenv key \<noteq> [] then getenv key else fallback)"

definition splitCommaList :: "string \<Rightarrow> string list" where
  "splitCommaList xs = filter (\<lambda>item. item \<noteq> []) (map TrimSpace (Split xs (CHR '','')))"

text \<open>The namespaces of the cache configuration; \<open>None\<close> watches the whole cluster.\<close>

definition parseWatchNamespaces :: "string \<Rightarrow> string set option" where
  "parseWatchNamespaces xs =
     (let namespaces = set (splitCommaList xs) in if namespaces = {} then None else Some namespaces)"

definition runnerNamespaceModeResource :: string where "runnerNamespaceModeResource = ''resource''"

record runnerConfig =
  rc_mode :: string
  rc_image :: string
  rc_imagePullPolicy :: string
  rc_namespace :: string
  rc_namespaceMode :: string
  rc_credentialsSecret :: string
  rc_pluginCachePVC :: string
  rc_pluginCacheMountPath :: string
  rc_pulumiBin :: string
  rc_timeout :: int

datatype runner = UseJobs JobRunner | UseExec ExecRunner

definition resolve_secret :: "(string \<Rightarrow> string \<Rightarrow> Secret result) \<Rightarrow> string \<Rightarrow> string \<Rightarrow> string \<Rightarrow> string result" where
  "resolve_secret secret namespace name key =
     (case secret namespace name of
        Inl e \<Rightarrow> Inl e
      | Inr sec \<Rightarrow>
          (case gomap_get (sec_data sec) key of
             None \<Rightarrow> Inl (Errorf (''secret '' @ namespace @ ''/'' @ name @ '' has no key '' @ Quote key))
           | Some v \<Rightarrow> Inr v))"

definition newRunner ::
  "unit result \<Rightarrow> (string \<Rightarrow> string \<Rightarrow> Secret result) \<Rightarrow> runnerConfig \<Rightarrow> runner result" where
  "newRunner clientset secret cfg =
     (if rc_mode cfg = ''job'' then
        if rc_image cfg = [] then Inl (Errorf ''runner-image (or RUNNER_IMAGE) is required in job mode'')
        else if rc_namespace cfg = [] then Inl (Errorf ''runner-namespace (or POD_NAMESPACE) is required in job mode'')
        else if rc_namespaceMode cfg \<noteq> ''operator'' \<and> rc_namespaceMode cfg \<noteq> runnerNamespaceModeResource then
          Inl (Errorf (''invalid runner-namespace-mode '' @ Quote (rc_namespaceMode cfg) @ '', want 'operator' or 'resource'' @ [CHR 0x27]))
        else case clientset of
            Inl e \<Rightarrow> Inl (wrap_error ''creating clientset for runner jobs: '' e)
          | Inr _ \<Rightarrow>
              Inr (UseJobs \<lparr>jr_Namespace = rc_namespace cfg,
                            PerResourceNamespace = (rc_namespaceMode cfg = runnerNamespaceModeResource),
                            Image = rc_image cfg, ImagePullPolicy = rc_imagePullPolicy cfg,
                            CredentialsSecret = rc_credentialsSecret cfg, PluginCachePVC = rc_pluginCachePVC cfg,
                            PluginCacheMountPath = rc_pluginCacheMountPath cfg, jr_Timeout = rc_timeout cfg\<rparr>)
      else if rc_mode cfg = ''exec'' then
        (case clientset of
           Inl e \<Rightarrow> Inl (wrap_error ''creating clientset for secret resolution: '' e)
         | Inr _ \<Rightarrow>
             Inr (UseExec \<lparr>er_PulumiBin = rc_pulumiBin cfg, er_Timeout = rc_timeout cfg,
                           ResolveSecret = Some (resolve_secret secret)\<rparr>))
      else Inl (Errorf (''invalid runner-mode '' @ Quote (rc_mode cfg) @ '', want 'job' or 'exec'' @ [CHR 0x27])))"

text \<open>What the flags of \<open>main\<close> default to, the flags of its servers aside.\<close>

record main_flags =
  fl_runner :: runnerConfig
  fl_watchNamespaces :: string
  fl_compositeAPIGroups :: string

definition default_flags :: "(string \<Rightarrow> string) \<Rightarrow> main_flags" where
  "default_flags getenv =
     \<lparr>fl_runner =
        \<lparr>rc_mode = defaultRunnerMode getenv, rc_image = getenv ''RUNNER_IMAGE'',
         rc_imagePullPolicy = getenv ''RUNNER_IMAGE_PULL_POLICY'', rc_namespace = getenv ''POD_NAMESPACE'',
         rc_namespaceMode = envOr getenv ''RUNNER_NAMESPACE_MODE'' ''operator'',
         rc_credentialsSecret = ''provider-credentials'', rc_pluginCachePVC = getenv ''PLUGIN_CACHE_PVC'',
         rc_pluginCacheMountPath = envOr getenv ''PLUGIN_CACHE_MOUNT_PATH'' ''/var/lib/doplane/pulumi-home'',
         rc_pulumiBin = ''pulumi'', rc_timeout = 10 * 60 * second\<rparr>,
      fl_watchNamespaces = getenv ''WATCH_NAMESPACES'',
      fl_compositeAPIGroups = getenv ''COMPOSITE_API_GROUPS''\<rparr>"

text \<open>The reconcilers \<open>main\<close> builds from the same flags.\<close>

definition provider_reconciler :: "runnerConfig \<Rightarrow> DoProviderReconciler" where
  "provider_reconciler cfg =
     \<lparr>pv_RunnerNamespace = rc_namespace cfg,
      pv_PluginCachePath = (if rc_pluginCachePVC cfg \<noteq> [] then rc_pluginCacheMountPath cfg else []), pv_Typed = True\<rparr>"

definition config_reconciler :: "runnerConfig \<Rightarrow> DoProviderConfigReconciler" where
  "config_reconciler cfg =
     \<lparr>pc_Profile = provider_reconciler cfg,
      pc_PerResourceNamespace = (rc_namespaceMode cfg = runnerNamespaceModeResource)\<rparr>"

definition definition_reconciler :: "string \<Rightarrow> DoCompositeDefinitionReconciler" where
  "definition_reconciler groups = \<lparr>dr_Typed = True, dr_AllowedGroups = splitCommaList groups\<rparr>"

section \<open>Properties\<close>

text \<open>
  A configuration that starts is a consistent one: a Job runner has an image, a namespace and
  one of the two namespace modes, and no other runner mode starts at all.
\<close>

theorem newRunner_consistent:
  "newRunner clientset secret cfg = Inr r \<Longrightarrow>
     (case r of
        UseJobs J \<Rightarrow> rc_mode cfg = ''job'' \<and> Image J \<noteq> [] \<and> jr_Namespace J \<noteq> [] \<and>
                     rc_namespaceMode cfg \<in> {''operator'', runnerNamespaceModeResource} \<and>
                     PerResourceNamespace J = (rc_namespaceMode cfg = runnerNamespaceModeResource)
      | UseExec X \<Rightarrow> rc_mode cfg = ''exec'' \<and> ResolveSecret X = Some (resolve_secret secret))"
  by (auto simp: newRunner_def split: if_splits sum.splits)

text \<open>
  Without flags, a pod that names its namespace and a runner image starts with Jobs in that
  namespace, and a process outside a cluster runs the CLI itself.
\<close>

theorem default_flags_start:
  "getenv ''POD_NAMESPACE'' \<noteq> [] \<Longrightarrow> getenv ''RUNNER_IMAGE'' \<noteq> [] \<Longrightarrow> getenv ''RUNNER_NAMESPACE_MODE'' = [] \<Longrightarrow>
     \<exists>J. newRunner (Inr ()) secret (fl_runner (default_flags getenv)) = Inr (UseJobs J) \<and>
         jobNamespace J ctx = getenv ''POD_NAMESPACE'' \<and> jr_timeout J = 600 * second"
  "getenv ''POD_NAMESPACE'' = [] \<Longrightarrow>
     \<exists>X. newRunner (Inr ()) secret (fl_runner (default_flags getenv)) = Inr (UseExec X) \<and> er_timeout X = 600 * second"
  by (simp_all add: newRunner_def default_flags_def defaultRunnerMode_def envOr_def jobNamespace_def jr_timeout_def
      er_timeout_def second_def runnerNamespaceModeResource_def)

text \<open>
  The empty group, Kubernetes' own core API, is never on the allowlist of typed APIs, and the
  empty namespace, which would watch the whole cluster, never among the watched ones.
\<close>

theorem lists_name_something:
  "[] \<notin> set (dr_AllowedGroups (definition_reconciler groups))" "parseWatchNamespaces xs \<noteq> Some {}"
  "parseWatchNamespaces xs = Some namespaces \<Longrightarrow> [] \<notin> namespaces"
  by (auto simp: definition_reconciler_def parseWatchNamespaces_def splitCommaList_def Let_def split: if_splits)


definition demo_config :: runnerConfig where
  "demo_config =
     \<lparr>rc_mode = ''job'', rc_image = ''runner'', rc_imagePullPolicy = [], rc_namespace = ''doplane'', rc_namespaceMode = ''resource'',
      rc_credentialsSecret = [], rc_pluginCachePVC = [], rc_pluginCacheMountPath = [], rc_pulumiBin = ''pulumi'', rc_timeout = 600\<rparr>"


end
